(* ===== verification/JsPrelude.thy ===== *)
theory JsPrelude
  imports Complex_Main "HOL-Library.AList" "HOL-Library.Multiset" "HOL-Library.Word"
begin

text \<open>
  Shared vocabulary of the dotCast development: what the TypeScript sources use of the language
  and its standard library.

  \<^item> Errors.  A thrown exception is a value of \<open>js_error\<close>; a function that may throw returns
    \<open>js_error + 'a\<close> (\<open>'a res\<close>).  An asynchronous operation over a store returns the result
    together with the store it leaves behind, also when it throws (\<open>('s, 'a) eff\<close>), because
    writes that were made before an exception stay.
  \<^item> Numbers.  Minor-unit amounts are integer-valued IEEE doubles: \<open>int\<close>, where every addition
    and subtraction is rounded to the nearest double (\<open>num\<close>, ties to even), so that precision
    is lost above \<open>2^53\<close> exactly as at run time.  General numbers are \<open>number\<close>.
  \<^item> Objects and maps.  A \<open>Record<string, T>\<close> and a \<open>Map\<close> are association lists in insertion
    order, read with \<open>map_of\<close> and written with \<open>AList.update\<close>.
  \<^item> \<open>Array.prototype.sort\<close> is the stable sort of its comparator.
  \<^item> \<open>Date.parse\<close>, \<open>toISOString\<close> and \<open>localeCompare\<close> are implementation-defined: they are
    the fields of a record \<open>js_runtime\<close>, an argument of every definition that uses them.
\<close>

named_theorems res_simps
named_theorems num_simps

subsection \<open>Errors and results\<close>

datatype js_error =
    Error string
  | RangeError string
  | CodedError string string nat  \<comment> \<open>code, message, HTTP status\<close>

type_synonym 'a res = "js_error + 'a"

definition rbind :: "'a res \<Rightarrow> ('a \<Rightarrow> 'b res) \<Rightarrow> 'b res" where
  "rbind m k = (case m of Inl e \<Rightarrow> Inl e | Inr a \<Rightarrow> k a)"

definition ensure :: "bool \<Rightarrow> js_error \<Rightarrow> unit res" where
  "ensure b e = (if b then Inr () else Inl e)"

lemma rbind_Inl [simp, res_simps]: "rbind (Inl e) k = Inl e"
  by (simp add: rbind_def)

lemma rbind_Inr [simp, res_simps]: "rbind (Inr a) k = k a"
  by (simp add: rbind_def)

lemma rbind_eq_Inr [res_simps]: "rbind m k = Inr b \<longleftrightarrow> (\<exists>a. m = Inr a \<and> k a = Inr b)"
  by (cases m) (auto simp: rbind_def)

lemma rbind_eq_Inl [res_simps]:
  "rbind m k = Inl e \<longleftrightarrow> m = Inl e \<or> (\<exists>a. m = Inr a \<and> k a = Inl e)"
  by (cases m) (auto simp: rbind_def)

lemma rbind_assoc: "rbind (rbind m k) l = rbind m (\<lambda>a. rbind (k a) l)"
  by (cases m) simp_all

lemma ensure_eq_Inr [simp, res_simps]: "ensure b e = Inr u \<longleftrightarrow> b"
  by (simp add: ensure_def)

lemma ensure_eq_Inl [simp, res_simps]: "ensure b e = Inl e' \<longleftrightarrow> \<not> b \<and> e' = e"
  by (auto simp: ensure_def)

lemma ensure_True [simp, res_simps]: "b \<Longrightarrow> ensure b e = Inr ()"
  by simp

fun mapM :: "('a \<Rightarrow> 'b res) \<Rightarrow> 'a list \<Rightarrow> 'b list res" where
  "mapM f [] = Inr []"
| "mapM f (x # xs) = rbind (f x) (\<lambda>y. rbind (mapM f xs) (\<lambda>ys. Inr (y # ys)))"

fun foldM :: "('s \<Rightarrow> 'a \<Rightarrow> 's res) \<Rightarrow> 's \<Rightarrow> 'a list \<Rightarrow> 's res" where
  "foldM f s [] = Inr s"
| "foldM f s (x # xs) = rbind (f s x) (\<lambda>s'. foldM f s' xs)"

text \<open>\<open>xs.map(f)\<close> where \<open>f\<close> updates a variable of the enclosing function.\<close>

fun mapAccumM :: "('s \<Rightarrow> 'a \<Rightarrow> ('s \<times> 'b) res) \<Rightarrow> 's \<Rightarrow> 'a list \<Rightarrow> ('s \<times> 'b list) res" where
  "mapAccumM f s [] = Inr (s, [])"
| "mapAccumM f s (x # xs) =
     rbind (f s x) (\<lambda>(s', y). rbind (mapAccumM f s' xs) (\<lambda>(s'', ys). Inr (s'', y # ys)))"

lemma mapM_id: "(\<And>x. x \<in> set xs \<Longrightarrow> f x = Inr x) \<Longrightarrow> mapM f xs = Inr xs"
  by (induction xs) auto

lemma mapM_id_iff:
  assumes "\<And>x y. f x = Inr y \<Longrightarrow> y = x"
  shows "mapM f xs = Inr ys \<longleftrightarrow> ys = xs \<and> (\<forall>x\<in>set xs. f x = Inr x)"
  using assms by (induction xs arbitrary: ys) (auto simp: res_simps)

lemma mapM_Inr_length: "mapM f xs = Inr ys \<Longrightarrow> length ys = length xs"
  by (induction xs arbitrary: ys) (auto simp: res_simps)

lemma mapAccumM_split:
  assumes "\<And>s x. x \<in> set xs \<Longrightarrow> f s x = rbind (g s x) (\<lambda>s'. Inr (s', h x))"
  shows "mapAccumM f s xs = rbind (foldM g s xs) (\<lambda>s'. Inr (s', map h xs))"
  using assms
proof (induction xs arbitrary: s)
  case (Cons x xs)
  have fx: "f s x = rbind (g s x) (\<lambda>s'. Inr (s', h x))" using Cons.prems by simp
  have IH: "mapAccumM f s' xs = rbind (foldM g s' xs) (\<lambda>t. Inr (t, map h xs))" for s'
    using Cons.IH Cons.prems by simp
  show ?case by (cases "g s x") (simp_all add: fx IH rbind_assoc)
qed simp

subsection \<open>Effects over a store\<close>

type_synonym ('s, 'a) eff = "'s \<Rightarrow> 'a res \<times> 's"

definition ereturn :: "'a \<Rightarrow> ('s, 'a) eff" where
  "ereturn a s = (Inr a, s)"

definition ethrow :: "js_error \<Rightarrow> ('s, 'a) eff" where
  "ethrow e s = (Inl e, s)"

definition elift :: "'a res \<Rightarrow> ('s, 'a) eff" where
  "elift r s = (r, s)"

definition ebind :: "('s, 'a) eff \<Rightarrow> ('a \<Rightarrow> ('s, 'b) eff) \<Rightarrow> ('s, 'b) eff" where
  "ebind m k s = (case m s of (Inl e, s') \<Rightarrow> (Inl e, s') | (Inr a, s') \<Rightarrow> k a s')"

definition ewrite :: "('s \<Rightarrow> 's) \<Rightarrow> ('s, unit) eff" where
  "ewrite f s = (Inr (), f s)"

definition eread :: "('s \<Rightarrow> 'a) \<Rightarrow> ('s, 'a) eff" where
  "eread f s = (Inr (f s), s)"

lemma ereturn_apply [simp, res_simps]: "ereturn a s = (Inr a, s)"
  by (simp add: ereturn_def)

lemma ethrow_apply [simp, res_simps]: "ethrow e s = (Inl e, s)"
  by (simp add: ethrow_def)

lemma elift_apply [simp, res_simps]: "elift r s = (r, s)"
  by (simp add: elift_def)

lemma ewrite_apply [simp, res_simps]: "ewrite f s = (Inr (), f s)"
  by (simp add: ewrite_def)

lemma eread_apply [simp, res_simps]: "eread f s = (Inr (f s), s)"
  by (simp add: eread_def)

lemma ebind_Inl [simp, res_simps]: "m s = (Inl e, s') \<Longrightarrow> ebind m k s = (Inl e, s')"
  by (simp add: ebind_def)

lemma ebind_Inr [simp, res_simps]: "m s = (Inr a, s') \<Longrightarrow> ebind m k s = k a s'"
  by (simp add: ebind_def)

lemma ebind_eq_Inr:
  "ebind m k s = (Inr b, t) \<longleftrightarrow> (\<exists>a s'. m s = (Inr a, s') \<and> k a s' = (Inr b, t))"
  by (auto simp: ebind_def split: prod.splits sum.splits)

lemma ebind_eq_Inl:
  "ebind m k s = (Inl e, t) \<longleftrightarrow>
     m s = (Inl e, t) \<or> (\<exists>a s'. m s = (Inr a, s') \<and> k a s' = (Inl e, t))"
  by (auto simp: ebind_def split: prod.splits sum.splits)

subsection \<open>Integer-valued doubles\<close>

definition max_safe_integer :: int where
  "max_safe_integer = 9007199254740991"

definition is_safe_integer :: "int \<Rightarrow> bool" where
  "is_safe_integer x \<longleftrightarrow> \<bar>x\<bar> \<le> max_safe_integer"

text \<open>The number of low bits a double has no room for, and rounding to nearest, ties to even.\<close>

fun ulp_exp :: "nat \<Rightarrow> nat" where
  "ulp_exp n = (if n < 2 ^ 53 then 0 else Suc (ulp_exp (n div 2)))"

declare ulp_exp.simps [simp del]

definition round_half_even :: "nat \<Rightarrow> nat \<Rightarrow> nat" where
  "round_half_even n e =
     (let q = n div 2 ^ e; r = n mod 2 ^ e
      in if 2 * r > 2 ^ e \<or> 2 * r = 2 ^ e \<and> odd q then q + 1 else q)"

definition num :: "int \<Rightarrow> int" where
  "num x = (let n = nat \<bar>x\<bar>; e = ulp_exp n in sgn x * int (round_half_even n e * 2 ^ e))"

definition js_add :: "int \<Rightarrow> int \<Rightarrow> int" where
  "js_add a b = num (a + b)"

definition js_sub :: "int \<Rightarrow> int \<Rightarrow> int" where
  "js_sub a b = num (a - b)"

lemma ulp_exp_lower: "2 ^ 53 \<le> n \<Longrightarrow> 2 ^ 53 \<le> n div 2 ^ ulp_exp n * 2 ^ ulp_exp n"
proof (induction n rule: ulp_exp.induct)
  case (1 n)
  let ?m = "n div 2"
  have unf: "ulp_exp n = Suc (ulp_exp ?m)"
    using "1.prems" by (simp add: ulp_exp.simps [of n])
  show ?case
  proof (cases "?m < 2 ^ 53")
    case True
    then have "ulp_exp ?m = 0" by (simp add: ulp_exp.simps [of ?m])
    then show ?thesis using unf "1.prems" by simp
  next
    case False
    then have "2 ^ 53 \<le> ?m div 2 ^ ulp_exp ?m * 2 ^ ulp_exp ?m"
      using "1.IH" "1.prems" by simp
    moreover have "n div 2 ^ Suc (ulp_exp ?m) * 2 ^ Suc (ulp_exp ?m) =
        2 * (?m div 2 ^ ulp_exp ?m * 2 ^ ulp_exp ?m)"
      by (simp add: div_mult2_eq)
    ultimately show ?thesis unfolding unf by linarith
  qed
qed

lemma num_small: "\<bar>x\<bar> \<le> 2 ^ 53 \<Longrightarrow> num x = x"
proof -
  assume le: "\<bar>x\<bar> \<le> 2 ^ 53"
  define n where "n = nat \<bar>x\<bar>"
  have n: "n \<le> 2 ^ 53" using le by (simp add: n_def)
  have "round_half_even n (ulp_exp n) * 2 ^ ulp_exp n = n"
  proof (cases "n < 2 ^ 53")
    case True
    then have "ulp_exp n = 0" by (simp add: ulp_exp.simps [of n])
    then show ?thesis by (simp add: round_half_even_def)
  next
    case False
    with n have n: "n = 9007199254740992" by simp
    have "ulp_exp 9007199254740992 = 1"
      by (simp add: ulp_exp.simps [of 9007199254740992] ulp_exp.simps [of 4503599627370496])
    then show ?thesis by (simp add: n round_half_even_def)
  qed
  then have "num x = sgn x * int n"
    by (simp only: num_def Let_def n_def [symmetric])
  also have "\<dots> = x" by (simp add: n_def sgn_mult_abs)
  finally show ?thesis .
qed

lemma num_safe [num_simps]: "is_safe_integer x \<Longrightarrow> num x = x"
  by (rule num_small) (simp add: is_safe_integer_def max_safe_integer_def)

lemma num_code [code]:
  "num x = (if \<bar>x\<bar> \<le> 9007199254740991 then x
     else let n = nat \<bar>x\<bar>; e = ulp_exp n in sgn x * int (round_half_even n e * 2 ^ e))"
proof (cases "\<bar>x\<bar> \<le> 9007199254740991")
  case True
  then have "is_safe_integer x" by (simp add: is_safe_integer_def max_safe_integer_def)
  with True show ?thesis by (simp only: num_safe if_True)
next
  case False
  then show ?thesis by (simp only: num_def if_False)
qed

lemma num_large: "2 ^ 53 \<le> \<bar>x\<bar> \<Longrightarrow> 2 ^ 53 \<le> \<bar>num x\<bar>"
proof -
  assume le: "2 ^ 53 \<le> \<bar>x\<bar>"
  define n where "n = nat \<bar>x\<bar>"
  have n: "2 ^ 53 \<le> n" using le by (simp add: n_def)
  have "2 ^ 53 \<le> n div 2 ^ ulp_exp n * 2 ^ ulp_exp n"
    by (rule ulp_exp_lower [OF n])
  also have "\<dots> \<le> round_half_even n (ulp_exp n) * 2 ^ ulp_exp n"
    by (auto simp: round_half_even_def Let_def)
  finally have "(2 ^ 53 :: int) \<le> int (round_half_even n (ulp_exp n) * 2 ^ ulp_exp n)"
    by (metis of_nat_le_iff of_nat_numeral of_nat_power)
  moreover have "x \<noteq> 0" using le by auto
  ultimately show ?thesis
    by (simp add: num_def Let_def n_def [symmetric] abs_mult)
qed

lemma is_safe_num_iff [num_simps]: "is_safe_integer (num x) \<longleftrightarrow> is_safe_integer x"
proof (cases "2 ^ 53 \<le> \<bar>x\<bar>")
  case True
  then show ?thesis
    using num_large [of x] by (auto simp: is_safe_integer_def max_safe_integer_def)
next
  case False
  then have "num x = x" by (intro num_small) simp
  then show ?thesis by simp
qed

lemma num_0 [simp]: "num 0 = 0"
  by (simp add: num_safe is_safe_integer_def max_safe_integer_def)

lemma num_nonneg: "0 \<le> x \<Longrightarrow> 0 \<le> num x"
  by (auto simp add: num_def Let_def zero_le_mult_iff sgn_if)

lemma is_safe_between: "0 \<le> x \<Longrightarrow> x \<le> y \<Longrightarrow> is_safe_integer y \<Longrightarrow> is_safe_integer x"
  by (auto simp: is_safe_integer_def)

lemma is_safe_0 [simp]: "is_safe_integer 0"
  by (simp add: is_safe_integer_def max_safe_integer_def)

lemma js_add_safe: "is_safe_integer (a + b) \<Longrightarrow> js_add a b = a + b"
  by (simp add: js_add_def num_safe)

lemma js_sub_safe: "is_safe_integer (a - b) \<Longrightarrow> js_sub a b = a - b"
  by (simp add: js_sub_def num_safe)

lemma js_sub_nonneg_safe: "0 \<le> b \<Longrightarrow> b \<le> a \<Longrightarrow> is_safe_integer a \<Longrightarrow> js_sub a b = a - b"
  by (rule js_sub_safe) (auto simp: is_safe_integer_def)

lemma is_safe_js_add [num_simps]: "is_safe_integer (js_add a b) \<longleftrightarrow> is_safe_integer (a + b)"
  by (simp add: js_add_def is_safe_num_iff)

subsection \<open>Numbers that need not be integers\<close>

text \<open>
  A finite number is its exact rational value.  \<open>fl\<close> rounds a rational to the nearest double
  (53 significant bits, ties to even); the exponent range is not bounded, which matters only for
  values below \<open>2^-1022\<close> or above \<open>2^1023\<close>.
\<close>

datatype number = Fin rat | PosInf | NegInf | NaN

definition is_finite :: "number \<Rightarrow> bool" where
  "is_finite x = (case x of Fin _ \<Rightarrow> True | _ \<Rightarrow> False)"

fun flog2 :: "nat \<Rightarrow> nat" where
  "flog2 n = (if n < 2 then 0 else Suc (flog2 (n div 2)))"

declare flog2.simps [simp del]

definition fl_scale :: "rat \<Rightarrow> int" where
  "fl_scale x =
     (let n = nat \<bar>fst (quotient_of x)\<bar>; d = nat (snd (quotient_of x));
          k = int (flog2 n) - int (flog2 d)
      in 52 - (if (if 0 \<le> k then 2 ^ nat k * d \<le> n else d \<le> 2 ^ nat (- k) * n)
               then k else k - 1))"

definition rat_half_even :: "rat \<Rightarrow> int" where
  "rat_half_even y =
     (let q = \<lfloor>y\<rfloor>; r = y - of_int q
      in if r > 1 / 2 \<or> r = 1 / 2 \<and> odd q then q + 1 else q)"

definition fl :: "rat \<Rightarrow> rat" where
  "fl x =
     (if x = 0 then 0
      else let k = fl_scale x
           in if 0 \<le> k then of_int (rat_half_even (x * 2 ^ nat k)) / 2 ^ nat k
              else of_int (rat_half_even (x / 2 ^ nat (- k))) * 2 ^ nat (- k))"

definition js_round :: "rat \<Rightarrow> int" where  \<comment> \<open>\<open>Math.round\<close>\<close>
  "js_round x = \<lfloor>x + 1 / 2\<rfloor>"

lemma flog2_bounds: "0 < n \<Longrightarrow> 2 ^ flog2 n \<le> n \<and> n < 2 * 2 ^ flog2 n"
proof (induction n rule: flog2.induct)
  case (1 n)
  show ?case
  proof (cases "n < 2")
    case True
    with "1.prems" have "n = 1" by simp
    then show ?thesis by (simp add: flog2.simps [of "Suc 0"])
  next
    case False
    then have IH: "2 ^ flog2 (n div 2) \<le> n div 2" "n div 2 < 2 * 2 ^ flog2 (n div 2)"
      using "1.IH" by auto
    have "flog2 n = Suc (flog2 (n div 2))" using False by (simp add: flog2.simps [of n])
    then show ?thesis using IH by simp linarith
  qed
qed

lemma rat_half_even_le: "y \<le> of_int m \<Longrightarrow> rat_half_even y \<le> m"
proof -
  assume le: "y \<le> of_int m"
  have fl: "\<lfloor>y\<rfloor> \<le> m" using le by (simp add: floor_le_iff)
  show ?thesis
  proof (cases "\<lfloor>y\<rfloor> = m")
    case True
    then have "y = of_int m" using le of_int_floor_le [of y] by simp
    then show ?thesis by (simp add: rat_half_even_def)
  next
    case False
    with fl show ?thesis by (simp add: rat_half_even_def Let_def)
  qed
qed

lemma rat_half_even_ge: "of_int m \<le> y \<Longrightarrow> m \<le> rat_half_even y"
proof -
  assume "of_int m \<le> y"
  then have "m \<le> \<lfloor>y\<rfloor>" by (simp add: le_floor_iff)
  then show ?thesis by (simp add: rat_half_even_def Let_def)
qed

lemma fl_scale_ge:
  assumes "0 < x" "x < 2 ^ (53 - j)" "j \<le> 52"
  shows "int j \<le> fl_scale x"
proof (rule ccontr)
  assume neg: "\<not> int j \<le> fl_scale x"
  obtain p q where pq: "quotient_of x = (p, q)" by (cases "quotient_of x")
  have q: "0 < q" using quotient_of_denom_pos [OF pq] .
  have x: "x = of_int p / of_int q" using quotient_of_div [OF pq] .
  have p: "0 < p" using assms(1) q by (simp add: x zero_less_divide_iff)
  define n d k where "n = nat p" and "d = nat q" and "k = int (flog2 n) - int (flog2 d)"
  have n: "0 < n" "int n = p" and d: "0 < d" "int d = q" using p q by (auto simp: n_def d_def)
  have scale: "fl_scale x = 52 - (if (if 0 \<le> k then 2 ^ nat k * d \<le> n else d \<le> 2 ^ nat (- k) * n)
      then k else k - 1)"
    using p by (simp add: fl_scale_def pq n_def d_def k_def)
  let ?b = "53 - j"
  have small: "n < 2 ^ ?b * d"
  proof -
    have "(of_int p :: rat) < of_int (2 ^ ?b * q)"
      using assms(2) q by (simp add: x divide_less_eq)
    then have "p < 2 ^ ?b * q" by (simp only: of_int_less_iff)
    then have "int n < int (2 ^ ?b * d)" using n d by simp
    then show ?thesis by (simp only: of_nat_less_iff)
  qed
  show False
  proof (cases "0 \<le> k \<and> 2 ^ nat k * d \<le> n")
    case True
    then have "?b \<le> nat k" using neg scale assms(3) by auto
    then have "2 ^ ?b * d \<le> 2 ^ nat k * d" by (intro mult_right_mono power_increasing) auto
    then show False using True small by linarith
  next
    case False
    then have k: "int (Suc ?b) \<le> k" using neg scale assms(3) by (auto split: if_splits)
    have fn: "2 ^ flog2 n \<le> n" and fd: "d < 2 * 2 ^ flog2 d"
      using flog2_bounds n d by auto
    have "flog2 n = flog2 d + Suc ?b + nat (k - int (Suc ?b))" using k by (simp add: k_def)
    then have "2 ^ flog2 n = 2 ^ flog2 d * 2 ^ Suc ?b * (2 :: nat) ^ nat (k - int (Suc ?b))"
      by (metis power_add)
    moreover have "2 ^ flog2 d * 2 ^ Suc ?b * 1 \<le> 2 ^ flog2 d * 2 ^ Suc ?b * (2 :: nat) ^ nat (k - int (Suc ?b))"
      by (intro mult_left_mono) simp_all
    ultimately have "2 ^ flog2 d * 2 ^ Suc ?b \<le> n" using fn by linarith
    moreover have "2 ^ ?b * d \<le> 2 ^ ?b * (2 * 2 ^ flog2 d)"
      using fd by (intro mult_left_mono) auto
    moreover have "2 ^ ?b * (2 * 2 ^ flog2 d) = 2 ^ flog2 d * (2 :: nat) ^ Suc ?b" by simp
    ultimately show False using small by linarith
  qed
qed

lemma fl_scale_nonneg: "0 < x \<Longrightarrow> x < 2 ^ 53 \<Longrightarrow> 0 \<le> fl_scale x"
  using fl_scale_ge [of x 0] by simp

lemma rat_half_even_error: "\<bar>of_int (rat_half_even y) - y\<bar> \<le> 1 / 2"
proof -
  have f: "of_int \<lfloor>y\<rfloor> \<le> y" "y < of_int \<lfloor>y\<rfloor> + 1" by linarith+
  show ?thesis
  proof (cases "y - of_int \<lfloor>y\<rfloor> > 1 / 2 \<or> y - of_int \<lfloor>y\<rfloor> = 1 / 2 \<and> odd \<lfloor>y\<rfloor>")
    case True
    then have "rat_half_even y = \<lfloor>y\<rfloor> + 1" by (simp only: rat_half_even_def Let_def if_True)
    then show ?thesis using True f by (auto simp: abs_le_iff)
  next
    case False
    then have "rat_half_even y = \<lfloor>y\<rfloor>" by (simp only: rat_half_even_def Let_def if_False)
    then show ?thesis using False f by (auto simp: abs_le_iff not_less)
  qed
qed

lemma fl_error:
  assumes "0 \<le> x" "x < 2 ^ (53 - j)" "j \<le> 52"
  shows "\<bar>fl x - x\<bar> \<le> 1 / (2 * 2 ^ j)"
proof (cases "x = 0")
  case True
  then show ?thesis by (simp add: fl_def)
next
  case False
  then have j: "int j \<le> fl_scale x" using fl_scale_ge assms by simp
  let ?k = "nat (fl_scale x)"
  have "fl x = of_int (rat_half_even (x * 2 ^ ?k)) / 2 ^ ?k" using j False by (simp add: fl_def Let_def)
  then have "fl x - x = (of_int (rat_half_even (x * 2 ^ ?k)) - x * 2 ^ ?k) / 2 ^ ?k"
    by (simp add: diff_divide_distrib)
  then have "\<bar>fl x - x\<bar> = \<bar>of_int (rat_half_even (x * 2 ^ ?k)) - x * 2 ^ ?k\<bar> / 2 ^ ?k"
    by (simp only: abs_divide) simp
  also have "\<dots> \<le> (1 / 2) / 2 ^ ?k" by (intro divide_right_mono rat_half_even_error) simp
  also have "\<dots> \<le> (1 / 2) / 2 ^ j" using j by (intro divide_left_mono power_increasing) auto
  finally show ?thesis by simp
qed

lemma fl_le_int: "0 \<le> x \<Longrightarrow> x < 2 ^ 53 \<Longrightarrow> x \<le> of_int m \<Longrightarrow> fl x \<le> of_int m"
proof (cases "x = 0")
  case False
  assume x: "0 \<le> x" "x < 2 ^ 53" "x \<le> of_int m"
  have k: "0 \<le> fl_scale x" using fl_scale_nonneg x False by simp
  let ?k = "nat (fl_scale x)"
  have "x * 2 ^ ?k \<le> of_int (m * 2 ^ ?k)" using x(3) by simp
  then have "rat_half_even (x * 2 ^ ?k) \<le> m * 2 ^ ?k" by (rule rat_half_even_le)
  then have "(of_int (rat_half_even (x * 2 ^ ?k)) :: rat) \<le> of_int (m * 2 ^ ?k)"
    by (simp only: of_int_le_iff)
  then have "of_int (rat_half_even (x * 2 ^ ?k)) / 2 ^ ?k \<le> (of_int m :: rat)"
    by (simp add: divide_le_eq)
  then show ?thesis using k False by (simp add: fl_def Let_def)
qed (simp add: fl_def)

lemma fl_ge_int: "0 \<le> x \<Longrightarrow> x < 2 ^ 53 \<Longrightarrow> of_int m \<le> x \<Longrightarrow> of_int m \<le> fl x"
proof (cases "x = 0")
  case False
  assume x: "0 \<le> x" "x < 2 ^ 53" "of_int m \<le> x"
  have k: "0 \<le> fl_scale x" using fl_scale_nonneg x False by simp
  let ?k = "nat (fl_scale x)"
  have "of_int (m * 2 ^ ?k) \<le> x * 2 ^ ?k" using x(3) by simp
  then have "m * 2 ^ ?k \<le> rat_half_even (x * 2 ^ ?k)" by (rule rat_half_even_ge)
  then have "of_int (m * 2 ^ ?k) \<le> (of_int (rat_half_even (x * 2 ^ ?k)) :: rat)"
    by (simp only: of_int_le_iff)
  then have "(of_int m :: rat) \<le> of_int (rat_half_even (x * 2 ^ ?k)) / 2 ^ ?k"
    by (simp add: le_divide_eq)
  then show ?thesis using k False by (simp add: fl_def Let_def)
qed (simp add: fl_def)

text \<open>\<open>Math.floor(a / n)\<close> of integers that a double holds exactly is the integer quotient.\<close>

lemma floor_fl_div:
  assumes a: "0 \<le> a" "a < 2 ^ 53" and n: "0 < n" "n < 2 ^ 53"
  shows "\<lfloor>fl (of_int a / of_int n)\<rfloor> = a div n"
proof -
  let ?x = "of_int a / of_int n :: rat" and ?q = "a div n" and ?j = "flog2 (nat n)"
  have j: "2 ^ ?j \<le> n" "n < 2 * 2 ^ ?j"
    using flog2_bounds [of "nat n"] n(1) by (simp_all add: nat_less_iff le_nat_iff)
  have "(2 :: int) ^ ?j < 2 ^ 53" using j(1) n(2) by (rule order_le_less_trans)
  then have j52: "?j \<le> 52" by (simp only: power_strict_increasing_iff one_less_numeral_iff semiring_norm)
  have x0: "0 \<le> ?x" using a n by simp
  have xq: "of_int ?q \<le> ?x" by (metis floor_divide_of_int_eq of_int_floor_le)
  have "a \<le> n * ?q + n - 1" using pos_mod_bound [OF n(1), of a] mult_div_mod_eq [of n a] by linarith
  then have "(of_int a :: rat) \<le> of_int (n * ?q + n - 1)" by (simp only: of_int_le_iff)
  then have gap: "?x \<le> of_int ?q + 1 - 1 / of_int n" using n(1) by (simp add: field_simps)
  have split: "(2 :: int) ^ 53 = 2 ^ ?j * 2 ^ (53 - ?j)" using j52 by (simp add: power_add [symmetric])
  have "2 ^ (53 - ?j) * 2 ^ ?j \<le> 2 ^ (53 - ?j) * n" using j(1) by (intro mult_left_mono) simp_all
  then have "a < 2 ^ (53 - ?j) * n" using a(2) unfolding split by (simp only: mult.commute [of "2 ^ ?j"])
  then have "(of_int a :: rat) < of_int (2 ^ (53 - ?j) * n)" by (simp only: of_int_less_iff)
  then have xb: "?x < 2 ^ (53 - ?j)" using n(1) by (simp add: divide_less_eq)
  have err: "\<bar>fl ?x - ?x\<bar> \<le> 1 / (2 * 2 ^ ?j)" by (rule fl_error [OF x0 xb j52])
  have "(of_int n :: rat) < of_int (2 * 2 ^ ?j)" using j(2) by (simp only: of_int_less_iff)
  then have "1 / (2 * 2 ^ ?j) < (1 / of_int n :: rat)" using n(1) by (simp add: field_simps)
  then have up: "fl ?x < of_int ?q + 1" using err gap by linarith
  have "(of_int a :: rat) < 2 ^ 53" using a(2) by (metis of_int_less_iff of_int_numeral of_int_power)
  moreover have "?x \<le> of_int a" using a(1) n(1) by (simp add: divide_le_eq mult_le_cancel_left1)
  ultimately have "of_int ?q \<le> fl ?x" using fl_ge_int [OF x0 _ xq] by linarith
  then show ?thesis using up by (intro floor_unique) auto
qed

lemma fl_int: "0 \<le> m \<Longrightarrow> m < 2 ^ 53 \<Longrightarrow> fl (of_int m) = of_int m"
proof -
  assume m: "0 \<le> m" "m < 2 ^ 53"
  have lt: "(of_int m :: rat) < 2 ^ 53"
    using m by (metis of_int_less_iff of_int_numeral of_int_power)
  show ?thesis
    using fl_le_int [of "of_int m" m] fl_ge_int [of "of_int m" m] lt m by force
qed

end
