(* ===== verification/JsData.thy ===== *)
theory JsData
  imports JsPrelude
begin

text \<open>
  Data structures of the language: strings, JSON values, the run-time functions that depend on
  the implementation, stable sorting by a comparator, association lists with sums over their
  values, and reachability of state machines.  The locales of this theory are interpreted by the
  components: \<open>comparator\<close> (what \<open>Array.prototype.sort\<close> requires of its argument) and
  \<open>step_system\<close> (an invariant of a state machine).
\<close>

subsection \<open>Strings\<close>

definition is_white :: "char \<Rightarrow> bool" where
  "is_white c \<longleftrightarrow> (of_char c :: nat) \<in> {9, 10, 11, 12, 13, 32, 160}"

definition trim :: "string \<Rightarrow> string" where
  "trim s = rev (dropWhile is_white (rev (dropWhile is_white s)))"

fun show_nat :: "nat \<Rightarrow> string" where
  "show_nat n = (if n < 10 then [char_of (48 + n)] else show_nat (n div 10) @ [char_of (48 + n mod 10)])"

declare show_nat.simps [simp del]

definition show_int :: "int \<Rightarrow> string" where
  "show_int i = (if i < 0 then ''-'' @ show_nat (nat (- i)) else show_nat (nat i))"

definition char_lower :: "char \<Rightarrow> char" where
  "char_lower c =
     (let n = of_char c :: nat
      in if 65 \<le> n \<and> n \<le> 90 \<or> 192 \<le> n \<and> n \<le> 222 \<and> n \<noteq> 215 then char_of (n + 32) else c)"

definition to_lower :: "string \<Rightarrow> string" where
  "to_lower s = map char_lower s"

fun is_prefix :: "string \<Rightarrow> string \<Rightarrow> bool" where
  "is_prefix [] s = True"
| "is_prefix (c # cs) [] = False"
| "is_prefix (c # cs) (d # ds) = (c = d \<and> is_prefix cs ds)"

fun str_includes :: "string \<Rightarrow> string \<Rightarrow> bool" where  \<comment> \<open>\<open>String.prototype.includes\<close>\<close>
  "str_includes [] t = (t = [])"
| "str_includes (c # cs) t = (is_prefix t (c # cs) \<or> str_includes cs t)"

text \<open>\<open>[...new Set(values)]\<close> keeps the first occurrence of every value.\<close>

fun unique :: "'a list \<Rightarrow> 'a list" where
  "unique [] = []"
| "unique (x # xs) = x # filter (\<lambda>y. y \<noteq> x) (unique xs)"

lemma set_unique [simp]: "set (unique xs) = set xs"
  by (induction xs) auto

lemma distinct_unique [simp]: "distinct (unique xs)"
  by (induction xs) auto

text \<open>\<open>Number(s)\<close> of a string: white space around it, decimal and radix literals, \<open>Infinity\<close>.\<close>

definition is_digit :: "char \<Rightarrow> bool" where
  "is_digit c \<longleftrightarrow> 48 \<le> (of_char c :: nat) \<and> (of_char c :: nat) \<le> 57"

definition digit_value :: "char \<Rightarrow> int option" where
  "digit_value c =
     (let n = of_char c :: int
      in if 48 \<le> n \<and> n \<le> 57 then Some (n - 48)
         else if 97 \<le> n \<and> n \<le> 122 then Some (n - 87)
         else if 65 \<le> n \<and> n \<le> 90 then Some (n - 55) else None)"

fun radix_value :: "int \<Rightarrow> int \<Rightarrow> string \<Rightarrow> int option" where
  "radix_value b acc [] = Some acc"
| "radix_value b acc (c # cs) =
     (case digit_value c of
        Some d \<Rightarrow> if d < b then radix_value b (acc * b + d) cs else None
      | None \<Rightarrow> None)"

definition to_double :: "rat \<Rightarrow> number" where
  "to_double x =
     (if x \<ge> of_int (2 ^ 1024 - 2 ^ 970) then PosInf
      else if x \<le> 1 / 2 ^ 1075 then Fin 0 else Fin (fl x))"

definition decimal_number :: "string \<Rightarrow> number" where
  "decimal_number s =
     (let ip = takeWhile is_digit s; r1 = dropWhile is_digit s;
          dot = (case r1 of [] \<Rightarrow> False | c # _ \<Rightarrow> c = CHR ''.'');
          fp = (if dot then takeWhile is_digit (tl r1) else []);
          r2 = (if dot then dropWhile is_digit (tl r1) else r1);
          m = (case radix_value 10 0 (ip @ fp) of Some v \<Rightarrow> v | None \<Rightarrow> 0)
      in if s = ''Infinity'' then PosInf
         else if ip = [] \<and> fp = [] then NaN
         else case r2 of
             [] \<Rightarrow> to_double (of_int m / 10 ^ length fp)
           | c # ex \<Rightarrow>
               if c \<noteq> CHR ''e'' \<and> c \<noteq> CHR ''E'' then NaN
               else
                 let neg = (case ex of [] \<Rightarrow> False | d # _ \<Rightarrow> d = CHR ''-'');
                     ds = (case ex of [] \<Rightarrow> [] | d # ds \<Rightarrow> if d = CHR ''-'' \<or> d = CHR ''+'' then ds else ex)
                 in if ds = [] \<or> \<not> list_all is_digit ds then NaN
                    else
                      let e = nat (case radix_value 10 0 ds of Some v \<Rightarrow> v | None \<Rightarrow> 0);
                          x = of_int m / 10 ^ length fp
                      in to_double (if neg then x / 10 ^ e else x * 10 ^ e))"

definition js_number :: "string \<Rightarrow> number" where
  "js_number s =
     (let t = trim s; radix = (\<lambda>b. if length t = 2 then NaN
          else case radix_value b 0 (drop 2 t) of Some v \<Rightarrow> to_double (of_int v) | None \<Rightarrow> NaN)
      in case t of
           [] \<Rightarrow> Fin 0
         | c # cs \<Rightarrow>
             if take 2 t = ''0x'' \<or> take 2 t = ''0X'' then radix 16
             else if take 2 t = ''0o'' \<or> take 2 t = ''0O'' then radix 8
             else if take 2 t = ''0b'' \<or> take 2 t = ''0B'' then radix 2
             else if c = CHR ''-'' then
               (case decimal_number cs of Fin x \<Rightarrow> Fin (- x) | PosInf \<Rightarrow> NegInf | y \<Rightarrow> y)
             else if c = CHR ''+'' then decimal_number cs
             else decimal_number t)"

text \<open>\<open>Number.isSafeInteger(x)\<close>, giving the integer.\<close>

definition safe_integer :: "number \<Rightarrow> int option" where
  "safe_integer x =
     (case x of
        Fin r \<Rightarrow> if of_int \<lfloor>r\<rfloor> = r \<and> is_safe_integer \<lfloor>r\<rfloor> then Some \<lfloor>r\<rfloor> else None
      | _ \<Rightarrow> None)"

lemma safe_integer_of_int [simp]:
  "safe_integer (Fin (of_int i)) = (if is_safe_integer i then Some i else None)"
  by (simp add: safe_integer_def)

lemma safe_integer_Some: "safe_integer x = Some i \<longleftrightarrow> x = Fin (of_int i) \<and> is_safe_integer i"
  by (auto simp: safe_integer_def split: number.splits)

subsection \<open>JSON values\<close>

datatype json =
    JNull
  | JBool bool
  | JNum number
  | JStr string
  | JArr "json list"
  | JObj "(string \<times> json) list"

type_synonym json_object = "(string \<times> json) list"

definition jint :: "int \<Rightarrow> json" where
  "jint i = JNum (Fin (of_int i))"

definition jopt :: "('a \<Rightarrow> json) \<Rightarrow> 'a option \<Rightarrow> json" where
  "jopt f v = (case v of None \<Rightarrow> JNull | Some x \<Rightarrow> f x)"

text \<open>\<open>{ ...base, ...extra }\<close>\<close>

definition spread :: "json_object \<Rightarrow> json_object \<Rightarrow> json_object" where
  "spread base extra = fold (\<lambda>(k, v). AList.update k v) extra base"

text \<open>\<open>typeof value === "number" && Number.isSafeInteger(value)\<close>, giving the integer.\<close>

definition json_safe_integer :: "json \<Rightarrow> int option" where
  "json_safe_integer v = (case v of JNum x \<Rightarrow> safe_integer x | _ \<Rightarrow> None)"

lemma json_safe_integer_jint [simp]:
  "json_safe_integer (jint i) = (if is_safe_integer i then Some i else None)"
  by (simp add: json_safe_integer_def jint_def)

lemma json_safe_integer_safe: "json_safe_integer v = Some i \<Longrightarrow> is_safe_integer i"
  by (auto simp: json_safe_integer_def safe_integer_Some split: json.splits)

subsection \<open>The run-time environment\<close>

text \<open>
  \<open>date_parse\<close> is \<open>Date.parse\<close> (\<open>None\<close> for \<open>NaN\<close>), \<open>to_iso\<close> is
  \<open>new Date(ms).toISOString()\<close> (\<open>None\<close> where it throws), \<open>locale_compare\<close> is
  \<open>String.prototype.localeCompare\<close>.
\<close>

record js_runtime =
  date_parse :: "string \<Rightarrow> int option"
  to_iso :: "int \<Rightarrow> string option"
  locale_compare :: "string \<Rightarrow> string \<Rightarrow> int"

text \<open>\<open>`${Date.parse(now)}`\<close>\<close>

definition show_date :: "js_runtime \<Rightarrow> string \<Rightarrow> string" where
  "show_date rt s = (case date_parse rt s of None \<Rightarrow> ''NaN'' | Some ms \<Rightarrow> show_int ms)"

subsection \<open>Stable sorting by a comparator\<close>

fun insert_by :: "('a \<Rightarrow> 'a \<Rightarrow> int) \<Rightarrow> 'a \<Rightarrow> 'a list \<Rightarrow> 'a list" where
  "insert_by c x [] = [x]"
| "insert_by c x (y # ys) = (if c x y \<le> 0 then x # y # ys else y # insert_by c x ys)"

fun sort_by :: "('a \<Rightarrow> 'a \<Rightarrow> int) \<Rightarrow> 'a list \<Rightarrow> 'a list" where
  "sort_by c [] = []"
| "sort_by c (x # xs) = insert_by c x (sort_by c xs)"

lemma mset_insert_by [simp]: "mset (insert_by c x xs) = add_mset x (mset xs)"
  by (induction xs) auto

lemma mset_sort_by [simp]: "mset (sort_by c xs) = mset xs"
  by (induction xs) auto

lemma set_sort_by [simp]: "set (sort_by c xs) = set xs"
  by (metis mset_sort_by set_mset_mset)

lemma set_insert_by [simp]: "set (insert_by c x xs) = insert x (set xs)"
  by (induction xs) auto

lemma length_sort_by [simp]: "length (sort_by c xs) = length xs"
  by (metis mset_sort_by size_mset)

lemma distinct_sort_by [simp]: "distinct (sort_by c xs) = distinct xs"
  by (metis mset_sort_by mset_eq_imp_distinct_iff)

lemma sum_list_sort_by [simp]:
  fixes f :: "'a \<Rightarrow> int"
  shows "sum_list (map f (sort_by c xs)) = sum_list (map f xs)"
  by (metis mset_map mset_sort_by sum_mset_sum_list)

text \<open>Sorting by a comparator that follows a preorder sorts by that preorder.\<close>

lemma sorted_insert_rel:
  assumes "\<And>a b. a \<in> insert x (set xs) \<Longrightarrow> b \<in> insert x (set xs) \<Longrightarrow> if c a b \<le> 0 then R a b else R b a"
    and "\<And>a b d. R a b \<Longrightarrow> R b d \<Longrightarrow> R a d" and "sorted_wrt R xs"
  shows "sorted_wrt R (insert_by c x xs)"
  using assms
proof (induction xs)
  case Nil
  then show ?case by simp
next
  case (Cons y ys)
  have xy: "if c x y \<le> 0 then R x y else R y x" using Cons.prems(1) by simp
  have IH: "sorted_wrt R (insert_by c x ys)"
  proof (rule Cons.IH [OF _ Cons.prems(2)])
    show "if c a b \<le> 0 then R a b else R b a" if "a \<in> insert x (set ys)" "b \<in> insert x (set ys)" for a b
      using Cons.prems(1) [of a b] that by auto
    show "sorted_wrt R ys" using Cons.prems(3) by simp
  qed
  show ?case
  proof (cases "c x y \<le> 0")
    case True
    then have "R x y" using xy by simp
    then show ?thesis using True Cons.prems(3) Cons.prems(2) [of x y] by auto
  next
    case False
    then have "R y x" using xy by simp
    then show ?thesis using False IH Cons.prems(3) by auto
  qed
qed

lemma sorted_sort_by_rel:
  assumes "\<And>a b. a \<in> set xs \<Longrightarrow> b \<in> set xs \<Longrightarrow> if c a b \<le> 0 then R a b else R b a"
    and "\<And>a b d. R a b \<Longrightarrow> R b d \<Longrightarrow> R a d"
  shows "sorted_wrt R (sort_by c xs)"
  using assms
proof (induction xs)
  case (Cons x xs)
  have "sorted_wrt R (sort_by c xs)" using Cons.prems by (intro Cons.IH) auto
  then show ?case using Cons.prems by (auto intro!: sorted_insert_rel)
qed simp

text \<open>
  What the language asks of a comparator (a "consistent comparator"): exchanging the arguments
  flips the sign, and the order is transitive.
\<close>

locale comparator =
  fixes cmp :: "'a \<Rightarrow> 'a \<Rightarrow> int"
  assumes cmp_sgn: "sgn (cmp x y) = - sgn (cmp y x)"
    and cmp_trans: "cmp x y \<le> 0 \<Longrightarrow> cmp y z \<le> 0 \<Longrightarrow> cmp x z \<le> 0"
begin

lemma cmp_flip: "cmp x y \<le> 0 \<longleftrightarrow> 0 \<le> cmp y x"
  using cmp_sgn [of x y] by (auto simp: sgn_if split: if_splits)

lemma cmp_zero: "cmp x y = 0 \<longleftrightarrow> cmp x y \<le> 0 \<and> cmp y x \<le> 0"
  using cmp_flip [of x y] cmp_flip [of y x] by linarith

lemma cmp_total: "cmp x y \<le> 0 \<or> cmp y x \<le> 0"
  using cmp_flip [of x y] by linarith

lemma sorted_insert_by:
  "sorted_wrt (\<lambda>a b. cmp a b \<le> 0) xs \<Longrightarrow> sorted_wrt (\<lambda>a b. cmp a b \<le> 0) (insert_by cmp x xs)"
proof (induction xs)
  case Nil
  then show ?case by simp
next
  case (Cons y ys)
  show ?case
  proof (cases "cmp x y \<le> 0")
    case True
    then show ?thesis using Cons.prems by (auto intro: cmp_trans)
  next
    case False
    then have "cmp y x \<le> 0" using cmp_total by blast
    then show ?thesis using Cons False by auto
  qed
qed

lemma sorted_sort_by: "sorted_wrt (\<lambda>a b. cmp a b \<le> 0) (sort_by cmp xs)"
  by (induction xs) (auto intro: sorted_insert_by)

end

text \<open>Comparators are built from comparators: on a key, and one after the other.\<close>

definition lex_cmp :: "('a \<Rightarrow> 'a \<Rightarrow> int) \<Rightarrow> ('a \<Rightarrow> 'a \<Rightarrow> int) \<Rightarrow> 'a \<Rightarrow> 'a \<Rightarrow> int" where
  "lex_cmp c d x y = (if c x y \<noteq> 0 then c x y else d x y)"

lemma comparator_key: "comparator c \<Longrightarrow> comparator (\<lambda>x y. c (f x) (f y))"
  by (rule comparator.intro) (rule comparator.cmp_sgn, assumption, rule comparator.cmp_trans)

lemma comparator_lex:
  assumes c: "comparator c" and d: "comparator d"
  shows "comparator (lex_cmp c d)"
proof
  fix x y z
  show "sgn (lex_cmp c d x y) = - sgn (lex_cmp c d y x)"
    using comparator.cmp_sgn [OF c, of x y] comparator.cmp_sgn [OF d, of x y]
    by (auto simp: lex_cmp_def sgn_if split: if_splits)
  assume xy: "lex_cmp c d x y \<le> 0" and yz: "lex_cmp c d y z \<le> 0"
  have cxy: "c x y \<le> 0" and cyz: "c y z \<le> 0"
    using xy yz by (auto simp: lex_cmp_def split: if_splits)
  have cxz: "c x z \<le> 0" using comparator.cmp_trans [OF c cxy cyz] .
  show "lex_cmp c d x z \<le> 0"
  proof (cases "c x z = 0")
    case True
    then have zx: "c z x \<le> 0" using comparator.cmp_zero [OF c] by blast
    have "c x y = 0" "c y z = 0"
      using comparator.cmp_zero [OF c] comparator.cmp_trans [OF c] cxy cyz zx by blast+
    then have "d x y \<le> 0" "d y z \<le> 0" using xy yz by (auto simp: lex_cmp_def)
    then show ?thesis using True comparator.cmp_trans [OF d] by (auto simp: lex_cmp_def)
  next
    case False
    then show ?thesis using cxz by (simp add: lex_cmp_def)
  qed
qed

interpretation int_cmp: comparator "\<lambda>a b :: int. a - b"
  by unfold_locales (auto simp: sgn_if)

text \<open>
  \<open>localeCompare\<close> is specified to be a consistent comparator: the contract that the sorts of the
  sources rely on.
\<close>

locale collation =
  fixes rt :: js_runtime
  assumes collate: "comparator (locale_compare rt)"


subsection \<open>Association lists\<close>

definition asum :: "('v \<Rightarrow> int) \<Rightarrow> ('k \<times> 'v) list \<Rightarrow> int" where
  "asum f al = sum_list (map (\<lambda>kv. f (snd kv)) al)"

definition akeys :: "('k \<times> 'v) list \<Rightarrow> bool" where
  "akeys al \<longleftrightarrow> distinct (map fst al)"

lemma asum_Nil [simp]: "asum f [] = 0"
  by (simp add: asum_def)

lemma akeys_Nil [simp]: "akeys []"
  by (simp add: akeys_def)

lemma akeys_update [simp]: "akeys al \<Longrightarrow> akeys (AList.update k v al)"
  by (simp add: akeys_def distinct_update)

lemma map_of_update [simp]: "map_of (AList.update k v al) = (map_of al)(k \<mapsto> v)"
  by (rule update_conv')

lemma asum_update:
  "akeys al \<Longrightarrow> asum f (AList.update k v al) =
     asum f al - (case map_of al k of None \<Rightarrow> 0 | Some w \<Rightarrow> f w) + f v"
  by (induction al) (auto simp: asum_def akeys_def split: option.splits dest: map_of_SomeD)

lemma asum_cong: "\<forall>kv \<in> set al. f (snd kv) = g (snd kv) \<Longrightarrow> asum f al = asum g al"
  by (induction al) (auto simp: asum_def)

lemma asum_add: "asum (\<lambda>v. f v + g v) al = asum f al + asum g al"
  by (induction al) (auto simp: asum_def)

lemma asum_nonneg: "\<forall>kv \<in> set al. 0 \<le> f (snd kv) \<Longrightarrow> 0 \<le> asum f al"
  by (induction al) (auto simp: asum_def)

lemma asum_ge: "map_of al k = Some v \<Longrightarrow> \<forall>kv \<in> set al. 0 \<le> f (snd kv) \<Longrightarrow> f v \<le> asum f al"
proof (induction al)
  case (Cons kv al)
  have "0 \<le> asum f al" using Cons.prems(2) by (auto intro: asum_nonneg)
  then show ?case using Cons by (auto simp: asum_def split: if_splits)
qed simp

lemma find_key: "distinct (map f xs) \<Longrightarrow> x \<in> set xs \<Longrightarrow> find (\<lambda>y. f y = f x) xs = Some x"
proof (induction xs)
  case (Cons y ys)
  then show ?case by (auto simp: image_iff)
qed simp

subsection \<open>State machines\<close>

inductive reach :: "('s \<Rightarrow> bool) \<Rightarrow> ('s \<Rightarrow> 's \<Rightarrow> bool) \<Rightarrow> 's \<Rightarrow> bool"
  for init :: "'s \<Rightarrow> bool" and step :: "'s \<Rightarrow> 's \<Rightarrow> bool" where
  reach_init: "init s \<Longrightarrow> reach init step s"
| reach_step: "reach init step s \<Longrightarrow> step s t \<Longrightarrow> reach init step t"

locale step_system =
  fixes init :: "'s \<Rightarrow> bool" and step :: "'s \<Rightarrow> 's \<Rightarrow> bool" and inv :: "'s \<Rightarrow> bool"
  assumes init_inv: "init s \<Longrightarrow> inv s"
    and step_inv: "inv s \<Longrightarrow> step s t \<Longrightarrow> inv t"
begin

lemma reach_inv: "reach init step s \<Longrightarrow> inv s"
  by (induction rule: reach.induct) (auto intro: init_inv step_inv)

lemma steps_inv: "step\<^sup>*\<^sup>* s t \<Longrightarrow> inv s \<Longrightarrow> inv t"
  by (induction rule: rtranclp_induct) (auto intro: step_inv)

end

subsection \<open>A concrete run-time environment\<close>

text \<open>
  Code-unit order for strings and the ISO format \<open>YYYY-MM-DDTHH:mm:ss.sssZ\<close> for dates.  It
  satisfies the contracts above and is what the examples evaluate with.
\<close>

fun code_unit_compare :: "string \<Rightarrow> string \<Rightarrow> int" where
  "code_unit_compare [] [] = 0"
| "code_unit_compare [] (d # ds) = - 1"
| "code_unit_compare (c # cs) [] = 1"
| "code_unit_compare (c # cs) (d # ds) =
     (let a = of_char c :: nat; b = of_char d
      in if a < b then - 1 else if b < a then 1 else code_unit_compare cs ds)"

definition digits_value :: "string \<Rightarrow> int option" where
  "digits_value s =
     (if list_all (\<lambda>c. 48 \<le> (of_char c :: nat) \<and> (of_char c :: nat) \<le> 57) s
      then Some (foldl (\<lambda>acc c. 10 * acc + (of_char c - 48)) 0 s) else None)"

definition days_from_civil :: "int \<Rightarrow> int \<Rightarrow> int \<Rightarrow> int" where
  "days_from_civil y m d =
     (let y' = (if m \<le> 2 then y - 1 else y); era = y' div 400; yoe = y' - era * 400;
          doy = (153 * (m + (if m > 2 then - 3 else 9)) + 2) div 5 + d - 1;
          doe = yoe * 365 + yoe div 4 - yoe div 100 + doy
      in era * 146097 + doe - 719468)"

definition iso_parse :: "string \<Rightarrow> int option" where
  "iso_parse s =
     (let field = (\<lambda>i n. digits_value (take n (drop i s)))
      in if length s = 24 \<and> map (\<lambda>i. s ! i) [4, 7, 10, 13, 16, 19, 23] = ''--T::.Z''
         then case (field 0 4, field 5 2, field 8 2, field 11 2, field 14 2, field 17 2, field 20 3) of
             (Some y, Some mo, Some d, Some h, Some mi, Some sec, Some ms) \<Rightarrow>
               if 1 \<le> mo \<and> mo \<le> 12 \<and> 1 \<le> d \<and> d \<le> 31 \<and> h \<le> 23 \<and> mi \<le> 59 \<and> sec \<le> 59
               then Some (((days_from_civil y mo d * 24 + h) * 60 + mi) * 60000 + sec * 1000 + ms)
               else None
           | _ \<Rightarrow> None
         else None)"

definition ref_runtime :: js_runtime where
  "ref_runtime = \<lparr>date_parse = iso_parse, to_iso = (\<lambda>ms. Some (show_int ms)),
                  locale_compare = code_unit_compare\<rparr>"

lemma code_unit_sgn: "sgn (code_unit_compare x y) = - sgn (code_unit_compare y x)"
  by (induction x y rule: code_unit_compare.induct) (auto simp: Let_def)

lemma code_unit_Cons_le:
  "code_unit_compare (c # cs) (d # ds) \<le> 0 \<longleftrightarrow>
     (of_char c :: nat) < of_char d \<or>
     (of_char c :: nat) = of_char d \<and> code_unit_compare cs ds \<le> 0"
  by (auto simp: Let_def)

lemma code_unit_trans:
  "code_unit_compare x y \<le> 0 \<Longrightarrow> code_unit_compare y z \<le> 0 \<Longrightarrow> code_unit_compare x z \<le> 0"
proof (induction x arbitrary: y z)
  case Nil
  then show ?case by (cases z) auto
next
  case (Cons c cs)
  obtain d ds where y: "y = d # ds" using Cons.prems by (cases y) auto
  obtain e es where z: "z = e # es" using Cons.prems y by (cases z) auto
  have "(of_char c :: nat) < of_char d \<or> (of_char c :: nat) = of_char d \<and> code_unit_compare cs ds \<le> 0"
    "(of_char d :: nat) < of_char e \<or> (of_char d :: nat) = of_char e \<and> code_unit_compare ds es \<le> 0"
    using Cons.prems unfolding y z code_unit_Cons_le by blast+
  then show ?case
    unfolding z code_unit_Cons_le using Cons.IH [of ds es] by (metis less_trans)
qed

lemma comparator_code_unit: "comparator code_unit_compare"
  by (rule comparator.intro) (rule code_unit_sgn, rule code_unit_trans)

interpretation ref_collation: collation ref_runtime
  by (rule collation.intro) (simp add: ref_runtime_def comparator_code_unit)

lemma iso_parse_example: "iso_parse ''2026-01-02T03:04:05.006Z'' = Some 1767323045006"
  by code_simp

end
