(* ===== verification/DotCastTypes.thy ===== *)
theory DotCastTypes
  imports JsData
begin

text \<open>
  The data of \<open>src/engine/dotcast/types.ts\<close>: the string unions as datatypes and the
  interfaces as records, field by field.  A field name carries a prefix for its interface,
  since record selectors are global; an optional or nullable field is an \<open>option\<close>.
  \<open>PoolStatus\<close> is ordered by the life of a pool, so that "never goes back" can be said
  with \<open>\<le>\<close>.
\<close>

datatype DotCastVenue = Kalshi | Polymarket | DotcastVenue | UnknownVenue

datatype StakeUnit = Points | Usdc

datatype Side = Yes | No

datatype Outcome = Won Side | Invalid  \<comment> \<open>\<open>Side | "invalid"\<close>\<close>

datatype DotCastResolutionOutcome = Resolved Outcome | Pending

datatype PoolStatus = Open | Locked | Resolving | Settled | Voided

datatype DotCastMarketStatus = MarketOpen | MarketClosed | MarketSettled | MarketCancelled | MarketVoided

datatype DotCastVoidReason =
    UNDER_LIQUIDITY
  | ONE_SIDED_POOL
  | NO_WINNING_ENTRIES
  | INVALID_RESOLUTION
  | GRACE_TIMEOUT
  | SOURCE_CANCELLED
  | ADMIN_VOID

datatype Funding = UserFunded | HouseFunded

fun show_side :: "Side \<Rightarrow> string" where
  "show_side Yes = ''yes''"
| "show_side No = ''no''"

fun show_outcome :: "Outcome \<Rightarrow> string" where
  "show_outcome (Won s) = show_side s"
| "show_outcome Invalid = ''invalid''"

fun show_status :: "PoolStatus \<Rightarrow> string" where
  "show_status Open = ''open''"
| "show_status Locked = ''locked''"
| "show_status Resolving = ''resolving''"
| "show_status Settled = ''settled''"
| "show_status Voided = ''voided''"

fun other_side :: "Side \<Rightarrow> Side" where
  "other_side Yes = No"
| "other_side No = Yes"

lemma other_side_neq [simp]: "other_side s \<noteq> s" "s \<noteq> other_side s"
  by (cases s; simp)+

lemma neq_side_iff: "s \<noteq> t \<longleftrightarrow> s = other_side t"
  by (cases s; cases t) auto

fun pool_rank :: "PoolStatus \<Rightarrow> nat" where
  "pool_rank Open = 0"
| "pool_rank Locked = 1"
| "pool_rank Resolving = 2"
| "pool_rank Settled = 3"
| "pool_rank Voided = 4"

lemma pool_rank_inject: "pool_rank a = pool_rank b \<Longrightarrow> a = b"
  by (cases a; cases b) auto

instantiation PoolStatus :: linorder
begin

definition less_eq_PoolStatus :: "PoolStatus \<Rightarrow> PoolStatus \<Rightarrow> bool" where
  "less_eq_PoolStatus a b \<longleftrightarrow> pool_rank a \<le> pool_rank b"

definition less_PoolStatus :: "PoolStatus \<Rightarrow> PoolStatus \<Rightarrow> bool" where
  "less_PoolStatus a b \<longleftrightarrow> pool_rank a < pool_rank b"

instance
  by standard (auto simp: less_eq_PoolStatus_def less_PoolStatus_def intro: pool_rank_inject)

end

definition terminal :: "PoolStatus \<Rightarrow> bool" where
  "terminal s \<longleftrightarrow> s = Settled \<or> s = Voided"

record SideTotals =
  yes :: int
  no :: int

definition totals_of :: "SideTotals \<Rightarrow> Side \<Rightarrow> int" where
  "totals_of t s = (case s of Yes \<Rightarrow> yes t | No \<Rightarrow> no t)"

definition totals_set :: "SideTotals \<Rightarrow> Side \<Rightarrow> int \<Rightarrow> SideTotals" where
  "totals_set t s v = (case s of Yes \<Rightarrow> t\<lparr>yes := v\<rparr> | No \<Rightarrow> t\<lparr>no := v\<rparr>)"

lemma totals_of_set [simp]:
  "totals_of (totals_set t s v) s' = (if s' = s then v else totals_of t s')"
  by (cases s; cases s') (auto simp: totals_of_def totals_set_def)

subsection \<open>Resolution routes\<close>

datatype DotCastResolutionTier =
  HardOracle | ComputedOracle | AiPerception | OptimisticBonded | HumanJury

datatype DotCastResolutionRouteStatus = RouteLocked | ReviewRequired | PointsOnly | Blocked

datatype DotCastResolutionSourceKind =
  RouterMarket | ExternalOracle | ComputedFeed | LivestreamAi | ResolverNetwork | ManualReview

record DotCastResolutionSource =
  src_kind :: DotCastResolutionSourceKind
  src_label :: string
  src_url :: "string option"
  src_required :: bool

record DotCastResolutionRoute =
  rr_routeId :: string
  rr_marketId :: string
  rr_poolId :: "string option"
  rr_tier :: DotCastResolutionTier
  rr_status :: DotCastResolutionRouteStatus
  rr_confidenceBps :: int
  rr_resolutionStatement :: string
  rr_sources :: "DotCastResolutionSource list"
  rr_sourceAvailable :: bool
  rr_autoResolvable :: bool
  rr_reviewRequired :: bool
  rr_pointsOnly :: bool
  rr_blockedReason :: "string option"
  rr_steeringPrompt :: "string option"
  rr_feeBps :: int
  rr_bondMinorUnits :: int
  rr_panelSize :: int
  rr_lockedAt :: "string option"
  rr_classifierVersion :: string
  rr_createdAt :: string
  rr_eventJson :: json_object

subsection \<open>Pools, entries, balances\<close>

record DotCastCreatorPoolBranding =
  cb_creatorId :: string
  cb_displayName :: string
  cb_disclosureLabel :: string

record DotCastMarketSnapshot =
  mk_id :: string
  mk_venue :: DotCastVenue
  mk_question :: string
  mk_status :: DotCastMarketStatus
  mk_closeTime :: string
  mk_expectedResolveAt :: "string option"
  mk_referenceUrl :: "string option"

record DotCastPool =
  p_id :: string
  p_marketId :: string
  p_venue :: DotCastVenue
  p_unit :: StakeUnit
  p_question :: string
  p_status :: PoolStatus
  p_entryOpensAt :: string
  p_entryClosesAt :: string
  p_expectedResolveAt :: "string option"
  p_rake :: number
  p_pools :: SideTotals
  p_minLiquidity :: int
  p_createdAt :: string
  p_settledAt :: "string option"
  p_outcome :: "Outcome option"
  p_resolutionRoute :: "DotCastResolutionRoute option"
  p_originatingCreatorId :: "string option"
  p_creatorBrand :: "DotCastCreatorPoolBranding option"

record DotCastEntry =
  e_id :: string
  e_poolId :: string
  e_userId :: string
  e_side :: Side
  e_amount :: int
  e_funding :: Funding
  e_placedAt :: string
  e_payout :: "int option"
  e_refunded :: bool

record StakeBalance =
  b_userId :: string
  b_unit :: StakeUnit
  b_available :: int
  b_locked :: int

record DotCastSettlementRecord =
  sr_id :: string
  sr_poolId :: string
  sr_outcome :: Side
  sr_totalStaked :: int
  sr_payoutTotal :: int
  sr_rakeAmount :: int
  sr_createdAt :: string

record HouseLedgerEntry =
  hl_id :: string
  hl_poolId :: string
  hl_unit :: StakeUnit
  hl_amount :: int
  hl_reason :: string
  hl_createdAt :: string

record DotCastRouterResolution =
  rs_marketId :: string
  rs_outcome :: DotCastResolutionOutcome
  rs_resolvedAt :: "string option"
  rs_fetchedAt :: string
  rs_stale :: bool
  rs_source :: "DotCastVenue option"

record DotCastPoolSnapshot =
  s_pool :: DotCastPool
  s_entries :: "DotCastEntry list"
  s_balances :: "(string \<times> StakeBalance) list"
  s_houseLedger :: "HouseLedgerEntry list"
  s_settlement :: "DotCastSettlementRecord option"
  s_voidReason :: "DotCastVoidReason option"
  s_lastResolution :: "DotCastRouterResolution option"
  s_updatedAt :: string

end
