(* ===== verification/Parimutuel.thy ===== *)
theory Parimutuel
  imports DotCastTypes
begin

text \<open>
  \<open>src/engine/dotcast/Parimutuel.ts\<close>: pool totals, rake, pay-out previews and the settlement
  of a pool by the largest-remainder rule.  The definitions follow the source in its order of
  calls; the lemmas lead to the conservation of money by \<open>settleParimutuel\<close>, the quota of every
  winner, and the agreement of \<open>previewPayout\<close> with the settlement.

  \<open>BigInt\<close> arithmetic is exact; \<open>Number(b)\<close> of a \<open>BigInt\<close> is \<open>num b\<close>.  The two divisions
  have a positive divisor wherever they are reached, so \<open>div\<close> is \<open>BigInt\<close>'s truncation.
\<close>

subsection \<open>Definitions\<close>

record SettlementEntry =
  se_id :: string
  se_side :: Side
  se_amount :: int
  se_placedAt :: "string option"

record SettlementPayout =
  sp_entryId :: string
  sp_side :: Side
  sp_stake :: int
  sp_payout :: int

datatype SettlementKind = KindSettled | KindVoidRequired

record ParimutuelSettlementResult =
  pr_kind :: SettlementKind
  pr_outcome :: Side
  pr_totals :: SideTotals
  pr_totalStaked :: int
  pr_rakeAmount :: int
  pr_prizePool :: int
  pr_payouts :: "SettlementPayout list"

record AllocationDraft =
  ad_entry :: SettlementEntry
  ad_baseWinnings :: int
  ad_remainder :: int
  ad_index :: nat

definition assertSafeMinorUnits :: "int \<Rightarrow> string \<Rightarrow> unit res" where
  "assertSafeMinorUnits value label =
     (if \<not> is_safe_integer value \<or> value < 0
      then Inl (RangeError (label @ '' must be a non-negative safe integer minor-unit amount''))
      else Inr ())"

definition assertPositiveMinorUnits :: "int \<Rightarrow> string \<Rightarrow> unit res" where
  "assertPositiveMinorUnits value label =
     rbind (assertSafeMinorUnits value label) (\<lambda>_.
       if value \<le> 0 then Inl (RangeError (label @ '' must be greater than zero'')) else Inr ())"

definition validateEntry :: "SettlementEntry \<Rightarrow> SettlementEntry res" where
  "validateEntry entry =
     rbind (assertPositiveMinorUnits (se_amount entry) (''entry '' @ se_id entry @ '' amount''))
       (\<lambda>_. Inr entry)"

definition addToTotals :: "SideTotals \<Rightarrow> SettlementEntry \<Rightarrow> SideTotals res" where
  "addToTotals totals entry =
     rbind (validateEntry entry) (\<lambda>normalizedEntry.
       let side = se_side normalizedEntry;
           totals' = totals_set totals side (js_add (totals_of totals side) (se_amount normalizedEntry))
       in rbind (assertSafeMinorUnits (totals_of totals' side) (show_side side @ '' pool''))
            (\<lambda>_. Inr totals'))"

definition calculatePoolTotals :: "SettlementEntry list \<Rightarrow> SideTotals res" where
  "calculatePoolTotals entries = foldM addToTotals \<lparr>yes = 0, no = 0\<rparr> entries"

definition calculateRakeAmount :: "int \<Rightarrow> number \<Rightarrow> int res" where
  "calculateRakeAmount losingPool rake =
     rbind (assertSafeMinorUnits losingPool ''losing pool'') (\<lambda>_.
       case rake of
         Fin r \<Rightarrow>
           if r < 0 \<or> r > 1
           then Inl (RangeError ''rake must be a finite fraction between 0 and 1'')
           else
             let rakeBps = js_round (fl (r * 10000));
                 rakeAmount = num (losingPool * rakeBps div 10000)
             in rbind (assertSafeMinorUnits rakeAmount ''rake amount'') (\<lambda>_. Inr rakeAmount)
       | _ \<Rightarrow> Inl (RangeError ''rake must be a finite fraction between 0 and 1''))"

definition compareRemainderDrafts :: "js_runtime \<Rightarrow> AllocationDraft \<Rightarrow> AllocationDraft \<Rightarrow> int" where
  "compareRemainderDrafts rt left right =
     (if ad_remainder left \<noteq> ad_remainder right
      then (if ad_remainder left > ad_remainder right then - 1 else 1)
      else
        let placed = (\<lambda>d. case se_placedAt (ad_entry d) of None \<Rightarrow> '''' | Some s \<Rightarrow> s);
            placedAtComparison = locale_compare rt (placed left) (placed right)
        in if placedAtComparison \<noteq> 0 then placedAtComparison
           else
             let idComparison = locale_compare rt (se_id (ad_entry left)) (se_id (ad_entry right))
             in if idComparison = 0 then int (ad_index left) - int (ad_index right)
                else idComparison)"

definition allocationDraft :: "int \<Rightarrow> int \<Rightarrow> nat \<times> SettlementEntry \<Rightarrow> AllocationDraft" where
  "allocationDraft winPool prizePool ie =
     (let numerator = se_amount (snd ie) * prizePool
      in \<lparr>ad_entry = snd ie, ad_baseWinnings = num (numerator div winPool),
          ad_remainder = numerator mod winPool, ad_index = fst ie\<rparr>)"

fun distributeRemainder :: "AllocationDraft list \<Rightarrow> int \<Rightarrow> (string \<times> int) list \<Rightarrow> (string \<times> int) list"
where
  "distributeRemainder [] undistributed allocations = allocations"
| "distributeRemainder (d # ds) undistributed allocations =
     (if undistributed > 0
      then let entryId = se_id (ad_entry d);
               current = (case map_of allocations entryId of None \<Rightarrow> 0 | Some v \<Rightarrow> v)
           in distributeRemainder ds (js_sub undistributed 1)
                (AList.update entryId (js_add current 1) allocations)
      else allocations)"

definition allocatePrizePool ::
  "js_runtime \<Rightarrow> SettlementEntry list \<Rightarrow> int \<Rightarrow> int \<Rightarrow> (string \<times> int) list" where
  "allocatePrizePool rt winningEntries winPool prizePool =
     (if prizePool = 0
      then fold (\<lambda>entry. AList.update (se_id entry) 0) winningEntries []
      else
        let drafts = map (allocationDraft winPool prizePool) (enumerate 0 winningEntries);
            allocations = fold (\<lambda>d. AList.update (se_id (ad_entry d)) (ad_baseWinnings d)) drafts [];
            baseTotal = fold (\<lambda>d sum. js_add sum (ad_baseWinnings d)) drafts 0;
            undistributed = js_sub prizePool baseTotal;
            remainderOrder = sort_by (compareRemainderDrafts rt) drafts
        in distributeRemainder remainderOrder undistributed allocations)"

definition losingPayout :: "SettlementEntry \<Rightarrow> SettlementPayout" where
  "losingPayout entry =
     \<lparr>sp_entryId = se_id entry, sp_side = se_side entry, sp_stake = se_amount entry, sp_payout = 0\<rparr>"

definition winningPayout :: "(string \<times> int) list \<Rightarrow> SettlementEntry \<Rightarrow> SettlementPayout" where
  "winningPayout winningsByEntry entry =
     \<lparr>sp_entryId = se_id entry, sp_side = se_side entry, sp_stake = se_amount entry,
      sp_payout = js_add (se_amount entry)
        (case map_of winningsByEntry (se_id entry) of None \<Rightarrow> 0 | Some v \<Rightarrow> v)\<rparr>"

definition settleParimutuel ::
  "js_runtime \<Rightarrow> SettlementEntry list \<Rightarrow> Side \<Rightarrow> number \<Rightarrow> ParimutuelSettlementResult res" where
  "settleParimutuel rt entries outcome rake =
     (if entries = []
      then Inr \<lparr>pr_kind = KindVoidRequired, pr_outcome = outcome, pr_totals = \<lparr>yes = 0, no = 0\<rparr>,
                pr_totalStaked = 0, pr_rakeAmount = 0, pr_prizePool = 0, pr_payouts = []\<rparr>
      else
        rbind (mapM validateEntry entries) (\<lambda>normalizedEntries.
        rbind (calculatePoolTotals normalizedEntries) (\<lambda>totals.
          let winningEntries = filter (\<lambda>entry. se_side entry = outcome) normalizedEntries;
              losingEntries = filter (\<lambda>entry. se_side entry \<noteq> outcome) normalizedEntries;
              winPool = totals_of totals outcome;
              losePool = (if outcome = Yes then no totals else yes totals);
              totalStaked = js_add (yes totals) (no totals)
          in if winPool = 0
             then Inr \<lparr>pr_kind = KindVoidRequired, pr_outcome = outcome, pr_totals = totals,
                       pr_totalStaked = totalStaked, pr_rakeAmount = 0, pr_prizePool = 0,
                       pr_payouts = map losingPayout normalizedEntries\<rparr>
             else
               rbind (calculateRakeAmount losePool rake) (\<lambda>rakeAmount.
                 let prizePool = js_sub losePool rakeAmount;
                     winningsByEntry = allocatePrizePool rt winningEntries winPool prizePool
                 in Inr \<lparr>pr_kind = KindSettled, pr_outcome = outcome, pr_totals = totals,
                         pr_totalStaked = totalStaked, pr_rakeAmount = rakeAmount,
                         pr_prizePool = prizePool,
                         pr_payouts =
                           sort_by (\<lambda>l r. locale_compare rt (sp_entryId l) (sp_entryId r))
                             (map (winningPayout winningsByEntry) winningEntries
                              @ map losingPayout losingEntries)\<rparr>))))"

definition impliedProb :: "SideTotals \<Rightarrow> (rat \<times> rat) res" where
  "impliedProb totals =
     rbind (assertSafeMinorUnits (yes totals) ''yes pool'') (\<lambda>_.
     rbind (assertSafeMinorUnits (no totals) ''no pool'') (\<lambda>_.
       let total = js_add (yes totals) (no totals)
       in if total = 0 then Inr (1 / 2, 1 / 2)
          else Inr (fl (of_int (yes totals) / of_int total), fl (of_int (no totals) / of_int total))))"

definition previewPayout :: "SideTotals \<Rightarrow> Side \<Rightarrow> int \<Rightarrow> number \<Rightarrow> int res" where
  "previewPayout totals side amount rake =
     rbind (assertPositiveMinorUnits amount ''amount'') (\<lambda>_.
     rbind (assertSafeMinorUnits (yes totals) ''yes pool'') (\<lambda>_.
     rbind (assertSafeMinorUnits (no totals) ''no pool'') (\<lambda>_.
       let projectedTotals =
             \<lparr>yes = js_add (yes totals) (if side = Yes then amount else 0),
              no = js_add (no totals) (if side = No then amount else 0)\<rparr>;
           winPool = totals_of projectedTotals side;
           losePool = (if side = Yes then no projectedTotals else yes projectedTotals)
       in if losePool = 0 then Inr amount
          else
            rbind (calculateRakeAmount losePool rake) (\<lambda>rakeAmount.
              let prizePool = js_sub losePool rakeAmount;
                  winnings = num (amount * prizePool div winPool)
              in rbind (assertSafeMinorUnits winnings ''preview winnings'')
                   (\<lambda>_. Inr (js_add amount winnings))))))"

subsection \<open>Validation and totals\<close>

lemma assertSafe_Inr [simp]:
  "assertSafeMinorUnits v l = Inr u \<longleftrightarrow> is_safe_integer v \<and> 0 \<le> v"
  by (auto simp: assertSafeMinorUnits_def)

lemma assertPositive_Inr [simp]:
  "assertPositiveMinorUnits v l = Inr u \<longleftrightarrow> is_safe_integer v \<and> 0 < v"
  by (auto simp: assertPositiveMinorUnits_def res_simps split: if_splits)

lemma assertSafe_ok: "is_safe_integer v \<Longrightarrow> 0 \<le> v \<Longrightarrow> assertSafeMinorUnits v l = Inr ()"
  by simp

definition valid_entry :: "SettlementEntry \<Rightarrow> bool" where
  "valid_entry e \<longleftrightarrow> is_safe_integer (se_amount e) \<and> 0 < se_amount e"

lemma validateEntry_Inr [simp]: "validateEntry e = Inr e' \<longleftrightarrow> e' = e \<and> valid_entry e"
  by (auto simp: validateEntry_def valid_entry_def res_simps)

definition staked :: "Side \<Rightarrow> SettlementEntry list \<Rightarrow> int" where
  "staked s es = sum_list (map se_amount (filter (\<lambda>e. se_side e = s) es))"

lemma staked_Nil [simp]: "staked s [] = 0"
  by (simp add: staked_def)

lemma staked_Cons [simp]:
  "staked s (e # es) = (if se_side e = s then se_amount e else 0) + staked s es"
  by (simp add: staked_def)

lemma staked_append [simp]: "staked s (xs @ ys) = staked s xs + staked s ys"
  by (simp add: staked_def)

lemma staked_nonneg: "\<forall>e\<in>set es. valid_entry e \<Longrightarrow> 0 \<le> staked s es"
  by (induction es) (auto simp: valid_entry_def)

lemma staked_total: "staked Yes es + staked No es = sum_list (map se_amount es)"
proof (induction es)
  case (Cons e es)
  then show ?case by (cases "se_side e") auto
qed simp

lemma staked_pos_iff:
  "\<forall>e\<in>set es. valid_entry e \<Longrightarrow> staked s es = 0 \<longleftrightarrow> (\<forall>e\<in>set es. se_side e \<noteq> s)"
proof (induction es)
  case (Cons e es)
  then show ?case using staked_nonneg [of es s] by (auto simp: valid_entry_def)
qed simp

lemma foldM_totals:
  assumes "0 \<le> yes t" "0 \<le> no t" "is_safe_integer (yes t)" "is_safe_integer (no t)"
  shows "foldM addToTotals t es = Inr t' \<longleftrightarrow>
    (\<forall>e\<in>set es. valid_entry e) \<and> is_safe_integer (yes t + staked Yes es) \<and>
    is_safe_integer (no t + staked No es) \<and>
    t' = t\<lparr>yes := yes t + staked Yes es, no := no t + staked No es\<rparr>"
  using assms
proof (induction es arbitrary: t)
  case Nil
  then show ?case by auto
next
  case (Cons e es)
  show ?case
  proof (cases "valid_entry e \<and> is_safe_integer (totals_of t (se_side e) + se_amount e)")
    case True
    then have v: "valid_entry e" "0 < se_amount e"
      and sf: "is_safe_integer (totals_of t (se_side e) + se_amount e)"
      by (auto simp: valid_entry_def)
    let ?u = "totals_set t (se_side e) (totals_of t (se_side e) + se_amount e)"
    have nn: "0 \<le> totals_of t (se_side e) + se_amount e"
      using v Cons.prems by (cases "se_side e") (auto simp: totals_of_def)
    have "addToTotals t e = Inr ?u"
      using v sf nn by (auto simp: addToTotals_def res_simps js_add_safe Let_def)
    moreover have "foldM addToTotals ?u es = Inr t' \<longleftrightarrow>
        (\<forall>e\<in>set es. valid_entry e) \<and> is_safe_integer (yes ?u + staked Yes es) \<and>
        is_safe_integer (no ?u + staked No es) \<and>
        t' = ?u\<lparr>yes := yes ?u + staked Yes es, no := no ?u + staked No es\<rparr>"
      by (rule Cons.IH)
        (use Cons.prems nn sf in \<open>cases "se_side e"; simp add: totals_set_def totals_of_def\<close>)+
    ultimately show ?thesis
      using v by (cases "se_side e") (simp_all add: totals_set_def totals_of_def add.assoc)
  next
    case False
    have "\<nexists>u. addToTotals t e = Inr u"
      using False by (auto simp: addToTotals_def res_simps Let_def num_simps)
    then have l: "foldM addToTotals t (e # es) \<noteq> Inr t'"
      by (auto simp: res_simps)
    have "\<not> ((\<forall>e\<in>set (e # es). valid_entry e) \<and> is_safe_integer (yes t + staked Yes (e # es)) \<and>
        is_safe_integer (no t + staked No (e # es)))"
    proof
      assume a: "(\<forall>e\<in>set (e # es). valid_entry e) \<and> is_safe_integer (yes t + staked Yes (e # es)) \<and>
        is_safe_integer (no t + staked No (e # es))"
      then have "0 \<le> staked (se_side e) es" "0 < se_amount e"
        by (auto intro: staked_nonneg simp: valid_entry_def)
      then have "is_safe_integer (totals_of t (se_side e) + se_amount e)"
        using a Cons.prems
        by (cases "se_side e") (auto simp: totals_of_def is_safe_integer_def)
      with a False show False by simp
    qed
    with l show ?thesis by blast
  qed
qed

lemma calculatePoolTotals_Inr:
  "calculatePoolTotals es = Inr t \<longleftrightarrow>
     (\<forall>e\<in>set es. valid_entry e) \<and> is_safe_integer (staked Yes es) \<and>
     is_safe_integer (staked No es) \<and> t = \<lparr>yes = staked Yes es, no = staked No es\<rparr>"
  by (simp add: calculatePoolTotals_def foldM_totals)

lemma mapM_validate_Inr: "mapM validateEntry es = Inr es' \<longleftrightarrow> es' = es \<and> (\<forall>e\<in>set es. valid_entry e)"
  by (subst mapM_id_iff) auto

subsection \<open>The rake\<close>

definition rake_bps :: "rat \<Rightarrow> int" where
  "rake_bps r = js_round (fl (r * 10000))"

lemma rake_bps_bounds:
  assumes "0 \<le> r" "r \<le> 1"
  shows "0 \<le> rake_bps r" "rake_bps r \<le> 10000"
proof -
  have x: "0 \<le> r * 10000" "r * 10000 < 2 ^ 53" "r * 10000 \<le> of_int 10000" using assms by auto
  have "0 \<le> fl (r * 10000)" using fl_ge_int [of "r * 10000" 0] x by simp
  then show "0 \<le> rake_bps r" by (simp add: rake_bps_def js_round_def)
  have "fl (r * 10000) \<le> of_int 10000" using fl_le_int [of "r * 10000" 10000] x by simp
  then have "fl (r * 10000) + 1 / 2 < 10001" by simp
  then have "\<lfloor>fl (r * 10000) + 1 / 2\<rfloor> < 10001" by (simp add: floor_less_iff)
  then show "rake_bps r \<le> 10000" by (simp add: rake_bps_def js_round_def)
qed

lemma rake_share_bounds:
  assumes "0 \<le> lp" "0 \<le> r" "r \<le> 1"
  shows "0 \<le> lp * rake_bps r div 10000" "lp * rake_bps r div 10000 \<le> lp"
proof -
  note b = rake_bps_bounds [OF assms(2,3)]
  show "0 \<le> lp * rake_bps r div 10000" using assms b by (simp add: pos_imp_zdiv_nonneg_iff)
  have "lp * rake_bps r \<le> lp * 10000" using assms b by (intro mult_left_mono) auto
  then have "lp * rake_bps r div 10000 \<le> lp * 10000 div 10000" by (rule zdiv_mono1) simp
  then show "lp * rake_bps r div 10000 \<le> lp" by simp
qed

lemma calculateRakeAmount_Inr:
  "calculateRakeAmount lp rake = Inr a \<longleftrightarrow>
     is_safe_integer lp \<and> 0 \<le> lp \<and>
     (\<exists>r. rake = Fin r \<and> 0 \<le> r \<and> r \<le> 1 \<and> a = lp * rake_bps r div 10000)"
proof (cases "is_safe_integer lp \<and> 0 \<le> lp \<and> (\<exists>r. rake = Fin r \<and> 0 \<le> r \<and> r \<le> 1)")
  case True
  then obtain r where r: "rake = Fin r" "0 \<le> r" "r \<le> 1" and lp: "is_safe_integer lp" "0 \<le> lp"
    by blast
  note b = rake_share_bounds [OF lp(2) r(2,3)]
  have sf: "is_safe_integer (lp * rake_bps r div 10000)"
    using b lp by (blast intro: is_safe_between)
  have "calculateRakeAmount lp rake = Inr (lp * rake_bps r div 10000)"
    using r lp b sf
    by (simp add: calculateRakeAmount_def assertSafe_ok rake_bps_def [symmetric] num_safe)
  then show ?thesis using r lp by auto
next
  case False
  then have "calculateRakeAmount lp rake \<noteq> Inr a"
    by (cases rake) (auto simp: calculateRakeAmount_def res_simps split: if_splits)
  with False show ?thesis by blast
qed

subsection \<open>Largest-remainder allocation\<close>

text \<open>Exact shares: the base winnings lose less than one unit per winner.\<close>

definition share :: "int \<Rightarrow> int \<Rightarrow> SettlementEntry \<Rightarrow> int" where
  "share W P e = se_amount e * P div W"

definition share_rem :: "int \<Rightarrow> int \<Rightarrow> SettlementEntry \<Rightarrow> int" where
  "share_rem W P e = se_amount e * P mod W"

lemma share_sum:
  "W * sum_list (map (share W P) ws) + sum_list (map (share_rem W P) ws) =
     sum_list (map se_amount ws) * P"
  by (induction ws) (auto simp: share_def share_rem_def algebra_simps)

lemma share_rem_bounds: "0 < W \<Longrightarrow> 0 \<le> share_rem W P e \<and> share_rem W P e < W"
  by (simp add: share_rem_def)

lemma share_rem_sum_le:
  "0 < W \<Longrightarrow> sum_list (map (share_rem W P) ws) \<le> (W - 1) * int (length (filter (\<lambda>e. share_rem W P e \<noteq> 0) ws))"
proof (induction ws)
  case (Cons e ws)
  then show ?case using share_rem_bounds [of W P e] by (auto simp: algebra_simps)
qed simp

lemma share_rem_sum_nonneg: "0 < W \<Longrightarrow> 0 \<le> sum_list (map (share_rem W P) ws)"
  using share_rem_bounds by (intro sum_list_nonneg) auto

text \<open>What is left after the base winnings, and that it is less than the number of winners with a remainder.\<close>

lemma leftover_bounds:
  assumes W: "0 < W" "W = sum_list (map se_amount ws)" and P: "0 \<le> P"
  defines "u \<equiv> P - sum_list (map (share W P) ws)"
  shows "0 \<le> u" "u \<le> int (length (filter (\<lambda>e. share_rem W P e \<noteq> 0) ws))"
proof -
  have eq: "W * u = sum_list (map (share_rem W P) ws)"
    using share_sum [of W P ws] W(2) by (simp add: u_def algebra_simps)
  have "0 \<le> W * u" using eq share_rem_sum_nonneg [OF W(1), of P ws] by simp
  then show "0 \<le> u" using W(1) by (simp add: zero_le_mult_iff)
  let ?n = "int (length (filter (\<lambda>e. share_rem W P e \<noteq> 0) ws))"
  have "W * u \<le> (W - 1) * ?n" using eq share_rem_sum_le [OF W(1), of P ws] by simp
  also have "\<dots> \<le> W * ?n" by (simp add: algebra_simps)
  finally show "u \<le> ?n" using W(1) by simp
qed

lemma share_nonneg: "0 < W \<Longrightarrow> 0 \<le> P \<Longrightarrow> valid_entry e \<Longrightarrow> 0 \<le> share W P e"
  by (simp add: share_def valid_entry_def pos_imp_zdiv_nonneg_iff)

lemma share_le_pool:
  assumes "0 < W" "W = sum_list (map se_amount ws)" "0 \<le> P" "\<forall>e\<in>set ws. valid_entry e" "e \<in> set ws"
  shows "share W P e \<le> P"
proof -
  have "share W P e \<le> sum_list (map (share W P) ws)"
    using assms share_nonneg by (intro member_le_sum_list) auto
  then show ?thesis using leftover_bounds(1) [OF assms(1-3)] by simp
qed

text \<open>The loop over the remainder order adds one unit to the first \<open>u\<close> entries.\<close>

lemma distributeRemainder_lookup:
  assumes "distinct (map (\<lambda>d. se_id (ad_entry d)) ds)" "0 \<le> u" "is_safe_integer u"
    and "\<And>d v. d \<in> set ds \<Longrightarrow> map_of al (se_id (ad_entry d)) = Some v \<Longrightarrow> is_safe_integer (v + 1)"
  shows "map_of (distributeRemainder ds u al) k =
    (if \<exists>d \<in> set (take (nat u) ds). se_id (ad_entry d) = k
     then Some ((case map_of al k of None \<Rightarrow> 0 | Some v \<Rightarrow> v) + 1)
     else map_of al k)"
  using assms
proof (induction ds u al rule: distributeRemainder.induct)
  case (2 d ds u al)
  let ?id = "se_id (ad_entry d)"
  let ?v = "case map_of al ?id of None \<Rightarrow> 0 | Some v \<Rightarrow> v"
  show ?case
  proof (cases "0 < u")
    case True
    have u: "js_sub u 1 = u - 1" using True "2.prems" by (intro js_sub_nonneg_safe) auto
    have v: "js_add ?v 1 = ?v + 1"
      using "2.prems"(4) [of d] by (intro js_add_safe) (auto split: option.splits simp: is_safe_integer_def max_safe_integer_def)
    have nt: "nat u = Suc (nat (u - 1))" using True by simp
    have IH: "map_of (distributeRemainder ds (u - 1) (AList.update ?id (?v + 1) al)) k =
      (if \<exists>d \<in> set (take (nat (u - 1)) ds). se_id (ad_entry d) = k
       then Some ((case map_of (AList.update ?id (?v + 1) al) k of None \<Rightarrow> 0 | Some v \<Rightarrow> v) + 1)
       else map_of (AList.update ?id (?v + 1) al) k)"
    proof (rule "2.IH" [OF True refl refl, unfolded u v])
      show "distinct (map (\<lambda>d. se_id (ad_entry d)) ds)" using "2.prems"(1) by simp
      show "0 \<le> u - 1" using True by simp
      show "is_safe_integer (u - 1)" using True "2.prems"(3) by (simp add: is_safe_integer_def)
      fix d' w
      assume d': "d' \<in> set ds"
        and w: "map_of (AList.update ?id (?v + 1) al) (se_id (ad_entry d')) = Some w"
      have "se_id (ad_entry d') \<noteq> ?id" using "2.prems"(1) d' by (auto simp: image_iff)
      then show "is_safe_integer (w + 1)" using "2.prems"(4) [of d' w] d' w by simp
    qed
    have notin: "\<not> (\<exists>d' \<in> set (take (nat (u - 1)) ds). se_id (ad_entry d') = ?id)"
      using "2.prems"(1) by (auto dest!: in_set_takeD simp: image_iff)
    show ?thesis using True IH notin by (simp add: u v nt Let_def)
  next
    case False
    then show ?thesis using "2.prems" by simp
  qed
qed simp

lemma fold_update_lookup:
  "distinct (map f xs) \<Longrightarrow>
   map_of (fold (\<lambda>x. AList.update (f x) (g x)) xs al) k =
     (case find (\<lambda>x. f x = k) xs of None \<Rightarrow> map_of al k | Some x \<Rightarrow> Some (g x))"
proof (induction xs arbitrary: al)
  case (Cons x xs)
  have "find (\<lambda>y. f y = f x) xs = None" using Cons.prems by (auto simp: find_None_iff image_iff)
  with Cons show ?case by (auto split: option.splits)
qed simp

lemma fold_js_add:
  assumes "\<forall>x\<in>set xs. 0 \<le> g x" "0 \<le> a" "is_safe_integer (a + sum_list (map g xs))"
  shows "fold (\<lambda>x s. js_add s (g x)) xs a = a + sum_list (map g xs)"
  using assms
proof (induction xs arbitrary: a)
  case (Cons x xs)
  have nn: "0 \<le> sum_list (map g xs)" using Cons.prems by (intro sum_list_nonneg) auto
  have "js_add a (g x) = a + g x"
    using Cons.prems nn by (intro js_add_safe) (auto simp: is_safe_integer_def)
  then show ?case using Cons.IH [of "a + g x"] Cons.prems by (simp add: add.assoc)
qed simp

definition leftover :: "int \<Rightarrow> int \<Rightarrow> SettlementEntry list \<Rightarrow> int" where
  "leftover W P ws = P - sum_list (map (share W P) ws)"

definition drafts_of :: "int \<Rightarrow> int \<Rightarrow> SettlementEntry list \<Rightarrow> AllocationDraft list" where
  "drafts_of W P ws = map (allocationDraft W P) (enumerate 0 ws)"

definition remainderOrder :: "js_runtime \<Rightarrow> int \<Rightarrow> int \<Rightarrow> SettlementEntry list \<Rightarrow> AllocationDraft list" where
  "remainderOrder rt W P ws =
     sort_by (compareRemainderDrafts rt) (drafts_of W P ws)"

definition favoured :: "js_runtime \<Rightarrow> int \<Rightarrow> int \<Rightarrow> SettlementEntry list \<Rightarrow> SettlementEntry list" where
  "favoured rt W P ws = map ad_entry (take (nat (leftover W P ws)) (remainderOrder rt W P ws))"

definition bonus :: "js_runtime \<Rightarrow> int \<Rightarrow> int \<Rightarrow> SettlementEntry list \<Rightarrow> SettlementEntry \<Rightarrow> int" where
  "bonus rt W P ws e = (if se_id e \<in> set (map se_id (favoured rt W P ws)) then 1 else 0)"

lemma ad_entry_draft [simp]: "ad_entry (allocationDraft W P ie) = snd ie"
  by (simp add: allocationDraft_def Let_def)

lemma ad_remainder_draft [simp]: "ad_remainder (allocationDraft W P ie) = share_rem W P (snd ie)"
  by (simp add: allocationDraft_def Let_def share_rem_def)

lemma map_entry_drafts: "map ad_entry (drafts_of W P ws) = ws"
  by (simp add: drafts_of_def comp_def)

lemma map_drafts: "map (\<lambda>d. f (ad_entry d)) (drafts_of W P ws) = map f ws"
proof -
  have "map (\<lambda>d. f (ad_entry d)) (drafts_of W P ws) = map f (map ad_entry (drafts_of W P ws))" by simp
  then show ?thesis by (simp only: map_entry_drafts)
qed

lemma entry_of_draft: "d \<in> set (drafts_of W P ws) \<Longrightarrow> ad_entry d \<in> set ws"
  by (auto simp: drafts_of_def in_set_enumerate_eq)

lemma draft_of_entry: "e \<in> set ws \<Longrightarrow> \<exists>d \<in> set (drafts_of W P ws). ad_entry d = e"
  using map_entry_drafts [of W P ws] by (metis image_iff set_map)

lemma mset_remainderOrder [simp]: "mset (map ad_entry (remainderOrder rt W P ws)) = mset ws"
  by (metis map_entry_drafts mset_map mset_sort_by remainderOrder_def)

lemma set_entries_remainderOrder [simp]: "ad_entry ` set (remainderOrder rt W P ws) = set ws"
  by (metis list.set_map mset_remainderOrder set_mset_mset)

lemma length_remainderOrder [simp]: "length (remainderOrder rt W P ws) = length ws"
  by (simp add: remainderOrder_def drafts_of_def)

lemma distinct_ids_remainderOrder:
  "distinct (map (\<lambda>d. se_id (ad_entry d)) (remainderOrder rt W P ws)) = distinct (map se_id ws)"
proof -
  have "mset (map se_id (map ad_entry (remainderOrder rt W P ws))) = mset (map se_id ws)"
    by (metis mset_map mset_remainderOrder)
  then have "distinct (map se_id (map ad_entry (remainderOrder rt W P ws))) = distinct (map se_id ws)"
    by (rule mset_eq_imp_distinct_iff)
  then show ?thesis by (simp add: comp_def)
qed

lemma share_0 [simp]: "share W 0 = (\<lambda>_. 0)"
  by (simp add: share_def fun_eq_iff)

lemma leftover_le_length:
  assumes "0 < W" "W = sum_list (map se_amount ws)" "0 \<le> P"
  shows "0 \<le> leftover W P ws" "leftover W P ws \<le> int (length ws)"
  using leftover_bounds [OF assms] length_filter_le [of "\<lambda>e. share_rem W P e \<noteq> 0" ws]
  unfolding leftover_def by linarith+

lemma indicator_sum:
  assumes "distinct (map f xs)" "S \<subseteq> f ` set xs"
  shows "(\<Sum>x\<leftarrow>xs. if f x \<in> S then 1 else 0) = int (card S)"
proof -
  have "(\<Sum>x\<leftarrow>xs. if f x \<in> S then 1 else 0) = int (length (filter (\<lambda>y. y \<in> S) (map f xs)))"
    by (induction xs) auto
  also have "length (filter (\<lambda>y. y \<in> S) (map f xs)) = card (set (filter (\<lambda>y. y \<in> S) (map f xs)))"
    using assms(1) by (metis distinct_card distinct_filter)
  also have "set (filter (\<lambda>y. y \<in> S) (map f xs)) = S" using assms(2) by auto
  finally show ?thesis .
qed

lemma set_favoured: "set (favoured rt W P ws) \<subseteq> set ws"
proof -
  have "set (favoured rt W P ws) \<subseteq> ad_entry ` set (remainderOrder rt W P ws)"
    unfolding favoured_def set_map by (intro image_mono set_take_subset)
  then show ?thesis by simp
qed

lemma bonus_sum:
  assumes "0 < W" "W = sum_list (map se_amount ws)" "0 \<le> P" "distinct (map se_id ws)"
  shows "sum_list (map (bonus rt W P ws) ws) = leftover W P ws"
proof -
  let ?F = "favoured rt W P ws"
  have d: "distinct (map se_id ?F)"
    using distinct_ids_remainderOrder [of rt W P ws] assms(4)
    by (simp add: favoured_def comp_def take_map [symmetric])
  have "sum_list (map (bonus rt W P ws) ws) = int (card (set (map se_id ?F)))"
    unfolding bonus_def by (rule indicator_sum [OF assms(4)]) (use set_favoured [of rt W P ws] in auto)
  also have "card (set (map se_id ?F)) = length ?F" using distinct_card [OF d] by simp
  also have "int \<dots> = leftover W P ws"
    using leftover_le_length [OF assms(1-3)] by (simp add: favoured_def)
  finally show ?thesis .
qed

text \<open>Under the preconditions of a settlement no base winning is rounded.\<close>

lemma share_safe:
  assumes "0 < W" "W = sum_list (map se_amount ws)" "0 \<le> P" "is_safe_integer (P + 1)"
    "\<forall>e\<in>set ws. valid_entry e" "e \<in> set ws"
  shows "is_safe_integer (share W P e)" "is_safe_integer (share W P e + 1)" "0 \<le> share W P e"
  using share_nonneg [of W P e] share_le_pool [of W ws P e] assms by (auto simp: is_safe_integer_def)

lemma base_of_draft:
  assumes "0 < W" "W = sum_list (map se_amount ws)" "0 \<le> P" "is_safe_integer (P + 1)"
    "\<forall>e\<in>set ws. valid_entry e" "d \<in> set (drafts_of W P ws)"
  shows "ad_baseWinnings d = share W P (ad_entry d)"
  using share_safe(1) [OF assms(1-5) entry_of_draft [OF assms(6)]] assms(6)
  by (auto simp: drafts_of_def allocationDraft_def Let_def share_def num_safe)

definition baseAllocations :: "int \<Rightarrow> int \<Rightarrow> SettlementEntry list \<Rightarrow> (string \<times> int) list" where
  "baseAllocations W P ws =
     fold (\<lambda>d. AList.update (se_id (ad_entry d)) (ad_baseWinnings d)) (drafts_of W P ws) []"

lemma baseAllocations_lookup:
  assumes "0 < W" "W = sum_list (map se_amount ws)" "0 \<le> P" "is_safe_integer (P + 1)"
    "\<forall>e\<in>set ws. valid_entry e" "distinct (map se_id ws)" "e \<in> set ws"
  shows "map_of (baseAllocations W P ws) (se_id e) = Some (share W P e)"
proof -
  obtain d where d: "d \<in> set (drafts_of W P ws)" "ad_entry d = e"
    using draft_of_entry [OF assms(7)] by blast
  have dist: "distinct (map (\<lambda>d. se_id (ad_entry d)) (drafts_of W P ws))"
    using assms(6) by (simp add: map_drafts)
  show ?thesis
    using find_key [OF dist d(1)] base_of_draft [OF assms(1-5) d(1)] d(2)
    by (simp add: baseAllocations_def fold_update_lookup [OF dist])
qed

lemma undistributed_eq:
  assumes "0 < W" "W = sum_list (map se_amount ws)" "0 \<le> P" "is_safe_integer (P + 1)"
    "\<forall>e\<in>set ws. valid_entry e"
  shows "js_sub P (fold (\<lambda>d sum. js_add sum (ad_baseWinnings d)) (drafts_of W P ws) 0) = leftover W P ws"
proof -
  let ?ds = "drafts_of W P ws" and ?S = "sum_list (map (share W P) ws)"
  note base = base_of_draft [OF assms]
  have lo: "0 \<le> leftover W P ws" using leftover_le_length [OF assms(1-3)] by simp
  have s0: "0 \<le> ?S" using share_safe(3) [OF assms] by (intro sum_list_nonneg) auto
  have "map ad_baseWinnings ?ds = map (\<lambda>d. share W P (ad_entry d)) ?ds" using base by simp
  then have bsum: "sum_list (map ad_baseWinnings ?ds) = ?S" by (simp only: map_drafts)
  have "\<forall>d\<in>set ?ds. 0 \<le> ad_baseWinnings d"
    using base entry_of_draft share_safe(3) [OF assms] by auto
  then have "fold (\<lambda>d sum. js_add sum (ad_baseWinnings d)) ?ds 0 = 0 + sum_list (map ad_baseWinnings ?ds)"
    using lo s0 assms(4) by (intro fold_js_add) (auto simp: bsum leftover_def is_safe_integer_def)
  then show ?thesis
    using lo s0 assms(4) by (auto simp: bsum leftover_def is_safe_integer_def intro!: js_sub_safe)
qed

text \<open>
  What \<open>allocatePrizePool\<close> computes: every winner gets the floor of its share and one unit more if
  it is among the first \<open>leftover\<close> entries in the order of remainders.
\<close>

lemma allocatePrizePool_lookup:
  assumes W: "0 < W" "W = sum_list (map se_amount ws)" and P: "0 \<le> P" "is_safe_integer (P + 1)"
    and ws: "\<forall>e\<in>set ws. valid_entry e" "distinct (map se_id ws)" and e: "e \<in> set ws"
  shows "map_of (allocatePrizePool rt ws W P) (se_id e) = Some (share W P e + bonus rt W P ws e)"
proof (cases "P = 0")
  case True
  then have "map_of (allocatePrizePool rt ws W P) (se_id e) = Some 0"
    using ws(2) e by (simp add: allocatePrizePool_def fold_update_lookup find_key)
  moreover have "leftover W P ws = 0" using True by (simp add: leftover_def)
  ultimately show ?thesis using True by (simp add: bonus_def favoured_def)
next
  case False
  let ?u = "leftover W P ws" and ?o = "remainderOrder rt W P ws" and ?al = "baseAllocations W P ws"
  note lo = leftover_le_length [OF W P(1)]
  note lk = baseAllocations_lookup [OF W P ws]
  have eq: "allocatePrizePool rt ws W P = distributeRemainder ?o ?u ?al"
    using False undistributed_eq [OF W P ws(1)]
    by (simp add: allocatePrizePool_def Let_def remainderOrder_def drafts_of_def baseAllocations_def)
  have "map_of (distributeRemainder ?o ?u ?al) (se_id e) =
      (if \<exists>d \<in> set (take (nat ?u) ?o). se_id (ad_entry d) = se_id e
       then Some ((case map_of ?al (se_id e) of None \<Rightarrow> 0 | Some v \<Rightarrow> v) + 1)
       else map_of ?al (se_id e))"
  proof (rule distributeRemainder_lookup)
    show "distinct (map (\<lambda>d. se_id (ad_entry d)) ?o)" "0 \<le> ?u"
      using ws(2) lo by (simp_all add: distinct_ids_remainderOrder)
    have "0 \<le> sum_list (map (share W P) ws)"
      using share_safe(3) [OF W P ws(1)] by (intro sum_list_nonneg) auto
    then show "is_safe_integer ?u" using lo P(2) by (auto simp: leftover_def is_safe_integer_def)
    fix d v
    assume d: "d \<in> set ?o" and v: "map_of ?al (se_id (ad_entry d)) = Some v"
    have "ad_entry d \<in> set ws" using d set_entries_remainderOrder by blast
    then show "is_safe_integer (v + 1)" using lk v share_safe(2) [OF W P ws(1)] by fastforce
  qed
  then show ?thesis by (auto simp: eq lk [OF e] bonus_def favoured_def image_iff)
qed

subsection \<open>The order of remainders\<close>

definition remainder_cmp :: "AllocationDraft \<Rightarrow> AllocationDraft \<Rightarrow> int" where
  "remainder_cmp l r =
     (if ad_remainder l = ad_remainder r then 0 else if ad_remainder l > ad_remainder r then - 1 else 1)"

definition placed_of :: "AllocationDraft \<Rightarrow> string" where
  "placed_of d = (case se_placedAt (ad_entry d) of None \<Rightarrow> '''' | Some s \<Rightarrow> s)"

lemma compareRemainderDrafts_lex:
  "compareRemainderDrafts rt =
     lex_cmp remainder_cmp
       (lex_cmp (\<lambda>l r. locale_compare rt (placed_of l) (placed_of r))
         (lex_cmp (\<lambda>l r. locale_compare rt (se_id (ad_entry l)) (se_id (ad_entry r)))
           (\<lambda>l r. int (ad_index l) - int (ad_index r))))"
  by (simp add: fun_eq_iff compareRemainderDrafts_def lex_cmp_def remainder_cmp_def placed_of_def Let_def)

lemma comparator_remainder: "comparator remainder_cmp"
  by (rule comparator.intro) (auto simp: remainder_cmp_def split: if_splits)

sublocale collation \<subseteq> drafts: comparator "compareRemainderDrafts rt"
  unfolding compareRemainderDrafts_lex
  by (intro comparator_lex comparator_remainder comparator_key [OF collate]
        comparator_key [OF int_cmp.comparator_axioms])

context collation
begin

lemma remainderOrder_sorted:
  "sorted_wrt (\<lambda>a b. ad_remainder b \<le> ad_remainder a) (remainderOrder rt W P ws)"
proof (rule sorted_wrt_mono_rel [OF _ drafts.sorted_sort_by [of "drafts_of W P ws", folded remainderOrder_def]])
  fix a b :: AllocationDraft
  assume "compareRemainderDrafts rt a b \<le> 0"
  then show "ad_remainder b \<le> ad_remainder a"
    by (auto simp: compareRemainderDrafts_def split: if_splits)
qed

end

lemma favoured_remainder:
  assumes W: "0 < W" "W = sum_list (map se_amount ws)" and P: "0 \<le> P"
    and so: "sorted_wrt (\<lambda>a b. ad_remainder b \<le> ad_remainder a) (remainderOrder rt W P ws)"
    and e: "e \<in> set (favoured rt W P ws)"
  shows "share_rem W P e \<noteq> 0"
proof
  let ?o = "remainderOrder rt W P ws" and ?u = "nat (leftover W P ws)"
  have rem: "ad_remainder d = share_rem W P (ad_entry d)" if "d \<in> set ?o" for d
    using that by (auto simp: remainderOrder_def drafts_of_def)
  assume z: "share_rem W P e = 0"
  obtain i where i: "i < ?u" "i < length ?o" "ad_entry (?o ! i) = e"
    using e by (auto simp: favoured_def in_set_conv_nth)
  have tail: "share_rem W P (ad_entry (?o ! j)) = 0" if "i \<le> j" "j < length ?o" for j
  proof (cases "i = j")
    case False
    then have "ad_remainder (?o ! j) \<le> ad_remainder (?o ! i)"
      using so that by (simp add: sorted_wrt_iff_nth_less)
    then show ?thesis
      using rem [of "?o ! i"] rem [of "?o ! j"] i that z share_rem_bounds [OF W(1)]
      by (metis nth_mem order_antisym)
  qed (use z i in simp)
  let ?nz = "\<lambda>e. share_rem W P e \<noteq> 0"
  have "filter ?nz (map ad_entry (drop i ?o)) = []"
    using tail by (fastforce simp: filter_empty_conv in_set_conv_nth)
  then have "filter ?nz (map ad_entry ?o) = filter ?nz (map ad_entry (take i ?o))"
    by (metis append_Nil2 append_take_drop_id filter_append map_append)
  moreover have "length (filter ?nz (map ad_entry (take i ?o))) \<le> length (map ad_entry (take i ?o))"
    by (rule length_filter_le)
  ultimately have "length (filter ?nz (map ad_entry ?o)) \<le> i" by simp
  moreover have "length (filter ?nz (map ad_entry ?o)) = length (filter ?nz ws)"
    by (metis mset_filter mset_remainderOrder size_mset)
  moreover have "?u \<le> length (filter ?nz ws)"
    using leftover_bounds(2) [OF W P] by (simp add: leftover_def)
  ultimately show False using i(1) by simp
qed

subsection \<open>Settlement\<close>

definition prize :: "Side \<Rightarrow> rat \<Rightarrow> SettlementEntry list \<Rightarrow> int" where
  "prize w r es =
     (let L = staked (other_side w) es in L - L * rake_bps r div 10000)"

definition winners :: "Side \<Rightarrow> SettlementEntry list \<Rightarrow> SettlementEntry list" where
  "winners w es = filter (\<lambda>e. se_side e = w) es"

definition winnings :: "js_runtime \<Rightarrow> Side \<Rightarrow> rat \<Rightarrow> SettlementEntry list \<Rightarrow> SettlementEntry \<Rightarrow> int" where
  "winnings rt w r es e =
     (let W = staked w es; P = prize w r es in share W P e + bonus rt W P (winners w es) e)"

definition paid :: "js_runtime \<Rightarrow> Side \<Rightarrow> rat \<Rightarrow> SettlementEntry list \<Rightarrow> SettlementEntry \<Rightarrow> int" where
  "paid rt w r es e = (if se_side e = w then se_amount e + winnings rt w r es e else 0)"

definition payout_of :: "js_runtime \<Rightarrow> Side \<Rightarrow> rat \<Rightarrow> SettlementEntry list \<Rightarrow> SettlementEntry \<Rightarrow> SettlementPayout" where
  "payout_of rt w r es e =
     \<lparr>sp_entryId = se_id e, sp_side = se_side e, sp_stake = se_amount e, sp_payout = paid rt w r es e\<rparr>"

text \<open>The inputs on which a pool settles: valid entries with distinct ids, a total that a double holds
  exactly, a stake on the winning side, a rake between 0 and 1.\<close>

definition settleable :: "SettlementEntry list \<Rightarrow> Side \<Rightarrow> rat \<Rightarrow> bool" where
  "settleable es w r \<longleftrightarrow>
     (\<forall>e\<in>set es. valid_entry e) \<and> distinct (map se_id es) \<and>
     is_safe_integer (sum_list (map se_amount es)) \<and> 0 < staked w es \<and> 0 \<le> r \<and> r \<le> 1"

lemma total_sides: "staked w es + staked (other_side w) es = sum_list (map se_amount es)"
  using staked_total [of es] by (cases w) auto

lemma settleable_facts:
  assumes "settleable es w r"
  shows "0 < staked w es" "staked w es = sum_list (map se_amount (winners w es))"
    "0 \<le> prize w r es" "prize w r es \<le> staked (other_side w) es" "is_safe_integer (prize w r es + 1)"
    "\<forall>e\<in>set (winners w es). valid_entry e" "distinct (map se_id (winners w es))"
    "0 \<le> staked (other_side w) es" "is_safe_integer (staked w es)" "is_safe_integer (staked (other_side w) es)"
proof -
  have v: "\<forall>e\<in>set es. valid_entry e" and d: "distinct (map se_id es)" and W: "0 < staked w es"
    and sf: "is_safe_integer (sum_list (map se_amount es))" and r: "0 \<le> r" "r \<le> 1"
    using assms by (auto simp: settleable_def)
  show "0 < staked w es" by (rule W)
  show "staked w es = sum_list (map se_amount (winners w es))" by (simp add: staked_def winners_def)
  show L: "0 \<le> staked (other_side w) es" using v by (rule staked_nonneg)
  note rk = rake_share_bounds [OF L r]
  show P: "0 \<le> prize w r es" "prize w r es \<le> staked (other_side w) es"
    using rk by (simp_all add: prize_def Let_def)
  show "is_safe_integer (prize w r es + 1)" "is_safe_integer (staked w es)"
    "is_safe_integer (staked (other_side w) es)"
    using P W L sf total_sides [of w es] by (auto simp: is_safe_integer_def)
  show "\<forall>e\<in>set (winners w es). valid_entry e" using v by (simp add: winners_def)
  show "distinct (map se_id (winners w es))"
    using d unfolding winners_def by (rule distinct_map_filter)
qed

lemma winnings_sum:
  assumes "settleable es w r"
  shows "sum_list (map (winnings rt w r es) (winners w es)) = prize w r es"
proof -
  note f = settleable_facts [OF assms]
  have "sum_list (map (winnings rt w r es) (winners w es)) =
      sum_list (map (share (staked w es) (prize w r es)) (winners w es)) +
      sum_list (map (bonus rt (staked w es) (prize w r es) (winners w es)) (winners w es))"
    by (simp add: winnings_def [abs_def] Let_def sum_list_addf)
  also have "\<dots> = prize w r es"
    using bonus_sum [OF f(1-3,7)] by (simp add: leftover_def)
  finally show ?thesis .
qed

lemma winnings_bounds:
  assumes "settleable es w r" "e \<in> set (winners w es)"
  shows "0 \<le> winnings rt w r es e" "winnings rt w r es e \<le> prize w r es"
proof -
  note f = settleable_facts [OF assms(1)]
  have nn: "0 \<le> winnings rt w r es x" if "x \<in> set (winners w es)" for x
    using share_nonneg [OF f(1,3)] f(6) that by (auto simp: winnings_def Let_def bonus_def)
  show "0 \<le> winnings rt w r es e" by (rule nn [OF assms(2)])
  have "winnings rt w r es e \<le> sum_list (map (winnings rt w r es) (winners w es))"
    using nn assms(2) by (intro member_le_sum_list) auto
  then show "winnings rt w r es e \<le> prize w r es" by (simp add: winnings_sum [OF assms(1)])
qed

lemma amount_le_staked:
  assumes "settleable es w r" "e \<in> set (winners w es)"
  shows "se_amount e \<le> staked w es"
  using settleable_facts(2,6) [OF assms(1)] assms(2)
  by (auto simp: valid_entry_def less_imp_le intro!: member_le_sum_list)

lemma winningPayout_eq:
  assumes "settleable es w r" "e \<in> set (winners w es)"
  shows "winningPayout (allocatePrizePool rt (winners w es) (staked w es) (prize w r es)) e
    = payout_of rt w r es e"
proof -
  note f = settleable_facts [OF assms(1)]
  have lk: "map_of (allocatePrizePool rt (winners w es) (staked w es) (prize w r es)) (se_id e) =
      Some (winnings rt w r es e)"
    using allocatePrizePool_lookup [OF f(1-3,5-7) assms(2)] by (simp add: winnings_def Let_def)
  have "0 < se_amount e" using f(6) assms(2) by (auto simp: valid_entry_def)
  moreover have "is_safe_integer (staked w es + staked (other_side w) es)"
    using assms(1) by (simp add: settleable_def total_sides)
  ultimately have "is_safe_integer (se_amount e + winnings rt w r es e)"
    using winnings_bounds [OF assms, of rt] amount_le_staked [OF assms] f(4)
    by (auto simp: is_safe_integer_def)
  moreover have "se_side e = w" using assms(2) by (simp add: winners_def)
  ultimately show ?thesis
    by (simp add: winningPayout_def payout_of_def paid_def lk js_add_safe)
qed

lemma settle_result:
  assumes s: "settleable es w r"
  shows "settleParimutuel rt es w (Fin r) = Inr
    \<lparr>pr_kind = KindSettled, pr_outcome = w,
     pr_totals = \<lparr>yes = staked Yes es, no = staked No es\<rparr>,
     pr_totalStaked = sum_list (map se_amount es),
     pr_rakeAmount = staked (other_side w) es - prize w r es,
     pr_prizePool = prize w r es,
     pr_payouts = sort_by (\<lambda>l r. locale_compare rt (sp_entryId l) (sp_entryId r))
       (map (payout_of rt w r es) (winners w es) @
        map (payout_of rt w r es) (filter (\<lambda>e. se_side e \<noteq> w) es))\<rparr>"
proof -
  note f = settleable_facts [OF s]
  have v: "\<forall>e\<in>set es. valid_entry e" and r: "0 \<le> r" "r \<le> 1"
    and sf: "is_safe_integer (sum_list (map se_amount es))"
    using s by (auto simp: settleable_def)
  have ne: "es \<noteq> []" using f(1) by auto
  have tot: "calculatePoolTotals es = Inr \<lparr>yes = staked Yes es, no = staked No es\<rparr>"
    using v f(9,10) by (cases w) (auto simp: calculatePoolTotals_Inr)
  let ?L = "staked (other_side w) es"
  have rk: "calculateRakeAmount ?L (Fin r) = Inr (?L - prize w r es)"
    using f(8,10) r by (auto simp: calculateRakeAmount_Inr prize_def Let_def)
  have lose: "(if w = Yes then no \<lparr>yes = staked Yes es, no = staked No es\<rparr>
      else yes \<lparr>yes = staked Yes es, no = staked No es\<rparr>) = ?L"
    by (cases w) auto
  have win: "totals_of \<lparr>yes = staked Yes es, no = staked No es\<rparr> w = staked w es"
    by (cases w) (auto simp: totals_of_def)
  have P: "js_sub ?L (?L - prize w r es) = prize w r es"
    using f(3,4,5) by (subst js_sub_safe) (auto simp: is_safe_integer_def)
  have total: "js_add (staked Yes es) (staked No es) = sum_list (map se_amount es)"
    using sf staked_total [of es] by (simp add: js_add_safe)
  have pw: "map (winningPayout (allocatePrizePool rt (winners w es) (staked w es) (prize w r es))) (winners w es)
      = map (payout_of rt w r es) (winners w es)"
    using winningPayout_eq [OF s] by simp
  have pl: "map losingPayout (filter (\<lambda>e. se_side e \<noteq> w) es) = map (payout_of rt w r es) (filter (\<lambda>e. se_side e \<noteq> w) es)"
    by (simp add: losingPayout_def payout_of_def paid_def)
  have vm: "mapM validateEntry es = Inr es" using v by (simp add: mapM_validate_Inr)
  show ?thesis
    using ne f(1)
    by (simp add: settleParimutuel_def vm tot Let_def win lose rk P total pw pl winners_def [symmetric]
        split del: if_split)
qed

lemma paid_sum:
  assumes "settleable es w r"
  shows "sum_list (map (paid rt w r es) es) = staked w es + prize w r es"
proof -
  have "sum_list (map (paid rt w r es) es) =
      sum_list (map (\<lambda>e. se_amount e + winnings rt w r es e) (winners w es))"
    unfolding winners_def sum_list_map_filter' paid_def ..
  also have "\<dots> = staked w es + prize w r es"
    by (simp add: sum_list_addf winnings_sum [OF assms] settleable_facts(2) [OF assms])
  finally show ?thesis .
qed

lemma mset_winners_losers: "mset (winners w es @ filter (\<lambda>e. se_side e \<noteq> w) es) = mset es"
  by (simp add: winners_def multiset_partition [symmetric])

lemma settle_payouts_mset:
  assumes "settleable es w r" "settleParimutuel rt es w (Fin r) = Inr res"
  shows "mset (pr_payouts res) = image_mset (payout_of rt w r es) (mset es)"
proof -
  have "mset (pr_payouts res) = mset (map (payout_of rt w r es) (winners w es @ filter (\<lambda>e. se_side e \<noteq> w) es))"
    using settle_result [OF assms(1), of rt] assms(2) by auto
  also have "\<dots> = image_mset (payout_of rt w r es) (mset es)"
    by (simp only: mset_map mset_winners_losers)
  finally show ?thesis .
qed

lemma settle_payouts_set:
  assumes "settleable es w r" "settleParimutuel rt es w (Fin r) = Inr res"
  shows "set (pr_payouts res) = payout_of rt w r es ` set es"
  using arg_cong [OF settle_payouts_mset [OF assms], of set_mset] by simp

text \<open>
  C1: On every settleable pool \<open>settleParimutuel\<close> returns a settlement, and no minor unit is
  created or lost: the pay-outs and the rake together are exactly the total stake.
\<close>

theorem settleParimutuel_conserves:
  assumes "settleable es w r"
  shows "\<exists>res. settleParimutuel rt es w (Fin r) = Inr res \<and> pr_kind res = KindSettled \<and>
    sum_list (map sp_payout (pr_payouts res)) + pr_rakeAmount res = pr_totalStaked res \<and>
    pr_totalStaked res = sum_list (map se_amount es)"
proof -
  obtain res where res: "settleParimutuel rt es w (Fin r) = Inr res" "pr_kind res = KindSettled"
    "pr_totalStaked res = sum_list (map se_amount es)"
    "pr_rakeAmount res = staked (other_side w) es - prize w r es"
    using settle_result [OF assms] by (metis ParimutuelSettlementResult.select_convs(1,4,5))
  have "sum_list (map sp_payout (pr_payouts res)) = sum_list (map (paid rt w r es) es)"
    using settle_payouts_mset [OF assms res(1)]
    by (metis (no_types, lifting) SettlementPayout.select_convs(4) image_mset.compositionality
        multiset.map_cong0 mset_map payout_of_def sum_mset_sum_list comp_apply)
  then show ?thesis
    using res paid_sum [OF assms, of rt] total_sides [of w es] by (intro exI [of _ res]) simp
qed

definition example_entries :: "SettlementEntry list" where
  "example_entries =
     [\<lparr>se_id = ''a'', se_side = Yes, se_amount = 100, se_placedAt = Some ''2026-01-01T00:00:00.000Z''\<rparr>,
      \<lparr>se_id = ''b'', se_side = Yes, se_amount = 50, se_placedAt = None\<rparr>,
      \<lparr>se_id = ''c'', se_side = No, se_amount = 102, se_placedAt = None\<rparr>]"

lemma settleable_example: "settleable example_entries Yes (1 / 40)"
  by (simp add: settleable_def example_entries_def valid_entry_def is_safe_integer_def
      max_safe_integer_def)

theorem settleParimutuel_conserves_witness:
  "\<exists>res. settleParimutuel ref_runtime example_entries Yes (Fin (1 / 40)) = Inr res \<and>
    pr_kind res = KindSettled \<and>
    sum_list (map sp_payout (pr_payouts res)) + pr_rakeAmount res = pr_totalStaked res \<and>
    pr_totalStaked res = sum_list (map se_amount example_entries)"
  by (rule settleParimutuel_conserves [OF settleable_example])

text \<open>The pay-out record of an entry, and how far it is from the exact share.\<close>

lemma payout_record:
  assumes "settleable es w r" "settleParimutuel rt es w (Fin r) = Inr res" "e \<in> set es"
  shows "payout_of rt w r es e \<in> set (pr_payouts res)"
  using settle_payouts_mset [OF assms(1,2)] assms(3)
  by (metis image_eqI set_image_mset set_mset_mset)

lemma share_floor: "share W P e = \<lfloor>of_int (se_amount e * P) / (of_int W :: rat)\<rfloor>"
  by (simp only: share_def floor_divide_of_int_eq)

lemma share_ceiling:
  assumes "0 < W" "share_rem W P e \<noteq> 0"
  shows "share W P e + 1 = \<lceil>of_int (se_amount e * P) / (of_int W :: rat)\<rceil>"
  using assms unfolding ceiling_divide_eq_div
  by (simp add: zdiv_zminus1_eq_if share_def share_rem_def)

lemma share_le_ceiling: "0 < W \<Longrightarrow> share W P e \<le> \<lceil>of_int (se_amount e * P) / (of_int W :: rat)\<rceil>"
  unfolding share_floor by (rule floor_le_ceiling)

context collation
begin

lemma winnings_quota:
  assumes s: "settleable es w r" and e: "e \<in> set (winners w es)"
  shows "\<lfloor>of_int (se_amount e * prize w r es) / (of_int (staked w es) :: rat)\<rfloor> \<le> winnings rt w r es e"
    "winnings rt w r es e \<le> \<lceil>of_int (se_amount e * prize w r es) / (of_int (staked w es) :: rat)\<rceil>"
proof -
  note f = settleable_facts [OF s]
  let ?W = "staked w es" and ?P = "prize w r es" and ?ws = "winners w es"
  show "\<lfloor>of_int (se_amount e * ?P) / (of_int ?W :: rat)\<rfloor> \<le> winnings rt w r es e"
    unfolding share_floor [symmetric] by (simp add: winnings_def Let_def bonus_def)
  show "winnings rt w r es e \<le> \<lceil>of_int (se_amount e * ?P) / (of_int ?W :: rat)\<rceil>"
  proof (cases "se_id e \<in> set (map se_id (favoured rt ?W ?P ?ws))")
    case True
    then obtain e' where e': "e' \<in> set (favoured rt ?W ?P ?ws)" "se_id e' = se_id e" by auto
    have "e' = e"
      using e' set_favoured e f(7) by (metis distinct_map inj_onD subsetD)
    then have "share_rem ?W ?P e \<noteq> 0"
      using favoured_remainder [OF f(1-3) remainderOrder_sorted] e'(1) by simp
    then show ?thesis
      using share_ceiling [OF f(1), of ?P e] True by (auto simp: winnings_def Let_def bonus_def)
  next
    case False
    then show ?thesis
      using share_le_ceiling [OF f(1), of ?P e] by (simp add: winnings_def Let_def bonus_def)
  qed
qed

lemma favoured_larger_remainder:
  assumes e: "e \<in> set (favoured rt W P ws)" and e': "e' \<in> set ws" "e' \<notin> set (favoured rt W P ws)"
  shows "share_rem W P e' \<le> share_rem W P e"
proof -
  let ?o = "remainderOrder rt W P ws" and ?u = "nat (leftover W P ws)"
  have rem: "ad_remainder d = share_rem W P (ad_entry d)" if "d \<in> set ?o" for d
    using that by (auto simp: remainderOrder_def drafts_of_def)
  obtain d where d: "d \<in> set (take ?u ?o)" "ad_entry d = e" using e by (auto simp: favoured_def)
  have "e' \<in> ad_entry ` set ?o" using e'(1) by simp
  then obtain d' where d': "d' \<in> set ?o" "ad_entry d' = e'" by (metis imageE)
  have "d' \<in> set (drop ?u ?o)"
    using d' e'(2) by (metis (no_types, lifting) append_take_drop_id favoured_def imageI set_append
        set_map Un_iff)
  then have "ad_remainder d' \<le> ad_remainder d"
    using remainderOrder_sorted [of W P ws] d(1)
    by (metis append_take_drop_id sorted_wrt_append)
  then show ?thesis
    using rem d d' by (metis in_set_takeD)
qed

end

text \<open>
  C17: Every entry has its pay-out record; a loser gets nothing, a winner gets its stake back plus
  its share \<open>amount * prizePool / winPool\<close> of the losing side's money rounded down or up, never
  further off.
\<close>

theorem settleParimutuel_quota:
  assumes s: "settleable es w r" and c: "collation rt"
    and res: "settleParimutuel rt es w (Fin r) = Inr res" and e: "e \<in> set es"
  shows "\<exists>p \<in> set (pr_payouts res). sp_entryId p = se_id e \<and> sp_stake p = se_amount e \<and>
    (if se_side e = w
     then \<lfloor>of_int (se_amount e * pr_prizePool res) / (of_int (totals_of (pr_totals res) w) :: rat)\<rfloor>
            \<le> sp_payout p - se_amount e \<and>
          sp_payout p - se_amount e
            \<le> \<lceil>of_int (se_amount e * pr_prizePool res) / (of_int (totals_of (pr_totals res) w) :: rat)\<rceil>
     else sp_payout p = 0)"
proof -
  have f: "pr_prizePool res = prize w r es" "totals_of (pr_totals res) w = staked w es"
    using settle_result [OF s, of rt] res by (cases w; auto simp: totals_of_def)+
  have q: "se_side e = w \<Longrightarrow> e \<in> set (winners w es)" using e by (simp add: winners_def)
  show ?thesis
    using payout_record [OF s res e] collation.winnings_quota [OF c s q]
    by (intro bexI [of _ "payout_of rt w r es e"]) (auto simp: payout_of_def paid_def f)
qed

theorem settleParimutuel_quota_witness:
  "\<exists>res e. settleParimutuel ref_runtime example_entries Yes (Fin (1 / 40)) = Inr res \<and>
     e \<in> set example_entries \<and> se_side e = Yes \<and>
     (\<exists>p \<in> set (pr_payouts res). sp_entryId p = se_id e \<and>
        \<lfloor>of_int (se_amount e * pr_prizePool res) / (of_int (totals_of (pr_totals res) Yes) :: rat)\<rfloor>
          \<le> sp_payout p - se_amount e)"
proof -
  obtain res where res: "settleParimutuel ref_runtime example_entries Yes (Fin (1 / 40)) = Inr res"
    using settle_result [OF settleable_example] by blast
  have e: "hd example_entries \<in> set example_entries" "se_side (hd example_entries) = Yes"
    by (simp_all add: example_entries_def)
  show ?thesis
    using settleParimutuel_quota [OF settleable_example ref_collation.collation_axioms res e(1)] res e
    by auto
qed

text \<open>
  C18: The units left over by rounding down go to the largest remainders: a winner who is rounded
  up has at least the remainder of every winner who is not.
\<close>

theorem settleParimutuel_largest_remainder:
  assumes s: "settleable es w r" and c: "collation rt"
    and res: "settleParimutuel rt es w (Fin r) = Inr res"
    and e: "e \<in> set es" "se_side e = w" "p \<in> set (pr_payouts res)" "sp_entryId p = se_id e"
      "sp_payout p - se_amount e > se_amount e * pr_prizePool res div totals_of (pr_totals res) w"
    and e': "e' \<in> set es" "se_side e' = w" "p' \<in> set (pr_payouts res)" "sp_entryId p' = se_id e'"
      "sp_payout p' - se_amount e' = se_amount e' * pr_prizePool res div totals_of (pr_totals res) w"
  shows "se_amount e' * pr_prizePool res mod totals_of (pr_totals res) w
    \<le> se_amount e * pr_prizePool res mod totals_of (pr_totals res) w"
proof -
  let ?W = "staked w es" and ?P = "prize w r es" and ?ws = "winners w es"
  have f: "pr_prizePool res = ?P" "totals_of (pr_totals res) w = ?W"
    using settle_result [OF s, of rt] res by (cases w; auto simp: totals_of_def)+
  have inj: "inj_on se_id (set es)" using s by (auto simp: settleable_def distinct_map)
  have pay: "q = payout_of rt w r es x"
    if q: "q \<in> set (pr_payouts res)" "sp_entryId q = se_id x" "x \<in> set es" for q x
  proof -
    obtain y where y: "y \<in> set es" "q = payout_of rt w r es y"
      using settle_payouts_set [OF s res] q(1) by auto
    then have "se_id y = se_id x" using q(2) by (simp add: payout_of_def)
    then have "y = x" using inj_onD [OF inj _ y(1) q(3)] by simp
    then show ?thesis using y(2) by simp
  qed
  have "sp_payout p - se_amount e = share ?W ?P e + bonus rt ?W ?P ?ws e"
    "sp_payout p' - se_amount e' = share ?W ?P e' + bonus rt ?W ?P ?ws e'"
    using e(2) e'(2) unfolding pay [OF e(3,4,1)] pay [OF e'(3,4,1)]
    by (simp_all add: payout_of_def paid_def winnings_def Let_def)
  then have "bonus rt ?W ?P ?ws e \<noteq> 0" "bonus rt ?W ?P ?ws e' = 0"
    using e(5) e'(5) unfolding f share_def by linarith+
  then have ef: "se_id e \<in> se_id ` set (favoured rt ?W ?P ?ws)"
    and e'f: "se_id e' \<notin> se_id ` set (favoured rt ?W ?P ?ws)"
    unfolding bonus_def set_map by (metis, metis zero_neq_one)
  then have "e' \<notin> set (favoured rt ?W ?P ?ws)" by blast
  moreover have "e \<in> set (favoured rt ?W ?P ?ws)" 
  proof -
    obtain x where x: "x \<in> set (favoured rt ?W ?P ?ws)" "se_id x = se_id e" using ef by (metis imageE)
    have "x \<in> set es" using set_favoured [of rt ?W ?P ?ws] x(1) by (auto simp: winners_def)
    then have "x = e" using inj_onD [OF inj x(2) _ e(1)] by simp
    then show ?thesis using x(1) by simp
  qed
  moreover have "e' \<in> set ?ws" using e' by (simp add: winners_def)
  ultimately have "share_rem ?W ?P e' \<le> share_rem ?W ?P e"
    by (intro collation.favoured_larger_remainder [OF c])
  then show ?thesis by (simp add: share_rem_def f)
qed

definition example_settlement :: ParimutuelSettlementResult where
  "example_settlement =
     \<lparr>pr_kind = KindSettled, pr_outcome = Yes, pr_totals = \<lparr>yes = 150, no = 102\<rparr>,
      pr_totalStaked = 252, pr_rakeAmount = 2, pr_prizePool = 100,
      pr_payouts =
        [\<lparr>sp_entryId = ''a'', sp_side = Yes, sp_stake = 100, sp_payout = 167\<rparr>,
         \<lparr>sp_entryId = ''b'', sp_side = Yes, sp_stake = 50, sp_payout = 83\<rparr>,
         \<lparr>sp_entryId = ''c'', sp_side = No, sp_stake = 102, sp_payout = 0\<rparr>]\<rparr>"

lemma settle_example:
  "settleParimutuel ref_runtime example_entries Yes (Fin (1 / 40)) = Inr example_settlement"
  by code_simp

theorem settleParimutuel_largest_remainder_witness:
  "se_amount (example_entries ! 1) * pr_prizePool example_settlement mod
     totals_of (pr_totals example_settlement) Yes
   \<le> se_amount (example_entries ! 0) * pr_prizePool example_settlement mod
     totals_of (pr_totals example_settlement) Yes"
  by (rule settleParimutuel_largest_remainder [OF settleable_example ref_collation.collation_axioms
        settle_example, where p = "pr_payouts example_settlement ! 0"
          and p' = "pr_payouts example_settlement ! 1"])
    (simp_all add: example_entries_def example_settlement_def totals_of_def)

text \<open>When the settlement succeeds, and with which kind.\<close>

definition settle_input :: "SettlementEntry list \<Rightarrow> bool" where
  "settle_input es \<longleftrightarrow>
     list_all valid_entry es \<and> is_safe_integer (staked Yes es) \<and> is_safe_integer (staked No es)"

lemma settle_unfold:
  assumes "es \<noteq> []"
  shows "settleParimutuel rt es w rake = Inr res \<longleftrightarrow>
    settle_input es \<and>
    (if staked w es = 0
     then res = \<lparr>pr_kind = KindVoidRequired, pr_outcome = w,
       pr_totals = \<lparr>yes = staked Yes es, no = staked No es\<rparr>,
       pr_totalStaked = js_add (staked Yes es) (staked No es), pr_rakeAmount = 0, pr_prizePool = 0,
       pr_payouts = map losingPayout es\<rparr>
     else \<exists>r. rake = Fin r \<and> 0 \<le> r \<and> r \<le> 1 \<and>
       res = \<lparr>pr_kind = KindSettled, pr_outcome = w,
         pr_totals = \<lparr>yes = staked Yes es, no = staked No es\<rparr>,
         pr_totalStaked = js_add (staked Yes es) (staked No es),
         pr_rakeAmount = staked (other_side w) es * rake_bps r div 10000,
         pr_prizePool = js_sub (staked (other_side w) es) (staked (other_side w) es * rake_bps r div 10000),
         pr_payouts = sort_by (\<lambda>l r. locale_compare rt (sp_entryId l) (sp_entryId r))
           (map (winningPayout (allocatePrizePool rt (winners w es) (staked w es)
              (js_sub (staked (other_side w) es) (staked (other_side w) es * rake_bps r div 10000))))
              (winners w es) @ map losingPayout (filter (\<lambda>e. se_side e \<noteq> w) es))\<rparr>)"
proof (cases "settle_input es")
  case True
  then have v: "\<forall>e\<in>set es. valid_entry e" and sf: "is_safe_integer (staked Yes es)" "is_safe_integer (staked No es)"
    by (auto simp: settle_input_def list_all_iff)
  let ?t = "\<lparr>yes = staked Yes es, no = staked No es\<rparr>"
  have tot: "calculatePoolTotals es = Inr ?t" using v sf by (simp add: calculatePoolTotals_Inr)
  have vm: "mapM validateEntry es = Inr es" using v by (simp add: mapM_validate_Inr)
  have lose: "(if w = Yes then no ?t else yes ?t) = staked (other_side w) es" by (cases w) auto
  have win: "totals_of ?t w = staked w es" by (cases w) (auto simp: totals_of_def)
  have L: "is_safe_integer (staked (other_side w) es)" "0 \<le> staked (other_side w) es"
    using sf staked_nonneg [OF v] by (cases w; simp)+
  show ?thesis
    using assms True L
    by (auto simp: settleParimutuel_def vm tot Let_def win lose winners_def [symmetric]
        rbind_eq_Inr calculateRakeAmount_Inr)
next
  case False
  then have "\<nexists>t. calculatePoolTotals es = Inr t"
    by (auto simp: calculatePoolTotals_Inr settle_input_def list_all_iff)
  then show ?thesis
    using assms False by (auto simp: settleParimutuel_def rbind_eq_Inr mapM_validate_Inr)
qed

lemma settle_input_staked_pos: "settle_input es \<Longrightarrow> staked w es \<noteq> 0 \<longleftrightarrow> 0 < staked w es"
  using staked_nonneg [of es w] by (auto simp: settle_input_def list_all_iff)

text \<open>
  C19: \<open>settleParimutuel\<close> throws on exactly these inputs: an entry that is not a positive safe
  amount, a side whose total a double cannot hold, or (when somebody backed the winner) a rake
  that is not a finite fraction.  It asks for a void exactly if nobody backed the winning side,
  and settles otherwise.
\<close>

theorem settleParimutuel_cases:
  "(case settleParimutuel rt es w rake of
      Inl e \<Rightarrow> es \<noteq> [] \<and> \<not> (settle_input es \<and>
        (staked w es = 0 \<or> (\<exists>r. rake = Fin r \<and> 0 \<le> r \<and> r \<le> 1)))
    | Inr res \<Rightarrow>
        (if pr_kind res = KindVoidRequired
         then (es = [] \<or> settle_input es) \<and> staked w es = 0 \<and> pr_rakeAmount res = 0 \<and>
           list_all (\<lambda>p. sp_payout p = 0) (pr_payouts res)
         else settle_input es \<and> 0 < staked w es \<and> (\<exists>r. rake = Fin r \<and> 0 \<le> r \<and> r \<le> 1)))"
proof (cases "es = []")
  case True
  then show ?thesis by (simp add: settleParimutuel_def)
next
  case False
  note u = settle_unfold [OF False, of rt w rake]
  show ?thesis
  proof (cases "settleParimutuel rt es w rake")
    case (Inl e)
    then have "\<nexists>res. settleParimutuel rt es w rake = Inr res" by simp
    then show ?thesis unfolding u using False Inl by (auto split: if_splits)
  next
    case (Inr res)
    then show ?thesis
      using u [of res] settle_input_staked_pos [of es w]
      by (auto simp: list_all_iff losingPayout_def split: if_splits)
  qed
qed

text \<open>
  A rake written as a number of basis points (the double nearest to \<open>k / 10000\<close>) is applied
  exactly, whatever the rounding of \<open>rake * 10000\<close>: the house takes \<open>losingPool * k / 10000\<close>
  rounded down.
\<close>

theorem calculateRakeAmount_basis_points:
  assumes "0 \<le> k" "k \<le> 10000" "is_safe_integer lp" "0 \<le> lp"
  shows "calculateRakeAmount lp (Fin (fl (of_int k / 10000))) = Inr (lp * k div 10000)"
proof -
  let ?x = "of_int k / 10000 :: rat" and ?r = "fl (of_int k / 10000)"
  have x: "0 \<le> ?x" "?x \<le> 1" using assms(1,2) by auto
  have r: "0 \<le> ?r" "?r \<le> 1"
    using fl_ge_int [of ?x 0] fl_le_int [of ?x 1] x by auto
  have "\<bar>?r - ?x\<bar> \<le> 1 / (2 * 2 ^ 52)" using x by (intro fl_error) auto
  also have "\<dots> < 1 / 40000" by simp
  finally have "\<bar>?r - ?x\<bar> < 1 / 40000" .
  moreover have "\<bar>fl (?r * 10000) - ?r * 10000\<bar> \<le> 1 / 4"
    using fl_error [of "?r * 10000" 1] r by simp
  ultimately have "fl (?r * 10000) - of_int k < 1 / 2" "of_int k - fl (?r * 10000) < 1 / 2"
    unfolding abs_less_iff abs_le_iff by (auto simp: field_simps)
  then have "rake_bps ?r = k" unfolding rake_bps_def js_round_def by (intro floor_unique) linarith+
  then show ?thesis using assms r by (auto simp: calculateRakeAmount_Inr)
qed

theorem calculateRakeAmount_basis_points_witness:
  "calculateRakeAmount 102 (Fin (fl (of_int 250 / 10000))) = Inr (102 * 250 div 10000)"
  by (rule calculateRakeAmount_basis_points) (simp_all add: is_safe_integer_def max_safe_integer_def)

text \<open>
  C20: The preview is honest: if the pool closes right after an entry was previewed and placed,
  and the entry's side wins, the settlement pays the previewed amount or one minor unit more.
\<close>

theorem previewPayout_settlement:
  assumes s: "settleable (es @ [e]) (se_side e) r"
    and res: "settleParimutuel rt (es @ [e]) (se_side e) (Fin r) = Inr res"
    and p: "p \<in> set (pr_payouts res)" "sp_entryId p = se_id e"
  shows "\<exists>v. previewPayout \<lparr>yes = staked Yes es, no = staked No es\<rparr> (se_side e) (se_amount e) (Fin r) = Inr v
    \<and> (sp_payout p = v \<or> sp_payout p = v + 1)"
proof -
  let ?w = "se_side e" and ?es = "es @ [e]"
  let ?W = "staked ?w ?es" and ?P = "prize ?w r ?es" and ?L = "staked (other_side ?w) ?es"
  let ?t = "\<lparr>yes = staked Yes es, no = staked No es\<rparr>"
  note f = settleable_facts [OF s]
  have v: "\<forall>x\<in>set es. valid_entry x" "valid_entry e" and r: "0 \<le> r" "r \<le> 1"
    and inj: "inj_on se_id (set ?es)"
    using s by (auto simp: settleable_def distinct_map)
  have ew: "e \<in> set (winners ?w ?es)" by (simp add: winners_def)
  have pay: "sp_payout p = se_amount e + (share ?W ?P e + bonus rt ?W ?P (winners ?w ?es) e)"
  proof -
    obtain y where y: "y \<in> set ?es" "p = payout_of rt ?w r ?es y"
      using settle_payouts_set [OF s res] p(1) by auto
    then have "se_id y = se_id e" using p(2) by (simp add: payout_of_def)
    then have "y = e" using inj_onD [OF inj _ y(1)] by simp
    then show ?thesis using y(2) by (simp add: payout_of_def paid_def winnings_def Let_def)
  qed
  have nn: "0 \<le> staked s es" for s using v(1) by (rule staked_nonneg)
  have W: "?W = staked ?w es + se_amount e" and L: "?L = staked (other_side ?w) es" by simp_all
  have sf: "is_safe_integer (staked ?w es)" "is_safe_integer (staked (other_side ?w) es)"
    using f(9,10) nn [of ?w] v(2) by (auto simp: is_safe_integer_def valid_entry_def)
  have rk: "calculateRakeAmount ?L (Fin r) = Inr (?L - ?P)"
    using f(8,10) r by (auto simp: calculateRakeAmount_Inr prize_def Let_def)
  have P: "js_sub ?L (?L - ?P) = ?P"
    using f(3,4,5) by (subst js_sub_safe) (auto simp: is_safe_integer_def)
  have sh: "is_safe_integer (share ?W ?P e)" "0 \<le> share ?W ?P e"
    using share_safe [OF f(1,2,3,5,6) ew] by auto
  have sm: "is_safe_integer (se_amount e + share ?W ?P e)"
  proof (rule is_safe_between)
    show "0 \<le> se_amount e + share ?W ?P e" using sh v(2) by (simp add: valid_entry_def)
    show "se_amount e + share ?W ?P e \<le> sum_list (map se_amount ?es)"
      using amount_le_staked [OF s ew] share_le_pool [OF f(1,2,3,6) ew] f(4) total_sides [of ?w ?es]
      by linarith
    show "is_safe_integer (sum_list (map se_amount ?es))" using s by (simp add: settleable_def)
  qed
  have pools: "is_safe_integer (staked s es)" for s using sf by (cases s; cases ?w) auto
  have "previewPayout ?t ?w (se_amount e) (Fin r) =
      (if ?L = 0 then Inr (se_amount e) else Inr (se_amount e + share ?W ?P e))"
    using rk P sh sm f(9) sf nn v(2) pools
    by (cases "se_side e")
      (simp_all add: previewPayout_def Let_def valid_entry_def totals_of_def js_add_safe assertSafe_ok
        assertPositiveMinorUnits_def num_safe share_def js_add_def)
  moreover have "share ?W ?P e = 0" "bonus rt ?W ?P (winners ?w ?es) e = 0" if "?L = 0"
  proof -
    have "?P = 0" using that f(3,4) by simp
    then show "share ?W ?P e = 0" "bonus rt ?W ?P (winners ?w ?es) e = 0"
      by (simp_all add: bonus_def favoured_def leftover_def)
  qed
  ultimately show ?thesis using pay by (auto simp: bonus_def)
qed

theorem previewPayout_settlement_witness:
  "\<exists>v. previewPayout \<lparr>yes = staked Yes (take 2 example_entries), no = staked No (take 2 example_entries)\<rparr>
     No 102 (Fin (1 / 40)) = Inr v \<and> 0 < v"
proof -
  let ?es = "take 2 example_entries" and ?e = "example_entries ! 2"
  have eq: "?es @ [?e] = example_entries" "se_side ?e = No" "se_amount ?e = 102"
    by (simp_all add: example_entries_def)
  have s: "settleable (?es @ [?e]) (se_side ?e) (1 / 40)"
    by (simp add: settleable_def example_entries_def valid_entry_def is_safe_integer_def max_safe_integer_def)
  obtain res where res: "settleParimutuel ref_runtime (?es @ [?e]) (se_side ?e) (Fin (1 / 40)) = Inr res"
    using settle_result [OF s] by blast
  have p: "payout_of ref_runtime (se_side ?e) (1 / 40) (?es @ [?e]) ?e \<in> set (pr_payouts res)"
    using settle_payouts_set [OF s res] by simp
  have w: "?e \<in> set (winners (se_side ?e) (?es @ [?e]))" by (simp add: winners_def)
  show ?thesis
    using previewPayout_settlement [OF s res p] winnings_bounds [OF s w, of ref_runtime] eq
    by (auto simp: payout_of_def paid_def)
qed

end
