(* ===== verification/ResolutionRoute.thy ===== *)
theory ResolutionRoute
  imports DotCastTypes
begin

text \<open>
  The classification of resolution routes (\<open>src/engine/dotcast/ResolutionRouter.ts\<close>): the
  configuration read from the environment, the classifier, the preparation of the route of a new
  pool, the gate that keeps real money off routes that are not locked, the confidence gate of
  the perception model, and the operator's review.

  A function that takes \<open>now?: string\<close> falls back to \<open>new Date().toISOString()\<close>: the definitions
  have an argument \<open>clock\<close> for that value.
\<close>

subsection \<open>Configuration\<close>

record DotCastResolutionRouterEnv =
  env_enabled :: "string option"
  env_minConfidenceBps :: "string option"
  env_aiAutoConfidenceBps :: "string option"
  env_highStakesThreshold :: "string option"
  env_basePanelSize :: "string option"
  env_highStakesPanelSize :: "string option"
  env_minBond :: "string option"
  env_highStakesMinBond :: "string option"
  env_feeBps :: "string option"
  env_challengeWindowSeconds :: "string option"

record DotCastResolutionRouterStatus =
  st_enabled :: bool
  st_ready :: bool
  st_classifierVersion :: string
  st_minConfidenceBps :: int
  st_aiAutoConfidenceBps :: int
  st_highStakesThresholdMinorUnits :: int
  st_basePanelSize :: int
  st_highStakesPanelSize :: int
  st_resolverMinBondMinorUnits :: int
  st_resolverHighStakesMinBondMinorUnits :: int
  st_resolverFeeBps :: int
  st_challengeWindowSeconds :: int
  st_guards :: "string list"

definition CLASSIFIER_VERSION :: string where
  "CLASSIFIER_VERSION = ''dotcast-e13-resolution-router-v1''"

definition HARD_ORACLE_TERMS :: "string list" where
  "HARD_ORACLE_TERMS =
     [''official'', ''final'', ''election'', ''winner'', ''wins'', ''settle'', ''result'',
      ''closing price'', ''will the fed'', ''will congress'']"

definition COMPUTED_TERMS :: "string list" where
  "COMPUTED_TERMS =
     [''above'', ''below'', ''over'', ''under'', ''greater than'', ''less than'', ''at least'',
      ''more than'', ''price'', ''score'', ''volume'', ''temperature'']"

definition AI_PERCEPTION_TERMS :: "string list" where
  "AI_PERCEPTION_TERMS =
     [''stream'', ''livestream'', ''on-air'', ''on air'', ''call'', ''says'', ''say'', ''shows'',
      ''show'', ''wear'', ''appears'', ''reaction'', ''clip'']"

definition SUBJECTIVE_TERMS :: "string list" where
  "SUBJECTIVE_TERMS =
     [''best'', ''better'', ''funniest'', ''good'', ''great'', ''cool'', ''impressive'',
      ''deserve'', ''should'', ''fair'', ''beautiful'']"

definition readNonNegativeInteger :: "string option \<Rightarrow> int \<Rightarrow> int" where
  "readNonNegativeInteger value fallback =
     (case value of
        None \<Rightarrow> fallback
      | Some v \<Rightarrow>
          if trim v = '''' then fallback
          else case safe_integer (js_number v) of
              Some parsed \<Rightarrow> if parsed \<ge> 0 then parsed else fallback
            | None \<Rightarrow> fallback)"

definition readBps :: "string option \<Rightarrow> int \<Rightarrow> int" where
  "readBps value fallback =
     (let parsed = readNonNegativeInteger value fallback in max 0 (min 10000 parsed))"

definition oddPanelSize :: "int \<Rightarrow> int" where
  "oddPanelSize value =
     (let minimum = max 1 value in if minimum mod 2 = 1 then minimum else js_add minimum 1)"

definition readDotCastResolutionRouterStatus ::
  "DotCastResolutionRouterEnv \<Rightarrow> bool \<Rightarrow> DotCastResolutionRouterStatus" where
  "readDotCastResolutionRouterStatus env hasDatabase =
     (let enabled = (env_enabled env \<noteq> Some ''false'');
          minConfidenceBps = readBps (env_minConfidenceBps env) 8000;
          aiAutoConfidenceBps = readBps (env_aiAutoConfidenceBps env) 9500;
          highStakesThreshold = readNonNegativeInteger (env_highStakesThreshold env) 5000000;
          basePanelSize = oddPanelSize (readNonNegativeInteger (env_basePanelSize env) 3);
          highStakesPanelSize = oddPanelSize (readNonNegativeInteger (env_highStakesPanelSize env) 7);
          minBond = readNonNegativeInteger (env_minBond env) 50000;
          highStakesMinBond = readNonNegativeInteger (env_highStakesMinBond env) 250000;
          feeBps = readBps (env_feeBps env) 200;
          challengeWindowSeconds = max 60 (readNonNegativeInteger (env_challengeWindowSeconds env) 900);
          guards =
            (if \<not> enabled then [''resolution router disabled''] else []) @
            (if \<not> hasDatabase then [''resolution router audit database not configured''] else []) @
            (if aiAutoConfidenceBps < minConfidenceBps
             then [''ai auto confidence threshold is below classifier lock threshold''] else [])
      in \<lparr>st_enabled = enabled,
          st_ready = (enabled \<and> hasDatabase \<and> aiAutoConfidenceBps \<ge> minConfidenceBps),
          st_classifierVersion = CLASSIFIER_VERSION,
          st_minConfidenceBps = minConfidenceBps,
          st_aiAutoConfidenceBps = aiAutoConfidenceBps,
          st_highStakesThresholdMinorUnits = highStakesThreshold,
          st_basePanelSize = basePanelSize,
          st_highStakesPanelSize = highStakesPanelSize,
          st_resolverMinBondMinorUnits = minBond,
          st_resolverHighStakesMinBondMinorUnits = highStakesMinBond,
          st_resolverFeeBps = feeBps,
          st_challengeWindowSeconds = challengeWindowSeconds,
          st_guards = guards\<rparr>)"

definition panelSizeForStake :: "DotCastResolutionRouterStatus \<Rightarrow> int \<Rightarrow> int" where
  "panelSizeForStake status estimatedStakeMinorUnits =
     (if estimatedStakeMinorUnits \<ge> st_highStakesThresholdMinorUnits status
      then st_highStakesPanelSize status else st_basePanelSize status)"

definition bondForStake :: "DotCastResolutionRouterStatus \<Rightarrow> int \<Rightarrow> int" where
  "bondForStake status estimatedStakeMinorUnits =
     (if estimatedStakeMinorUnits \<ge> st_highStakesThresholdMinorUnits status
      then st_resolverHighStakesMinBondMinorUnits status else st_resolverMinBondMinorUnits status)"

subsection \<open>The classifier\<close>

record ClassifyDotCastResolutionRouteInput =
  ci_market :: DotCastMarketSnapshot
  ci_unit :: StakeUnit
  ci_poolId :: "string option"
  ci_streamId :: "string option"
  ci_estimatedStakeMinorUnits :: "int option"
  ci_sources :: "DotCastResolutionSource list option"
  ci_now :: "string option"

fun show_venue :: "DotCastVenue \<Rightarrow> string" where
  "show_venue Kalshi = ''kalshi''"
| "show_venue Polymarket = ''polymarket''"
| "show_venue DotcastVenue = ''dotcast''"
| "show_venue UnknownVenue = ''unknown''"

fun show_tier :: "DotCastResolutionTier \<Rightarrow> string" where
  "show_tier HardOracle = ''hard_oracle''"
| "show_tier ComputedOracle = ''computed_oracle''"
| "show_tier AiPerception = ''ai_perception''"
| "show_tier OptimisticBonded = ''optimistic_bonded''"
| "show_tier HumanJury = ''human_jury''"

fun show_route_status :: "DotCastResolutionRouteStatus \<Rightarrow> string" where
  "show_route_status RouteLocked = ''locked''"
| "show_route_status ReviewRequired = ''review_required''"
| "show_route_status PointsOnly = ''points_only''"
| "show_route_status Blocked = ''blocked''"

fun show_unit :: "StakeUnit \<Rightarrow> string" where
  "show_unit Points = ''points''"
| "show_unit Usdc = ''usdc''"

definition truthy_text :: "string option \<Rightarrow> bool" where  \<comment> \<open>\<open>Boolean(s)\<close>\<close>
  "truthy_text s \<longleftrightarrow> s \<noteq> None \<and> s \<noteq> Some ''''"

definition orElse :: "'a option \<Rightarrow> 'a \<Rightarrow> 'a" where  \<comment> \<open>\<open>a ?? b\<close>\<close>
  "orElse a b = (case a of Some x \<Rightarrow> x | None \<Rightarrow> b)"

lemma orElse_simps [simp]: "orElse (Some x) b = x" "orElse None b = b"
  by (simp_all add: orElse_def)

definition includesAny :: "string \<Rightarrow> string list \<Rightarrow> bool" where
  "includesAny value terms = list_ex (str_includes value) terms"

definition fallbackSources :: "DotCastResolutionTier \<Rightarrow> DotCastResolutionSource list" where
  "fallbackSources tier =
     (if tier = HumanJury
      then [\<lparr>src_kind = ManualReview, src_label = ''Human jury review'', src_url = None, src_required = True\<rparr>]
      else [\<lparr>src_kind = (if tier = AiPerception then LivestreamAi else ResolverNetwork),
             src_label = ''dotCast resolution review'', src_url = None, src_required = True\<rparr>])"

definition routeIdFor :: "js_runtime \<Rightarrow> string \<Rightarrow> string option \<Rightarrow> string \<Rightarrow> string" where
  "routeIdFor rt marketId poolId now =
     ''dotcast:e13:route:'' @ orElse poolId marketId @ '':'' @ show_date rt now"

text \<open>The variables the classifier assigns branch by branch.\<close>

record route_draft =
  rd_tier :: DotCastResolutionTier
  rd_confidenceBps :: int
  rd_sourceAvailable :: bool
  rd_autoResolvable :: bool
  rd_reviewRequired :: bool
  rd_pointsOnly :: bool
  rd_blockedReason :: "string option"
  rd_steeringPrompt :: "string option"
  rd_resolutionStatement :: string

definition quoted :: "string \<Rightarrow> string" where
  "quoted s = ''\"'' @ s @ ''\"''"

definition defaultStatement :: "string \<Rightarrow> string" where
  "defaultStatement question = ''Resolve '' @ quoted question @ '' using the locked dotCast E13 route.''"

definition subjectiveStatement :: "string \<Rightarrow> string" where
  "subjectiveStatement question =
     ''Subjective question requires reshape or points-only jury review: '' @ quoted question @ ''.''"

definition perceptionStatement :: "string \<Rightarrow> int \<Rightarrow> string" where
  "perceptionStatement question gate =
     ''Resolve from livestream perception evidence for '' @ quoted question @
     '' with AI confidence gate '' @ show_int gate @ '' bps.''"

definition venueStatement :: "string \<Rightarrow> DotCastVenue \<Rightarrow> string" where
  "venueStatement question venue =
     ''Use the originating '' @ show_venue venue @ '' final market outcome for '' @ quoted question @ ''.''"

definition computedStatement :: "string \<Rightarrow> string" where
  "computedStatement question =
     ''Compute the outcome for '' @ quoted question @ '' from the locked feed/source at market close.''"

definition conservativeStatement :: "string \<Rightarrow> string" where
  "conservativeStatement question =
     ''No deterministic source is available yet for '' @ quoted question @
     ''; route to conservative review.''"

definition subjectiveReason :: string where
  "subjectiveReason = ''question is subjective or normative without an objective fact source''"

definition reshapePrompt :: string where
  "reshapePrompt =
     ''Reshape this into an externally verifiable yes/no question with a named source, cutoff time, and exact settling fact.''"

definition classifyDraft ::
  "DotCastResolutionRouterStatus \<Rightarrow> DotCastVenue \<Rightarrow> string \<Rightarrow> bool \<Rightarrow> bool \<Rightarrow> bool \<Rightarrow> bool \<Rightarrow> bool \<Rightarrow> bool \<Rightarrow> bool
    \<Rightarrow> route_draft" where
  "classifyDraft status venue question subjective aiPerception hardOracle venueSource computed
       hasExternalSource hasStreamSource =
     (let d0 = \<lparr>rd_tier = OptimisticBonded, rd_confidenceBps = 6400,
           rd_sourceAvailable = (hasExternalSource \<or> venueSource \<or> hasStreamSource),
           rd_autoResolvable = False, rd_reviewRequired = True, rd_pointsOnly = False,
           rd_blockedReason = None, rd_steeringPrompt = None,
           rd_resolutionStatement = defaultStatement question\<rparr>;
         d1 =
           (if subjective then
              d0\<lparr>rd_tier := HumanJury, rd_confidenceBps := 4200, rd_sourceAvailable := False,
                 rd_reviewRequired := True, rd_pointsOnly := True,
                 rd_blockedReason := Some subjectiveReason, rd_steeringPrompt := Some reshapePrompt,
                 rd_resolutionStatement := subjectiveStatement question\<rparr>
            else if aiPerception then
              (let confidence = (if hasStreamSource then 9200 else 7600)
               in d0\<lparr>rd_tier := AiPerception, rd_confidenceBps := confidence,
                     rd_sourceAvailable := hasStreamSource,
                     rd_autoResolvable := hasStreamSource \<and> confidence \<ge> st_aiAutoConfidenceBps status,
                     rd_reviewRequired := \<not> hasStreamSource \<or> confidence < st_minConfidenceBps status,
                     rd_resolutionStatement :=
                       perceptionStatement question (st_aiAutoConfidenceBps status)\<rparr>)
            else if hardOracle \<and> venueSource then
              d0\<lparr>rd_tier := HardOracle, rd_confidenceBps := 9400, rd_sourceAvailable := True,
                 rd_autoResolvable := True, rd_reviewRequired := False,
                 rd_resolutionStatement := venueStatement question venue\<rparr>
            else if computed \<and> hasExternalSource then
              d0\<lparr>rd_tier := ComputedOracle, rd_confidenceBps := 8800, rd_sourceAvailable := True,
                 rd_autoResolvable := True, rd_reviewRequired := False,
                 rd_resolutionStatement := computedStatement question\<rparr>
            else if hardOracle then
              d0\<lparr>rd_tier := HardOracle, rd_confidenceBps := 8600, rd_sourceAvailable := True,
                 rd_autoResolvable := True, rd_reviewRequired := False,
                 rd_resolutionStatement := venueStatement question venue\<rparr>
            else d0)
      in if \<not> rd_sourceAvailable d1 \<and> rd_tier d1 \<noteq> HumanJury
         then d1\<lparr>rd_confidenceBps := min (rd_confidenceBps d1) 6200, rd_reviewRequired := True,
                 rd_resolutionStatement := conservativeStatement question\<rparr>
         else d1)"

definition isVenueSource :: "DotCastVenue \<Rightarrow> bool" where
  "isVenueSource v \<longleftrightarrow> v = Kalshi \<or> v = Polymarket"

definition baseSources :: "ClassifyDotCastResolutionRouteInput \<Rightarrow> DotCastResolutionSource list" where
  "baseSources input =
     orElse (ci_sources input) [] @
     (if isVenueSource (mk_venue (ci_market input))
      then [\<lparr>src_kind = RouterMarket,
             src_label = show_venue (mk_venue (ci_market input)) @ '' market outcome'',
             src_url = mk_referenceUrl (ci_market input), src_required = True\<rparr>]
      else []) @
     (if truthy_text (ci_streamId input)
      then [\<lparr>src_kind = LivestreamAi,
             src_label = ''Mux/Livewire stream '' @ orElse (ci_streamId input) '''',
             src_url = None, src_required = True\<rparr>]
      else [])"

definition classifyDotCastResolutionRoute ::
  "js_runtime \<Rightarrow> string \<Rightarrow> DotCastResolutionRouterEnv \<Rightarrow> ClassifyDotCastResolutionRouteInput
    \<Rightarrow> DotCastResolutionRoute" where
  "classifyDotCastResolutionRoute rt clock env input =
     (let status = readDotCastResolutionRouterStatus env True;
          now = orElse (ci_now input) clock;
          market = ci_market input;
          question = trim (mk_question market);
          normalized = to_lower question;
          estimatedStakeMinorUnits = orElse (ci_estimatedStakeMinorUnits input) 0;
          panelSize = panelSizeForStake status estimatedStakeMinorUnits;
          bondMinorUnits = bondForStake status estimatedStakeMinorUnits;
          venueSource = isVenueSource (mk_venue market);
          hasExternalSource = (truthy_text (mk_referenceUrl market) \<or> orElse (ci_sources input) [] \<noteq> []);
          hasStreamSource = truthy_text (ci_streamId input);
          subjective = includesAny normalized SUBJECTIVE_TERMS;
          aiPerception = (hasStreamSource \<or> includesAny normalized AI_PERCEPTION_TERMS);
          computed = includesAny normalized COMPUTED_TERMS;
          hardOracle =
            (venueSource \<or> includesAny normalized HARD_ORACLE_TERMS \<or> truthy_text (mk_referenceUrl market));
          d = classifyDraft status (mk_venue market) question subjective aiPerception hardOracle
                venueSource computed hasExternalSource hasStreamSource;
          routeStatus =
            (if rd_pointsOnly d then (if ci_unit input = Usdc then Blocked else PointsOnly)
             else if rd_sourceAvailable d \<and> rd_confidenceBps d \<ge> st_minConfidenceBps status
             then RouteLocked else ReviewRequired);
          panelled = (rd_tier d = OptimisticBonded \<or> rd_tier d = HumanJury)
      in \<lparr>rr_routeId = routeIdFor rt (mk_id market) (ci_poolId input) now,
          rr_marketId = mk_id market,
          rr_poolId = ci_poolId input,
          rr_tier = rd_tier d,
          rr_status = routeStatus,
          rr_confidenceBps = rd_confidenceBps d,
          rr_resolutionStatement = rd_resolutionStatement d,
          rr_sources = (if baseSources input \<noteq> [] then baseSources input else fallbackSources (rd_tier d)),
          rr_sourceAvailable = rd_sourceAvailable d,
          rr_autoResolvable = (routeStatus = RouteLocked \<and> rd_autoResolvable d),
          rr_reviewRequired = (routeStatus \<noteq> RouteLocked \<or> rd_reviewRequired d),
          rr_pointsOnly = (routeStatus = PointsOnly),
          rr_blockedReason =
            (if routeStatus = Blocked
             then Some (orElse (rd_blockedReason d) ''resolution route is not locked'')
             else rd_blockedReason d),
          rr_steeringPrompt = rd_steeringPrompt d,
          rr_feeBps = (if panelled then st_resolverFeeBps status else 0),
          rr_bondMinorUnits = (if panelled then bondMinorUnits else 0),
          rr_panelSize = (if panelled then panelSize else 0),
          rr_lockedAt = (if routeStatus = RouteLocked then Some now else None),
          rr_classifierVersion = st_classifierVersion status,
          rr_createdAt = now,
          rr_eventJson =
            [(''unit'', JStr (show_unit (ci_unit input))),
             (''streamId'', jopt JStr (ci_streamId input)),
             (''estimatedStakeMinorUnits'', jint estimatedStakeMinorUnits),
             (''classifierSignals'', JObj
               [(''hardOracle'', JBool hardOracle), (''computed'', JBool computed),
                (''aiPerception'', JBool aiPerception), (''subjective'', JBool subjective),
                (''sourceAvailable'', JBool (rd_sourceAvailable d))])]\<rparr>)"

definition routeRequired :: js_error where
  "routeRequired =
     CodedError ''RESOLUTION_ROUTE_REQUIRED''
       ''real-money dotCast pools require a locked E13 resolution route before creation'' 422"

definition normalizeExplicitRoute ::
  "DotCastResolutionRoute \<Rightarrow> string \<Rightarrow> string option \<Rightarrow> string \<Rightarrow> DotCastResolutionRoute res" where
  "normalizeExplicitRoute route marketId poolId now =
     (if rr_marketId route \<noteq> marketId
      then Inl (CodedError ''RESOLUTION_ROUTE_MARKET_MISMATCH''
             ''explicit resolution route marketId does not match the pool market'' 409)
      else if rr_status route = RouteLocked \<and> \<not> truthy_text (rr_lockedAt route)
      then Inr (route\<lparr>rr_poolId := poolId, rr_lockedAt := Some now\<rparr>)
      else Inr (route\<lparr>rr_poolId := (if rr_poolId route = None then poolId else rr_poolId route)\<rparr>))"

definition prepareDotCastPoolResolutionRoute ::
  "js_runtime \<Rightarrow> string \<Rightarrow> DotCastResolutionRouterEnv \<Rightarrow> ClassifyDotCastResolutionRouteInput
    \<Rightarrow> DotCastResolutionRoute option \<Rightarrow> DotCastResolutionRoute res" where
  "prepareDotCastPoolResolutionRoute rt clock env input explicitRoute =
     (let now = orElse (ci_now input) clock
      in rbind
           (case explicitRoute of
              Some route \<Rightarrow> normalizeExplicitRoute route (mk_id (ci_market input)) (ci_poolId input) now
            | None \<Rightarrow> Inr (classifyDotCastResolutionRoute rt clock env (input\<lparr>ci_now := Some now\<rparr>)))
           (\<lambda>route.
              if ci_unit input = Usdc \<and> rr_status route \<noteq> RouteLocked then Inl routeRequired
              else Inr route))"

definition assertLockedRealMoneyResolutionRoute ::
  "StakeUnit \<Rightarrow> DotCastResolutionRoute option \<Rightarrow> unit res" where
  "assertLockedRealMoneyResolutionRoute unit route =
     (if unit \<noteq> Usdc then Inr ()
      else if map_option rr_status route \<noteq> Some RouteLocked then Inl routeRequired
      else Inr ())"

subsection \<open>The perception model's confidence gate\<close>

datatype AiAction = AutoResolved | Escalated

record DotCastAiResolutionLog =
  al_logId :: string
  al_routeId :: string
  al_poolId :: "string option"
  al_modelConfidenceBps :: int
  al_predictedOutcome :: DotCastResolutionOutcome
  al_action :: AiAction
  al_thresholdBps :: int
  al_evidenceRefs :: "string list"
  al_eventJson :: json_object
  al_createdAt :: string

record ResolveDotCastAiPerceptionInput =
  ai_route :: DotCastResolutionRoute
  ai_poolId :: "string option"
  ai_modelConfidenceBps :: number
  ai_predictedOutcome :: DotCastResolutionOutcome
  ai_evidenceRefs :: "string list option"
  ai_now :: "string option"

record DotCastAiPerceptionResolutionResult =
  ar_status :: AiAction
  ar_outcome :: DotCastResolutionOutcome
  ar_route :: DotCastResolutionRoute
  ar_escalatedRoute :: "DotCastResolutionRoute option"
  ar_log :: DotCastAiResolutionLog

definition assertBps :: "number \<Rightarrow> string \<Rightarrow> int res" where
  "assertBps value label =
     (case safe_integer value of
        Some v \<Rightarrow>
          if v < 0 \<or> v > 10000
          then Inl (CodedError ''INVALID_CONFIDENCE_BPS''
                 (label @ '' must be an integer between 0 and 10000'') 400)
          else Inr v
      | None \<Rightarrow> Inl (CodedError ''INVALID_CONFIDENCE_BPS''
          (label @ '' must be an integer between 0 and 10000'') 400))"

definition resolveDotCastAiPerception ::
  "js_runtime \<Rightarrow> string \<Rightarrow> DotCastResolutionRouterEnv \<Rightarrow> ResolveDotCastAiPerceptionInput
    \<Rightarrow> DotCastAiPerceptionResolutionResult res" where
  "resolveDotCastAiPerception rt clock env input =
     (let route = ai_route input
      in if rr_tier route \<noteq> AiPerception
         then Inl (CodedError ''AI_ROUTE_REQUIRED''
                ''AI perception resolution requires an ai_perception route'' 400)
         else rbind (assertBps (ai_modelConfidenceBps input) ''modelConfidenceBps'') (\<lambda>confidence.
           let status = readDotCastResolutionRouterStatus env True;
               now = orElse (ai_now input) clock;
               autoResolve = (confidence \<ge> st_aiAutoConfidenceBps status);
               action = (if autoResolve then AutoResolved else Escalated);
               log =
                 \<lparr>al_logId = ''dotcast:e13:ai-log:'' @ rr_routeId route @ '':'' @ show_date rt now,
                  al_routeId = rr_routeId route,
                  al_poolId = (if ai_poolId input = None then rr_poolId route else ai_poolId input),
                  al_modelConfidenceBps = confidence,
                  al_predictedOutcome = ai_predictedOutcome input,
                  al_action = action,
                  al_thresholdBps = st_aiAutoConfidenceBps status,
                  al_evidenceRefs = orElse (ai_evidenceRefs input) [],
                  al_eventJson =
                    [(''classifierVersion'', JStr (rr_classifierVersion route)),
                     (''previousTier'', JStr (show_tier (rr_tier route)))],
                  al_createdAt = now\<rparr>;
               escalatedRoute =
                 (if autoResolve then None
                  else Some (route\<lparr>
                    rr_tier := OptimisticBonded,
                    rr_autoResolvable := False,
                    rr_reviewRequired := True,
                    rr_feeBps := st_resolverFeeBps status,
                    rr_bondMinorUnits := bondForStake status 0,
                    rr_panelSize := st_basePanelSize status,
                    rr_resolutionStatement := rr_resolutionStatement route @
                      '' AI confidence was below threshold; use optimistic bonded dispute resolution.'',
                    rr_eventJson := spread (rr_eventJson route)
                      [(''aiEscalation'', JObj
                         [(''modelConfidenceBps'', jint confidence),
                          (''thresholdBps'', jint (st_aiAutoConfidenceBps status)),
                          (''at'', JStr now)])]\<rparr>))
           in Inr \<lparr>ar_status = action,
                   ar_outcome = (if autoResolve then ai_predictedOutcome input else Pending),
                   ar_route = route, ar_escalatedRoute = escalatedRoute, ar_log = log\<rparr>))"

subsection \<open>The operator's review\<close>

datatype DotCastResolutionReviewStatus = Queued | Approved | Denied | Reshaped

datatype DotCastResolutionReviewAction = Approve | Deny | Reshape

record DotCastResolutionReview =
  rv_reviewId :: string
  rv_routeId :: string
  rv_poolId :: "string option"
  rv_marketId :: string
  rv_status :: DotCastResolutionReviewStatus
  rv_reviewerId :: "string option"
  rv_decisionJson :: json_object
  rv_createdAt :: string

record ApplyDotCastResolutionReviewDecisionInput =
  ri_route :: DotCastResolutionRoute
  ri_action :: DotCastResolutionReviewAction
  ri_reviewerId :: "string option"
  ri_reviewId :: "string option"
  ri_resolutionStatement :: "string option"
  ri_sources :: "DotCastResolutionSource list option"
  ri_blockedReason :: "string option"
  ri_steeringPrompt :: "string option"
  ri_metadata :: "json_object option"
  ri_now :: "string option"

record DotCastResolutionReviewDecisionResult =
  rx_review :: DotCastResolutionReview
  rx_resultingRoute :: DotCastResolutionRoute
  rx_canOpenRealMoney :: bool

fun show_review_action :: "DotCastResolutionReviewAction \<Rightarrow> string" where
  "show_review_action Approve = ''approve''"
| "show_review_action Deny = ''deny''"
| "show_review_action Reshape = ''reshape''"

fun reviewStatusForAction :: "DotCastResolutionReviewAction \<Rightarrow> DotCastResolutionReviewStatus" where
  "reviewStatusForAction Approve = Approved"
| "reviewStatusForAction Deny = Denied"
| "reviewStatusForAction Reshape = Reshaped"

definition nullableText :: "string option \<Rightarrow> string option" where
  "nullableText value = (if truthy_text value then value else None)"

definition reviewedRouteId :: "js_runtime \<Rightarrow> string \<Rightarrow> string \<Rightarrow> string \<Rightarrow> string" where
  "reviewedRouteId rt routeId action now = routeId @ '':review:'' @ action @ '':'' @ show_date rt now"

definition buildReviewedRoute ::
  "js_runtime \<Rightarrow> ApplyDotCastResolutionReviewDecisionInput \<Rightarrow> string \<Rightarrow> DotCastResolutionRoute res" where
  "buildReviewedRoute rt input now =
     (let route = ri_route input;
          resolutionStatement =
            orElse (nullableText (map_option trim (ri_resolutionStatement input)))
              (rr_resolutionStatement route);
          sources = (if orElse (ri_sources input) [] \<noteq> [] then orElse (ri_sources input) [] else rr_sources route);
          reviewEvent =
            [(''operatorReview'', JObj
               [(''action'', JStr (show_review_action (ri_action input))),
                (''reviewerId'', jopt JStr (ri_reviewerId input)),
                (''reviewedAt'', JStr now),
                (''metadata'', JObj (orElse (ri_metadata input) []))])]
      in case ri_action input of
           Approve \<Rightarrow>
             if sources = []
             then Inl (CodedError ''RESOLUTION_REVIEW_SOURCE_REQUIRED''
                    ''operator approval requires at least one E13 resolution source'' 422)
             else Inr (route\<lparr>
               rr_routeId := reviewedRouteId rt (rr_routeId route) ''approved'' now,
               rr_status := RouteLocked,
               rr_confidenceBps := max (rr_confidenceBps route) 8000,
               rr_resolutionStatement := resolutionStatement,
               rr_sources := sources,
               rr_sourceAvailable := True,
               rr_autoResolvable := False,
               rr_reviewRequired := False,
               rr_pointsOnly := False,
               rr_blockedReason := None,
               rr_steeringPrompt := None,
               rr_lockedAt := Some now,
               rr_createdAt := now,
               rr_eventJson := spread (rr_eventJson route) reviewEvent\<rparr>)
         | Deny \<Rightarrow>
             Inr (route\<lparr>
               rr_routeId := reviewedRouteId rt (rr_routeId route) ''denied'' now,
               rr_status := Blocked,
               rr_autoResolvable := False,
               rr_reviewRequired := True,
               rr_pointsOnly := False,
               rr_blockedReason :=
                 Some (orElse (ri_blockedReason input) ''operator denied the E13 resolution route''),
               rr_steeringPrompt :=
                 (if ri_steeringPrompt input = None then rr_steeringPrompt route else ri_steeringPrompt input),
               rr_lockedAt := None,
               rr_createdAt := now,
               rr_eventJson := spread (rr_eventJson route) reviewEvent\<rparr>)
         | Reshape \<Rightarrow>
             Inr (route\<lparr>
               rr_routeId := reviewedRouteId rt (rr_routeId route) ''reshaped'' now,
               rr_status := ReviewRequired,
               rr_confidenceBps := min (rr_confidenceBps route) 7900,
               rr_resolutionStatement := resolutionStatement,
               rr_sources := sources,
               rr_sourceAvailable := (sources \<noteq> []),
               rr_autoResolvable := False,
               rr_reviewRequired := True,
               rr_pointsOnly := False,
               rr_blockedReason := None,
               rr_steeringPrompt :=
                 Some (orElse (ri_steeringPrompt input)
                   ''Review the reshaped E13 route before opening this market to real-money pools.''),
               rr_lockedAt := None,
               rr_createdAt := now,
               rr_eventJson := spread (rr_eventJson route) reviewEvent\<rparr>))"

definition applyDotCastResolutionReviewDecision ::
  "js_runtime \<Rightarrow> string \<Rightarrow> ApplyDotCastResolutionReviewDecisionInput
    \<Rightarrow> DotCastResolutionReviewDecisionResult res" where
  "applyDotCastResolutionReviewDecision rt clock input =
     (let now = orElse (ri_now input) clock;
          route = ri_route input;
          reviewId = orElse (ri_reviewId input)
            (''dotcast:e13:review:'' @ rr_routeId route @ '':'' @ show_review_action (ri_action input)
             @ '':'' @ show_date rt now);
          metadata = orElse (ri_metadata input) []
      in rbind (buildReviewedRoute rt input now) (\<lambda>resultingRoute.
           Inr \<lparr>rx_review =
                  \<lparr>rv_reviewId = reviewId,
                   rv_routeId = rr_routeId route,
                   rv_poolId = rr_poolId route,
                   rv_marketId = rr_marketId route,
                   rv_status = reviewStatusForAction (ri_action input),
                   rv_reviewerId = nullableText (map_option trim (ri_reviewerId input)),
                   rv_decisionJson =
                     [(''action'', JStr (show_review_action (ri_action input))),
                      (''originalStatus'', JStr (show_route_status (rr_status route))),
                      (''resultingRouteId'', JStr (rr_routeId resultingRoute)),
                      (''blockedReason'', jopt JStr (ri_blockedReason input)),
                      (''steeringPrompt'', jopt JStr (ri_steeringPrompt input)),
                      (''metadata'', JObj metadata)],
                   rv_createdAt = now\<rparr>,
                rx_resultingRoute = resultingRoute,
                rx_canOpenRealMoney = (rr_status resultingRoute = RouteLocked)\<rparr>))"

subsection \<open>Properties\<close>

lemma readNonNegativeInteger_range:
  "0 \<le> fb \<Longrightarrow> is_safe_integer fb \<Longrightarrow>
   0 \<le> readNonNegativeInteger v fb \<and> is_safe_integer (readNonNegativeInteger v fb)"
  by (auto simp: readNonNegativeInteger_def safe_integer_Some split: option.splits)

lemma readBps_range: "0 \<le> readBps v fb \<and> readBps v fb \<le> 10000"
  by (simp add: readBps_def Let_def)

lemma oddPanelSize_odd:
  assumes "is_safe_integer v"
  shows "odd (oddPanelSize v)" "1 \<le> oddPanelSize v" "v \<le> oddPanelSize v"
proof -
  have "js_add (max 1 v) 1 = max 1 v + 1" if "even (max 1 v)"
    using that assms by (intro js_add_safe) (auto simp: is_safe_integer_def max_safe_integer_def max_def split: if_splits)
  then show "odd (oddPanelSize v)" "1 \<le> oddPanelSize v" "v \<le> oddPanelSize v"
    by (auto simp: oddPanelSize_def Let_def mod2_eq_if)
qed

lemmas small_safe = is_safe_integer_def max_safe_integer_def

definition status_ok :: "DotCastResolutionRouterStatus \<Rightarrow> bool" where
  "status_ok s \<longleftrightarrow>
     0 \<le> st_minConfidenceBps s \<and> st_minConfidenceBps s \<le> 10000 \<and>
     0 \<le> st_aiAutoConfidenceBps s \<and> st_aiAutoConfidenceBps s \<le> 10000 \<and>
     0 \<le> st_resolverFeeBps s \<and> st_resolverFeeBps s \<le> 10000 \<and>
     0 \<le> st_highStakesThresholdMinorUnits s \<and> is_safe_integer (st_highStakesThresholdMinorUnits s) \<and>
     odd (st_basePanelSize s) \<and> 1 \<le> st_basePanelSize s \<and>
     odd (st_highStakesPanelSize s) \<and> 1 \<le> st_highStakesPanelSize s \<and>
     0 \<le> st_resolverMinBondMinorUnits s \<and> is_safe_integer (st_resolverMinBondMinorUnits s) \<and>
     0 \<le> st_resolverHighStakesMinBondMinorUnits s \<and> is_safe_integer (st_resolverHighStakesMinBondMinorUnits s) \<and>
     60 \<le> st_challengeWindowSeconds s \<and>
     (st_ready s \<longleftrightarrow> st_guards s = [])"

lemma status_ok_read: "status_ok (readDotCastResolutionRouterStatus env db)"
proof -
  have "0 \<le> readNonNegativeInteger v fb \<and> is_safe_integer (readNonNegativeInteger v fb)"
    if "fb \<in> {5000000, 3, 7, 50000, 250000, 900}" for v fb
    using that by (intro readNonNegativeInteger_range) (auto simp: small_safe)
  then show ?thesis
    unfolding status_ok_def readDotCastResolutionRouterStatus_def Let_def
    by (simp add: readBps_range oddPanelSize_odd not_less)
qed

text \<open>
  Whatever strings the environment holds, the configuration that is read is sane: the
  confidence thresholds and the fee are basis points, both panel sizes are odd (so a panel of
  two factions cannot tie by numbers), bonds are non-negative amounts, a challenge window lasts
  at least a minute, and the router is ready exactly if no guard is raised.
\<close>

theorem readDotCastResolutionRouterStatus_ok:
  "status_ok (readDotCastResolutionRouterStatus env hasDatabase)"
  by (rule status_ok_read)

text \<open>What each branch of the classifier leaves behind.\<close>

lemma classifyDraft_cases:
  fixes st v q su ai ho ve co ex sm
  defines "d \<equiv> classifyDraft st v q su ai ho ve co ex sm"
  shows "rd_pointsOnly d \<longleftrightarrow> su" "rd_tier d = HumanJury \<longleftrightarrow> su"
    "rd_sourceAvailable d \<Longrightarrow> \<not> su \<and> (ex \<or> ve \<or> sm \<or> ho)"
    "rd_tier d = AiPerception \<Longrightarrow> rd_sourceAvailable d = sm"
    "0 \<le> rd_confidenceBps d" "rd_confidenceBps d \<le> 10000"
    "\<not> rd_sourceAvailable d \<Longrightarrow> rd_confidenceBps d \<le> 6200"
    "rd_blockedReason d = (if su then Some subjectiveReason else None)"
  unfolding d_def classifyDraft_def Let_def
  by (cases su; cases ai; cases ho; cases ve; cases co; cases ex; cases sm; simp)+

definition route_ok :: "DotCastResolutionRoute \<Rightarrow> bool" where
  "route_ok r \<longleftrightarrow>
     (rr_status r = RouteLocked \<longleftrightarrow> rr_lockedAt r \<noteq> None) \<and>
     (rr_autoResolvable r \<longrightarrow> rr_status r = RouteLocked) \<and>
     (rr_status r = RouteLocked \<longrightarrow> rr_sourceAvailable r \<and> rr_tier r \<noteq> HumanJury) \<and>
     (rr_status r \<noteq> RouteLocked \<longrightarrow> rr_reviewRequired r) \<and>
     (rr_pointsOnly r \<longleftrightarrow> rr_status r = PointsOnly) \<and>
     (rr_status r = Blocked \<longrightarrow> rr_blockedReason r \<noteq> None) \<and>
     rr_sources r \<noteq> [] \<and>
     0 \<le> rr_confidenceBps r \<and> rr_confidenceBps r \<le> 10000 \<and>
     0 \<le> rr_feeBps r \<and> rr_feeBps r \<le> 10000 \<and> 0 \<le> rr_bondMinorUnits r \<and>
     (if rr_tier r = OptimisticBonded \<or> rr_tier r = HumanJury
      then odd (rr_panelSize r) \<and> 0 < rr_panelSize r else rr_panelSize r = 0)"

lemma route_ok_classify: "route_ok (classifyDotCastResolutionRoute rt clock env input)"
proof -
  let ?st = "readDotCastResolutionRouterStatus env True"
  have ok: "status_ok ?st" by (rule status_ok_read)
  have fb: "fallbackSources t \<noteq> []" for t by (simp add: fallbackSources_def)
  have ps: "odd (panelSizeForStake ?st x)" "0 < panelSizeForStake ?st x" "0 \<le> bondForStake ?st x"
    "0 \<le> st_resolverFeeBps ?st" "st_resolverFeeBps ?st \<le> 10000" for x
    using ok by (auto simp: status_ok_def panelSizeForStake_def bondForStake_def)
  show ?thesis
    unfolding route_ok_def classifyDotCastResolutionRoute_def Let_def
    by (simp add: classifyDraft_cases ps fb)
qed

lemma classify_fields:
  "rr_marketId (classifyDotCastResolutionRoute rt clock env input) = mk_id (ci_market input)"
  by (simp add: classifyDotCastResolutionRoute_def Let_def)


definition example_env :: DotCastResolutionRouterEnv where
  "example_env =
     \<lparr>env_enabled = None, env_minConfidenceBps = Some ''8000'', env_aiAutoConfidenceBps = None,
      env_highStakesThreshold = None, env_basePanelSize = Some ''4'', env_highStakesPanelSize = None,
      env_minBond = None, env_highStakesMinBond = None, env_feeBps = None,
      env_challengeWindowSeconds = None\<rparr>"

definition example_market :: DotCastMarketSnapshot where
  "example_market =
     \<lparr>mk_id = ''m1'', mk_venue = Kalshi, mk_question = ''Will the index end up?'',
      mk_status = MarketOpen, mk_closeTime = ''2026-02-01T00:00:00.000Z'',
      mk_expectedResolveAt = Some ''2026-02-02T00:00:00.000Z'', mk_referenceUrl = None\<rparr>"

definition example_classify :: ClassifyDotCastResolutionRouteInput where
  "example_classify =
     \<lparr>ci_market = example_market, ci_unit = Usdc, ci_poolId = Some ''p1'', ci_streamId = None,
      ci_estimatedStakeMinorUnits = None, ci_sources = None,
      ci_now = Some ''2026-01-01T00:00:00.000Z''\<rparr>"

definition example_route :: DotCastResolutionRoute where
  "example_route = classifyDotCastResolutionRoute ref_runtime [] example_env example_classify"

text \<open>
  C21: A pool in real money always gets a locked route of its own market: whatever
  \<open>prepareDotCastPoolResolutionRoute\<close> returns passes the gate of pool creation.  It refuses
  exactly a foreign explicit route and a real-money route that is not locked.
\<close>

theorem prepareDotCastPoolResolutionRoute_gate:
  "case prepareDotCastPoolResolutionRoute rt clock env input explicit of
     Inr r \<Rightarrow>
       assertLockedRealMoneyResolutionRoute (ci_unit input) (Some r) = Inr () \<and>
       rr_marketId r = mk_id (ci_market input) \<and>
       (case explicit of
          Some x \<Rightarrow> rr_status r = rr_status x \<and> rr_tier r = rr_tier x \<and> rr_sources r = rr_sources x
        | None \<Rightarrow> r = classifyDotCastResolutionRoute rt clock env
            (input\<lparr>ci_now := Some (orElse (ci_now input) clock)\<rparr>))
   | Inl e \<Rightarrow>
       (\<exists>x. explicit = Some x \<and> rr_marketId x \<noteq> mk_id (ci_market input)) \<or>
       e = routeRequired \<and> ci_unit input = Usdc"
proof (cases explicit)
  case None
  let ?r = "classifyDotCastResolutionRoute rt clock env (input\<lparr>ci_now := Some (orElse (ci_now input) clock)\<rparr>)"
  have "rr_marketId ?r = mk_id (ci_market input)" by (simp add: classify_fields)
  then show ?thesis
    by (simp add: None prepareDotCastPoolResolutionRoute_def assertLockedRealMoneyResolutionRoute_def Let_def)
next
  case (Some x)
  then show ?thesis
    by (simp add: prepareDotCastPoolResolutionRoute_def assertLockedRealMoneyResolutionRoute_def
        normalizeExplicitRoute_def Let_def)
qed



text \<open>
  Only an operator's approval opens a route for real money, and only with a source: after
  a review the route can carry real money exactly if the action was to approve, every other
  review leaves it unlocked, and the reviewed route has a new id of the same market and pool.
\<close>

theorem applyDotCastResolutionReviewDecision_locks:
  "case applyDotCastResolutionReviewDecision rt clock input of
     Inl e \<Rightarrow> ri_action input = Approve \<and> orElse (ri_sources input) [] = [] \<and> rr_sources (ri_route input) = []
   | Inr res \<Rightarrow>
       (rx_canOpenRealMoney res \<longleftrightarrow> ri_action input = Approve) \<and>
       (rx_canOpenRealMoney res \<longleftrightarrow> rr_lockedAt (rx_resultingRoute res) \<noteq> None) \<and>
       (rx_canOpenRealMoney res \<longleftrightarrow> rv_status (rx_review res) = Approved) \<and>
       (rx_canOpenRealMoney res \<longleftrightarrow> \<not> rr_reviewRequired (rx_resultingRoute res)) \<and>
       rr_routeId (rx_resultingRoute res) \<noteq> rr_routeId (ri_route input) \<and>
       rr_marketId (rx_resultingRoute res) = rr_marketId (ri_route input) \<and>
       rr_poolId (rx_resultingRoute res) = rr_poolId (ri_route input)"
  by (cases "ri_action input")
    (simp_all add: applyDotCastResolutionReviewDecision_def buildReviewedRoute_def reviewedRouteId_def Let_def)

end
