(* ===== verification/PoolLifecycle.thy ===== *)
theory PoolLifecycle
  imports ResolutionRoute
begin

text \<open>
  \<open>src/engine/dotcast/PoolLifecycle.ts\<close>: creation of a pool from a market, placing an entry, the
  status machine of a pool.  The machine is given as an inductive step relation over pools, and
  the locale \<open>step_system\<close> is interpreted on it.

  The types make two run-time checks of the source redundant: a \<open>StakeUnit\<close> is one of the two
  supported units, and a \<open>Side\<close> is a key of the totals.
\<close>

subsection \<open>Definitions\<close>

record CreatePoolInput =
  cp_id :: "string option"
  cp_market :: DotCastMarketSnapshot
  cp_unit :: StakeUnit
  cp_entryOpensAt :: "string option"
  cp_entryClosesAt :: string
  cp_rake :: number
  cp_minLiquidity :: number
  cp_originatingCreatorId :: "string option"
  cp_creatorBrand :: "DotCastCreatorPoolBranding option"
  cp_resolutionRoute :: "DotCastResolutionRoute option"
  cp_now :: string

record PlaceEntryInput =
  pe_pool :: DotCastPool
  pe_balance :: StakeBalance
  pe_userId :: string
  pe_side :: Side
  pe_amount :: number
  pe_now :: string
  pe_entryId :: "string option"

record PlaceEntryResult =
  px_pool :: DotCastPool
  px_entry :: DotCastEntry
  px_balance :: StakeBalance

definition assertIso :: "js_runtime \<Rightarrow> string \<Rightarrow> string \<Rightarrow> int res" where
  "assertIso rt value label =
     (case date_parse rt value of
        None \<Rightarrow> Inl (Error (label @ '' must be an ISO timestamp''))
      | Some parsed \<Rightarrow> Inr parsed)"

definition assertNonNegativeInteger :: "number \<Rightarrow> string \<Rightarrow> int res" where
  "assertNonNegativeInteger value label =
     (case safe_integer value of
        None \<Rightarrow> Inl (RangeError (label @ '' must be a non-negative safe integer''))
      | Some v \<Rightarrow>
          if v < 0 then Inl (RangeError (label @ '' must be a non-negative safe integer''))
          else Inr v)"

definition assertPositiveInteger :: "number \<Rightarrow> string \<Rightarrow> int res" where
  "assertPositiveInteger value label =
     rbind (assertNonNegativeInteger value label) (\<lambda>v.
       if v \<le> 0 then Inl (RangeError (label @ '' must be greater than zero'')) else Inr v)"

definition assertRake :: "number \<Rightarrow> unit res" where
  "assertRake rake =
     (case rake of
        Fin r \<Rightarrow>
          if r < 0 \<or> r > 1 then Inl (RangeError ''rake must be a finite fraction between 0 and 1'')
          else Inr ()
      | _ \<Rightarrow> Inl (RangeError ''rake must be a finite fraction between 0 and 1''))"

definition derivePoolId :: "js_runtime \<Rightarrow> string \<Rightarrow> string \<Rightarrow> string" where
  "derivePoolId rt marketId createdAt = ''dotcast:'' @ marketId @ '':'' @ show_date rt createdAt"

definition deriveEntryId :: "js_runtime \<Rightarrow> string \<Rightarrow> string \<Rightarrow> string \<Rightarrow> string" where
  "deriveEntryId rt poolId userId placedAt =
     poolId @ '':entry:'' @ userId @ '':'' @ show_date rt placedAt"

fun LEGAL_TRANSITIONS :: "PoolStatus \<Rightarrow> PoolStatus set" where
  "LEGAL_TRANSITIONS Open = {Locked, Voided}"
| "LEGAL_TRANSITIONS Locked = {Resolving, Voided}"
| "LEGAL_TRANSITIONS Resolving = {Settled, Voided}"
| "LEGAL_TRANSITIONS Settled = {}"
| "LEGAL_TRANSITIONS Voided = {}"

definition createPoolFromMarket :: "js_runtime \<Rightarrow> CreatePoolInput \<Rightarrow> DotCastPool res" where
  "createPoolFromMarket rt input =
     (let market = cp_market input
      in if mk_status market \<noteq> MarketOpen
         then Inl (Error ''pool creation requires an open market'')
         else
           rbind (assertIso rt (cp_now input) ''now'') (\<lambda>nowMs.
           rbind (assertIso rt (mk_closeTime market) ''market closeTime'') (\<lambda>marketCloseMs.
             if marketCloseMs \<le> nowMs
             then Inl (Error ''pool creation refused for stale market'')
             else
               let entryOpensAt = orElse (cp_entryOpensAt input) (cp_now input)
               in rbind (assertIso rt entryOpensAt ''entryOpensAt'') (\<lambda>entryOpenMs.
                  rbind (assertIso rt (cp_entryClosesAt input) ''entryClosesAt'') (\<lambda>entryCloseMs.
                    if entryOpenMs > entryCloseMs
                    then Inl (Error ''entryOpensAt must be at or before entryClosesAt'')
                    else if entryCloseMs > marketCloseMs
                    then Inl (Error ''entryClosesAt cannot be after market closeTime'')
                    else
                      rbind (assertLockedRealMoneyResolutionRoute (cp_unit input) (cp_resolutionRoute input)) (\<lambda>_.
                      rbind (assertRake (cp_rake input)) (\<lambda>_.
                      rbind (assertNonNegativeInteger (cp_minLiquidity input) ''minLiquidity'') (\<lambda>minLiquidity.
                        let createdAt = cp_now input;
                            hasCreator = truthy_text (cp_originatingCreatorId input);
                            creator = orElse (cp_originatingCreatorId input) ''''
                        in Inr
                          \<lparr>p_id = orElse (cp_id input) (derivePoolId rt (mk_id market) createdAt),
                           p_marketId = mk_id market,
                           p_venue = mk_venue market,
                           p_unit = cp_unit input,
                           p_question = mk_question market,
                           p_status = Open,
                           p_entryOpensAt = entryOpensAt,
                           p_entryClosesAt = cp_entryClosesAt input,
                           p_expectedResolveAt = mk_expectedResolveAt market,
                           p_rake = cp_rake input,
                           p_pools = \<lparr>yes = 0, no = 0\<rparr>,
                           p_minLiquidity = minLiquidity,
                           p_createdAt = createdAt,
                           p_settledAt = None,
                           p_outcome = None,
                           p_resolutionRoute = cp_resolutionRoute input,
                           p_originatingCreatorId = (if hasCreator then Some creator else None),
                           p_creatorBrand =
                             (if hasCreator
                              then Some (orElse (cp_creatorBrand input)
                                \<lparr>cb_creatorId = creator, cb_displayName = creator,
                                 cb_disclosureLabel = ''Creator-originated''\<rparr>)
                              else None)\<rparr>))))))))"

definition placeEntry :: "js_runtime \<Rightarrow> PlaceEntryInput \<Rightarrow> PlaceEntryResult res" where
  "placeEntry rt input =
     (let p = pe_pool input; b = pe_balance input
      in rbind (assertIso rt (pe_now input) ''now'') (\<lambda>nowMs.
         rbind (assertIso rt (p_entryOpensAt p) ''entryOpensAt'') (\<lambda>opensMs.
         rbind (assertIso rt (p_entryClosesAt p) ''entryClosesAt'') (\<lambda>closesMs.
           if p_status p \<noteq> Open
           then Inl (Error ''entries can only be placed while pool is open'')
           else if nowMs < opensMs then Inl (Error ''entry window is not open'')
           else if nowMs > closesMs then Inl (Error ''entry window is closed'')
           else if b_userId b \<noteq> pe_userId input
           then Inl (Error ''balance user does not match entry user'')
           else if b_unit b \<noteq> p_unit p
           then Inl (Error ''balance unit does not match pool unit'')
           else rbind (assertPositiveInteger (pe_amount input) ''amount'') (\<lambda>amount.
             if b_available b < amount then Inl (Error ''insufficient available balance'')
             else Inr
               \<lparr>px_pool = p\<lparr>p_pools := totals_set (p_pools p) (pe_side input)
                  (js_add (totals_of (p_pools p) (pe_side input)) amount)\<rparr>,
                px_entry =
                  \<lparr>e_id = orElse (pe_entryId input) (deriveEntryId rt (p_id p) (pe_userId input) (pe_now input)),
                   e_poolId = p_id p, e_userId = pe_userId input, e_side = pe_side input,
                   e_amount = amount, e_funding = UserFunded, e_placedAt = pe_now input,
                   e_payout = None, e_refunded = False\<rparr>,
                px_balance = b\<lparr>b_available := js_sub (b_available b) amount,
                               b_locked := js_add (b_locked b) amount\<rparr>\<rparr>)))))"

text \<open>\<open>transitionPool\<close> takes the outcome as an argument; callers that leave it out pass the
  pool's own (\<open>p_outcome\<close>).\<close>

definition transitionPool ::
  "js_runtime \<Rightarrow> DotCastPool \<Rightarrow> PoolStatus \<Rightarrow> string \<Rightarrow> Outcome option \<Rightarrow> DotCastPool res" where
  "transitionPool rt p nextStatus now outcome =
     rbind (assertIso rt now ''now'') (\<lambda>nowMs.
       if nextStatus \<notin> LEGAL_TRANSITIONS (p_status p)
       then Inl (Error (''illegal pool transition '' @ show_status (p_status p) @ '' -> '' @
              show_status nextStatus))
       else
         rbind
           (if p_status p = Open \<and> nextStatus = Locked
            then rbind (assertIso rt (p_entryClosesAt p) ''entryClosesAt'') (\<lambda>closesMs.
                   if nowMs < closesMs then Inl (Error ''pool cannot lock before entryClosesAt'')
                   else Inr ())
            else Inr ())
           (\<lambda>_. Inr (p\<lparr>p_status := nextStatus,
              p_outcome := (if nextStatus = Settled \<or> nextStatus = Voided then outcome else p_outcome p),
              p_settledAt := (if nextStatus = Settled \<or> nextStatus = Voided then Some now else p_settledAt p)\<rparr>)))"

definition lockPoolIfNeeded :: "js_runtime \<Rightarrow> DotCastPool \<Rightarrow> string \<Rightarrow> DotCastPool res" where
  "lockPoolIfNeeded rt p now =
     rbind (assertIso rt now ''now'') (\<lambda>nowMs.
     rbind (assertIso rt (p_entryClosesAt p) ''entryClosesAt'') (\<lambda>closesMs.
       if p_status p \<noteq> Open \<or> nowMs < closesMs then Inr p
       else transitionPool rt p Locked now (p_outcome p)))"

subsection \<open>Validation\<close>

lemma assertIso_Inr [simp]: "assertIso rt v l = Inr ms \<longleftrightarrow> date_parse rt v = Some ms"
  by (simp add: assertIso_def split: option.splits)

lemma assertNonNegativeInteger_Inr [simp]:
  "assertNonNegativeInteger v l = Inr i \<longleftrightarrow> v = Fin (of_int i) \<and> is_safe_integer i \<and> 0 \<le> i"
  by (auto simp: assertNonNegativeInteger_def safe_integer_Some split: option.splits)

lemma assertPositiveInteger_Inr [simp]:
  "assertPositiveInteger v l = Inr i \<longleftrightarrow> v = Fin (of_int i) \<and> is_safe_integer i \<and> 0 < i"
  by (auto simp: assertPositiveInteger_def rbind_eq_Inr intro!: exI [of _ i] split: if_splits)

lemma assertRake_Inr [simp]: "assertRake rake = Inr u \<longleftrightarrow> (\<exists>r. rake = Fin r \<and> 0 \<le> r \<and> r \<le> 1)"
  by (cases rake) (auto simp: assertRake_def)

lemma assertLocked_Inr [simp]:
  "assertLockedRealMoneyResolutionRoute u route = Inr x \<longleftrightarrow>
     (u = Usdc \<longrightarrow> (\<exists>r. route = Some r \<and> rr_status r = RouteLocked))"
  by (cases route) (auto simp: assertLockedRealMoneyResolutionRoute_def)

subsection \<open>Pools that were created\<close>

definition rake_ok :: "number \<Rightarrow> bool" where
  "rake_ok rake \<longleftrightarrow> (case rake of Fin r \<Rightarrow> 0 \<le> r \<and> r \<le> 1 | _ \<Rightarrow> False)"

definition wf_pool :: "js_runtime \<Rightarrow> DotCastPool \<Rightarrow> bool" where
  "wf_pool rt p \<longleftrightarrow>
     rake_ok (p_rake p) \<and> 0 \<le> p_minLiquidity p \<and> is_safe_integer (p_minLiquidity p) \<and>
     0 \<le> yes (p_pools p) \<and> 0 \<le> no (p_pools p) \<and>
     (case (date_parse rt (p_entryOpensAt p), date_parse rt (p_entryClosesAt p)) of
        (Some o', Some c) \<Rightarrow> o' \<le> c | _ \<Rightarrow> False) \<and>
     (p_unit p = Usdc \<longrightarrow> (\<exists>r. p_resolutionRoute p = Some r \<and> rr_status r = RouteLocked)) \<and>
     (terminal (p_status p) \<longleftrightarrow> p_settledAt p \<noteq> None)"

lemma rake_okD: "rake_ok rake \<Longrightarrow> \<exists>r. rake = Fin r \<and> 0 \<le> r \<and> r \<le> 1"
  by (cases rake) (auto simp: rake_ok_def)

text \<open>The conditions under which a market may get a pool.\<close>

definition create_ok :: "js_runtime \<Rightarrow> CreatePoolInput \<Rightarrow> bool" where
  "create_ok rt i \<longleftrightarrow>
     mk_status (cp_market i) = MarketOpen \<and>
     (case (date_parse rt (cp_now i), date_parse rt (mk_closeTime (cp_market i)),
            date_parse rt (orElse (cp_entryOpensAt i) (cp_now i)), date_parse rt (cp_entryClosesAt i)) of
        (Some now, Some close, Some opens, Some closes) \<Rightarrow> now < close \<and> opens \<le> closes \<and> closes \<le> close
      | _ \<Rightarrow> False) \<and>
     (cp_unit i = Usdc \<longrightarrow> (\<exists>r. cp_resolutionRoute i = Some r \<and> rr_status r = RouteLocked)) \<and>
     rake_ok (cp_rake i) \<and>
     (case safe_integer (cp_minLiquidity i) of Some n \<Rightarrow> 0 \<le> n | None \<Rightarrow> False)"

lemma createPool_Inr:
  assumes "createPoolFromMarket rt i = Inr p"
  shows "create_ok rt i" "wf_pool rt p" "p_status p = Open" "p_pools p = \<lparr>yes = 0, no = 0\<rparr>"
    "p_unit p = cp_unit i" "p_marketId p = mk_id (cp_market i)"
  using assms
  by (auto simp: createPoolFromMarket_def Let_def rbind_eq_Inr create_ok_def wf_pool_def rake_ok_def
      terminal_def split: if_splits)

lemma createPool_ok: "create_ok rt i \<Longrightarrow> \<exists>p. createPoolFromMarket rt i = Inr p"
  by (auto simp: createPoolFromMarket_def Let_def create_ok_def assertIso_def assertRake_def
      assertNonNegativeInteger_def assertLockedRealMoneyResolutionRoute_def rake_ok_def
      split: option.splits number.splits)

text \<open>
  C15: A pool is created exactly if the market is open and not stale, the entry window lies in
  it, the rake and the minimum liquidity are in range and (for real money) the resolution route
  is locked; what is created is an empty open pool that satisfies the pool invariant.
\<close>

theorem createPoolFromMarket_iff:
  "(\<exists>p. createPoolFromMarket rt i = Inr p) = create_ok rt i \<and>
   (case createPoolFromMarket rt i of
      Inl _ \<Rightarrow> True
    | Inr p \<Rightarrow> wf_pool rt p \<and> p_status p = Open \<and> p_pools p = \<lparr>yes = 0, no = 0\<rparr> \<and>
        p_unit p = cp_unit i \<and> p_marketId p = mk_id (cp_market i))"
  using createPool_Inr [of rt i] createPool_ok [of rt i] by (auto split: sum.splits)

subsection \<open>Entries\<close>

definition place_ok :: "js_runtime \<Rightarrow> PlaceEntryInput \<Rightarrow> int \<Rightarrow> bool" where
  "place_ok rt i amount \<longleftrightarrow>
     (case (date_parse rt (pe_now i), date_parse rt (p_entryOpensAt (pe_pool i)),
            date_parse rt (p_entryClosesAt (pe_pool i))) of
        (Some now, Some opens, Some closes) \<Rightarrow> opens \<le> now \<and> now \<le> closes
      | _ \<Rightarrow> False) \<and>
     p_status (pe_pool i) = Open \<and>
     b_userId (pe_balance i) = pe_userId i \<and> b_unit (pe_balance i) = p_unit (pe_pool i) \<and>
     pe_amount i = Fin (of_int amount) \<and> is_safe_integer amount \<and> 0 < amount \<and>
     amount \<le> b_available (pe_balance i)"

lemma placeEntry_Inr:
  assumes "placeEntry rt i = Inr r"
  shows "place_ok rt i (e_amount (px_entry r))"
    "px_pool r = (pe_pool i)\<lparr>p_pools := totals_set (p_pools (pe_pool i)) (pe_side i)
       (js_add (totals_of (p_pools (pe_pool i)) (pe_side i)) (e_amount (px_entry r)))\<rparr>"
    "px_balance r = (pe_balance i)
       \<lparr>b_available := js_sub (b_available (pe_balance i)) (e_amount (px_entry r)),
        b_locked := js_add (b_locked (pe_balance i)) (e_amount (px_entry r))\<rparr>"
    "px_entry r =
       \<lparr>e_id = orElse (pe_entryId i) (deriveEntryId rt (p_id (pe_pool i)) (pe_userId i) (pe_now i)),
        e_poolId = p_id (pe_pool i), e_userId = pe_userId i, e_side = pe_side i,
        e_amount = e_amount (px_entry r), e_funding = UserFunded, e_placedAt = pe_now i,
        e_payout = None, e_refunded = False\<rparr>"
  using assms
  by (auto simp: placeEntry_def Let_def rbind_eq_Inr place_ok_def split: if_splits)

lemma placeEntry_ok: "place_ok rt i a \<Longrightarrow> \<exists>r. placeEntry rt i = Inr r"
  by (auto simp: placeEntry_def Let_def place_ok_def assertIso_def assertPositiveInteger_def
      assertNonNegativeInteger_def split: option.splits)

lemma place_ok_unique: "place_ok rt i a \<Longrightarrow> place_ok rt i b \<Longrightarrow> a = b"
  by (auto simp: place_ok_def)

text \<open>
  \<open>placeEntry\<close> succeeds exactly on an open pool, inside the entry window, with a positive
  integer amount that the user's own balance in the pool's unit covers.  The amount moves from
  available to locked without any being lost, the balance never goes negative, and exactly the
  chosen side of the pool grows by it.
\<close>

theorem placeEntry_moves_stake:
  assumes bal: "0 \<le> b_locked (pe_balance i)"
      "is_safe_integer (b_available (pe_balance i) + b_locked (pe_balance i))"
    and pool: "is_safe_integer (totals_of (p_pools (pe_pool i)) (pe_side i) + amount)"
  shows "place_ok rt i amount \<longleftrightarrow>
    (\<exists>r. placeEntry rt i = Inr r \<and> e_amount (px_entry r) = amount \<and> 0 < amount \<and>
       b_available (px_balance r) = b_available (pe_balance i) - amount \<and> 0 \<le> b_available (px_balance r) \<and>
       b_available (px_balance r) + b_locked (px_balance r) =
         b_available (pe_balance i) + b_locked (pe_balance i) \<and>
       totals_of (p_pools (px_pool r)) (pe_side i) = totals_of (p_pools (pe_pool i)) (pe_side i) + amount \<and>
       totals_of (p_pools (px_pool r)) (other_side (pe_side i)) =
         totals_of (p_pools (pe_pool i)) (other_side (pe_side i)) \<and>
       e_side (px_entry r) = pe_side i \<and> e_userId (px_entry r) = b_userId (px_balance r))"
proof
  assume ok: "place_ok rt i amount"
  obtain r where r: "placeEntry rt i = Inr r" using placeEntry_ok [OF ok] by blast
  note e = placeEntry_Inr [OF r]
  have a: "e_amount (px_entry r) = amount" using place_ok_unique [OF e(1) ok] .
  have m: "0 < amount" "amount \<le> b_available (pe_balance i)" "b_userId (pe_balance i) = pe_userId i"
    using ok by (auto simp: place_ok_def)
  have "js_sub (b_available (pe_balance i)) amount = b_available (pe_balance i) - amount"
    using m bal by (intro js_sub_safe) (auto simp: is_safe_integer_def)
  moreover have "js_add (b_locked (pe_balance i)) amount = b_locked (pe_balance i) + amount"
    using m bal by (intro js_add_safe) (auto simp: is_safe_integer_def)
  moreover have "e_side (px_entry r) = pe_side i" "e_userId (px_entry r) = pe_userId i"
    using arg_cong [OF e(4), of e_side] arg_cong [OF e(4), of e_userId] by simp_all
  ultimately show "\<exists>r. placeEntry rt i = Inr r \<and> e_amount (px_entry r) = amount \<and> 0 < amount \<and>
       b_available (px_balance r) = b_available (pe_balance i) - amount \<and> 0 \<le> b_available (px_balance r) \<and>
       b_available (px_balance r) + b_locked (px_balance r) =
         b_available (pe_balance i) + b_locked (pe_balance i) \<and>
       totals_of (p_pools (px_pool r)) (pe_side i) = totals_of (p_pools (pe_pool i)) (pe_side i) + amount \<and>
       totals_of (p_pools (px_pool r)) (other_side (pe_side i)) =
         totals_of (p_pools (pe_pool i)) (other_side (pe_side i)) \<and>
       e_side (px_entry r) = pe_side i \<and> e_userId (px_entry r) = b_userId (px_balance r)"
    using r a m e(2,3) js_add_safe [OF pool] by (intro exI [of _ r]) simp
next
  assume "\<exists>r. placeEntry rt i = Inr r \<and> e_amount (px_entry r) = amount \<and> 0 < amount \<and>
       b_available (px_balance r) = b_available (pe_balance i) - amount \<and> 0 \<le> b_available (px_balance r) \<and>
       b_available (px_balance r) + b_locked (px_balance r) =
         b_available (pe_balance i) + b_locked (pe_balance i) \<and>
       totals_of (p_pools (px_pool r)) (pe_side i) = totals_of (p_pools (pe_pool i)) (pe_side i) + amount \<and>
       totals_of (p_pools (px_pool r)) (other_side (pe_side i)) =
         totals_of (p_pools (pe_pool i)) (other_side (pe_side i)) \<and>
       e_side (px_entry r) = pe_side i \<and> e_userId (px_entry r) = b_userId (px_balance r)"
  then show "place_ok rt i amount" using placeEntry_Inr(1) by auto
qed

definition example_pool :: DotCastPool where
  "example_pool =
     \<lparr>p_id = ''p1'', p_marketId = ''m1'', p_venue = Kalshi, p_unit = Points,
      p_question = ''Will the index end up?'', p_status = Open,
      p_entryOpensAt = ''2026-01-01T00:00:00.000Z'', p_entryClosesAt = ''2026-01-31T00:00:00.000Z'',
      p_expectedResolveAt = Some ''2026-02-02T00:00:00.000Z'', p_rake = Fin (1 / 40),
      p_pools = \<lparr>yes = 0, no = 0\<rparr>, p_minLiquidity = 100,
      p_createdAt = ''2026-01-01T00:00:00.000Z'', p_settledAt = None, p_outcome = None,
      p_resolutionRoute = None, p_originatingCreatorId = None, p_creatorBrand = None\<rparr>"

definition example_place :: PlaceEntryInput where
  "example_place =
     \<lparr>pe_pool = example_pool,
      pe_balance = \<lparr>b_userId = ''u1'', b_unit = Points, b_available = 500, b_locked = 0\<rparr>,
      pe_userId = ''u1'', pe_side = Yes, pe_amount = Fin 100,
      pe_now = ''2026-01-02T00:00:00.000Z'', pe_entryId = Some ''a''\<rparr>"

lemma example_dates:
  "date_parse ref_runtime ''2026-01-01T00:00:00.000Z'' = Some 1767225600000"
  "date_parse ref_runtime ''2026-01-02T00:00:00.000Z'' = Some 1767312000000"
  "date_parse ref_runtime ''2026-01-31T00:00:00.000Z'' = Some 1769817600000"
  "date_parse ref_runtime ''2026-02-01T00:00:00.000Z'' = Some 1769904000000"
  "date_parse ref_runtime ''2026-02-02T00:00:00.000Z'' = Some 1769990400000"
  by code_simp+

lemma place_ok_example: "place_ok ref_runtime example_place 100"
  by (simp add: place_ok_def example_place_def example_pool_def example_dates small_safe)

theorem placeEntry_moves_stake_witness:
  "\<exists>r. placeEntry ref_runtime example_place = Inr r \<and> e_amount (px_entry r) = 100 \<and>
     b_available (px_balance r) + b_locked (px_balance r) = 500 \<and>
     totals_of (p_pools (px_pool r)) Yes = 100"
proof -
  have f: "pe_pool example_place = example_pool" "pe_side example_place = Yes"
    "b_locked (pe_balance example_place) = 0" "b_available (pe_balance example_place) = 500"
    "totals_of (p_pools example_pool) Yes = 0"
    by (simp_all add: example_place_def example_pool_def totals_of_def)
  show ?thesis
    using placeEntry_moves_stake [of example_place 100 ref_runtime] place_ok_example
    by (auto simp: f small_safe)
qed

subsection \<open>The status machine\<close>

lemma transitionPool_Inr:
  assumes "transitionPool rt p st now oc = Inr q"
  shows "st \<in> LEGAL_TRANSITIONS (p_status p)" "date_parse rt now \<noteq> None"
    "q = p\<lparr>p_status := st, p_outcome := (if terminal st then oc else p_outcome p),
       p_settledAt := (if terminal st then Some now else p_settledAt p)\<rparr>"
    "st = Locked \<Longrightarrow> \<exists>n c. date_parse rt now = Some n \<and> date_parse rt (p_entryClosesAt p) = Some c \<and> c \<le> n"
  using assms
  by (cases "p_status p"; auto simp: transitionPool_def rbind_eq_Inr terminal_def split: if_splits)+

lemma legal_increases: "st \<in> LEGAL_TRANSITIONS s \<Longrightarrow> s < st"
  by (cases s) (auto simp: less_PoolStatus_def)

lemma legal_not_terminal: "st \<in> LEGAL_TRANSITIONS s \<Longrightarrow> \<not> terminal s"
  by (cases s) (auto simp: terminal_def)

lemma transitionPool_wf: "wf_pool rt p \<Longrightarrow> transitionPool rt p st now oc = Inr q \<Longrightarrow> wf_pool rt q"
  using transitionPool_Inr(1,3) [of rt p st now oc q] legal_not_terminal [of st "p_status p"]
  by (auto simp: wf_pool_def)

lemma lockPool_cases:
  assumes "lockPoolIfNeeded rt p now = Inr q"
  shows "q = p \<or> transitionPool rt p Locked now (p_outcome p) = Inr q"
  using assms by (auto simp: lockPoolIfNeeded_def rbind_eq_Inr split: if_splits)

lemma placeEntry_wf:
  assumes w: "wf_pool rt (pe_pool i)" and r: "placeEntry rt i = Inr r"
  shows "wf_pool rt (px_pool r)"
proof -
  have "0 < e_amount (px_entry r)" using placeEntry_Inr(1) [OF r] by (simp add: place_ok_def)
  then have "0 \<le> js_add (totals_of (p_pools (pe_pool i)) (pe_side i)) (e_amount (px_entry r))"
    using w by (cases "pe_side i") (auto simp: js_add_def totals_of_def wf_pool_def intro!: num_nonneg)
  then show ?thesis
    using w by (cases "pe_side i") (simp_all add: placeEntry_Inr(2) [OF r] wf_pool_def totals_set_def)
qed

text \<open>Everything the component does to a pool is a step.\<close>

inductive pool_step :: "js_runtime \<Rightarrow> DotCastPool \<Rightarrow> DotCastPool \<Rightarrow> bool" for rt :: js_runtime where
  step_place: "pe_pool i = p \<Longrightarrow> placeEntry rt i = Inr r \<Longrightarrow> pool_step rt p (px_pool r)"
| step_transition: "transitionPool rt p st now oc = Inr q \<Longrightarrow> pool_step rt p q"
| step_lock: "lockPoolIfNeeded rt p now = Inr q \<Longrightarrow> pool_step rt p q"

definition pool_init :: "js_runtime \<Rightarrow> DotCastPool \<Rightarrow> bool" where
  "pool_init rt p \<longleftrightarrow> (\<exists>i. createPoolFromMarket rt i = Inr p)"

lemma pool_step_wf: "pool_step rt p q \<Longrightarrow> wf_pool rt p \<Longrightarrow> wf_pool rt q"
  by (induction rule: pool_step.induct) (auto dest: placeEntry_wf transitionPool_wf lockPool_cases)

lemma pool_step_status: "pool_step rt p q \<Longrightarrow> p_status p \<le> p_status q"
proof (induction rule: pool_step.induct)
  case (step_place i p r)
  then show ?case using placeEntry_Inr(2) by auto
next
  case (step_transition p st now oc q)
  then show ?case using transitionPool_Inr(1,3) legal_increases by fastforce
next
  case (step_lock p now q)
  then show ?case using lockPool_cases transitionPool_Inr(1,3) legal_increases by fastforce
qed

lemma pool_step_terminal: "pool_step rt p q \<Longrightarrow> terminal (p_status p) \<Longrightarrow> q = p"
proof (induction rule: pool_step.induct)
  case (step_place i p r)
  then show ?case using placeEntry_Inr(1) by (auto simp: place_ok_def terminal_def)
next
  case (step_transition p st now oc q)
  then show ?case using transitionPool_Inr(1) legal_not_terminal by blast
next
  case (step_lock p now q)
  then show ?case using lockPool_cases transitionPool_Inr(1) legal_not_terminal by blast
qed

interpretation lifecycle: step_system "pool_init rt" "pool_step rt" "wf_pool rt" for rt
  by unfold_locales (auto simp: pool_init_def dest: createPool_Inr(2) pool_step_wf)

interpretation finished: step_system "\<lambda>p. p = p0 \<and> terminal (p_status p0)" "pool_step rt"
    "\<lambda>p. p = p0 \<and> terminal (p_status p0)" for p0 rt
  by unfold_locales (auto dest: pool_step_terminal)

text \<open>
  The life of a pool: every pool that the operations can reach satisfies the invariant
  (a settlement time exactly in the terminal states, rake and window in range, a locked route
  for real money).
\<close>

theorem pool_lifecycle_invariant:
  assumes "reach (pool_init rt) (pool_step rt) p"
  shows "wf_pool rt p"
  using assms by (rule lifecycle.reach_inv)

definition example_create :: CreatePoolInput where
  "example_create =
     \<lparr>cp_id = Some ''p1'', cp_market = example_market, cp_unit = Points, cp_entryOpensAt = None,
      cp_entryClosesAt = ''2026-01-31T00:00:00.000Z'', cp_rake = Fin (1 / 40),
      cp_minLiquidity = Fin 100, cp_originatingCreatorId = None, cp_creatorBrand = None,
      cp_resolutionRoute = None, cp_now = ''2026-01-01T00:00:00.000Z''\<rparr>"

lemma create_example: "createPoolFromMarket ref_runtime example_create = Inr example_pool"
proof -
  have n: "assertNonNegativeInteger (Fin 100) l = Inr 100" for l
    using safe_integer_of_int [of 100] by (simp add: assertNonNegativeInteger_def small_safe)
  show ?thesis
    by (simp add: n Let_def createPoolFromMarket_def example_create_def example_market_def example_pool_def
        assertIso_def example_dates assertLockedRealMoneyResolutionRoute_def assertRake_def truthy_text_def)
qed

theorem pool_lifecycle_invariant_witness:
  "\<exists>r. placeEntry ref_runtime example_place = Inr r \<and> wf_pool ref_runtime (px_pool r)"
proof -
  obtain r where r: "placeEntry ref_runtime example_place = Inr r"
    using placeEntry_ok [OF place_ok_example] by blast
  have p: "pe_pool example_place = example_pool" by (simp add: example_place_def)
  have "reach (pool_init ref_runtime) (pool_step ref_runtime) (px_pool r)"
    using create_example pool_step.step_place [OF p r]
    by (intro reach.reach_step [OF reach.reach_init]) (auto simp: pool_init_def)
  then show ?thesis using r pool_lifecycle_invariant by blast
qed

text \<open>
  C14: A pool never goes back: along any sequence of operations the status moves forward
  (open, locked, resolving, then settled or voided), and a pool that is settled or voided is
  never changed again.
\<close>

theorem pool_lifecycle_monotone:
  assumes "(pool_step rt)\<^sup>*\<^sup>* p q"
  shows "p_status p \<le> p_status q \<and> (if terminal (p_status p) then q = p else True)"
proof -
  have "p_status p \<le> p_status q"
    using assms by (induction rule: rtranclp_induct) (auto dest: pool_step_status)
  moreover have "q = p" if "terminal (p_status p)"
    using finished.steps_inv [OF assms] that by blast
  ultimately show ?thesis by simp
qed

theorem pool_lifecycle_monotone_witness:
  "p_status example_pool \<le> p_status (example_pool\<lparr>p_status := Voided, p_outcome := None,
     p_settledAt := Some ''2026-01-02T00:00:00.000Z''\<rparr>)"
proof -
  have "transitionPool ref_runtime example_pool Voided ''2026-01-02T00:00:00.000Z'' None =
      Inr (example_pool\<lparr>p_status := Voided, p_outcome := None, p_settledAt := Some ''2026-01-02T00:00:00.000Z''\<rparr>)"
    by (simp add: transitionPool_def assertIso_def example_dates example_pool_def)
  then have "pool_step ref_runtime example_pool
      (example_pool\<lparr>p_status := Voided, p_outcome := None, p_settledAt := Some ''2026-01-02T00:00:00.000Z''\<rparr>)"
    by (rule pool_step.step_transition)
  then show ?thesis using pool_lifecycle_monotone [OF r_into_rtranclp] by blast
qed

end
