(* ===== verification/PoolSettlement.thy ===== *)
theory PoolSettlement
  imports PoolLifecycle Parimutuel
begin

text \<open>
  \<open>src/engine/dotcast/PoolSettlement.ts\<close>: locking, voiding and settling the snapshot of a pool,
  and the intake of a router resolution.  A snapshot carries the entries and the users' balances;
  the invariant \<open>snap_ok\<close> ties the locked balances to the entries, and the properties say that
  the operations keep it and conserve money.

  \<open>normalizePoolSnapshot\<close> fills in fields that rows of an older version lack; on values of the
  record type it is the identity and has no definition of its own.  The loops over the entries
  update \<open>balances\<close> as they go: they are \<open>mapAccumM\<close>.  \<open>lockSnapshotIfNeeded\<close> asks whether
  \<open>lockPoolIfNeeded\<close> returned the same object, which it does exactly if the status is the same.
\<close>

subsection \<open>Definitions\<close>

type_synonym balances = "(string \<times> StakeBalance) list"

definition requireBalance :: "balances \<Rightarrow> DotCastEntry \<Rightarrow> StakeBalance res" where
  "requireBalance balances entry =
     (case map_of balances (e_userId entry) of
        None \<Rightarrow> Inl (Error (''stake balance missing for entry user '' @ e_userId entry))
      | Some balance \<Rightarrow>
          if b_locked balance < e_amount entry
          then Inl (Error (''locked balance below entry amount for user '' @ e_userId entry))
          else Inr balance)"

definition emptyBalance :: "string \<Rightarrow> StakeUnit \<Rightarrow> StakeBalance" where
  "emptyBalance userId unit =
     \<lparr>b_userId = userId, b_unit = unit, b_available = 0, b_locked = 0\<rparr>"

definition assertNonNegativeBalance :: "StakeBalance \<Rightarrow> string \<Rightarrow> unit res" where
  "assertNonNegativeBalance balance userId =
     (if b_available balance < 0 \<or> b_locked balance < 0
      then Inl (Error (''negative stake balance for user '' @ userId)) else Inr ())"

definition houseRakeEntry :: "js_runtime \<Rightarrow> DotCastPool \<Rightarrow> int \<Rightarrow> string \<Rightarrow> HouseLedgerEntry" where
  "houseRakeEntry rt pool amount now =
     \<lparr>hl_id = ''house:rake:'' @ p_id pool @ '':'' @ show_date rt now, hl_poolId = p_id pool,
      hl_unit = p_unit pool, hl_amount = amount, hl_reason = ''rake'', hl_createdAt = now\<rparr>"

definition toSettlementEntry :: "DotCastEntry \<Rightarrow> SettlementEntry" where
  "toSettlementEntry entry =
     \<lparr>se_id = e_id entry, se_side = e_side entry, se_amount = e_amount entry,
      se_placedAt = Some (e_placedAt entry)\<rparr>"

definition lockVoidReason :: "DotCastPool \<Rightarrow> DotCastVoidReason option" where
  "lockVoidReason pool =
     (let totalStaked = js_add (yes (p_pools pool)) (no (p_pools pool))
      in if totalStaked < p_minLiquidity pool then Some UNDER_LIQUIDITY
         else if yes (p_pools pool) = 0 \<or> no (p_pools pool) = 0 then Some ONE_SIDED_POOL
         else None)"

definition voidEntry :: "balances \<Rightarrow> DotCastEntry \<Rightarrow> (balances \<times> DotCastEntry) res" where
  "voidEntry balances entry =
     (if e_refunded entry then Inr (balances, entry)
      else
        let entry' = entry\<lparr>e_payout := None, e_refunded := True\<rparr>
        in if e_funding entry = UserFunded
           then rbind (requireBalance balances entry) (\<lambda>balance.
                  let balance' = balance\<lparr>b_available := js_add (b_available balance) (e_amount entry),
                                         b_locked := js_sub (b_locked balance) (e_amount entry)\<rparr>
                  in rbind (assertNonNegativeBalance balance' (e_userId entry)) (\<lambda>_.
                       Inr (AList.update (e_userId entry) balance' balances, entry')))
           else Inr (balances, entry'))"

definition voidPoolSnapshot ::
  "js_runtime \<Rightarrow> DotCastPoolSnapshot \<Rightarrow> DotCastVoidReason \<Rightarrow> string \<Rightarrow> Outcome option
    \<Rightarrow> DotCastPoolSnapshot res" where
  "voidPoolSnapshot rt snapshot reason now outcome =
     (if p_status (s_pool snapshot) = Voided then Inr snapshot
      else if p_status (s_pool snapshot) = Settled
      then Inl (Error ''settled pools cannot be voided'')
      else
        rbind (mapAccumM voidEntry (s_balances snapshot) (s_entries snapshot)) (\<lambda>(balances, entries).
        rbind (transitionPool rt (s_pool snapshot) Voided now outcome) (\<lambda>pool.
          Inr (snapshot\<lparr>s_pool := pool, s_entries := entries, s_balances := balances,
                 s_settlement := None, s_voidReason := Some reason, s_updatedAt := now\<rparr>))))"

definition lockSnapshotIfNeeded ::
  "js_runtime \<Rightarrow> DotCastPoolSnapshot \<Rightarrow> string \<Rightarrow> DotCastPoolSnapshot res" where
  "lockSnapshotIfNeeded rt snapshot now =
     rbind (lockPoolIfNeeded rt (s_pool snapshot) now) (\<lambda>pool.
       if p_status pool = p_status (s_pool snapshot) then Inr snapshot
       else case lockVoidReason pool of
           Some reason \<Rightarrow> voidPoolSnapshot rt snapshot reason now (p_outcome (s_pool snapshot))
         | None \<Rightarrow> Inr (snapshot\<lparr>s_pool := pool, s_updatedAt := now\<rparr>))"

definition payoutMap :: "SettlementPayout list \<Rightarrow> (string \<times> SettlementPayout) list" where
  "payoutMap payouts = fold (\<lambda>p. AList.update (sp_entryId p) p) payouts []"

definition settleEntry ::
  "StakeUnit \<Rightarrow> (string \<times> SettlementPayout) list \<Rightarrow> balances \<Rightarrow> DotCastEntry
    \<Rightarrow> (balances \<times> DotCastEntry) res" where
  "settleEntry unit payoutsByEntry balances entry =
     (case map_of payoutsByEntry (e_id entry) of
        None \<Rightarrow> Inl (Error (''settlement payout missing for entry '' @ e_id entry))
      | Some payout \<Rightarrow>
          let entry' = entry\<lparr>e_payout := Some (sp_payout payout), e_refunded := False\<rparr>
          in if e_funding entry = UserFunded
             then rbind (requireBalance balances entry) (\<lambda>balance.
                    let balance' = balance\<lparr>b_available := js_add (b_available balance) (sp_payout payout),
                                           b_locked := js_sub (b_locked balance) (e_amount entry)\<rparr>
                    in rbind (assertNonNegativeBalance balance' (e_userId entry)) (\<lambda>_.
                         Inr (AList.update (e_userId entry) balance' balances, entry')))
             else if sp_payout payout > 0
             then let balance = orElse (map_of balances (e_userId entry)) (emptyBalance (e_userId entry) unit)
                  in Inr (AList.update (e_userId entry)
                            (balance\<lparr>b_available := js_add (b_available balance) (sp_payout payout)\<rparr>) balances,
                          entry')
             else Inr (balances, entry'))"

definition settlePoolSnapshot ::
  "js_runtime \<Rightarrow> DotCastPoolSnapshot \<Rightarrow> Outcome \<Rightarrow> string \<Rightarrow> DotCastPoolSnapshot res" where
  "settlePoolSnapshot rt snapshot outcome now =
     (let pool = s_pool snapshot
      in if p_status pool = Settled \<or> p_status pool = Voided then Inr snapshot
         else case outcome of
           Invalid \<Rightarrow> voidPoolSnapshot rt snapshot INVALID_RESOLUTION now (Some Invalid)
         | Won side \<Rightarrow>
             if p_status pool \<noteq> Locked \<and> p_status pool \<noteq> Resolving
             then Inl (Error ''settlement requires a locked or resolving pool'')
             else
               rbind (if p_status pool = Locked then transitionPool rt pool Resolving now (p_outcome pool)
                      else Inr pool) (\<lambda>resolvingPool.
               rbind (settleParimutuel rt (map toSettlementEntry (s_entries snapshot)) side
                        (p_rake resolvingPool)) (\<lambda>settlement.
                 if pr_kind settlement = KindVoidRequired
                 then voidPoolSnapshot rt (snapshot\<lparr>s_pool := resolvingPool\<rparr>) NO_WINNING_ENTRIES now
                        (p_outcome resolvingPool)
                 else
                   rbind (mapAccumM (settleEntry (p_unit pool) (payoutMap (pr_payouts settlement)))
                            (s_balances snapshot) (s_entries snapshot)) (\<lambda>(balances, entries).
                     let payoutTotal = fold (\<lambda>p sum. js_add sum (sp_payout p)) (pr_payouts settlement) 0;
                         record' =
                           \<lparr>sr_id = ''settlement:'' @ p_id pool @ '':'' @ show_side side,
                            sr_poolId = p_id pool, sr_outcome = side,
                            sr_totalStaked = pr_totalStaked settlement, sr_payoutTotal = payoutTotal,
                            sr_rakeAmount = pr_rakeAmount settlement, sr_createdAt = now\<rparr>;
                         houseLedger =
                           (if pr_rakeAmount settlement > 0
                            then s_houseLedger snapshot @ [houseRakeEntry rt pool (pr_rakeAmount settlement) now]
                            else s_houseLedger snapshot)
                     in rbind (transitionPool rt resolvingPool Settled now (Some (Won side))) (\<lambda>settledPool.
                          Inr \<lparr>s_pool = settledPool, s_entries = entries, s_balances = balances,
                               s_houseLedger = houseLedger, s_settlement = Some record',
                               s_voidReason = None, s_lastResolution = s_lastResolution snapshot,
                               s_updatedAt = now\<rparr>)))))"

subsection \<open>The intake of a resolution\<close>

datatype DotCastResolutionIntakeAction = ActSettled | ActVoided | ActHeld | ActIgnored

datatype DotCastResolutionIntakeReason =
    DEFINITIVE_OUTCOME | INVALID_RESOLUTION' | PENDING_RESOLUTION | STALE_RESOLUTION | GRACE_TIMEOUT'
  | LOCK_VOID | POOL_NOT_LOCKED | TERMINAL_POOL

record DotCastResolutionIntakeInput =
  in_snapshot :: DotCastPoolSnapshot
  in_resolution :: DotCastRouterResolution
  in_now :: string
  in_maxGraceMs :: "number option"

record DotCastResolutionIntakeResult =
  ir_action :: DotCastResolutionIntakeAction
  ir_reason :: DotCastResolutionIntakeReason
  ir_snapshot :: DotCastPoolSnapshot

definition isPastResolutionGrace :: "js_runtime \<Rightarrow> DotCastPool \<Rightarrow> int \<Rightarrow> int \<Rightarrow> bool res" where
  "isPastResolutionGrace rt pool nowMs maxGraceMs =
     (if \<not> truthy_text (p_expectedResolveAt pool) then Inr False
      else rbind (assertIso rt (orElse (p_expectedResolveAt pool) '''') ''expectedResolveAt'') (\<lambda>expectedMs.
             Inr (nowMs > js_add expectedMs maxGraceMs)))"

definition withResolution ::
  "DotCastPoolSnapshot \<Rightarrow> DotCastRouterResolution \<Rightarrow> string \<Rightarrow> DotCastPoolSnapshot" where
  "withResolution snapshot resolution now =
     snapshot\<lparr>s_lastResolution := Some resolution, s_updatedAt := now\<rparr>"

definition graceOrHold ::
  "js_runtime \<Rightarrow> DotCastPoolSnapshot \<Rightarrow> int \<Rightarrow> int \<Rightarrow> string \<Rightarrow> DotCastResolutionIntakeReason
    \<Rightarrow> DotCastResolutionIntakeResult res" where
  "graceOrHold rt locked nowMs maxGraceMs now holdReason =
     rbind (isPastResolutionGrace rt (s_pool locked) nowMs maxGraceMs) (\<lambda>past.
       if past
       then rbind (voidPoolSnapshot rt locked GRACE_TIMEOUT now (p_outcome (s_pool locked))) (\<lambda>s.
              Inr \<lparr>ir_action = ActVoided, ir_reason = GRACE_TIMEOUT', ir_snapshot = s\<rparr>)
       else Inr \<lparr>ir_action = ActHeld, ir_reason = holdReason, ir_snapshot = locked\<rparr>)"

definition applyRouterResolution ::
  "js_runtime \<Rightarrow> DotCastResolutionIntakeInput \<Rightarrow> DotCastResolutionIntakeResult res" where
  "applyRouterResolution rt input =
     (let resolution = in_resolution input; now = in_now input
      in rbind (assertIso rt now ''now'') (\<lambda>nowMs.
         rbind (assertIso rt (rs_fetchedAt resolution) ''resolution.fetchedAt'') (\<lambda>_.
         rbind (case rs_resolvedAt resolution of
                  None \<Rightarrow> Inr 0
                | Some resolvedAt \<Rightarrow> assertIso rt resolvedAt ''resolution.resolvedAt'') (\<lambda>_.
           case safe_integer (orElse (in_maxGraceMs input) (Fin 86400000)) of
             None \<Rightarrow> Inl (RangeError ''maxGraceMs must be a non-negative safe integer'')
           | Some maxGraceMs \<Rightarrow>
             if maxGraceMs < 0 then Inl (RangeError ''maxGraceMs must be a non-negative safe integer'')
             else
               let normalized = withResolution (in_snapshot input) resolution now
               in if p_marketId (s_pool normalized) \<noteq> rs_marketId resolution
                  then Inl (Error ''resolution marketId does not match pool marketId'')
                  else if terminal (p_status (s_pool normalized))
                  then Inr \<lparr>ir_action = ActIgnored, ir_reason = TERMINAL_POOL, ir_snapshot = normalized\<rparr>
                  else
                    rbind (lockSnapshotIfNeeded rt normalized now) (\<lambda>locked.
                      if p_status (s_pool locked) = Voided
                      then Inr \<lparr>ir_action = ActVoided, ir_reason = LOCK_VOID, ir_snapshot = locked\<rparr>
                      else if p_status (s_pool locked) \<noteq> Locked \<and> p_status (s_pool locked) \<noteq> Resolving
                      then Inr \<lparr>ir_action = ActHeld, ir_reason = POOL_NOT_LOCKED, ir_snapshot = locked\<rparr>
                      else if rs_stale resolution
                      then graceOrHold rt locked nowMs maxGraceMs now STALE_RESOLUTION
                      else case rs_outcome resolution of
                          Pending \<Rightarrow> graceOrHold rt locked nowMs maxGraceMs now PENDING_RESOLUTION
                        | Resolved Invalid \<Rightarrow>
                            rbind (settlePoolSnapshot rt locked Invalid now) (\<lambda>s.
                              Inr \<lparr>ir_action = ActVoided, ir_reason = INVALID_RESOLUTION', ir_snapshot = s\<rparr>)
                        | Resolved (Won side) \<Rightarrow>
                            rbind (settlePoolSnapshot rt locked (Won side) now) (\<lambda>s.
                              Inr \<lparr>ir_action = (if p_status (s_pool s) = Voided then ActVoided else ActSettled),
                                   ir_reason = DEFINITIVE_OUTCOME, ir_snapshot = s\<rparr>))))))"

subsection \<open>Moving stakes\<close>

text \<open>
  Both loops do the same to the balances: for an entry of a user, the stake leaves \<open>locked\<close> and a
  credit is added to \<open>available\<close>; for an entry of the house, only a positive credit is added.
\<close>

definition moveEntry ::
  "StakeUnit \<Rightarrow> (DotCastEntry \<Rightarrow> int) \<Rightarrow> balances \<Rightarrow> DotCastEntry \<Rightarrow> balances res" where
  "moveEntry unit credit balances entry =
     (if e_funding entry = UserFunded
      then rbind (requireBalance balances entry) (\<lambda>balance.
             let balance' = balance\<lparr>b_available := js_add (b_available balance) (credit entry),
                                    b_locked := js_sub (b_locked balance) (e_amount entry)\<rparr>
             in rbind (assertNonNegativeBalance balance' (e_userId entry)) (\<lambda>_.
                  Inr (AList.update (e_userId entry) balance' balances)))
      else if credit entry > 0
      then let balance = orElse (map_of balances (e_userId entry)) (emptyBalance (e_userId entry) unit)
           in Inr (AList.update (e_userId entry)
                (balance\<lparr>b_available := js_add (b_available balance) (credit entry)\<rparr>) balances)
      else Inr balances)"

definition void_credit :: "DotCastEntry \<Rightarrow> int" where
  "void_credit e = (if e_funding e = UserFunded then e_amount e else 0)"

lemma voidEntry_move:
  "\<not> e_refunded e \<Longrightarrow> voidEntry bal e =
     rbind (moveEntry unit void_credit bal e) (\<lambda>bal'. Inr (bal', e\<lparr>e_payout := None, e_refunded := True\<rparr>))"
  by (cases "requireBalance bal e") (auto simp: voidEntry_def moveEntry_def void_credit_def Let_def rbind_assoc)

lemma settleEntry_move:
  "map_of pm (e_id e) = Some p \<Longrightarrow> settleEntry unit pm bal e =
     rbind (moveEntry unit (\<lambda>e. case map_of pm (e_id e) of Some p \<Rightarrow> sp_payout p | None \<Rightarrow> 0) bal e)
       (\<lambda>bal'. Inr (bal', e\<lparr>e_payout := Some (sp_payout p), e_refunded := False\<rparr>))"
  by (cases "requireBalance bal e") (auto simp: settleEntry_def moveEntry_def Let_def rbind_assoc)

text \<open>Balances: read per user, well-formed, and in total.\<close>

definition avail :: "balances \<Rightarrow> string \<Rightarrow> int" where
  "avail bal u = (case map_of bal u of Some b \<Rightarrow> b_available b | None \<Rightarrow> 0)"

definition locked :: "balances \<Rightarrow> string \<Rightarrow> int" where
  "locked bal u = (case map_of bal u of Some b \<Rightarrow> b_locked b | None \<Rightarrow> 0)"

definition bal_total :: "StakeBalance \<Rightarrow> int" where
  "bal_total b = b_available b + b_locked b"

definition bal_ok :: "StakeUnit \<Rightarrow> balances \<Rightarrow> bool" where
  "bal_ok unit bal \<longleftrightarrow>
     akeys bal \<and>
     (\<forall>(u, b) \<in> set bal. b_userId b = u \<and> b_unit b = unit \<and> 0 \<le> b_available b \<and> 0 \<le> b_locked b)"

definition user_amount :: "DotCastEntry list \<Rightarrow> string \<Rightarrow> int" where
  "user_amount es u = sum_list (map (\<lambda>e. if e_funding e = UserFunded \<and> e_userId e = u then e_amount e else 0) es)"

definition user_credit :: "(DotCastEntry \<Rightarrow> int) \<Rightarrow> DotCastEntry list \<Rightarrow> string \<Rightarrow> int" where
  "user_credit c es u = sum_list (map (\<lambda>e. if e_userId e = u then c e else 0) es)"

lemma user_amount_simps [simp]:
  "user_amount [] u = 0"
  "user_amount (e # es) u = (if e_funding e = UserFunded \<and> e_userId e = u then e_amount e else 0) + user_amount es u"
  "user_amount (es @ es') u = user_amount es u + user_amount es' u"
  by (simp_all add: user_amount_def)

lemma user_credit_simps [simp]:
  "user_credit c [] u = 0"
  "user_credit c (e # es) u = (if e_userId e = u then c e else 0) + user_credit c es u"
  by (simp_all add: user_credit_def)

lemma bal_ok_lookup:
  "bal_ok unit bal \<Longrightarrow> map_of bal u = Some b \<Longrightarrow>
     b_userId b = u \<and> b_unit b = unit \<and> 0 \<le> b_available b \<and> 0 \<le> b_locked b"
  by (auto simp: bal_ok_def dest!: map_of_SomeD)

lemma bal_ok_update:
  "bal_ok unit bal \<Longrightarrow> b_userId b = u \<Longrightarrow> b_unit b = unit \<Longrightarrow> 0 \<le> b_available b \<Longrightarrow> 0 \<le> b_locked b \<Longrightarrow>
     bal_ok unit (AList.update u b bal)"
proof -
  assume ok: "bal_ok unit bal" and b: "b_userId b = u" "b_unit b = unit" "0 \<le> b_available b" "0 \<le> b_locked b"
  have k: "akeys (AList.update u b bal)" using ok by (simp add: bal_ok_def)
  have "b_userId y = v \<and> b_unit y = unit \<and> 0 \<le> b_available y \<and> 0 \<le> b_locked y"
    if "(v, y) \<in> set (AList.update u b bal)" for v y
  proof -
    have "map_of (AList.update u b bal) v = Some y" 
      by (rule map_of_is_SomeI [OF k [unfolded akeys_def] that])
    then show ?thesis using b bal_ok_lookup [OF ok, of v y] by (auto split: if_splits)
  qed
  then show ?thesis using k by (auto simp: bal_ok_def)
qed

lemma bal_total_nonneg: "bal_ok unit bal \<Longrightarrow> \<forall>kv \<in> set bal. 0 \<le> bal_total (snd kv)"
  by (auto simp: bal_ok_def bal_total_def)

lemma avail_update [simp]: "avail (AList.update u b bal) v = (if v = u then b_available b else avail bal v)"
  by (simp add: avail_def)

lemma locked_update [simp]: "locked (AList.update u b bal) v = (if v = u then b_locked b else locked bal v)"
  by (simp add: locked_def)

lemma avail_nonneg: "bal_ok unit bal \<Longrightarrow> 0 \<le> avail bal u"
  by (auto simp: avail_def bal_ok_lookup split: option.splits)

lemma locked_nonneg: "bal_ok unit bal \<Longrightarrow> 0 \<le> locked bal u"
  by (auto simp: locked_def bal_ok_lookup split: option.splits)

lemma avail_locked_le:
  "bal_ok unit bal \<Longrightarrow> avail bal u + locked bal u \<le> asum bal_total bal"
  using asum_ge [of bal u _ bal_total] asum_nonneg [of bal bal_total] bal_total_nonneg [of unit bal]
  by (auto simp: avail_def locked_def bal_total_def split: option.splits)

lemma asum_update_total:
  "bal_ok unit bal \<Longrightarrow>
     asum bal_total (AList.update u b bal) = asum bal_total bal - (avail bal u + locked bal u) + bal_total b"
  by (auto simp: asum_update bal_ok_def avail_def locked_def bal_total_def split: option.splits)

text \<open>One entry.\<close>

lemma moveEntry_ok:
  assumes ok: "bal_ok unit bal" and c: "0 \<le> c e" and a: "0 < e_amount e"
    and sf: "is_safe_integer (asum bal_total bal + c e)"
    and l: "e_funding e = UserFunded \<Longrightarrow> e_amount e \<le> locked bal (e_userId e)"
  shows "\<exists>bal'. moveEntry unit c bal e = Inr bal' \<and> bal_ok unit bal' \<and>
    (\<forall>u. avail bal' u = avail bal u + user_credit c [e] u) \<and>
    (\<forall>u. locked bal' u = locked bal u - user_amount [e] u) \<and>
    asum bal_total bal' = asum bal_total bal + c e - (if e_funding e = UserFunded then e_amount e else 0)"
proof -
  let ?u = "e_userId e"
  have b: "0 \<le> avail bal ?u" "0 \<le> locked bal ?u" "avail bal ?u + locked bal ?u \<le> asum bal_total bal"
    using ok by (auto intro: avail_nonneg locked_nonneg avail_locked_le)
  have add: "js_add (avail bal ?u) (c e) = avail bal ?u + c e"
    using b c sf by (intro js_add_safe) (auto simp: is_safe_integer_def)
  show ?thesis
  proof (cases "e_funding e = UserFunded")
    case True
    have la: "e_amount e \<le> locked bal ?u" using l True by simp
    then obtain x where x: "map_of bal ?u = Some x" using a by (cases "map_of bal ?u") (auto simp: locked_def)
    have x2: "avail bal ?u = b_available x" "locked bal ?u = b_locked x" by (simp_all add: avail_def locked_def x)
    have sub: "js_sub (b_locked x) (e_amount e) = b_locked x - e_amount e"
      using a la b c sf unfolding x2 by (intro js_sub_safe) (auto simp: is_safe_integer_def)
    let ?y = "x\<lparr>b_available := b_available x + c e, b_locked := b_locked x - e_amount e\<rparr>"
    have "moveEntry unit c bal e = Inr (AList.update ?u ?y bal)"
      using True la b c add sub unfolding x2
      by (simp add: moveEntry_def requireBalance_def x assertNonNegativeBalance_def Let_def)
    moreover have "bal_ok unit (AList.update ?u ?y bal)"
      using bal_ok_lookup [OF ok x] la b c ok unfolding x2 by (intro bal_ok_update) auto
    ultimately show ?thesis
      using True x2 asum_update_total [OF ok, of ?u ?y] by (auto simp: bal_total_def)
  next
    case house: False
    show ?thesis
    proof (cases "c e > 0")
      case True
      let ?x = "orElse (map_of bal ?u) (emptyBalance ?u unit)"
      let ?y = "?x\<lparr>b_available := avail bal ?u + c e\<rparr>"
      have x: "b_available ?x = avail bal ?u" "b_locked ?x = locked bal ?u" "b_userId ?x = ?u" "b_unit ?x = unit"
        using bal_ok_lookup [OF ok, of ?u]
        by (cases "map_of bal ?u"; simp add: avail_def locked_def emptyBalance_def)+
      have "moveEntry unit c bal e = Inr (AList.update ?u ?y bal)"
        using house True add by (simp add: moveEntry_def Let_def x)
      moreover have "bal_ok unit (AList.update ?u ?y bal)"
        using b c x ok by (intro bal_ok_update) auto
      ultimately show ?thesis
        using house x asum_update_total [OF ok, of ?u ?y] by (auto simp: bal_total_def)
    next
      case False
      then show ?thesis using house c ok by (intro exI [of _ bal]) (auto simp: moveEntry_def)
    qed
  qed
qed

lemma user_amount_nonneg: "\<forall>e\<in>set es. 0 < e_amount e \<Longrightarrow> 0 \<le> user_amount es u"
  unfolding user_amount_def by (intro sum_list_nonneg) force

text \<open>All entries: every user's available balance grows by the user's credits, the locked balance
  shrinks by the stakes.\<close>

lemma moveEntries_ok:
  assumes "bal_ok unit bal" "\<forall>e\<in>set es. 0 \<le> c e \<and> 0 < e_amount e"
    "is_safe_integer (asum bal_total bal + sum_list (map c es))"
    "\<forall>u. user_amount es u \<le> locked bal u"
  shows "\<exists>bal'. foldM (moveEntry unit c) bal es = Inr bal' \<and> bal_ok unit bal' \<and>
    (\<forall>u. avail bal' u = avail bal u + user_credit c es u) \<and>
    (\<forall>u. locked bal' u = locked bal u - user_amount es u) \<and>
    asum bal_total bal' = asum bal_total bal + sum_list (map c es)
      - sum_list (map (\<lambda>e. if e_funding e = UserFunded then e_amount e else 0) es)"
  using assms
proof (induction es arbitrary: bal)
  case Nil
  then show ?case by simp
next
  case (Cons e es)
  have c0: "0 \<le> sum_list (map c es)" using Cons.prems(2) by (intro sum_list_nonneg) auto
  have t0: "0 \<le> asum bal_total bal"
    using asum_nonneg bal_total_nonneg [OF Cons.prems(1)] by blast
  have ua: "0 \<le> user_amount es u" for u using Cons.prems(2) by (intro user_amount_nonneg) auto
  obtain bal1 where b1: "moveEntry unit c bal e = Inr bal1" "bal_ok unit bal1"
    "\<forall>u. avail bal1 u = avail bal u + user_credit c [e] u"
    "\<forall>u. locked bal1 u = locked bal u - user_amount [e] u"
    "asum bal_total bal1 = asum bal_total bal + c e - (if e_funding e = UserFunded then e_amount e else 0)"
  proof -
    have "is_safe_integer (asum bal_total bal + c e)"
      using Cons.prems(2,3) c0 t0 by (intro is_safe_between [OF _ _ Cons.prems(3)]) auto
    moreover have "e_amount e \<le> locked bal (e_userId e)" if "e_funding e = UserFunded"
      using Cons.prems(4) [rule_format, of "e_userId e"] that ua [of "e_userId e"] by simp
    ultimately show ?thesis using moveEntry_ok [of unit bal c e] Cons.prems(1,2) that by auto
  qed
  have t1: "0 \<le> asum bal_total bal1" using asum_nonneg bal_total_nonneg [OF b1(2)] by blast
  have "\<exists>bal'. foldM (moveEntry unit c) bal1 es = Inr bal' \<and> bal_ok unit bal' \<and>
    (\<forall>u. avail bal' u = avail bal1 u + user_credit c es u) \<and>
    (\<forall>u. locked bal' u = locked bal1 u - user_amount es u) \<and>
    asum bal_total bal' = asum bal_total bal1 + sum_list (map c es)
      - sum_list (map (\<lambda>e. if e_funding e = UserFunded then e_amount e else 0) es)"
  proof (rule Cons.IH [OF b1(2)])
    show "\<forall>e\<in>set es. 0 \<le> c e \<and> 0 < e_amount e" using Cons.prems(2) by simp
    show "is_safe_integer (asum bal_total bal1 + sum_list (map c es))"
      using Cons.prems(2) b1(5) c0 t1 by (intro is_safe_between [OF _ _ Cons.prems(3)]) auto
    show "\<forall>u. user_amount es u \<le> locked bal1 u" 
    proof
      fix u
      show "user_amount es u \<le> locked bal1 u"
        using Cons.prems(4) [rule_format, of u] b1(4) [rule_format, of u] by simp
    qed
  qed
  then show ?case using b1 by auto
qed

subsection \<open>The invariant of a snapshot\<close>

abbreviation settlement_entries :: "DotCastPoolSnapshot \<Rightarrow> SettlementEntry list" where
  "settlement_entries s \<equiv> map toSettlementEntry (s_entries s)"

abbreviation total_staked :: "DotCastPoolSnapshot \<Rightarrow> int" where
  "total_staked s \<equiv> sum_list (map e_amount (s_entries s))"

definition house_staked :: "DotCastPoolSnapshot \<Rightarrow> int" where
  "house_staked s = sum_list (map (\<lambda>e. if e_funding e = UserFunded then 0 else e_amount e) (s_entries s))"

definition snap_ok :: "js_runtime \<Rightarrow> DotCastPoolSnapshot \<Rightarrow> bool" where
  "snap_ok rt s \<longleftrightarrow>
     wf_pool rt (s_pool s) \<and> bal_ok (p_unit (s_pool s)) (s_balances s) \<and>
     distinct (map e_id (s_entries s)) \<and>
     (\<forall>e\<in>set (s_entries s). is_safe_integer (e_amount e) \<and> 0 < e_amount e) \<and>
     (\<forall>side. totals_of (p_pools (s_pool s)) side = staked side (settlement_entries s)) \<and>
     (if terminal (p_status (s_pool s)) then \<forall>u. locked (s_balances s) u = 0
      else (\<forall>u. locked (s_balances s) u = user_amount (s_entries s) u) \<and>
        (\<forall>e\<in>set (s_entries s). \<not> e_refunded e) \<and>
        is_safe_integer (asum bal_total (s_balances s) + total_staked s))"

lemma toSettlementEntry_sel [simp]:
  "se_id (toSettlementEntry e) = e_id e" "se_side (toSettlementEntry e) = e_side e"
  "se_amount (toSettlementEntry e) = e_amount e"
  by (simp_all add: toSettlementEntry_def)

lemma toSettlementEntry_upd [simp]:
  "toSettlementEntry (e\<lparr>e_payout := x, e_refunded := y\<rparr>) = toSettlementEntry e"
  by (simp add: toSettlementEntry_def)

lemma sum_user_house:
  "sum_list (map (\<lambda>e. if e_funding e = UserFunded then e_amount e else 0) (s_entries s)) =
     total_staked s - house_staked s"
proof -
  have "sum_list (map (\<lambda>e. if e_funding e = UserFunded then e_amount e else 0) es) =
      sum_list (map e_amount es) - sum_list (map (\<lambda>e. if e_funding e = UserFunded then 0 else e_amount e) es)" for es
    by (induction es) auto
  then show ?thesis by (simp add: house_staked_def)
qed

lemma house_staked_nonneg: "\<forall>e\<in>set (s_entries s). 0 < e_amount e \<Longrightarrow> 0 \<le> house_staked s"
  unfolding house_staked_def by (intro sum_list_nonneg) force

lemma snap_okD:
  assumes "snap_ok rt s"
  shows "wf_pool rt (s_pool s)" "bal_ok (p_unit (s_pool s)) (s_balances s)"
    "distinct (map e_id (s_entries s))" "\<forall>e\<in>set (s_entries s). is_safe_integer (e_amount e) \<and> 0 < e_amount e"
    "totals_of (p_pools (s_pool s)) side = staked side (settlement_entries s)"
    "\<not> terminal (p_status (s_pool s)) \<Longrightarrow> locked (s_balances s) u = user_amount (s_entries s) u"
    "\<not> terminal (p_status (s_pool s)) \<Longrightarrow> \<forall>e\<in>set (s_entries s). \<not> e_refunded e"
    "\<not> terminal (p_status (s_pool s)) \<Longrightarrow> is_safe_integer (asum bal_total (s_balances s) + total_staked s)"
    "0 \<le> asum bal_total (s_balances s)"
  using assms asum_nonneg [of "s_balances s" bal_total] bal_total_nonneg [of "p_unit (s_pool s)" "s_balances s"]
  by (auto simp: snap_ok_def)

lemma transition_to_Voided:
  "\<not> terminal (p_status p) \<Longrightarrow> date_parse rt now \<noteq> None \<Longrightarrow>
     transitionPool rt p Voided now oc = Inr (p\<lparr>p_status := Voided, p_outcome := oc, p_settledAt := Some now\<rparr>)"
  by (cases "p_status p") (auto simp: transitionPool_def assertIso_def terminal_def)

definition refund :: "DotCastEntry \<Rightarrow> DotCastEntry" where
  "refund e = e\<lparr>e_payout := None, e_refunded := True\<rparr>"

text \<open>What a void leaves behind: every stake is back where it came from.\<close>

definition voided_from ::
  "js_runtime \<Rightarrow> DotCastPoolSnapshot \<Rightarrow> DotCastVoidReason \<Rightarrow> DotCastPoolSnapshot \<Rightarrow> bool" where
  "voided_from rt s reason s' \<longleftrightarrow>
     snap_ok rt s' \<and> p_status (s_pool s') = Voided \<and> s_voidReason s' = Some reason \<and>
     s_settlement s' = None \<and> s_houseLedger s' = s_houseLedger s \<and>
     s_entries s' = map refund (s_entries s) \<and>
     (\<forall>u. avail (s_balances s') u = avail (s_balances s) u + user_amount (s_entries s) u) \<and>
     (\<forall>u. locked (s_balances s') u = 0) \<and>
     asum bal_total (s_balances s') = asum bal_total (s_balances s)"

lemma void_credit_user: "user_credit void_credit es u = user_amount es u"
  by (induction es) (auto simp: void_credit_def)

lemma void_ok:
  assumes ok: "snap_ok rt s" and nt: "\<not> terminal (p_status (s_pool s))" and now: "date_parse rt now \<noteq> None"
  shows "\<exists>s'. voidPoolSnapshot rt s reason now oc = Inr s' \<and> voided_from rt s reason s' \<and>
    p_outcome (s_pool s') = oc \<and> s_lastResolution s' = s_lastResolution s"
proof -
  note d = snap_okD [OF ok]
  let ?es = "s_entries s" and ?p = "s_pool s"
  have vc: "\<forall>e\<in>set ?es. 0 \<le> void_credit e \<and> void_credit e \<le> e_amount e"
    using d(4) by (auto simp: void_credit_def)
  have "0 \<le> sum_list (map void_credit ?es)" using vc by (intro sum_list_nonneg) force
  moreover have "sum_list (map void_credit ?es) \<le> total_staked s" using vc by (intro sum_list_mono) simp
  ultimately have le: "0 \<le> sum_list (map void_credit ?es)" "sum_list (map void_credit ?es) \<le> total_staked s"
    by blast+
  have sf: "is_safe_integer (asum bal_total (s_balances s) + sum_list (map void_credit ?es))"
    using le d(9) by (intro is_safe_between [OF _ _ d(8) [OF nt]]) auto
  obtain bal' where b: "foldM (moveEntry (p_unit ?p) void_credit) (s_balances s) ?es = Inr bal'"
    "bal_ok (p_unit ?p) bal'" "\<forall>u. avail bal' u = avail (s_balances s) u + user_credit void_credit ?es u"
    "\<forall>u. locked bal' u = locked (s_balances s) u - user_amount ?es u"
    "asum bal_total bal' = asum bal_total (s_balances s) + sum_list (map void_credit ?es)
      - sum_list (map (\<lambda>e. if e_funding e = UserFunded then e_amount e else 0) ?es)"
    using moveEntries_ok [OF d(2) _ sf] vc d(4) d(6) [OF nt] by auto
  have "mapAccumM voidEntry (s_balances s) ?es = Inr (bal', map refund ?es)"
    using mapAccumM_split [of ?es voidEntry "moveEntry (p_unit ?p) void_credit" refund] d(7) [OF nt] b(1)
    by (simp add: voidEntry_move refund_def)
  then have v: "voidPoolSnapshot rt s reason now oc = Inr (s\<lparr>
      s_pool := ?p\<lparr>p_status := Voided, p_outcome := oc, p_settledAt := Some now\<rparr>,
      s_entries := map refund ?es, s_balances := bal', s_settlement := None, s_voidReason := Some reason,
      s_updatedAt := now\<rparr>)"
    using nt by (simp add: voidPoolSnapshot_def transition_to_Voided [OF nt now] terminal_def)
  have "wf_pool rt (?p\<lparr>p_status := Voided, p_outcome := oc, p_settledAt := Some now\<rparr>)"
    using transitionPool_wf [OF d(1)] transition_to_Voided [OF nt now] by blast
  moreover have "(\<lambda>e. e_id (refund e)) = e_id" "(\<lambda>e. e_amount (refund e)) = e_amount"
    by (simp_all add: refund_def)
  moreover have "sum_list (map void_credit ?es) =
      sum_list (map (\<lambda>e. if e_funding e = UserFunded then e_amount e else 0) ?es)"
    by (simp add: void_credit_def [abs_def])
  ultimately show ?thesis
    using b d(3,4,5) d(6) [OF nt] unfolding v voided_from_def snap_ok_def
    by (simp add: terminal_def comp_def void_credit_user refund_def)
qed

text \<open>Settling: the pay-outs of the parimutuel engine become credits.\<close>

lemma payoutMap_lookup:
  assumes "distinct (map sp_entryId ps)" "p \<in> set ps"
  shows "map_of (payoutMap ps) (sp_entryId p) = Some p"
  using assms by (simp add: payoutMap_def fold_update_lookup find_key)

lemma settle_payout_of_entry:
  assumes s: "settleable (map toSettlementEntry es) w r"
    and res: "settleParimutuel rt (map toSettlementEntry es) w (Fin r) = Inr res" and e: "e \<in> set es"
  shows "map_of (payoutMap (pr_payouts res)) (e_id e) =
    Some (payout_of rt w r (map toSettlementEntry es) (toSettlementEntry e))"
proof -
  let ?ses = "map toSettlementEntry es"
  have "mset (map sp_entryId (pr_payouts res)) = mset (map se_id ?ses)"
    using settle_payouts_mset [OF s res] by (simp add: payout_of_def image_mset.compositionality comp_def)
  moreover have "distinct (map se_id ?ses)" using s by (simp add: settleable_def)
  ultimately have d: "distinct (map sp_entryId (pr_payouts res))"
    by (metis mset_eq_imp_distinct_iff)
  have "payout_of rt w r ?ses (toSettlementEntry e) \<in> set (pr_payouts res)"
    using settle_payouts_set [OF s res] e by simp
  from payoutMap_lookup [OF d this] show ?thesis by (simp add: payout_of_def)
qed

lemma snap_settleable:
  assumes ok: "snap_ok rt s" and nt: "\<not> terminal (p_status (s_pool s))"
    and w: "staked w (settlement_entries s) \<noteq> 0"
  shows "\<exists>r. p_rake (s_pool s) = Fin r \<and> settleable (settlement_entries s) w r"
proof -
  note d = snap_okD [OF ok]
  obtain r where r: "p_rake (s_pool s) = Fin r" "0 \<le> r" "r \<le> 1"
    using d(1) rake_okD by (auto simp: wf_pool_def)
  have v: "\<forall>e\<in>set (settlement_entries s). valid_entry e" using d(4) by (auto simp: valid_entry_def)
  have t: "0 \<le> total_staked s" using d(4) by (intro sum_list_nonneg) force
  have "is_safe_integer (total_staked s)"
    using t d(9) by (intro is_safe_between [OF _ _ d(8) [OF nt]]) auto
  moreover have "0 < staked w (settlement_entries s)" using w staked_nonneg [OF v, of w] by simp
  ultimately show ?thesis
    using r v d(3) by (auto simp: settleable_def comp_def)
qed

definition settled_from ::
  "js_runtime \<Rightarrow> DotCastPoolSnapshot \<Rightarrow> Side \<Rightarrow> ParimutuelSettlementResult \<Rightarrow> DotCastPoolSnapshot \<Rightarrow> bool" where
  "settled_from rt s w res s' \<longleftrightarrow>
     snap_ok rt s' \<and> p_status (s_pool s') = Settled \<and> p_outcome (s_pool s') = Some (Won w) \<and>
     s_voidReason s' = None \<and>
     list_all2 (\<lambda>e e'. e_id e' = e_id e \<and> e_amount e' = e_amount e \<and> \<not> e_refunded e' \<and>
        (\<exists>p \<in> set (pr_payouts res). sp_entryId p = e_id e \<and> e_payout e' = Some (sp_payout p)))
       (s_entries s) (s_entries s') \<and>
     (\<forall>u. avail (s_balances s') u =
        avail (s_balances s) u + user_credit (\<lambda>e. orElse (e_payout e) 0) (s_entries s') u) \<and>
     (\<forall>u. locked (s_balances s') u = 0) \<and>
     asum bal_total (s_balances s') + pr_rakeAmount res = asum bal_total (s_balances s) + house_staked s \<and>
     sum_list (map hl_amount (s_houseLedger s')) =
       sum_list (map hl_amount (s_houseLedger s)) + pr_rakeAmount res \<and>
     (\<exists>rec. s_settlement s' = Some rec \<and> sr_id rec = ''settlement:'' @ p_id (s_pool s') @ '':'' @ show_side w \<and>
        sr_outcome rec = w \<and> sr_rakeAmount rec = pr_rakeAmount res \<and> sr_totalStaked rec = total_staked s \<and> sr_payoutTotal rec + sr_rakeAmount rec = sr_totalStaked rec)"

lemma paid_nonneg: "settleable es w r \<Longrightarrow> e \<in> set es \<Longrightarrow> 0 \<le> paid rt w r es e"
  using winnings_bounds(1) [of es w r e rt] settleable_facts(6) [of es w r]
  by (auto simp: paid_def winners_def valid_entry_def)

lemma user_credit_map:
  "user_credit c (map f es) u = sum_list (map (\<lambda>e. if e_userId (f e) = u then c (f e) else 0) es)"
  by (simp add: user_credit_def comp_def)

lemma resolving_pool:
  assumes ok: "wf_pool rt p" and st: "p_status p = Locked \<or> p_status p = Resolving"
    and now: "date_parse rt now \<noteq> None"
  shows "(if p_status p = Locked then transitionPool rt p Resolving now (p_outcome p) else Inr p) =
    Inr (p\<lparr>p_status := Resolving\<rparr>)" "wf_pool rt (p\<lparr>p_status := Resolving\<rparr>)"
proof -
  show "(if p_status p = Locked then transitionPool rt p Resolving now (p_outcome p) else Inr p) =
      Inr (p\<lparr>p_status := Resolving\<rparr>)"
    using st now by (auto simp: transitionPool_def assertIso_def)
  show "wf_pool rt (p\<lparr>p_status := Resolving\<rparr>)"
    using ok st by (auto simp: wf_pool_def terminal_def)
qed

lemma transition_to_Settled:
  "date_parse rt now \<noteq> None \<Longrightarrow>
     transitionPool rt (p\<lparr>p_status := Resolving\<rparr>) Settled now oc =
       Inr (p\<lparr>p_status := Settled, p_outcome := oc, p_settledAt := Some now\<rparr>)"
  by (auto simp: transitionPool_def assertIso_def)

definition pay :: "(string \<times> SettlementPayout) list \<Rightarrow> DotCastEntry \<Rightarrow> int" where
  "pay pm e = (case map_of pm (e_id e) of Some p \<Rightarrow> sp_payout p | None \<Rightarrow> 0)"

definition with_payout :: "(string \<times> SettlementPayout) list \<Rightarrow> DotCastEntry \<Rightarrow> DotCastEntry" where
  "with_payout pm e = e\<lparr>e_payout := Some (pay pm e), e_refunded := False\<rparr>"

text \<open>The balances after the loop of a settlement.\<close>

lemma settle_balances:
  assumes ok: "snap_ok rt s" and nt: "\<not> terminal (p_status (s_pool s))"
    and se: "settleable (settlement_entries s) w r"
    and res: "settleParimutuel rt (settlement_entries s) w (Fin r) = Inr res"
  defines "pm \<equiv> payoutMap (pr_payouts res)"
  shows "\<exists>bal'. mapAccumM (settleEntry (p_unit (s_pool s)) pm) (s_balances s) (s_entries s) =
      Inr (bal', map (with_payout pm) (s_entries s)) \<and> bal_ok (p_unit (s_pool s)) bal' \<and>
    (\<forall>u. avail bal' u = avail (s_balances s) u + user_credit (pay pm) (s_entries s) u) \<and>
    (\<forall>u. locked bal' u = 0) \<and>
    asum bal_total bal' + pr_rakeAmount res = asum bal_total (s_balances s) + house_staked s"
proof -
  note d = snap_okD [OF ok]
  let ?es = "s_entries s" and ?ses = "settlement_entries s" and ?p = "s_pool s"
  have lk: "map_of pm (e_id e) = Some (payout_of rt w r ?ses (toSettlementEntry e))" if "e \<in> set ?es" for e
    unfolding pm_def using settle_payout_of_entry [OF se res that] .
  have pe: "pay pm e = paid rt w r ?ses (toSettlementEntry e)" if "e \<in> set ?es" for e
    using lk [OF that] by (simp add: pay_def payout_of_def)
  have c: "\<forall>e\<in>set ?es. 0 \<le> pay pm e \<and> 0 < e_amount e"
    using pe paid_nonneg [OF se] d(4) by auto
  have "map (pay pm) ?es = map (paid rt w r ?ses) ?ses" using pe by (simp add: comp_def)
  then have sum: "sum_list (map (pay pm) ?es) = staked w ?ses + prize w r ?ses"
    using paid_sum [OF se, of rt] by metis
  have rake: "pr_rakeAmount res = staked (other_side w) ?ses - prize w r ?ses"
    using settle_result [OF se, of rt] res by auto
  have tot: "staked w ?ses + staked (other_side w) ?ses = total_staked s"
    using total_sides [of w ?ses] by (simp add: comp_def)
  have "0 \<le> sum_list (map (pay pm) ?es)" using c by (intro sum_list_nonneg) auto
  moreover have "sum_list (map (pay pm) ?es) \<le> total_staked s"
    using sum tot settleable_facts(4) [OF se] by linarith
  ultimately have sf: "is_safe_integer (asum bal_total (s_balances s) + sum_list (map (pay pm) ?es))"
    using d(9) by (intro is_safe_between [OF _ _ d(8) [OF nt]]) auto
  have "\<forall>u. user_amount ?es u \<le> locked (s_balances s) u" using d(6) [OF nt] by simp
  then obtain bal' where b: "foldM (moveEntry (p_unit ?p) (pay pm)) (s_balances s) ?es = Inr bal'"
    "bal_ok (p_unit ?p) bal'" "\<forall>u. avail bal' u = avail (s_balances s) u + user_credit (pay pm) ?es u"
    "\<forall>u. locked bal' u = locked (s_balances s) u - user_amount ?es u"
    "asum bal_total bal' = asum bal_total (s_balances s) + sum_list (map (pay pm) ?es)
      - sum_list (map (\<lambda>e. if e_funding e = UserFunded then e_amount e else 0) ?es)"
    using moveEntries_ok [OF d(2) c sf] by blast
  have "settleEntry (p_unit ?p) pm bal e = rbind (moveEntry (p_unit ?p) (pay pm) bal e) (\<lambda>b. Inr (b, with_payout pm e))"
    if "e \<in> set ?es" for bal e
    using settleEntry_move [OF lk [OF that], of "p_unit ?p" bal] lk [OF that]
    by (simp add: pay_def [abs_def] with_payout_def)
  then have "mapAccumM (settleEntry (p_unit ?p) pm) (s_balances s) ?es = Inr (bal', map (with_payout pm) ?es)"
    using mapAccumM_split [of ?es "settleEntry (p_unit ?p) pm" "moveEntry (p_unit ?p) (pay pm)" "with_payout pm"]
      b(1) by simp
  moreover have "asum bal_total bal' + pr_rakeAmount res = asum bal_total (s_balances s) + house_staked s"
    using b(5) sum rake tot sum_user_house [of s] by linarith
  ultimately show ?thesis using b d(6) [OF nt] by simp
qed

lemma settle_totals:
  assumes "settleable es w r" "settleParimutuel rt es w (Fin r) = Inr res"
  shows "0 \<le> pr_rakeAmount res" "pr_totalStaked res = sum_list (map se_amount es)"
    "fold (\<lambda>p sum. js_add sum (sp_payout p)) (pr_payouts res) 0 + pr_rakeAmount res = pr_totalStaked res"
    "pr_kind res = KindSettled"
proof -
  note f = settleable_facts [OF assms(1)]
  have rake: "pr_rakeAmount res = staked (other_side w) es - prize w r es" "pr_kind res = KindSettled"
    and tot: "pr_totalStaked res = sum_list (map se_amount es)"
    using settle_result [OF assms(1), of rt] assms(2) by auto
  show "pr_kind res = KindSettled" by (rule rake(2))
  show "0 \<le> pr_rakeAmount res" using f(4) rake by simp
  show "pr_totalStaked res = sum_list (map se_amount es)" by (rule tot)
  have pays: "sum_list (map sp_payout (pr_payouts res)) = sum_list (map (paid rt w r es) es)"
  proof -
    have "mset (map sp_payout (pr_payouts res)) = mset (map (paid rt w r es) es)"
      using settle_payouts_mset [OF assms] by (simp add: payout_of_def image_mset.compositionality comp_def)
    then show ?thesis by (metis sum_mset_sum_list)
  qed
  have "\<forall>p\<in>set (pr_payouts res). 0 \<le> sp_payout p"
    using settle_payouts_set [OF assms] paid_nonneg [OF assms(1)] by (auto simp: payout_of_def)
  moreover have "is_safe_integer (0 + sum_list (map sp_payout (pr_payouts res)))"
  proof (rule is_safe_between)
    show "is_safe_integer (sum_list (map se_amount es))" using assms(1) by (simp add: settleable_def)
    show "0 \<le> 0 + sum_list (map sp_payout (pr_payouts res))"
      using calculation by (auto intro!: sum_list_nonneg)
    show "0 + sum_list (map sp_payout (pr_payouts res)) \<le> sum_list (map se_amount es)"
      using pays paid_sum [OF assms(1), of rt] f(4) total_sides [of w es] by simp
  qed
  ultimately have "fold (\<lambda>p sum. js_add sum (sp_payout p)) (pr_payouts res) 0 = sum_list (map sp_payout (pr_payouts res))"
    using fold_js_add [of "pr_payouts res" sp_payout 0] by simp
  then show "fold (\<lambda>p sum. js_add sum (sp_payout p)) (pr_payouts res) 0 + pr_rakeAmount res = pr_totalStaked res"
    using pays paid_sum [OF assms(1), of rt] rake tot total_sides [of w es] by simp
qed

lemma settle_ok:
  assumes ok: "snap_ok rt s" and st: "p_status (s_pool s) = Locked \<or> p_status (s_pool s) = Resolving"
    and now: "date_parse rt now \<noteq> None" and w: "staked w (settlement_entries s) \<noteq> 0"
  shows "\<exists>res s'. settleParimutuel rt (settlement_entries s) w (p_rake (s_pool s)) = Inr res \<and>
    settlePoolSnapshot rt s (Won w) now = Inr s' \<and> settled_from rt s w res s'"
proof -
  let ?es = "s_entries s" and ?ses = "settlement_entries s" and ?p = "s_pool s"
  have nt: "\<not> terminal (p_status ?p)" using st by (auto simp: terminal_def)
  note d = snap_okD [OF ok]
  note rp = resolving_pool [OF d(1) st now]
  obtain r where r: "p_rake ?p = Fin r" and se: "settleable ?ses w r"
    using snap_settleable [OF ok nt w] by blast
  obtain res where res: "settleParimutuel rt ?ses w (Fin r) = Inr res" using settle_result [OF se] by blast
  note t = settle_totals [OF se res]
  let ?pm = "payoutMap (pr_payouts res)"
  obtain bal' where b: "mapAccumM (settleEntry (p_unit ?p) ?pm) (s_balances s) ?es = Inr (bal', map (with_payout ?pm) ?es)"
    "bal_ok (p_unit ?p) bal'" "\<forall>u. avail bal' u = avail (s_balances s) u + user_credit (pay ?pm) ?es u"
    "\<forall>u. locked bal' u = 0" "asum bal_total bal' + pr_rakeAmount res = asum bal_total (s_balances s) + house_staked s"
    using settle_balances [OF ok nt se res] by blast
  let ?q = "?p\<lparr>p_status := Settled, p_outcome := Some (Won w), p_settledAt := Some now\<rparr>"
  let ?rec = "\<lparr>sr_id = ''settlement:'' @ p_id ?p @ '':'' @ show_side w, sr_poolId = p_id ?p, sr_outcome = w,
     sr_totalStaked = pr_totalStaked res,
     sr_payoutTotal = fold (\<lambda>p sum. js_add sum (sp_payout p)) (pr_payouts res) 0,
     sr_rakeAmount = pr_rakeAmount res, sr_createdAt = now\<rparr>"
  let ?hl = "if pr_rakeAmount res > 0 then s_houseLedger s @ [houseRakeEntry rt ?p (pr_rakeAmount res) now]
     else s_houseLedger s"
  let ?s' = "\<lparr>s_pool = ?q, s_entries = map (with_payout ?pm) ?es, s_balances = bal', s_houseLedger = ?hl,
     s_settlement = Some ?rec, s_voidReason = None, s_lastResolution = s_lastResolution s, s_updatedAt = now\<rparr>"
  have st': "p_status ?p \<noteq> Settled" "p_status ?p \<noteq> Voided" "\<not> (p_status ?p \<noteq> Locked \<and> p_status ?p \<noteq> Resolving)"
    using st by auto
  have run: "settlePoolSnapshot rt s (Won w) now = Inr ?s'"
    unfolding settlePoolSnapshot_def Let_def
    using st' by (simp add: rp(1) r res t(4) b(1) transition_to_Settled [OF now])
  have wf: "wf_pool rt ?q"
    using transitionPool_wf [OF rp(2) transition_to_Settled [OF now]] by blast
  have ledger: "sum_list (map hl_amount ?hl) = sum_list (map hl_amount (s_houseLedger s)) + pr_rakeAmount res"
    using t(1) by (simp add: houseRakeEntry_def)
  have ids: "map e_id (map (with_payout ?pm) ?es) = map e_id ?es"
    "map toSettlementEntry (map (with_payout ?pm) ?es) = ?ses"
    by (simp_all add: with_payout_def)
  have ents: "list_all2 (\<lambda>e e'. e_id e' = e_id e \<and> e_amount e' = e_amount e \<and> \<not> e_refunded e' \<and>
        (\<exists>p \<in> set (pr_payouts res). sp_entryId p = e_id e \<and> e_payout e' = Some (sp_payout p)))
       ?es (map (with_payout ?pm) ?es)"
    unfolding list_all2_map2
  proof (rule list_all2_same [THEN iffD2], intro ballI)
    fix e assume e: "e \<in> set ?es"
    let ?x = "payout_of rt w r ?ses (toSettlementEntry e)"
    have "pay ?pm e = sp_payout ?x" using settle_payout_of_entry [OF se res e] by (simp add: pay_def)
    moreover have "?x \<in> set (pr_payouts res)" using settle_payouts_set [OF se res] e by simp
    moreover have "sp_entryId ?x = e_id e" by (simp add: payout_of_def)
    ultimately show "e_id (with_payout ?pm e) = e_id e \<and> e_amount (with_payout ?pm e) = e_amount e \<and>
        \<not> e_refunded (with_payout ?pm e) \<and>
        (\<exists>p \<in> set (pr_payouts res). sp_entryId p = e_id e \<and> e_payout (with_payout ?pm e) = Some (sp_payout p))"
      by (auto simp: with_payout_def)
  qed
  have cr: "user_credit (\<lambda>e. orElse (e_payout e) 0) (map (with_payout ?pm) ?es) u = user_credit (pay ?pm) ?es u" for u
    by (simp add: user_credit_def comp_def with_payout_def cong: if_cong)
  have "snap_ok rt ?s'"
    unfolding snap_ok_def using wf b(2,4) d(3,4,5) ids by (simp add: terminal_def comp_def with_payout_def)
  moreover have "total_staked s = sum_list (map se_amount ?ses)" by (simp add: comp_def)
  ultimately have "settled_from rt s w res ?s'"
    unfolding settled_from_def using b(3-5) ledger ents cr t(2,3) by simp
  then show ?thesis using run r res by auto
qed

subsection \<open>Properties\<close>

text \<open>
  C3: Voiding a pool that is not finished always succeeds and gives everyone exactly the stake
  back: available grows by what the user staked, nothing stays locked, every entry is marked
  refunded, no rake is taken and the sum of all balances is unchanged.
\<close>

theorem voidPoolSnapshot_refunds:
  assumes "snap_ok rt s" "\<not> terminal (p_status (s_pool s))" "date_parse rt now \<noteq> None"
  shows "\<exists>s'. voidPoolSnapshot rt s reason now oc = Inr s' \<and> voided_from rt s reason s' \<and>
    p_outcome (s_pool s') = oc"
  using void_ok [OF assms] by blast

definition example_snapshot :: DotCastPoolSnapshot where
  "example_snapshot =
     \<lparr>s_pool = example_pool\<lparr>p_status := Locked, p_pools := \<lparr>yes = 150, no = 102\<rparr>\<rparr>,
      s_entries =
        [\<lparr>e_id = ''a'', e_poolId = ''p1'', e_userId = ''u1'', e_side = Yes, e_amount = 100,
          e_funding = UserFunded, e_placedAt = ''2026-01-02T00:00:00.000Z'', e_payout = None, e_refunded = False\<rparr>,
         \<lparr>e_id = ''b'', e_poolId = ''p1'', e_userId = ''u2'', e_side = Yes, e_amount = 50,
          e_funding = UserFunded, e_placedAt = ''2026-01-02T00:00:00.000Z'', e_payout = None, e_refunded = False\<rparr>,
         \<lparr>e_id = ''c'', e_poolId = ''p1'', e_userId = ''u1'', e_side = No, e_amount = 102,
          e_funding = UserFunded, e_placedAt = ''2026-01-02T00:00:00.000Z'', e_payout = None, e_refunded = False\<rparr>],
      s_balances =
        [(''u1'', \<lparr>b_userId = ''u1'', b_unit = Points, b_available = 9798, b_locked = 202\<rparr>),
         (''u2'', \<lparr>b_userId = ''u2'', b_unit = Points, b_available = 9950, b_locked = 50\<rparr>)],
      s_houseLedger = [], s_settlement = None, s_voidReason = None, s_lastResolution = None,
      s_updatedAt = ''2026-01-31T00:00:00.000Z''\<rparr>"

lemma example_snapshot_ok: "snap_ok ref_runtime example_snapshot"
proof -
  have wf: "wf_pool ref_runtime (s_pool example_snapshot)"
    by (simp add: wf_pool_def example_snapshot_def example_pool_def rake_ok_def example_dates small_safe terminal_def)
  have tot: "totals_of (p_pools (s_pool example_snapshot)) side = staked side (settlement_entries example_snapshot)" for side
    by (cases side) (simp_all add: totals_of_def example_snapshot_def toSettlementEntry_def)
  show ?thesis
    unfolding snap_ok_def using wf tot
    by (simp add: bal_ok_def akeys_def locked_def example_snapshot_def example_pool_def terminal_def
        small_safe asum_def bal_total_def)
qed

lemma example_snapshot_status:
  "p_status (s_pool example_snapshot) = Locked" "\<not> terminal (p_status (s_pool example_snapshot))"
  by (simp_all add: example_snapshot_def terminal_def)

theorem voidPoolSnapshot_refunds_witness:
  "\<exists>s'. voidPoolSnapshot ref_runtime example_snapshot ADMIN_VOID ''2026-02-01T00:00:00.000Z'' None = Inr s' \<and>
     voided_from ref_runtime example_snapshot ADMIN_VOID s' \<and> p_outcome (s_pool s') = None"
  by (rule voidPoolSnapshot_refunds [OF example_snapshot_ok example_snapshot_status(2)])
    (simp add: example_dates)

lemma settle_void_ok:
  assumes ok: "snap_ok rt s" and st: "p_status (s_pool s) = Locked \<or> p_status (s_pool s) = Resolving"
    and now: "date_parse rt now \<noteq> None" and True: "staked w (settlement_entries s) = 0"
  shows "\<exists>s'. settlePoolSnapshot rt s (Won w) now = Inr s' \<and> voided_from rt s NO_WINNING_ENTRIES s'"
proof -
  let ?p = "s_pool s" and ?t = "s\<lparr>s_pool := (s_pool s)\<lparr>p_status := Resolving\<rparr>\<rparr>"
  have nt: "\<not> terminal (p_status ?p)" using st by (auto simp: terminal_def)
  note d = snap_okD [OF ok]
  note rp = resolving_pool [OF d(1) st now]
  have t: "snap_ok rt ?t" using ok rp(2) nt by (auto simp: snap_ok_def terminal_def)
  obtain s' where s': "voidPoolSnapshot rt ?t NO_WINNING_ENTRIES now (p_outcome ?p) = Inr s'"
    "voided_from rt ?t NO_WINNING_ENTRIES s'"
    using void_ok [OF t _ now, of NO_WINNING_ENTRIES "p_outcome ?p"] by (auto simp: terminal_def)
  have v: "\<forall>e\<in>set (settlement_entries s). valid_entry e" using d(4) by (auto simp: valid_entry_def)
  have tot: "0 \<le> total_staked s" using d(4) by (intro sum_list_nonneg) force
  have "is_safe_integer (staked side (settlement_entries s))" for side
  proof (rule is_safe_between [OF staked_nonneg [OF v] _ d(8) [OF nt]])
    have "staked side (settlement_entries s) + staked (other_side side) (settlement_entries s) = total_staked s"
      using total_sides [of side "settlement_entries s"] by (simp add: comp_def)
    then show "staked side (settlement_entries s) \<le> asum bal_total (s_balances s) + total_staked s"
      using d(9) staked_nonneg [OF v, of "other_side side"] by linarith
  qed
  then have si: "settle_input (settlement_entries s)" using v by (auto simp: settle_input_def list_all_iff)
  obtain res where res: "settleParimutuel rt (settlement_entries s) w (p_rake ?p) = Inr res" "pr_kind res = KindVoidRequired"
  proof (cases "settlement_entries s = []")
    case e: True
    then show ?thesis using that by (simp add: settleParimutuel_def)
  next
    case ne: False
    show ?thesis using that settle_unfold [OF ne, of rt w "p_rake ?p"] si True by simp
  qed
  have st': "p_status ?p \<noteq> Settled" "p_status ?p \<noteq> Voided" "\<not> (p_status ?p \<noteq> Locked \<and> p_status ?p \<noteq> Resolving)"
    using st by auto
  have "settlePoolSnapshot rt s (Won w) now = Inr s'"
    unfolding settlePoolSnapshot_def Let_def using st' res s'(1) by (simp add: rp(1))
  then show ?thesis using s'(2) by (simp add: voided_from_def)
qed

text \<open>
  C2: Settling a locked pool always succeeds.  If somebody backed the winner, every entry gets
  the pay-out computed by the parimutuel engine, each user's available balance grows by the sum
  of these, nothing stays locked, and what leaves the balances is exactly the rake booked in the
  house ledger and in the settlement record; otherwise all stakes are refunded.
\<close>

theorem settlePoolSnapshot_settles:
  assumes ok: "snap_ok rt s" and st: "p_status (s_pool s) = Locked \<or> p_status (s_pool s) = Resolving"
    and now: "date_parse rt now \<noteq> None"
  shows "\<exists>s'. settlePoolSnapshot rt s (Won w) now = Inr s' \<and>
    (if staked w (settlement_entries s) = 0 then voided_from rt s NO_WINNING_ENTRIES s'
     else \<exists>res. settleParimutuel rt (settlement_entries s) w (p_rake (s_pool s)) = Inr res \<and>
       settled_from rt s w res s')"
proof (cases "staked w (settlement_entries s) = 0")
  case False
  then show ?thesis using settle_ok [OF ok st now False] by auto
next
  case True
  then show ?thesis using settle_void_ok [OF ok st now True] by auto
qed

theorem settlePoolSnapshot_settles_witness:
  "\<exists>s' res. settlePoolSnapshot ref_runtime example_snapshot (Won Yes) ''2026-02-01T00:00:00.000Z'' = Inr s' \<and>
     settled_from ref_runtime example_snapshot Yes res s'"
proof -
  have "staked Yes (settlement_entries example_snapshot) \<noteq> 0"
    by (simp add: example_snapshot_def toSettlementEntry_def)
  then show ?thesis
    using settlePoolSnapshot_settles [OF example_snapshot_ok disjI1 [OF example_snapshot_status(1)],
        of "''2026-02-01T00:00:00.000Z''" Yes]
    by (auto simp: example_dates)
qed

text \<open>Locking.\<close>

definition should_lock :: "js_runtime \<Rightarrow> DotCastPool \<Rightarrow> string \<Rightarrow> bool" where
  "should_lock rt p now \<longleftrightarrow>
     p_status p = Open \<and>
     (case (date_parse rt now, date_parse rt (p_entryClosesAt p)) of (Some n, Some c) \<Rightarrow> c \<le> n | _ \<Rightarrow> False)"

lemma wf_pool_closes: "wf_pool rt p \<Longrightarrow> \<exists>c. date_parse rt (p_entryClosesAt p) = Some c"
  by (auto simp: wf_pool_def split: option.splits)

lemma lockPool_eq:
  assumes "wf_pool rt p" "date_parse rt now \<noteq> None"
  shows "lockPoolIfNeeded rt p now = Inr (if should_lock rt p now then p\<lparr>p_status := Locked\<rparr> else p)"
  using assms wf_pool_closes [OF assms(1)]
  by (auto simp: lockPoolIfNeeded_def should_lock_def transitionPool_def assertIso_def)

lemma snap_total:
  assumes "snap_ok rt s" "\<not> terminal (p_status (s_pool s))"
  shows "js_add (yes (p_pools (s_pool s))) (no (p_pools (s_pool s))) = total_staked s"
proof -
  note d = snap_okD [OF assms(1)]
  have t: "yes (p_pools (s_pool s)) + no (p_pools (s_pool s)) = total_staked s"
    using d(5) [of Yes] d(5) [of No] staked_total [of "settlement_entries s"] by (simp add: totals_of_def comp_def)
  have "0 \<le> total_staked s" using d(4) by (intro sum_list_nonneg) force
  then have "is_safe_integer (total_staked s)"
    using d(9) by (intro is_safe_between [OF _ _ d(8) [OF assms(2)]]) auto
  then show ?thesis using t by (simp add: js_add_safe)
qed

lemma lockSnapshot_ok:
  assumes ok: "snap_ok rt s" and now: "date_parse rt now \<noteq> None"
  shows "\<exists>s'. lockSnapshotIfNeeded rt s now = Inr s' \<and> snap_ok rt s' \<and>
    (if \<not> should_lock rt (s_pool s) now then s' = s
     else case lockVoidReason (s_pool s) of
         Some reason \<Rightarrow> voided_from rt s reason s'
       | None \<Rightarrow> s' = s\<lparr>s_pool := (s_pool s)\<lparr>p_status := Locked\<rparr>, s_updatedAt := now\<rparr>)"
proof (cases "should_lock rt (s_pool s) now")
  case False
  then show ?thesis
    using ok lockPool_eq [OF snap_okD(1) [OF ok] now] by (simp add: lockSnapshotIfNeeded_def)
next
  case True
  then have o: "p_status (s_pool s) = Open" by (simp add: should_lock_def)
  then have nt: "\<not> terminal (p_status (s_pool s))" by (simp add: terminal_def)
  have lv: "lockVoidReason (p\<lparr>p_status := Locked\<rparr>) = lockVoidReason p" for p by (simp add: lockVoidReason_def)
  have eq: "lockSnapshotIfNeeded rt s now =
      (case lockVoidReason (s_pool s) of
         Some reason \<Rightarrow> voidPoolSnapshot rt s reason now (p_outcome (s_pool s))
       | None \<Rightarrow> Inr (s\<lparr>s_pool := (s_pool s)\<lparr>p_status := Locked\<rparr>, s_updatedAt := now\<rparr>))"
    using True o lockPool_eq [OF snap_okD(1) [OF ok] now] by (simp add: lockSnapshotIfNeeded_def lv)
  show ?thesis
  proof (cases "lockVoidReason (s_pool s)")
    case None
    have "snap_ok rt (s\<lparr>s_pool := (s_pool s)\<lparr>p_status := Locked\<rparr>, s_updatedAt := now\<rparr>)"
      using ok o by (auto simp: snap_ok_def wf_pool_def terminal_def)
    then show ?thesis using None True by (simp add: eq)
  next
    case (Some reason)
    then show ?thesis
      using void_ok [OF ok nt now, of reason "p_outcome (s_pool s)"] True
      by (auto simp: eq voided_from_def)
  qed
qed

text \<open>
  C16: When the entry window has closed, locking a pool never fails, and only a pool worth
  resolving stays alive: it is locked exactly if both sides are backed and the stakes reach the
  minimum liquidity; otherwise it is voided with the matching reason and all stakes returned.
\<close>

theorem lockSnapshotIfNeeded_locks:
  assumes ok: "snap_ok rt s" and now: "date_parse rt now \<noteq> None" and l: "should_lock rt (s_pool s) now"
  shows "\<exists>s'. lockSnapshotIfNeeded rt s now = Inr s' \<and> snap_ok rt s' \<and>
    (if total_staked s < p_minLiquidity (s_pool s) then voided_from rt s UNDER_LIQUIDITY s'
     else if staked Yes (settlement_entries s) = 0 \<or> staked No (settlement_entries s) = 0
     then voided_from rt s ONE_SIDED_POOL s'
     else p_status (s_pool s') = Locked \<and> s_entries s' = s_entries s \<and> s_balances s' = s_balances s)"
proof -
  have nt: "\<not> terminal (p_status (s_pool s))" using l by (simp add: should_lock_def terminal_def)
  have "lockVoidReason (s_pool s) =
      (if total_staked s < p_minLiquidity (s_pool s) then Some UNDER_LIQUIDITY
       else if staked Yes (settlement_entries s) = 0 \<or> staked No (settlement_entries s) = 0
       then Some ONE_SIDED_POOL else None)"
    using snap_total [OF ok nt] snap_okD(5) [OF ok, of Yes] snap_okD(5) [OF ok, of No]
    by (simp add: lockVoidReason_def Let_def totals_of_def)
  then show ?thesis using lockSnapshot_ok [OF ok now] l by (auto split: if_splits)
qed

theorem lockSnapshotIfNeeded_locks_witness:
  "\<exists>s'. lockSnapshotIfNeeded ref_runtime
       (example_snapshot\<lparr>s_pool := (s_pool example_snapshot)\<lparr>p_status := Open\<rparr>\<rparr>)
       ''2026-01-31T00:00:00.000Z'' = Inr s' \<and> p_status (s_pool s') = Locked"
proof -
  let ?s = "example_snapshot\<lparr>s_pool := (s_pool example_snapshot)\<lparr>p_status := Open\<rparr>\<rparr>"
  have ok: "snap_ok ref_runtime ?s"
    using example_snapshot_ok by (auto simp: snap_ok_def wf_pool_def terminal_def example_snapshot_def)
  have l: "should_lock ref_runtime (s_pool ?s) ''2026-01-31T00:00:00.000Z''"
    by (simp add: should_lock_def example_snapshot_def example_pool_def example_dates)
  show ?thesis
    using lockSnapshotIfNeeded_locks [OF ok _ l]
    by (auto simp: example_dates example_snapshot_def example_pool_def toSettlementEntry_def)
qed

text \<open>The intake of a resolution.\<close>

definition same_money :: "DotCastPoolSnapshot \<Rightarrow> DotCastPoolSnapshot \<Rightarrow> bool" where
  "same_money s t \<longleftrightarrow>
     s_entries s = s_entries t \<and> s_balances s = s_balances t \<and> s_houseLedger s = s_houseLedger t"

lemma voided_from_cong: "same_money s t \<Longrightarrow> voided_from rt s reason s' = voided_from rt t reason s'"
  by (simp add: same_money_def voided_from_def)

lemma settled_from_cong: "same_money s t \<Longrightarrow> settled_from rt s w res s' = settled_from rt t w res s'"
  by (simp add: same_money_def settled_from_def house_staked_def)

definition intake_ok :: "js_runtime \<Rightarrow> DotCastResolutionIntakeInput \<Rightarrow> bool" where
  "intake_ok rt i \<longleftrightarrow>
     date_parse rt (in_now i) \<noteq> None \<and> date_parse rt (rs_fetchedAt (in_resolution i)) \<noteq> None \<and>
     (case rs_resolvedAt (in_resolution i) of None \<Rightarrow> True | Some t \<Rightarrow> date_parse rt t \<noteq> None) \<and>
     (case in_maxGraceMs i of None \<Rightarrow> True
      | Some g \<Rightarrow> (case safe_integer g of Some n \<Rightarrow> 0 \<le> n | None \<Rightarrow> False)) \<and>
     rs_marketId (in_resolution i) = p_marketId (s_pool (in_snapshot i)) \<and>
     (case p_expectedResolveAt (s_pool (in_snapshot i)) of
        None \<Rightarrow> True | Some t \<Rightarrow> t = '''' \<or> date_parse rt t \<noteq> None)"

text \<open>What the four actions of an intake mean for the snapshot it was given.\<close>

definition intake_result ::
  "js_runtime \<Rightarrow> DotCastResolutionIntakeInput \<Rightarrow> DotCastResolutionIntakeResult \<Rightarrow> bool" where
  "intake_result rt i res \<longleftrightarrow>
     snap_ok rt (ir_snapshot res) \<and>
     (case ir_action res of
        ActIgnored \<Rightarrow>
          terminal (p_status (s_pool (in_snapshot i))) \<and> s_pool (ir_snapshot res) = s_pool (in_snapshot i) \<and>
          same_money (in_snapshot i) (ir_snapshot res)
      | ActHeld \<Rightarrow>
          \<not> terminal (p_status (s_pool (ir_snapshot res))) \<and> same_money (in_snapshot i) (ir_snapshot res) \<and>
          (p_status (s_pool (ir_snapshot res)) = Open \<or> rs_stale (in_resolution i) \<or>
           rs_outcome (in_resolution i) = Pending)
      | ActVoided \<Rightarrow> \<exists>reason. voided_from rt (in_snapshot i) reason (ir_snapshot res)
      | ActSettled \<Rightarrow>
          \<not> rs_stale (in_resolution i) \<and>
          (\<exists>w pr. rs_outcome (in_resolution i) = Resolved (Won w) \<and>
             settled_from rt (in_snapshot i) w pr (ir_snapshot res)))"

lemma grace_ok:
  assumes "truthy_text (p_expectedResolveAt p) \<Longrightarrow> \<exists>t. date_parse rt (orElse (p_expectedResolveAt p) '''') = Some t"
  shows "\<exists>b. isPastResolutionGrace rt p n g = Inr b"
  using assms by (auto simp: isPastResolutionGrace_def assertIso_def)

lemma graceOrHold_ok:
  assumes s: "snap_ok rt s" "same_money (in_snapshot i) s" and st: "p_status (s_pool s) = Locked \<or> p_status (s_pool s) = Resolving"
    and now: "date_parse rt now \<noteq> None" and g: "\<exists>b. isPastResolutionGrace rt (s_pool s) n g = Inr b"
    and h: "rs_stale (in_resolution i) \<or> rs_outcome (in_resolution i) = Pending"
  shows "\<exists>res. graceOrHold rt s n g now hold = Inr res \<and> intake_result rt i res"
proof -
  obtain b where b: "isPastResolutionGrace rt (s_pool s) n g = Inr b" using g by blast
  have nt: "\<not> terminal (p_status (s_pool s))" using st by (auto simp: terminal_def)
  obtain s' where s': "voidPoolSnapshot rt s GRACE_TIMEOUT now (p_outcome (s_pool s)) = Inr s'"
    "voided_from rt s GRACE_TIMEOUT s'"
    using void_ok [OF s(1) nt now, of GRACE_TIMEOUT "p_outcome (s_pool s)"] by blast
  have "voided_from rt (in_snapshot i) GRACE_TIMEOUT s'" using s'(2) voided_from_cong [OF s(2)] by simp
  moreover have "snap_ok rt s'" using s'(2) by (simp add: voided_from_def)
  ultimately show ?thesis
    using b s' s nt h by (cases b) (auto simp: graceOrHold_def intake_result_def)
qed

lemma settle_intake:
  assumes s: "snap_ok rt s" "same_money (in_snapshot i) s" and st: "p_status (s_pool s) = Locked \<or> p_status (s_pool s) = Resolving"
    and now: "date_parse rt now \<noteq> None" and i: "\<not> rs_stale (in_resolution i)" "rs_outcome (in_resolution i) = Resolved oc"
  shows "\<exists>s'. settlePoolSnapshot rt s oc now = Inr s' \<and> (oc = Invalid \<longrightarrow> p_status (s_pool s') = Voided) \<and>
    intake_result rt i \<lparr>ir_action = (if p_status (s_pool s') = Voided then ActVoided else ActSettled),
      ir_reason = reason, ir_snapshot = s'\<rparr>"
proof (cases oc)
  case Invalid
  have nt: "\<not> terminal (p_status (s_pool s))" using st by (auto simp: terminal_def)
  obtain s' where s': "voidPoolSnapshot rt s INVALID_RESOLUTION now (Some Invalid) = Inr s'"
    "voided_from rt s INVALID_RESOLUTION s'"
    using void_ok [OF s(1) nt now, of INVALID_RESOLUTION "Some Invalid"] by blast
  have "voided_from rt (in_snapshot i) INVALID_RESOLUTION s'" using s'(2) voided_from_cong [OF s(2)] by simp
  then show ?thesis
    using s'(1) Invalid nt by (auto simp: settlePoolSnapshot_def Let_def terminal_def intake_result_def voided_from_def)
next
  case (Won w)
  show ?thesis
  proof (cases "staked w (settlement_entries s) = 0")
    case True
    then obtain s' where s': "settlePoolSnapshot rt s (Won w) now = Inr s'" "voided_from rt s NO_WINNING_ENTRIES s'"
      using settle_void_ok [OF s(1) st now True] by blast
    have "voided_from rt (in_snapshot i) NO_WINNING_ENTRIES s'" using s'(2) voided_from_cong [OF s(2)] by simp
    then show ?thesis using s' Won by (auto simp: intake_result_def voided_from_def)
  next
    case False
    then obtain pr s' where s': "settlePoolSnapshot rt s (Won w) now = Inr s'" "settled_from rt s w pr s'"
      using settle_ok [OF s(1) st now False] by blast
    have "settled_from rt (in_snapshot i) w pr s'" using s'(2) settled_from_cong [OF s(2)] by simp
    moreover have "p_status (s_pool s') = Settled" "snap_ok rt s'" using s'(2) by (simp_all add: settled_from_def)
    ultimately show ?thesis using s'(1) Won i by (auto simp: intake_result_def)
  qed
qed

text \<open>What a resolution does to the pool once it is locked, if it was due.\<close>

definition decide_locked ::
  "js_runtime \<Rightarrow> DotCastResolutionIntakeInput \<Rightarrow> int \<Rightarrow> int \<Rightarrow> DotCastPoolSnapshot \<Rightarrow> DotCastResolutionIntakeResult res" where
  "decide_locked rt i n g t =
     (if p_status (s_pool t) = Voided
      then Inr \<lparr>ir_action = ActVoided, ir_reason = LOCK_VOID, ir_snapshot = t\<rparr>
      else if p_status (s_pool t) \<noteq> Locked \<and> p_status (s_pool t) \<noteq> Resolving
      then Inr \<lparr>ir_action = ActHeld, ir_reason = POOL_NOT_LOCKED, ir_snapshot = t\<rparr>
      else if rs_stale (in_resolution i) then graceOrHold rt t n g (in_now i) STALE_RESOLUTION
      else case rs_outcome (in_resolution i) of
          Pending \<Rightarrow> graceOrHold rt t n g (in_now i) PENDING_RESOLUTION
        | Resolved Invalid \<Rightarrow> rbind (settlePoolSnapshot rt t Invalid (in_now i)) (\<lambda>s.
            Inr \<lparr>ir_action = ActVoided, ir_reason = INVALID_RESOLUTION', ir_snapshot = s\<rparr>)
        | Resolved (Won side) \<Rightarrow> rbind (settlePoolSnapshot rt t (Won side) (in_now i)) (\<lambda>s.
            Inr \<lparr>ir_action = (if p_status (s_pool s) = Voided then ActVoided else ActSettled),
                 ir_reason = DEFINITIVE_OUTCOME, ir_snapshot = s\<rparr>))"

abbreviation intake_snapshot :: "DotCastResolutionIntakeInput \<Rightarrow> DotCastPoolSnapshot" where
  "intake_snapshot i \<equiv> withResolution (in_snapshot i) (in_resolution i) (in_now i)"

lemma applyRouterResolution_run:
  assumes "assertIso rt (in_now i) ''now'' = Inr n" "assertIso rt (rs_fetchedAt (in_resolution i)) ''resolution.fetchedAt'' = Inr f"
    "(case rs_resolvedAt (in_resolution i) of None \<Rightarrow> Inr 0 | Some t \<Rightarrow> assertIso rt t ''resolution.resolvedAt'') = Inr x"
    "safe_integer (orElse (in_maxGraceMs i) (Fin 86400000)) = Some g" "\<not> g < 0"
    "p_marketId (s_pool (in_snapshot i)) = rs_marketId (in_resolution i)"
  shows "applyRouterResolution rt i =
    (if terminal (p_status (s_pool (in_snapshot i)))
     then Inr \<lparr>ir_action = ActIgnored, ir_reason = TERMINAL_POOL, ir_snapshot = intake_snapshot i\<rparr>
     else rbind (lockSnapshotIfNeeded rt (intake_snapshot i) (in_now i)) (decide_locked rt i n g))"
proof -
  have "s_pool (intake_snapshot i) = s_pool (in_snapshot i)" by (simp add: withResolution_def)
  then show ?thesis
    unfolding applyRouterResolution_def Let_def assms(1-4) rbind_Inr option.case
    using assms(5,6) by (cases "lockSnapshotIfNeeded rt (intake_snapshot i) (in_now i)") (simp_all add: decide_locked_def)
qed

text \<open>A pool that was not voided by the lock is held, settled or voided as the resolution says.\<close>

lemma decide_locked_ok:
  assumes i: "intake_ok rt i" and ok: "snap_ok rt t" and sm: "same_money (in_snapshot i) t" and n: "date_parse rt (in_now i) = Some n"
    and ex: "p_expectedResolveAt (s_pool t) = p_expectedResolveAt (s_pool (in_snapshot i))" and nt: "\<not> terminal (p_status (s_pool t))"
    and ns: "\<not> terminal (p_status (s_pool (in_snapshot i)))"
  shows "\<exists>res. decide_locked rt i n g t = Inr res \<and> intake_result rt i res"
proof (cases "p_status (s_pool t) \<noteq> Locked \<and> p_status (s_pool t) \<noteq> Resolving")
  case True
  then have "p_status (s_pool t) = Open" using nt by (cases "p_status (s_pool t)") (auto simp: terminal_def)
  then show ?thesis using ok sm nt ns by (simp add: decide_locked_def intake_result_def)
next
  case lr: False
  then have st: "p_status (s_pool t) = Locked \<or> p_status (s_pool t) = Resolving" by blast
  then have nv: "p_status (s_pool t) \<noteq> Voided" by auto
  have gr: "\<exists>b. isPastResolutionGrace rt (s_pool t) n g = Inr b"
    using i by (intro grace_ok) (auto simp: intake_ok_def ex truthy_text_def split: option.splits)
  have now: "date_parse rt (in_now i) \<noteq> None" using n by simp
  note gh = graceOrHold_ok [OF ok sm st now gr]
  show ?thesis
  proof (cases "rs_stale (in_resolution i) \<or> rs_outcome (in_resolution i) = Pending")
    case True
    then show ?thesis using gh [OF True] nv lr by (auto simp: decide_locked_def)
  next
    case fresh: False
    then obtain oc where oc: "rs_outcome (in_resolution i) = Resolved oc" by (cases "rs_outcome (in_resolution i)") auto
    note se = settle_intake [OF ok sm st now _ oc]
    show ?thesis
      using se [of INVALID_RESOLUTION'] se [of DEFINITIVE_OUTCOME] fresh oc nv lr by (cases oc) (auto simp: decide_locked_def)
  qed
qed

lemma intake_reads:
  assumes i: "intake_ok rt i"
  shows "\<exists>n f x g. assertIso rt (in_now i) ''now'' = Inr n \<and> assertIso rt (rs_fetchedAt (in_resolution i)) ''resolution.fetchedAt'' = Inr f \<and>
    (case rs_resolvedAt (in_resolution i) of None \<Rightarrow> Inr 0 | Some t \<Rightarrow> assertIso rt t ''resolution.resolvedAt'') = Inr x \<and>
    safe_integer (orElse (in_maxGraceMs i) (Fin 86400000)) = Some g \<and> \<not> g < 0 \<and>
    p_marketId (s_pool (in_snapshot i)) = rs_marketId (in_resolution i) \<and> date_parse rt (in_now i) = Some n"
proof -
  have "\<exists>x. (case rs_resolvedAt (in_resolution i) of None \<Rightarrow> Inr 0 | Some t \<Rightarrow> assertIso rt t ''resolution.resolvedAt'') = Inr x"
    using i by (auto simp: intake_ok_def assertIso_def split: option.splits)
  moreover have "\<exists>g. safe_integer (orElse (in_maxGraceMs i) (Fin 86400000)) = Some g \<and> \<not> g < 0"
    using i safe_integer_of_int [of 86400000]
    by (cases "in_maxGraceMs i") (auto simp: intake_ok_def small_safe split: option.splits)
  moreover have "\<exists>f. assertIso rt (rs_fetchedAt (in_resolution i)) ''resolution.fetchedAt'' = Inr f"
    "\<exists>n. assertIso rt (in_now i) ''now'' = Inr n \<and> date_parse rt (in_now i) = Some n"
    using i by (auto simp: intake_ok_def assertIso_def)
  ultimately show ?thesis using i by (auto simp: intake_ok_def)
qed


definition example_intake :: DotCastResolutionIntakeInput where
  "example_intake =
     \<lparr>in_snapshot = example_snapshot,
      in_resolution = \<lparr>rs_marketId = ''m1'', rs_outcome = Resolved (Won Yes), rs_resolvedAt = None,
        rs_fetchedAt = ''2026-02-01T00:00:00.000Z'', rs_stale = False, rs_source = Some Kalshi\<rparr>,
      in_now = ''2026-02-01T00:00:00.000Z'', in_maxGraceMs = None\<rparr>"


end
