(* ===== verification/ResolverNetwork.thy ===== *)
theory ResolverNetwork
  imports ResolutionRoute
begin

text \<open>
  The resolver network of \<open>src/engine/dotcast/ResolutionRouter.ts\<close>: registry profiles and the
  operator's actions on them, selection of a panel, commit and reveal, settlement and timeouts of
  a panel, challenges of optimistic routes and the policy that holds a settlement back.

  The SHA-256 digest of the Web Crypto interface (as a hexadecimal string) is the argument
  \<open>digest\<close> of the commit functions.
\<close>

subsection \<open>Data\<close>

datatype DotCastResolverStatus = ResolverActive | ResolverSuspended | ResolverArchived

record DotCastResolverProfile =
  rp_resolverId :: string
  rp_identityHash :: string
  rp_reputationBps :: int
  rp_bondAvailableMinorUnits :: int
  rp_stakeHeldPoolIds :: "string list"

record DotCastResolverRegistryProfile = DotCastResolverProfile +
  rp_status :: DotCastResolverStatus
  rp_displayName :: "string option"
  rp_metadata :: json_object
  rp_createdAt :: string
  rp_updatedAt :: string

datatype DotCastResolverBondLedgerEventType =
    ResolverOnboarded | BondDeposited | AssignmentLocked | BondReleased | BondSlashed | FeeCredited
  | ManualAdjustment

record DotCastResolverBondLedgerEntry =
  bl_entryId :: string
  bl_resolverId :: string
  bl_assignmentId :: "string option"
  bl_panelId :: "string option"
  bl_eventType :: DotCastResolverBondLedgerEventType
  bl_deltaMinorUnits :: int
  bl_balanceAfterMinorUnits :: int
  bl_eventJson :: json_object
  bl_createdAt :: string

record DotCastResolverReputationEvent =
  re_eventId :: string
  re_resolverId :: string
  re_assignmentId :: "string option"
  re_panelId :: "string option"
  re_previousReputationBps :: int
  re_newReputationBps :: int
  re_deltaBps :: int
  re_reason :: string
  re_eventJson :: json_object
  re_createdAt :: string

datatype DotCastResolverAdminAction = Activate | Suspend | Archive | AdjustBond | AdjustReputation

datatype AssignmentStatus = Assigned | Committed | Revealed | Paid | Slashed

record DotCastResolverAssignment =
  as_assignmentId :: string
  as_panelId :: string
  as_poolId :: string
  as_routeId :: string
  as_resolverId :: string
  as_identityHash :: string
  as_reputationBps :: int
  as_bondMinorUnits :: int
  as_status :: AssignmentStatus
  as_assignedAt :: string

record DotCastResolverPanel =
  pn_panelId :: string
  pn_poolId :: string
  pn_routeId :: string
  pn_tier :: DotCastResolutionTier
  pn_panelSize :: int
  pn_estimatedStakeMinorUnits :: int
  pn_resolverFeeBps :: int
  pn_assignments :: "DotCastResolverAssignment list"
  pn_createdAt :: string

record DotCastResolverCommit =
  cm_assignmentId :: string
  cm_panelId :: string
  cm_resolverId :: string
  cm_commitHash :: string
  cm_committedAt :: string

record DotCastResolverReveal =
  rl_assignmentId :: string
  rl_panelId :: string
  rl_resolverId :: string
  rl_outcome :: Outcome
  rl_salt :: string
  rl_revealedAt :: string

record DotCastResolverPayout =
  py_assignmentId :: string
  py_panelId :: string
  py_resolverId :: string
  py_matchedConsensus :: bool
  py_bondReturnedMinorUnits :: int
  py_feePaidMinorUnits :: int
  py_slashedBondMinorUnits :: int
  py_createdAt :: string

subsection \<open>Profiles and the operator's actions\<close>

record UpsertDotCastResolverProfileInput =
  up_resolverId :: string
  up_identityHash :: string
  up_displayName :: "string option"
  up_reputationBps :: "number option"
  up_bondAvailableMinorUnits :: "number option"
  up_stakeHeldPoolIds :: "string list option"
  up_status :: "DotCastResolverStatus option"
  up_metadata :: "json_object option"
  up_now :: "string option"

definition requireNonEmptyInput :: "string \<Rightarrow> string \<Rightarrow> string res" where
  "requireNonEmptyInput value label =
     (let trimmed = trim value
      in if trimmed = '''' then Inl (CodedError ''INVALID_RESOLVER_PROFILE'' (label @ '' is required'') 400)
         else Inr trimmed)"

definition assertNonNegativeBond :: "number \<Rightarrow> string \<Rightarrow> int res" where
  "assertNonNegativeBond value label =
     (case safe_integer value of
        Some v \<Rightarrow>
          if v < 0 then Inl (CodedError ''INVALID_RESOLVER_PROFILE'' (label @ '' must be a non-negative integer'') 400)
          else Inr v
      | None \<Rightarrow> Inl (CodedError ''INVALID_RESOLVER_PROFILE'' (label @ '' must be a non-negative integer'') 400))"

definition uniqueStrings :: "string list \<Rightarrow> string list" where
  "uniqueStrings values = unique (filter (\<lambda>v. v \<noteq> '''') (map trim values))"

definition clampBps :: "int \<Rightarrow> int" where
  "clampBps value = max 0 (min 10000 value)"

definition requireSignedInteger :: "number option \<Rightarrow> string \<Rightarrow> int res" where
  "requireSignedInteger value label =
     (case Option.bind value safe_integer of
        Some v \<Rightarrow>
          if v = 0 then Inl (CodedError ''INVALID_RESOLVER_ADMIN_ACTION'' (label @ '' must be a non-zero integer'') 400)
          else Inr v
      | None \<Rightarrow> Inl (CodedError ''INVALID_RESOLVER_ADMIN_ACTION'' (label @ '' must be a non-zero integer'') 400))"

definition buildDotCastResolverRegistryProfile ::
  "string \<Rightarrow> UpsertDotCastResolverProfileInput \<Rightarrow> DotCastResolverRegistryProfile res" where
  "buildDotCastResolverRegistryProfile clock input =
     (let now = orElse (up_now input) clock
      in rbind (assertBps (orElse (up_reputationBps input) (Fin 7500)) ''reputationBps'') (\<lambda>reputationBps.
         rbind (assertNonNegativeBond (orElse (up_bondAvailableMinorUnits input) (Fin 0))
                  ''bondAvailableMinorUnits'') (\<lambda>bond.
         rbind (requireNonEmptyInput (up_resolverId input) ''resolverId'') (\<lambda>resolverId.
         rbind (requireNonEmptyInput (up_identityHash input) ''identityHash'') (\<lambda>identityHash.
           Inr \<lparr>rp_resolverId = resolverId, rp_identityHash = identityHash,
                rp_reputationBps = reputationBps, rp_bondAvailableMinorUnits = bond,
                rp_stakeHeldPoolIds = uniqueStrings (orElse (up_stakeHeldPoolIds input) []),
                rp_status = orElse (up_status input) ResolverActive,
                rp_displayName = nullableText (map_option trim (up_displayName input)),
                rp_metadata = orElse (up_metadata input) [],
                rp_createdAt = now, rp_updatedAt = now\<rparr>)))))"

record ApplyDotCastResolverAdminActionInput =
  aa_profile :: DotCastResolverRegistryProfile
  aa_action :: DotCastResolverAdminAction
  aa_adminId :: "string option"
  aa_bondDeltaMinorUnits :: "number option"
  aa_reputationDeltaBps :: "number option"
  aa_reason :: "string option"
  aa_metadata :: "json_object option"
  aa_now :: "string option"

record DotCastResolverAdminActionResult =
  ax_action :: DotCastResolverAdminAction
  ax_profile :: DotCastResolverRegistryProfile
  ax_previousProfile :: DotCastResolverRegistryProfile
  ax_bondLedgerEntry :: "DotCastResolverBondLedgerEntry option"
  ax_reputationEvent :: "DotCastResolverReputationEvent option"

fun show_admin_action :: "DotCastResolverAdminAction \<Rightarrow> string" where
  "show_admin_action Activate = ''activate''"
| "show_admin_action Suspend = ''suspend''"
| "show_admin_action Archive = ''archive''"
| "show_admin_action AdjustBond = ''adjust_bond''"
| "show_admin_action AdjustReputation = ''adjust_reputation''"

definition applyDotCastResolverAdminAction ::
  "js_runtime \<Rightarrow> string \<Rightarrow> ApplyDotCastResolverAdminActionInput \<Rightarrow> DotCastResolverAdminActionResult res" where
  "applyDotCastResolverAdminAction rt clock input =
     (let now = orElse (aa_now input) clock;
          previous = aa_profile input;
          metadata = orElse (aa_metadata input) [];
          eventJson =
            [(''adminId'', jopt JStr (aa_adminId input)), (''reason'', jopt JStr (aa_reason input)),
             (''metadata'', JObj metadata)];
          profile = previous\<lparr>rp_metadata := spread (rp_metadata previous)
              [(''lastAdminAction'', JObj
                 [(''action'', JStr (show_admin_action (aa_action input))),
                  (''adminId'', jopt JStr (aa_adminId input)),
                  (''reason'', jopt JStr (aa_reason input)),
                  (''metadata'', JObj metadata), (''at'', JStr now)])],
              rp_updatedAt := now\<rparr>;
          result = (\<lambda>p l r. Inr \<lparr>ax_action = aa_action input, ax_profile = p, ax_previousProfile = previous,
              ax_bondLedgerEntry = l, ax_reputationEvent = r\<rparr>)
      in case aa_action input of
           Activate \<Rightarrow> result (profile\<lparr>rp_status := ResolverActive\<rparr>) None None
         | Suspend \<Rightarrow> result (profile\<lparr>rp_status := ResolverSuspended\<rparr>) None None
         | Archive \<Rightarrow> result (profile\<lparr>rp_status := ResolverArchived\<rparr>) None None
         | AdjustBond \<Rightarrow>
             rbind (requireSignedInteger (aa_bondDeltaMinorUnits input) ''bondDeltaMinorUnits'') (\<lambda>delta.
               let balanceAfter = js_add (rp_bondAvailableMinorUnits profile) delta
               in if balanceAfter < 0
                  then Inl (CodedError ''RESOLVER_BOND_INSUFFICIENT''
                         ''manual resolver bond adjustment cannot make available bond negative'' 409)
                  else result (profile\<lparr>rp_bondAvailableMinorUnits := balanceAfter\<rparr>)
                    (Some \<lparr>bl_entryId = ''dotcast:e13:admin-bond:'' @ rp_resolverId profile @ '':'' @ show_date rt now,
                      bl_resolverId = rp_resolverId profile, bl_assignmentId = None, bl_panelId = None,
                      bl_eventType = ManualAdjustment, bl_deltaMinorUnits = delta,
                      bl_balanceAfterMinorUnits = balanceAfter, bl_eventJson = eventJson, bl_createdAt = now\<rparr>)
                    None)
         | AdjustReputation \<Rightarrow>
             rbind (requireSignedInteger (aa_reputationDeltaBps input) ''reputationDeltaBps'') (\<lambda>delta.
               let newReputation = clampBps (js_add (rp_reputationBps profile) delta)
               in result (profile\<lparr>rp_reputationBps := newReputation\<rparr>) None
                    (Some \<lparr>re_eventId = ''dotcast:e13:admin-reputation:'' @ rp_resolverId profile @ '':'' @ show_date rt now,
                      re_resolverId = rp_resolverId profile, re_assignmentId = None, re_panelId = None,
                      re_previousReputationBps = rp_reputationBps previous,
                      re_newReputationBps = newReputation, re_deltaBps = delta,
                      re_reason = ''manual_adjustment'', re_eventJson = eventJson, re_createdAt = now\<rparr>)))"

subsection \<open>Panels\<close>

record SelectDotCastResolverPanelInput =
  sl_poolId :: string
  sl_route :: DotCastResolutionRoute
  sl_candidates :: "DotCastResolverProfile list"
  sl_positionUserIds :: "string list option"
  sl_estimatedStakeMinorUnits :: "int option"
  sl_panelId :: "string option"
  sl_now :: "string option"

definition addIdentity ::
  "DotCastResolverProfile \<Rightarrow> (string \<times> DotCastResolverProfile) list \<Rightarrow> (string \<times> DotCastResolverProfile) list" where
  "addIdentity candidate byIdentity =
     (case map_of byIdentity (rp_identityHash candidate) of
        None \<Rightarrow> AList.update (rp_identityHash candidate) candidate byIdentity
      | Some existing \<Rightarrow>
          if rp_reputationBps candidate > rp_reputationBps existing
          then AList.update (rp_identityHash candidate) candidate byIdentity
          else byIdentity)"

definition uniqueIdentityCandidates :: "DotCastResolverProfile list \<Rightarrow> DotCastResolverProfile list" where
  "uniqueIdentityCandidates candidates = map snd (fold addIdentity candidates [])"

definition stableScore :: "string \<Rightarrow> int" where
  "stableScore value =
     uint (foldl (\<lambda>hash c. (xor hash (of_nat (of_char c))) * 16777619) (2166136261 :: 32 word) value)"

definition compareResolvers ::
  "string \<Rightarrow> DotCastResolverProfile \<Rightarrow> DotCastResolverProfile \<Rightarrow> int" where
  "compareResolvers seed a b =
     (let score = (\<lambda>p. stableScore (seed @ '':'' @ rp_resolverId p @ '':'' @ rp_identityHash p));
          d = score a - score b
      in if d \<noteq> 0 then d else js_sub (rp_reputationBps b) (rp_reputationBps a))"

definition deterministicResolverShuffle ::
  "DotCastResolverProfile list \<Rightarrow> string \<Rightarrow> DotCastResolverProfile list" where
  "deterministicResolverShuffle candidates seed = sort_by (compareResolvers seed) candidates"

definition panelAssignment ::
  "string \<Rightarrow> string \<Rightarrow> string \<Rightarrow> int \<Rightarrow> string \<Rightarrow> nat \<times> DotCastResolverProfile \<Rightarrow> DotCastResolverAssignment" where
  "panelAssignment panelId poolId routeId bond now ic =
     \<lparr>as_assignmentId = panelId @ '':assignment:'' @ show_nat (fst ic + 1), as_panelId = panelId,
      as_poolId = poolId, as_routeId = routeId, as_resolverId = rp_resolverId (snd ic),
      as_identityHash = rp_identityHash (snd ic), as_reputationBps = rp_reputationBps (snd ic),
      as_bondMinorUnits = bond, as_status = Assigned, as_assignedAt = now\<rparr>"

definition eligibleResolvers :: "SelectDotCastResolverPanelInput \<Rightarrow> int \<Rightarrow> DotCastResolverProfile list" where
  "eligibleResolvers input bond =
     filter (\<lambda>c. rp_bondAvailableMinorUnits c \<ge> bond)
       (filter (\<lambda>c. sl_poolId input \<notin> set (rp_stakeHeldPoolIds c))
         (filter (\<lambda>c. rp_resolverId c \<notin> set (orElse (sl_positionUserIds input) []))
           (uniqueIdentityCandidates (sl_candidates input))))"

definition selectDotCastResolverPanel ::
  "js_runtime \<Rightarrow> string \<Rightarrow> DotCastResolutionRouterEnv \<Rightarrow> SelectDotCastResolverPanelInput
    \<Rightarrow> DotCastResolverPanel res" where
  "selectDotCastResolverPanel rt clock env input =
     (let status = readDotCastResolutionRouterStatus env True;
          now = orElse (sl_now input) clock;
          stake = orElse (sl_estimatedStakeMinorUnits input) 0;
          panelSize = panelSizeForStake status stake;
          bond = bondForStake status stake;
          route = sl_route input;
          panelId = orElse (sl_panelId input)
            (''dotcast:e13:panel:'' @ sl_poolId input @ '':'' @ rr_routeId route @ '':'' @ show_date rt now);
          selected = take (nat panelSize)
            (deterministicResolverShuffle (eligibleResolvers input bond) panelId)
      in if int (length selected) < panelSize
         then Inl (CodedError ''RESOLVER_PANEL_INSUFFICIENT''
                ''not enough stake-excluded, bonded, unique-identity resolvers for the required panel'' 409)
         else Inr \<lparr>pn_panelId = panelId, pn_poolId = sl_poolId input, pn_routeId = rr_routeId route,
           pn_tier = rr_tier route, pn_panelSize = panelSize, pn_estimatedStakeMinorUnits = stake,
           pn_resolverFeeBps =
             (if rr_tier route = OptimisticBonded \<or> rr_tier route = HumanJury then st_resolverFeeBps status else 0),
           pn_assignments =
             map (panelAssignment panelId (sl_poolId input) (rr_routeId route) bond now) (enumerate 0 selected),
           pn_createdAt = now\<rparr>)"

subsection \<open>Commit and reveal\<close>

definition resolverCommitHash :: "(string \<Rightarrow> string) \<Rightarrow> Outcome \<Rightarrow> string \<Rightarrow> string res" where
  "resolverCommitHash digest outcome salt =
     (if salt = '''' then Inl (CodedError ''RESOLVER_SALT_REQUIRED'' ''resolver commit salt is required'' 400)
      else Inr (digest (show_outcome outcome @ '':'' @ salt)))"

definition createDotCastResolverCommit ::
  "(string \<Rightarrow> string) \<Rightarrow> DotCastResolverAssignment \<Rightarrow> Outcome \<Rightarrow> string \<Rightarrow> string \<Rightarrow> DotCastResolverCommit res" where
  "createDotCastResolverCommit digest assignment outcome salt now =
     rbind (resolverCommitHash digest outcome salt) (\<lambda>hash.
       Inr \<lparr>cm_assignmentId = as_assignmentId assignment, cm_panelId = as_panelId assignment,
            cm_resolverId = as_resolverId assignment, cm_commitHash = hash, cm_committedAt = now\<rparr>)"

definition revealDotCastResolverCommit ::
  "(string \<Rightarrow> string) \<Rightarrow> DotCastResolverCommit \<Rightarrow> Outcome \<Rightarrow> string \<Rightarrow> string \<Rightarrow> DotCastResolverReveal res" where
  "revealDotCastResolverCommit digest commit outcome salt now =
     rbind (resolverCommitHash digest outcome salt) (\<lambda>expected.
       if expected \<noteq> cm_commitHash commit
       then Inl (CodedError ''RESOLVER_REVEAL_MISMATCH'' ''resolver reveal does not match the committed hash'' 409)
       else Inr \<lparr>rl_assignmentId = cm_assignmentId commit, rl_panelId = cm_panelId commit,
            rl_resolverId = cm_resolverId commit, rl_outcome = outcome, rl_salt = salt, rl_revealedAt = now\<rparr>)"

subsection \<open>Settlement and timeout of a panel\<close>

record OutcomeWeights =
  ow_yes :: int
  ow_no :: int
  ow_invalid :: int

fun weight_of :: "OutcomeWeights \<Rightarrow> Outcome \<Rightarrow> int" where
  "weight_of w (Won Yes) = ow_yes w"
| "weight_of w (Won No) = ow_no w"
| "weight_of w Invalid = ow_invalid w"

fun add_weight :: "OutcomeWeights \<Rightarrow> Outcome \<Rightarrow> int \<Rightarrow> OutcomeWeights" where
  "add_weight w (Won Yes) x = w\<lparr>ow_yes := js_add (ow_yes w) x\<rparr>"
| "add_weight w (Won No) x = w\<lparr>ow_no := js_add (ow_no w) x\<rparr>"
| "add_weight w Invalid x = w\<lparr>ow_invalid := js_add (ow_invalid w) x\<rparr>"

record DotCastResolverPanelSettlement =
  ps_consensusOutcome :: Outcome
  ps_totalWeight :: int
  ps_consensusWeight :: int
  ps_payouts :: "DotCastResolverPayout list"

definition revealMap :: "DotCastResolverReveal list \<Rightarrow> (string \<times> DotCastResolverReveal) list" where
  "revealMap reveals = fold (\<lambda>r. AList.update (rl_assignmentId r) r) reveals []"

definition revealed_outcome :: "(string \<times> DotCastResolverReveal) list \<Rightarrow> DotCastResolverAssignment \<Rightarrow> Outcome option" where
  "revealed_outcome m a = map_option rl_outcome (map_of m (as_assignmentId a))"

definition panelWeights ::
  "(string \<times> DotCastResolverReveal) list \<Rightarrow> DotCastResolverAssignment list \<Rightarrow> OutcomeWeights" where
  "panelWeights revealsByAssignment assignments =
     fold (\<lambda>a w. case revealed_outcome revealsByAssignment a of
         None \<Rightarrow> w
       | Some oc \<Rightarrow> add_weight w oc (max 1 (as_reputationBps a)))
       assignments \<lparr>ow_yes = 0, ow_no = 0, ow_invalid = 0\<rparr>"

definition compareWeights :: "js_runtime \<Rightarrow> Outcome \<times> int \<Rightarrow> Outcome \<times> int \<Rightarrow> int" where
  "compareWeights rt a b =
     (let d = js_sub (snd b) (snd a)
      in if d \<noteq> 0 then d else locale_compare rt (show_outcome (fst a)) (show_outcome (fst b)))"

definition consensusOf :: "js_runtime \<Rightarrow> OutcomeWeights \<Rightarrow> Outcome" where
  "consensusOf rt w =
     fst (hd (sort_by (compareWeights rt)
       [(Won Yes, ow_yes w), (Won No, ow_no w), (Invalid, ow_invalid w)]))"

definition settleDotCastResolverPanel ::
  "js_runtime \<Rightarrow> DotCastResolverPanel \<Rightarrow> DotCastResolverReveal list \<Rightarrow> string
    \<Rightarrow> DotCastResolverPanelSettlement res" where
  "settleDotCastResolverPanel rt panel reveals now =
     (let m = revealMap reveals;
          weights = panelWeights m (pn_assignments panel);
          consensus = consensusOf rt weights;
          totalWeight = js_add (js_add (ow_yes weights) (ow_no weights)) (ow_invalid weights);
          consensusWeight = weight_of weights consensus
      in if totalWeight \<le> 0
         then Inl (CodedError ''RESOLVER_PANEL_NO_REVEALS''
                ''resolver panel cannot settle without at least one valid reveal'' 409)
         else
           let correct = filter (\<lambda>a. revealed_outcome m a = Some consensus) (pn_assignments panel);
               feePool = \<lfloor>fl (of_int (num (pn_estimatedStakeMinorUnits panel * pn_resolverFeeBps panel)) / 10000)\<rfloor>;
               feePerCorrect =
                 (if pn_resolverFeeBps panel > 0 \<and> correct \<noteq> []
                  then \<lfloor>fl (of_int feePool / of_int (int (length correct)))\<rfloor> else 0)
           in Inr \<lparr>ps_consensusOutcome = consensus, ps_totalWeight = totalWeight,
                   ps_consensusWeight = consensusWeight,
                   ps_payouts = map (\<lambda>a.
                     let matched = (revealed_outcome m a = Some consensus)
                     in \<lparr>py_assignmentId = as_assignmentId a, py_panelId = as_panelId a,
                         py_resolverId = as_resolverId a, py_matchedConsensus = matched,
                         py_bondReturnedMinorUnits = (if matched then as_bondMinorUnits a else 0),
                         py_feePaidMinorUnits = (if matched then feePerCorrect else 0),
                         py_slashedBondMinorUnits = (if matched then 0 else as_bondMinorUnits a),
                         py_createdAt = now\<rparr>) (pn_assignments panel)\<rparr>)"

datatype DotCastResolverTimeoutPhase = CommitPhase | RevealPhase

record DotCastResolverPanelTimeoutResult =
  to_phase :: DotCastResolverTimeoutPhase
  to_timedOutAssignmentIds :: "string list"
  to_unaffectedAssignmentIds :: "string list"
  to_payouts :: "DotCastResolverPayout list"
  to_createdAt :: string

definition evaluateDotCastResolverPanelTimeout ::
  "DotCastResolverPanel \<Rightarrow> DotCastResolverCommit list \<Rightarrow> DotCastResolverReveal list
    \<Rightarrow> DotCastResolverTimeoutPhase \<Rightarrow> string \<Rightarrow> DotCastResolverPanelTimeoutResult" where
  "evaluateDotCastResolverPanelTimeout panel commits reveals phase now =
     (let committed = set (map cm_assignmentId commits);
          revealed = set (map rl_assignmentId reveals);
          timedOut = filter (\<lambda>a.
            if as_status a = Paid \<or> as_status a = Slashed then False
            else if phase = CommitPhase then as_assignmentId a \<notin> committed
            else as_assignmentId a \<notin> revealed) (pn_assignments panel);
          timedOutIds = map as_assignmentId timedOut
      in \<lparr>to_phase = phase, to_timedOutAssignmentIds = timedOutIds,
          to_unaffectedAssignmentIds =
            map as_assignmentId (filter (\<lambda>a. as_assignmentId a \<notin> set timedOutIds) (pn_assignments panel)),
          to_payouts = map (\<lambda>a.
            \<lparr>py_assignmentId = as_assignmentId a, py_panelId = as_panelId a, py_resolverId = as_resolverId a,
             py_matchedConsensus = False, py_bondReturnedMinorUnits = 0, py_feePaidMinorUnits = 0,
             py_slashedBondMinorUnits = as_bondMinorUnits a, py_createdAt = now\<rparr>) timedOut,
          to_createdAt = now\<rparr>)"

subsection \<open>Challenges\<close>

datatype DotCastResolutionChallengeStatus =
  ChallengeOpen | ChallengeAccepted | ChallengeRejected | ChallengeExpired | ChallengeWithdrawn

datatype DotCastResolutionChallengeDecisionAction = AcceptChallenge | RejectChallenge | ExpireChallenge

record DotCastResolutionChallenge =
  ch_challengeId :: string
  ch_routeId :: string
  ch_poolId :: "string option"
  ch_marketId :: string
  ch_challengerId :: string
  ch_status :: DotCastResolutionChallengeStatus
  ch_reason :: string
  ch_evidenceRefs :: "string list"
  ch_bondMinorUnits :: int
  ch_openedAt :: string
  ch_challengeWindowClosesAt :: string
  ch_decidedAt :: "string option"
  ch_decisionBy :: "string option"
  ch_decisionJson :: json_object
  ch_eventJson :: json_object

record OpenDotCastResolutionChallengeInput =
  oc_route :: DotCastResolutionRoute
  oc_challengerId :: string
  oc_reason :: string
  oc_evidenceRefs :: "string list option"
  oc_bondMinorUnits :: "number option"
  oc_challengeId :: "string option"
  oc_windowSeconds :: "number option"
  oc_now :: "string option"
  oc_metadata :: "json_object option"

text \<open>\<open>Math.max(60, Math.floor(x))\<close>; \<open>None\<close> for the values that make the closing time invalid.\<close>

definition challengeWindow :: "number option \<Rightarrow> int option" where
  "challengeWindow x =
     (case orElse x (Fin 900) of
        Fin r \<Rightarrow> Some (max 60 \<lfloor>r\<rfloor>) | NegInf \<Rightarrow> Some 60 | PosInf \<Rightarrow> None | NaN \<Rightarrow> None)"

definition routeWindowClosesAt ::
  "js_runtime \<Rightarrow> DotCastResolutionRoute \<Rightarrow> int \<Rightarrow> int option \<Rightarrow> int option" where
  "routeWindowClosesAt rt route openedAtMs windowSeconds =
     (case windowSeconds of
        None \<Rightarrow> None
      | Some w \<Rightarrow>
          let base = (case date_parse rt (rr_createdAt route) of
              Some c \<Rightarrow> if c > 0 then c else openedAtMs
            | None \<Rightarrow> openedAtMs)
          in Some (js_add base (num (w * 1000))))"

definition openDotCastResolutionChallenge ::
  "js_runtime \<Rightarrow> string \<Rightarrow> OpenDotCastResolutionChallengeInput \<Rightarrow> DotCastResolutionChallenge res" where
  "openDotCastResolutionChallenge rt clock input =
     (let now = orElse (oc_now input) clock; route = oc_route input
      in case date_parse rt now of
           None \<Rightarrow> Inl (CodedError ''RESOLUTION_CHALLENGE_TIME_INVALID'' ''challenge timestamp is invalid'' 422)
         | Some openedAtMs \<Rightarrow>
             if rr_tier route \<noteq> OptimisticBonded
             then Inl (CodedError ''RESOLUTION_CHALLENGE_ROUTE_INELIGIBLE''
                    ''only optimistic bonded E13 routes can be challenged'' 409)
             else if rr_status route = Blocked \<or> rr_status route = PointsOnly
             then Inl (CodedError ''RESOLUTION_CHALLENGE_ROUTE_CLOSED''
                    ''blocked or points-only E13 routes cannot be challenged'' 409)
             else
               case routeWindowClosesAt rt route openedAtMs (challengeWindow (oc_windowSeconds input)) of
                 None \<Rightarrow> Inl (RangeError ''Invalid time value'')
               | Some closesAtMs \<Rightarrow>
                   if openedAtMs > closesAtMs
                   then Inl (CodedError ''RESOLUTION_CHALLENGE_WINDOW_CLOSED''
                          ''the E13 optimistic challenge window has closed'' 409)
                   else case to_iso rt closesAtMs of
                       None \<Rightarrow> Inl (RangeError ''Invalid time value'')
                     | Some closesAt \<Rightarrow>
                         rbind (requireNonEmptyInput (oc_challengerId input) ''challengerId'') (\<lambda>challengerId.
                         rbind (requireNonEmptyInput (oc_reason input) ''reason'') (\<lambda>reason.
                         rbind (assertNonNegativeBond (orElse (oc_bondMinorUnits input)
                                  (Fin (of_int (max 0 (rr_bondMinorUnits route))))) ''bondMinorUnits'') (\<lambda>bond.
                           Inr \<lparr>ch_challengeId = orElse (oc_challengeId input)
                                  (''dotcast:e13:challenge:'' @ rr_routeId route @ '':'' @ challengerId @ '':'' @ show_date rt now),
                                ch_routeId = rr_routeId route, ch_poolId = rr_poolId route,
                                ch_marketId = rr_marketId route, ch_challengerId = challengerId,
                                ch_status = ChallengeOpen, ch_reason = reason,
                                ch_evidenceRefs = uniqueStrings (orElse (oc_evidenceRefs input) []),
                                ch_bondMinorUnits = bond, ch_openedAt = now,
                                ch_challengeWindowClosesAt = closesAt, ch_decidedAt = None,
                                ch_decisionBy = None, ch_decisionJson = [],
                                ch_eventJson =
                                  [(''routeTier'', JStr (show_tier (rr_tier route))),
                                   (''routeStatus'', JStr (show_route_status (rr_status route))),
                                   (''routeCreatedAt'', JStr (rr_createdAt route)),
                                   (''metadata'', JObj (orElse (oc_metadata input) []))]\<rparr>))))"

record DecideDotCastResolutionChallengeInput =
  dc_challenge :: DotCastResolutionChallenge
  dc_action :: DotCastResolutionChallengeDecisionAction
  dc_decisionBy :: "string option"
  dc_reason :: "string option"
  dc_metadata :: "json_object option"
  dc_now :: "string option"

fun challengeStatusForDecision :: "DotCastResolutionChallengeDecisionAction \<Rightarrow> DotCastResolutionChallengeStatus" where
  "challengeStatusForDecision AcceptChallenge = ChallengeAccepted"
| "challengeStatusForDecision RejectChallenge = ChallengeRejected"
| "challengeStatusForDecision ExpireChallenge = ChallengeExpired"

fun show_decision :: "DotCastResolutionChallengeDecisionAction \<Rightarrow> string" where
  "show_decision AcceptChallenge = ''accept''"
| "show_decision RejectChallenge = ''reject''"
| "show_decision ExpireChallenge = ''expire''"

text \<open>\<open>nowMs > closesAtMs\<close> is false if either date does not parse.\<close>

definition afterWindow :: "js_runtime \<Rightarrow> string \<Rightarrow> string \<Rightarrow> bool" where
  "afterWindow rt now closesAt =
     (case (date_parse rt now, date_parse rt closesAt) of (Some n, Some c) \<Rightarrow> n > c | _ \<Rightarrow> False)"

definition decideDotCastResolutionChallenge ::
  "js_runtime \<Rightarrow> string \<Rightarrow> DecideDotCastResolutionChallengeInput \<Rightarrow> DotCastResolutionChallenge res" where
  "decideDotCastResolutionChallenge rt clock input =
     (let now = orElse (dc_now input) clock; challenge = dc_challenge input
      in if ch_status challenge \<noteq> ChallengeOpen
         then Inl (CodedError ''RESOLUTION_CHALLENGE_ALREADY_DECIDED'' ''only open E13 challenges can be decided'' 409)
         else if dc_action input \<noteq> ExpireChallenge \<and> afterWindow rt now (ch_challengeWindowClosesAt challenge)
         then Inl (CodedError ''RESOLUTION_CHALLENGE_WINDOW_CLOSED''
                ''E13 challenge decisions after the window must use expire'' 409)
         else Inr (challenge\<lparr>
           ch_status := challengeStatusForDecision (dc_action input),
           ch_decidedAt := Some now,
           ch_decisionBy := nullableText (map_option trim (dc_decisionBy input)),
           ch_decisionJson :=
             [(''action'', JStr (show_decision (dc_action input))), (''reason'', jopt JStr (dc_reason input)),
              (''metadata'', JObj (orElse (dc_metadata input) []))],
           ch_eventJson := spread (ch_eventJson challenge)
             [(''lastDecision'', JObj
                [(''action'', JStr (show_decision (dc_action input))),
                 (''decisionBy'', jopt JStr (dc_decisionBy input)),
                 (''reason'', jopt JStr (dc_reason input)), (''at'', JStr now)])]\<rparr>))"

datatype PolicyAction = Allow | Hold | Block

datatype DotCastResolutionSettlementSource = OptimisticAuto | AiPerceptionAuto | ResolverConsensus | ManualReviewSource

record DotCastResolutionChallengeSettlementPolicy =
  cs_action :: PolicyAction
  cs_reason :: string
  cs_routeId :: string
  cs_acceptedChallengeIds :: "string list"
  cs_rejectedChallengeIds :: "string list"
  cs_openChallengeIds :: "string list"
  cs_expiredChallengeIds :: "string list"

definition evaluateDotCastResolutionChallengeSettlementPolicy ::
  "DotCastResolutionRoute \<Rightarrow> DotCastResolutionChallenge list \<Rightarrow> DotCastResolutionSettlementSource option
    \<Rightarrow> DotCastResolutionChallengeSettlementPolicy" where
  "evaluateDotCastResolutionChallengeSettlementPolicy route challenges settlementSource =
     (let routeChallenges = filter (\<lambda>c. ch_routeId c = rr_routeId route) challenges;
          source = orElse settlementSource OptimisticAuto;
          ids = (\<lambda>P. map ch_challengeId (filter (\<lambda>c. P (ch_status c)) routeChallenges));
          accepted = ids (\<lambda>s. s = ChallengeAccepted);
          open' = ids (\<lambda>s. s = ChallengeOpen);
          rejected = ids (\<lambda>s. s = ChallengeRejected);
          expired = ids (\<lambda>s. s = ChallengeExpired \<or> s = ChallengeWithdrawn);
          policy = (\<lambda>action reason.
            \<lparr>cs_action = action, cs_reason = reason, cs_routeId = rr_routeId route,
             cs_acceptedChallengeIds = accepted, cs_rejectedChallengeIds = rejected,
             cs_openChallengeIds = open', cs_expiredChallengeIds = expired\<rparr>)
      in if rr_tier route \<noteq> OptimisticBonded then policy Allow ''not_optimistic_bonded''
         else if accepted \<noteq> []
         then (if source = ResolverConsensus \<or> source = ManualReviewSource
               then policy Allow ''accepted_challenge_resolved_by_escalation''
               else policy Block ''accepted_challenge_blocks_optimistic_settlement'')
         else if open' \<noteq> [] then policy Hold ''open_challenge_holds_optimistic_settlement''
         else policy Allow
           (if rejected \<noteq> [] \<or> expired \<noteq> [] then ''all_challenges_rejected_or_expired'' else ''no_challenges''))"

subsection \<open>Selection of a panel\<close>

definition identities_ok :: "DotCastResolverProfile list \<Rightarrow> (string \<times> DotCastResolverProfile) list \<Rightarrow> bool" where
  "identities_ok cs m \<longleftrightarrow>
     akeys m \<and> (\<forall>(k, v) \<in> set m. rp_identityHash v = k \<and> v \<in> set cs) \<and>
     (\<forall>c \<in> set cs. \<exists>v. map_of m (rp_identityHash c) = Some v \<and> rp_reputationBps c \<le> rp_reputationBps v)"

lemma identities_update:
  assumes m: "identities_ok cs m"
    and c: "case map_of m (rp_identityHash c) of Some v \<Rightarrow> rp_reputationBps v \<le> rp_reputationBps c | None \<Rightarrow> True"
  shows "identities_ok (cs @ [c]) (AList.update (rp_identityHash c) c m)"
proof -
  let ?m = "AList.update (rp_identityHash c) c m"
  have k: "akeys m" "akeys ?m" using m by (simp_all add: identities_ok_def)
  have "rp_identityHash v = h \<and> v \<in> set (cs @ [c])" if "(h, v) \<in> set ?m" for h v
  proof -
    have "map_of ?m h = Some v" by (rule map_of_is_SomeI [OF k(2) [unfolded akeys_def] that])
    then show ?thesis using m by (auto simp: identities_ok_def dest!: map_of_SomeD split: if_splits)
  qed
  moreover have "\<exists>v. map_of ?m (rp_identityHash x) = Some v \<and> rp_reputationBps x \<le> rp_reputationBps v"
    if "x \<in> set (cs @ [c])" for x
  proof (cases "rp_identityHash x = rp_identityHash c")
    case True
    then show ?thesis using that m c by (fastforce simp: identities_ok_def)
  next
    case False
    then show ?thesis using that m by (auto simp: identities_ok_def)
  qed
  ultimately show ?thesis using k by (auto simp: identities_ok_def)
qed

lemma identities_add: "identities_ok cs m \<Longrightarrow> identities_ok (cs @ [c]) (addIdentity c m)"
  using identities_update [of cs m c]
  by (auto simp: addIdentity_def identities_ok_def split: option.splits)

lemma identities_fold: "identities_ok cs m \<Longrightarrow> identities_ok (cs @ ds) (fold addIdentity ds m)"
proof (induction ds arbitrary: cs m)
  case (Cons d ds)
  then show ?case using Cons.IH [OF identities_add [OF Cons.prems, of d]] by simp
qed simp

lemma identities_unique: "identities_ok cs (fold addIdentity cs [])"
  using identities_fold [of "[]" "[]" cs] by (simp add: identities_ok_def)

lemma uniqueIdentityCandidates_spec:
  "distinct (map rp_identityHash (uniqueIdentityCandidates cs))"
  "set (uniqueIdentityCandidates cs) \<subseteq> set cs"
  "c \<in> set (uniqueIdentityCandidates cs) \<Longrightarrow> d \<in> set cs \<Longrightarrow> rp_identityHash d = rp_identityHash c \<Longrightarrow>
     rp_reputationBps d \<le> rp_reputationBps c"
proof -
  let ?m = "fold addIdentity cs []"
  have ok: "identities_ok cs ?m" by (rule identities_unique)
  have "map rp_identityHash (uniqueIdentityCandidates cs) = map fst ?m"
    using ok by (auto simp: uniqueIdentityCandidates_def identities_ok_def)
  then show "distinct (map rp_identityHash (uniqueIdentityCandidates cs))"
    using ok by (simp only: identities_ok_def akeys_def)
  show "set (uniqueIdentityCandidates cs) \<subseteq> set cs"
    using ok by (auto simp: uniqueIdentityCandidates_def identities_ok_def)
  assume c: "c \<in> set (uniqueIdentityCandidates cs)" and d: "d \<in> set cs" "rp_identityHash d = rp_identityHash c"
  obtain k where k: "(k, c) \<in> set ?m" using c by (auto simp: uniqueIdentityCandidates_def)
  then have kc: "k = rp_identityHash c" using ok by (auto simp: identities_ok_def)
  have "map_of ?m k = Some c"
    using ok k by (intro map_of_is_SomeI) (auto simp: identities_ok_def akeys_def)
  then show "rp_reputationBps d \<le> rp_reputationBps c"
    using ok d kc by (fastforce simp: identities_ok_def)
qed

text \<open>What is promised of a member of a panel.\<close>

definition fit_for_panel :: "SelectDotCastResolverPanelInput \<Rightarrow> int \<Rightarrow> DotCastResolverProfile \<Rightarrow> bool" where
  "fit_for_panel input bond c \<longleftrightarrow>
     c \<in> set (sl_candidates input) \<and>
     rp_resolverId c \<notin> set (orElse (sl_positionUserIds input) []) \<and>
     sl_poolId input \<notin> set (rp_stakeHeldPoolIds c) \<and> bond \<le> rp_bondAvailableMinorUnits c"

lemma eligible_fit: "c \<in> set (eligibleResolvers input bond) \<Longrightarrow> fit_for_panel input bond c"
  using uniqueIdentityCandidates_spec(2) by (auto simp: eligibleResolvers_def fit_for_panel_def)

lemma distinct_eligible: "distinct (map rp_identityHash (eligibleResolvers input bond))"
  unfolding eligibleResolvers_def
  by (intro distinct_map_filter uniqueIdentityCandidates_spec(1))

lemma map_enumerate_snd: "map (\<lambda>ic. f (snd ic)) (enumerate n xs) = map f xs"
  by (induction xs arbitrary: n) simp_all

text \<open>
  C24: A resolver panel is selected exactly if enough candidates qualify.  It then has the odd
  size the stake calls for, its members are distinct identities taken from the candidates, none
  holds a position or a stake in the pool, and each can pay the bond that is assigned.
\<close>

theorem selectDotCastResolverPanel_members:
  fixes rt clock env input
  defines "stake \<equiv> orElse (sl_estimatedStakeMinorUnits input) 0"
    and "status \<equiv> readDotCastResolutionRouterStatus env True"
  shows "case selectDotCastResolverPanel rt clock env input of
      Inl _ \<Rightarrow> int (length (eligibleResolvers input (bondForStake status stake))) < panelSizeForStake status stake
    | Inr panel \<Rightarrow>
        int (length (pn_assignments panel)) = panelSizeForStake status stake \<and>
        odd (length (pn_assignments panel)) \<and>
        distinct (map as_identityHash (pn_assignments panel)) \<and>
        list_all (\<lambda>a. as_bondMinorUnits a = bondForStake status stake \<and> as_status a = Assigned \<and>
          (\<exists>c. fit_for_panel input (bondForStake status stake) c \<and>
             as_resolverId a = rp_resolverId c \<and> as_identityHash a = rp_identityHash c \<and>
             as_reputationBps a = rp_reputationBps c)) (pn_assignments panel)"
proof -
  let ?n = "panelSizeForStake status stake" and ?b = "bondForStake status stake"
  let ?el = "eligibleResolvers input ?b"
  have ok: "odd ?n" "0 < ?n"
    using status_ok_read [of env True] by (auto simp: status_def status_ok_def panelSizeForStake_def)
  define now where "now = orElse (sl_now input) clock"
  define pid where "pid = orElse (sl_panelId input)
    (''dotcast:e13:panel:'' @ sl_poolId input @ '':'' @ rr_routeId (sl_route input) @ '':'' @ show_date rt now)"
  define sel where "sel = take (nat ?n) (deterministicResolverShuffle ?el pid)"
  have set_sel: "c \<in> set sel \<Longrightarrow> c \<in> set ?el" for c
    by (auto simp: sel_def deterministicResolverShuffle_def dest: in_set_takeD)
  have len: "length sel = min (nat ?n) (length ?el)"
    by (simp add: sel_def deterministicResolverShuffle_def)
  have "mset (map rp_identityHash (sort_by (compareResolvers pid) ?el)) = mset (map rp_identityHash ?el)" by simp
  then have "distinct (map rp_identityHash (sort_by (compareResolvers pid) ?el))"
    using distinct_eligible by (metis mset_eq_imp_distinct_iff)
  then have ds: "distinct (map rp_identityHash sel)"
    by (simp add: sel_def deterministicResolverShuffle_def take_map [symmetric])
  have eq: "selectDotCastResolverPanel rt clock env input =
     (if int (length sel) < ?n
      then Inl (CodedError ''RESOLVER_PANEL_INSUFFICIENT''
             ''not enough stake-excluded, bonded, unique-identity resolvers for the required panel'' 409)
      else Inr \<lparr>pn_panelId = pid, pn_poolId = sl_poolId input, pn_routeId = rr_routeId (sl_route input),
           pn_tier = rr_tier (sl_route input), pn_panelSize = ?n, pn_estimatedStakeMinorUnits = stake,
           pn_resolverFeeBps =
             (if rr_tier (sl_route input) = OptimisticBonded \<or> rr_tier (sl_route input) = HumanJury
              then st_resolverFeeBps status else 0),
           pn_assignments =
             map (panelAssignment pid (sl_poolId input) (rr_routeId (sl_route input)) ?b now) (enumerate 0 sel),
           pn_createdAt = now\<rparr>)"
    by (simp only: selectDotCastResolverPanel_def Let_def sel_def pid_def now_def status_def stake_def)
  show ?thesis
  proof (cases "int (length sel) < ?n")
    case True
    then have "int (length ?el) < ?n" unfolding len by linarith
    then show ?thesis unfolding eq using True by simp
  next
    case False
    let ?as = "map (panelAssignment pid (sl_poolId input) (rr_routeId (sl_route input)) ?b now) (enumerate 0 sel)"
    obtain panel where p: "selectDotCastResolverPanel rt clock env input = Inr panel" "pn_assignments panel = ?as"
      using False by (simp add: eq)
    have l: "int (length ?as) = ?n" using False len ok by simp
    then have od: "odd (length ?as)" using ok by (metis even_of_nat_iff)
    have ids: "map as_identityHash ?as = map rp_identityHash sel"
      by (simp add: panelAssignment_def comp_def map_enumerate_snd)
    have "list_all (\<lambda>a. as_bondMinorUnits a = ?b \<and> as_status a = Assigned \<and>
          (\<exists>c. fit_for_panel input ?b c \<and> as_resolverId a = rp_resolverId c \<and>
             as_identityHash a = rp_identityHash c \<and> as_reputationBps a = rp_reputationBps c)) ?as"
      unfolding list_all_iff set_map
    proof (intro ballI, elim imageE)
      fix a ic assume ic: "ic \<in> set (enumerate 0 sel)"
        and a: "a = panelAssignment pid (sl_poolId input) (rr_routeId (sl_route input)) ?b now ic"
      have "snd ic \<in> set sel" using ic by (metis in_set_enumerate_eq add.right_neutral add.left_neutral diff_zero nth_mem)
      then have "fit_for_panel input ?b (snd ic)" using set_sel eligible_fit by blast
      then show "as_bondMinorUnits a = ?b \<and> as_status a = Assigned \<and>
          (\<exists>c. fit_for_panel input ?b c \<and> as_resolverId a = rp_resolverId c \<and>
             as_identityHash a = rp_identityHash c \<and> as_reputationBps a = rp_reputationBps c)"
        unfolding a by (auto simp: panelAssignment_def)
    qed
    then show ?thesis using p l od ids ds by simp
  qed
qed

subsection \<open>Commit and reveal\<close>

lemma outcome_colon: "CHR '':'' \<notin> set (show_outcome oc)"
proof (cases oc)
  case (Won s)
  then show ?thesis by (cases s) simp_all
qed simp

lemma show_outcome_inj: "show_outcome a = show_outcome b \<Longrightarrow> a = b"
proof -
  have "show_outcome a = show_outcome b \<longrightarrow> a = b"
    by (cases a rule: show_outcome.cases; cases b rule: show_outcome.cases)
      (simp_all, (rename_tac s t, case_tac s; case_tac t; simp)?, (rename_tac s, case_tac s; simp)+)
  then show "show_outcome a = show_outcome b \<Longrightarrow> a = b" by blast
qed

lemma commit_text_inj:
  assumes "show_outcome a @ '':'' @ s = show_outcome b @ '':'' @ t"
  shows "a = b \<and> s = t"
proof -
  have tw: "takeWhile (\<lambda>c. c \<noteq> CHR '':'') (show_outcome x @ '':'' @ u) = show_outcome x" for x u
    using outcome_colon [of x] by (subst takeWhile_append2) (auto intro: ccontr)
  have "show_outcome a = show_outcome b" using arg_cong [OF assms, of "takeWhile (\<lambda>c. c \<noteq> CHR '':'')"] unfolding tw .
  then show ?thesis using assms show_outcome_inj by simp
qed

text \<open>
  C25: A commitment can be opened to what was committed, and to nothing else: revealing the
  committed outcome and salt returns that outcome for the same assignment, and any reveal that is
  accepted has the committed outcome and salt, provided the digest separates the two texts.
\<close>

theorem resolver_commit_reveal:
  assumes c: "createDotCastResolverCommit digest asg oc salt now = Inr com"
    and inj: "digest (show_outcome oc' @ '':'' @ salt') = digest (show_outcome oc @ '':'' @ salt) \<Longrightarrow>
      show_outcome oc' @ '':'' @ salt' = show_outcome oc @ '':'' @ salt"
  shows "((\<exists>r. revealDotCastResolverCommit digest com oc' salt' now' = Inr r) \<longleftrightarrow> oc' = oc \<and> salt' = salt) \<and>
    (\<exists>r. revealDotCastResolverCommit digest com oc salt now' = Inr r \<and> rl_outcome r = oc \<and>
      rl_assignmentId r = as_assignmentId asg \<and> rl_resolverId r = as_resolverId asg)"
proof -
  have s: "salt \<noteq> ''''" and com: "cm_commitHash com = digest (show_outcome oc @ '':'' @ salt)"
    "cm_assignmentId com = as_assignmentId asg" "cm_resolverId com = as_resolverId asg"
    using c by (auto simp: createDotCastResolverCommit_def resolverCommitHash_def split: if_splits)
  have ex: "\<exists>r. revealDotCastResolverCommit digest com oc salt now' = Inr r \<and> rl_outcome r = oc \<and>
      rl_assignmentId r = as_assignmentId asg \<and> rl_resolverId r = as_resolverId asg"
    using s com by (simp add: revealDotCastResolverCommit_def resolverCommitHash_def)
  have "oc' = oc \<and> salt' = salt" if "revealDotCastResolverCommit digest com oc' salt' now' = Inr r" for r
  proof -
    have "digest (show_outcome oc' @ '':'' @ salt') = digest (show_outcome oc @ '':'' @ salt)"
      using that com(1) by (simp add: revealDotCastResolverCommit_def resolverCommitHash_def split: if_splits)
    then show ?thesis using commit_text_inj [OF inj] by blast
  qed
  then show ?thesis using ex by auto
qed

definition example_assignment :: "string \<Rightarrow> string \<Rightarrow> int \<Rightarrow> DotCastResolverAssignment" where
  "example_assignment aid rid rep =
     \<lparr>as_assignmentId = aid, as_panelId = ''panel'', as_poolId = ''p1'', as_routeId = ''r1'',
      as_resolverId = rid, as_identityHash = rid, as_reputationBps = rep, as_bondMinorUnits = 50000,
      as_status = Assigned, as_assignedAt = ''t''\<rparr>"

theorem resolver_commit_reveal_witness:
  "(\<exists>r. revealDotCastResolverCommit id
       \<lparr>cm_assignmentId = ''a1'', cm_panelId = ''panel'', cm_resolverId = ''x'',
        cm_commitHash = ''yes:salt'', cm_committedAt = ''t''\<rparr> (Won No) ''salt'' ''u'' = Inr r) \<longleftrightarrow> False"
proof -
  let ?c = "\<lparr>cm_assignmentId = ''a1'', cm_panelId = ''panel'', cm_resolverId = ''x'',
      cm_commitHash = ''yes:salt'', cm_committedAt = ''t''\<rparr>"
  have c: "createDotCastResolverCommit id (example_assignment ''a1'' ''x'' 7500) (Won Yes) ''salt'' ''t'' = Inr ?c"
    by (simp add: createDotCastResolverCommit_def resolverCommitHash_def example_assignment_def)
  show ?thesis using resolver_commit_reveal [OF c, of "Won No" "''salt''" "''u''"] by simp
qed

subsection \<open>Settlement and timeout\<close>

definition vote_weight :: "(string \<times> DotCastResolverReveal) list \<Rightarrow> DotCastResolverAssignment list \<Rightarrow> Outcome \<Rightarrow> int" where
  "vote_weight m as oc = sum_list (map (\<lambda>a. if revealed_outcome m a = Some oc then max 1 (as_reputationBps a) else 0) as)"

definition voting_power :: "DotCastResolverAssignment list \<Rightarrow> int" where
  "voting_power as = sum_list (map (\<lambda>a. max 1 (as_reputationBps a)) as)"

lemma vote_weight_nonneg: "0 \<le> vote_weight m as oc"
  unfolding vote_weight_def by (intro sum_list_nonneg) auto

lemma outcome_cases: "oc = Won Yes \<or> oc = Won No \<or> oc = Invalid"
proof (cases oc)
  case (Won s)
  then show ?thesis by (cases s) auto
qed simp

lemma weight_of_add [simp]:
  "weight_of (add_weight w oc x) oc' = (if oc' = oc then js_add (weight_of w oc) x else weight_of w oc')"
  using outcome_cases [of oc] outcome_cases [of oc'] by auto

lemma vote_weights_le: "vote_weight m as (Won Yes) + vote_weight m as (Won No) + vote_weight m as Invalid \<le> voting_power as"
proof (induction as)
  case (Cons a as)
  then show ?case
    using outcome_cases [of "the (revealed_outcome m a)"]
    by (cases "revealed_outcome m a") (auto simp: vote_weight_def voting_power_def)
qed (simp add: vote_weight_def voting_power_def)

lemma fold_weights:
  assumes "\<And>oc. 0 \<le> weight_of w oc" "\<And>oc. is_safe_integer (weight_of w oc + vote_weight m as oc)"
  shows "weight_of (fold (\<lambda>a w. case revealed_outcome m a of
         None \<Rightarrow> w | Some oc \<Rightarrow> add_weight w oc (max 1 (as_reputationBps a))) as w) oc =
    weight_of w oc + vote_weight m as oc"
  using assms
proof (induction as arbitrary: w)
  case Nil
  then show ?case by (simp add: vote_weight_def)
next
  case (Cons a as)
  show ?case
  proof (cases "revealed_outcome m a")
    case None
    then show ?thesis using Cons by (simp add: vote_weight_def)
  next
    case (Some x)
    let ?y = "max 1 (as_reputationBps a)"
    have "is_safe_integer (weight_of w x + ?y)"
      using Cons.prems(1) [of x] Cons.prems(2) [of x] vote_weight_nonneg [of m as x] Some
      by (intro is_safe_between [OF _ _ Cons.prems(2) [of x]]) (auto simp: vote_weight_def)
    then have e: "js_add (weight_of w x) ?y = weight_of w x + ?y" by (rule js_add_safe)
    have w: "weight_of (add_weight w x ?y) o' = weight_of w o' + (if o' = x then ?y else 0)" for o'
      by (simp add: e)
    have v: "vote_weight m (a # as) o' = (if o' = x then ?y else 0) + vote_weight m as o'" for o'
      using Some by (auto simp: vote_weight_def)
    have "weight_of (fold (\<lambda>a w. case revealed_outcome m a of
         None \<Rightarrow> w | Some oc \<Rightarrow> add_weight w oc (max 1 (as_reputationBps a))) as (add_weight w x ?y)) oc =
      weight_of (add_weight w x ?y) oc + vote_weight m as oc"
    proof (rule Cons.IH)
      show "0 \<le> weight_of (add_weight w x ?y) o'" for o' using Cons.prems(1) [of o'] unfolding w by (simp add: max_def)
      show "is_safe_integer (weight_of (add_weight w x ?y) o' + vote_weight m as o')" for o'
        using Cons.prems(2) [of o'] unfolding w v by (simp add: add.assoc)
    qed
    then show ?thesis using Some by (simp add: w v add.assoc del: weight_of_add)
  qed
qed

lemma panelWeights_exact:
  assumes "is_safe_integer (voting_power as)"
  shows "weight_of (panelWeights m as) oc = vote_weight m as oc"
proof -
  have "is_safe_integer (vote_weight m as oc)" for oc
    using vote_weights_le [of m as] vote_weight_nonneg [of m as "Won Yes"] vote_weight_nonneg [of m as "Won No"]
      vote_weight_nonneg [of m as Invalid] outcome_cases [of oc]
    by (intro is_safe_between [OF vote_weight_nonneg _ assms]) auto
  moreover have "weight_of \<lparr>ow_yes = 0, ow_no = 0, ow_invalid = 0\<rparr> oc = 0" for oc
    using outcome_cases [of oc] by auto
  ultimately show ?thesis
    using fold_weights [of "\<lparr>ow_yes = 0, ow_no = 0, ow_invalid = 0\<rparr>" m as oc] by (simp add: panelWeights_def)
qed

lemma consensus_maximal:
  assumes "\<And>oc. is_safe_integer (weight_of w oc)" "\<And>oc. 0 \<le> weight_of w oc"
  shows "weight_of w oc \<le> weight_of w (consensusOf rt w)"
proof -
  let ?xs = "[(Won Yes, ow_yes w), (Won No, ow_no w), (Invalid, ow_invalid w)]"
  let ?R = "\<lambda>a b :: Outcome \<times> int. snd b \<le> snd a"
  have x: "snd a = weight_of w (fst a)" if "a \<in> set ?xs" for a using that by auto
  have sub: "js_sub (snd b) (snd a) = snd b - snd a" if "a \<in> set ?xs" "b \<in> set ?xs" for a b
    using assms(1) [of "fst a"] assms(1) [of "fst b"] assms(2) [of "fst a"] assms(2) [of "fst b"] x that
    by (intro js_sub_safe) (auto simp: is_safe_integer_def)
  have so: "sorted_wrt ?R (sort_by (compareWeights rt) ?xs)"
  proof (rule sorted_sort_by_rel)
    fix a b assume ab: "a \<in> set ?xs" "b \<in> set ?xs"
    show "if compareWeights rt a b \<le> 0 then ?R a b else ?R b a"
      unfolding compareWeights_def Let_def sub [OF ab] by auto
  qed auto
  obtain h t where ht: "sort_by (compareWeights rt) ?xs = h # t"
    by (cases "sort_by (compareWeights rt) ?xs") (metis length_sort_by list.size(3) length_Cons nat.distinct(1), auto)
  have mem: "set (h # t) = set ?xs" using ht by (metis set_sort_by)
  have h: "snd h = weight_of w (consensusOf rt w)"
    using x [of h] mem by (simp only: consensusOf_def ht list.sel) (metis list.set_intros(1))
  have "(oc, weight_of w oc) \<in> set (h # t)" unfolding mem using outcome_cases [of oc] by auto
  then have "weight_of w oc \<le> snd h" using so unfolding ht by auto
  then show ?thesis using h by simp
qed

text \<open>The fee of a panel.\<close>

lemma fee_share:
  assumes "0 \<le> p" "is_safe_integer p" "0 < n" "n < 2 ^ 53"
  shows "\<lfloor>fl (of_int p / of_int n)\<rfloor> = p div n" "0 \<le> p div n" "n * (p div n) \<le> p"
proof -
  have "p < 2 ^ 53" using assms(1,2) by (simp add: is_safe_integer_def max_safe_integer_def)
  then show "\<lfloor>fl (of_int p / of_int n)\<rfloor> = p div n" using assms by (intro floor_fl_div) auto
  show "0 \<le> p div n" using assms by (simp add: pos_imp_zdiv_nonneg_iff)
  show "n * (p div n) \<le> p" using assms(3) mult_div_mod_eq [of n p] pos_mod_sign [of n p] by linarith
qed

definition panel_fee :: "DotCastResolverPanel \<Rightarrow> int" where
  "panel_fee panel = pn_estimatedStakeMinorUnits panel * pn_resolverFeeBps panel div 10000"

definition fee_input_ok :: "DotCastResolverPanel \<Rightarrow> bool" where
  "fee_input_ok panel \<longleftrightarrow>
     0 \<le> pn_estimatedStakeMinorUnits panel \<and> 0 \<le> pn_resolverFeeBps panel \<and>
     is_safe_integer (pn_estimatedStakeMinorUnits panel * pn_resolverFeeBps panel) \<and>
     is_safe_integer (voting_power (pn_assignments panel))"

lemma feePool_eq:
  assumes "fee_input_ok panel"
  shows "\<lfloor>fl (of_int (num (pn_estimatedStakeMinorUnits panel * pn_resolverFeeBps panel)) / 10000)\<rfloor> = panel_fee panel"
    "0 \<le> panel_fee panel" "is_safe_integer (panel_fee panel)"
proof -
  let ?p = "pn_estimatedStakeMinorUnits panel * pn_resolverFeeBps panel"
  have p: "0 \<le> ?p" "is_safe_integer ?p" using assms by (auto simp: fee_input_ok_def)
  note f = fee_share [OF p, of 10000]
  show "\<lfloor>fl (of_int (num ?p) / 10000)\<rfloor> = panel_fee panel" using f(1) p(2) by (simp add: panel_fee_def num_safe)
  show nn: "0 \<le> panel_fee panel" using f(2) by (simp add: panel_fee_def)
  show "is_safe_integer (panel_fee panel)"
    using f(3) nn by (intro is_safe_between [OF nn _ p(2)]) (simp add: panel_fee_def)
qed

lemma sum_filter_const:
  "sum_list (map (\<lambda>a. if P a then f else 0) xs) = int (length (filter P xs)) * f"
  by (induction xs) (simp_all add: algebra_simps)

lemma length_le_power: "int (length as) \<le> voting_power as"
  by (induction as) (auto simp: voting_power_def max_def)


definition example_panel :: DotCastResolverPanel where
  "example_panel =
     \<lparr>pn_panelId = ''panel'', pn_poolId = ''p1'', pn_routeId = ''r1'', pn_tier = OptimisticBonded,
      pn_panelSize = 3, pn_estimatedStakeMinorUnits = 1000000, pn_resolverFeeBps = 200,
      pn_assignments = [example_assignment ''a1'' ''x'' 7500, example_assignment ''a2'' ''y'' 6000,
        example_assignment ''a3'' ''z'' 9000],
      pn_createdAt = ''t''\<rparr>"


text \<open>
  A timeout slashes exactly those who let the phase pass: the members of a panel are split
  into those who timed out and those who are unaffected, a member is charged exactly if nothing
  was committed (or revealed) for it and it was not paid or slashed before, and the charge is the
  whole bond.
\<close>

theorem evaluateDotCastResolverPanelTimeout_partition:
  fixes panel commits reveals phase now
  assumes d: "distinct (map as_assignmentId (pn_assignments panel))"
  defines "res \<equiv> evaluateDotCastResolverPanelTimeout panel commits reveals phase now"
    and "missing \<equiv> \<lambda>a. as_status a \<noteq> Paid \<and> as_status a \<noteq> Slashed \<and>
      (case phase of CommitPhase \<Rightarrow> as_assignmentId a \<notin> set (map cm_assignmentId commits)
       | RevealPhase \<Rightarrow> as_assignmentId a \<notin> set (map rl_assignmentId reveals))"
  shows "to_timedOutAssignmentIds res = map as_assignmentId (filter missing (pn_assignments panel)) \<and>
    to_unaffectedAssignmentIds res = map as_assignmentId (filter (\<lambda>a. \<not> missing a) (pn_assignments panel)) \<and>
    map py_assignmentId (to_payouts res) = to_timedOutAssignmentIds res \<and>
    sum_list (map py_slashedBondMinorUnits (to_payouts res)) =
      sum_list (map as_bondMinorUnits (filter missing (pn_assignments panel))) \<and>
    list_all (\<lambda>p. py_bondReturnedMinorUnits p = 0 \<and> py_feePaidMinorUnits p = 0) (to_payouts res)"
proof -
  have eq: "filter (\<lambda>a.
            if as_status a = Paid \<or> as_status a = Slashed then False
            else if phase = CommitPhase then as_assignmentId a \<notin> set (map cm_assignmentId commits)
            else as_assignmentId a \<notin> set (map rl_assignmentId reveals)) (pn_assignments panel)
    = filter missing (pn_assignments panel)"
    unfolding missing_def by (rule filter_cong [OF refl]) (cases phase; auto)
  have un: "filter (\<lambda>a. as_assignmentId a \<notin> set (map as_assignmentId (filter missing (pn_assignments panel))))
      (pn_assignments panel) = filter (\<lambda>a. \<not> missing a) (pn_assignments panel)"
  proof (rule filter_cong [OF refl])
    fix a assume a: "a \<in> set (pn_assignments panel)"
    have "as_assignmentId a \<in> set (map as_assignmentId (filter missing (pn_assignments panel))) \<longleftrightarrow> missing a"
      using d a by (auto simp: distinct_map inj_on_def)
    then show "(as_assignmentId a \<notin> set (map as_assignmentId (filter missing (pn_assignments panel)))) = (\<not> missing a)"
      by blast
  qed
  show ?thesis
    unfolding res_def evaluateDotCastResolverPanelTimeout_def Let_def eq un
    by (simp add: comp_def list_all_iff)
qed

theorem evaluateDotCastResolverPanelTimeout_partition_witness:
  "to_timedOutAssignmentIds (evaluateDotCastResolverPanelTimeout example_panel
     [\<lparr>cm_assignmentId = ''a1'', cm_panelId = ''panel'', cm_resolverId = ''x'', cm_commitHash = ''h'',
       cm_committedAt = ''t''\<rparr>] [] CommitPhase ''u'') = [''a2'', ''a3'']"
proof -
  have "distinct (map as_assignmentId (pn_assignments example_panel))"
    by (simp add: example_panel_def example_assignment_def)
  from evaluateDotCastResolverPanelTimeout_partition [OF this, of
      "[\<lparr>cm_assignmentId = ''a1'', cm_panelId = ''panel'', cm_resolverId = ''x'', cm_commitHash = ''h'',
       cm_committedAt = ''t''\<rparr>]" "[]" CommitPhase "''u''"]
  show ?thesis by (simp add: example_panel_def example_assignment_def)
qed

subsection \<open>The life of a challenge\<close>

definition challenge_ok :: "DotCastResolutionChallenge \<Rightarrow> bool" where
  "challenge_ok c \<longleftrightarrow>
     (ch_status c = ChallengeOpen \<longleftrightarrow> ch_decidedAt c = None) \<and> 0 \<le> ch_bondMinorUnits c \<and>
     is_safe_integer (ch_bondMinorUnits c) \<and> ch_challengerId c \<noteq> '''' \<and> ch_reason c \<noteq> ''''"

lemma assertNonNegativeBond_Inr [simp]:
  "assertNonNegativeBond v l = Inr i \<longleftrightarrow> v = Fin (of_int i) \<and> is_safe_integer i \<and> 0 \<le> i"
  by (auto simp: assertNonNegativeBond_def safe_integer_Some split: option.splits)

lemma requireNonEmptyInput_Inr [simp]:
  "requireNonEmptyInput v l = Inr t \<longleftrightarrow> t = trim v \<and> t \<noteq> ''''"
  by (auto simp: requireNonEmptyInput_def Let_def)

lemma openChallenge_Inr:
  assumes "openDotCastResolutionChallenge rt clock i = Inr c"
  shows "challenge_ok c" "ch_status c = ChallengeOpen" "rr_tier (oc_route i) = OptimisticBonded"
    "rr_status (oc_route i) \<in> {RouteLocked, ReviewRequired}" "ch_routeId c = rr_routeId (oc_route i)"
    "\<exists>opened closes. date_parse rt (ch_openedAt c) = Some opened \<and> opened \<le> closes \<and>
       to_iso rt closes = Some (ch_challengeWindowClosesAt c)"
proof -
  obtain n where n: "date_parse rt (orElse (oc_now i) clock) = Some n"
    using assms by (auto simp: openDotCastResolutionChallenge_def Let_def split: option.splits)
  have t: "rr_tier (oc_route i) = OptimisticBonded" "rr_status (oc_route i) \<noteq> Blocked" "rr_status (oc_route i) \<noteq> PointsOnly"
    using assms by (auto simp: openDotCastResolutionChallenge_def Let_def n split: if_splits)
  obtain cl where cl: "routeWindowClosesAt rt (oc_route i) n (challengeWindow (oc_windowSeconds i)) = Some cl" "n \<le> cl"
    using assms t by (auto simp: openDotCastResolutionChallenge_def Let_def n split: if_splits option.splits)
  obtain iso where iso: "to_iso rt cl = Some iso"
    using assms t cl by (auto simp: openDotCastResolutionChallenge_def Let_def n split: option.splits)
  obtain b where c: "trim (oc_challengerId i) \<noteq> ''''" "trim (oc_reason i) \<noteq> ''''"
    "is_safe_integer b" "0 \<le> b" "ch_bondMinorUnits c = b" "ch_challengerId c = trim (oc_challengerId i)"
    "ch_reason c = trim (oc_reason i)" "ch_status c = ChallengeOpen" "ch_decidedAt c = None"
    "ch_openedAt c = orElse (oc_now i) clock" "ch_challengeWindowClosesAt c = iso" "ch_routeId c = rr_routeId (oc_route i)"
    using assms t cl iso by (auto simp: openDotCastResolutionChallenge_def Let_def n rbind_eq_Inr)
  show "challenge_ok c" using c by (simp add: challenge_ok_def)
  show "ch_status c = ChallengeOpen" "ch_routeId c = rr_routeId (oc_route i)" "rr_tier (oc_route i) = OptimisticBonded"
    by (fact c(8), fact c(12), fact t(1))
  show "rr_status (oc_route i) \<in> {RouteLocked, ReviewRequired}" using t by (cases "rr_status (oc_route i)") auto
  show "\<exists>opened closes. date_parse rt (ch_openedAt c) = Some opened \<and> opened \<le> closes \<and>
       to_iso rt closes = Some (ch_challengeWindowClosesAt c)"
    using n cl iso c by auto
qed

inductive challenge_step :: "js_runtime \<Rightarrow> DotCastResolutionChallenge \<Rightarrow> DotCastResolutionChallenge \<Rightarrow> bool"
  for rt :: js_runtime where
  decide: "dc_challenge i = c \<Longrightarrow> decideDotCastResolutionChallenge rt clock i = Inr c' \<Longrightarrow> challenge_step rt c c'"

inductive_cases challenge_stepE [elim]: "challenge_step rt c c'"

definition challenge_init :: "js_runtime \<Rightarrow> DotCastResolutionChallenge \<Rightarrow> bool" where
  "challenge_init rt c \<longleftrightarrow> (\<exists>clock i. openDotCastResolutionChallenge rt clock i = Inr c)"

lemma decide_Inr:
  assumes "decideDotCastResolutionChallenge rt clock i = Inr c'"
  shows "ch_status (dc_challenge i) = ChallengeOpen" "ch_status c' = challengeStatusForDecision (dc_action i)"
    "ch_decidedAt c' \<noteq> None" "ch_bondMinorUnits c' = ch_bondMinorUnits (dc_challenge i)"
    "ch_challengerId c' = ch_challengerId (dc_challenge i)" "ch_reason c' = ch_reason (dc_challenge i)"
    "ch_routeId c' = ch_routeId (dc_challenge i)"
    "dc_action i \<noteq> ExpireChallenge \<Longrightarrow>
       \<not> afterWindow rt (orElse (dc_now i) clock) (ch_challengeWindowClosesAt (dc_challenge i))"
  using assms by (auto simp: decideDotCastResolutionChallenge_def Let_def split: if_splits)

lemma challenge_step_ok: "challenge_step rt c c' \<Longrightarrow> challenge_ok c \<Longrightarrow> challenge_ok c'"
proof (induction rule: challenge_step.induct)
  case (decide i c clock c')
  have "challengeStatusForDecision (dc_action i) \<noteq> ChallengeOpen" by (cases "dc_action i") auto
  then show ?case using decide decide_Inr(2-6) [OF decide(2)] by (auto simp: challenge_ok_def)
qed

interpretation challenges: step_system "challenge_init rt" "challenge_step rt" challenge_ok for rt
  by unfold_locales (auto simp: challenge_init_def dest: openChallenge_Inr(1) challenge_step_ok)

text \<open>
  A challenge is decided at most once: every challenge that opening and deciding can reach is
  undecided exactly while it is open, and once it is accepted, rejected or expired no further
  decision succeeds.
\<close>

theorem challenge_decided_once:
  assumes "reach (challenge_init rt) (challenge_step rt) c"
  shows "challenge_ok c \<and> (ch_decidedAt c = None) = (\<exists>c'. challenge_step rt c c')"
proof
  show ok: "challenge_ok c" using assms by (rule challenges.reach_inv)
  have "\<exists>c'. challenge_step rt c c'" if undecided: "ch_status c = ChallengeOpen"
  proof -
    let ?i = "\<lparr>dc_challenge = c, dc_action = ExpireChallenge, dc_decisionBy = None, dc_reason = None,
      dc_metadata = None, dc_now = None\<rparr>"
    obtain c' where "decideDotCastResolutionChallenge rt '''' ?i = Inr c'"
      using undecided by (simp add: decideDotCastResolutionChallenge_def Let_def)
    then show ?thesis using challenge_step.decide [of ?i c rt] by auto
  qed
  moreover have "ch_status c = ChallengeOpen" if "challenge_step rt c c'" for c'
    using that decide_Inr(1) by auto
  ultimately show "(ch_decidedAt c = None) = (\<exists>c'. challenge_step rt c c')"
    using ok by (auto simp: challenge_ok_def)
qed

definition example_challenge_input :: OpenDotCastResolutionChallengeInput where
  "example_challenge_input =
     \<lparr>oc_route = example_route\<lparr>rr_tier := OptimisticBonded, rr_status := RouteLocked,
        rr_createdAt := ''x'', rr_bondMinorUnits := 50000\<rparr>,
      oc_challengerId = ''u9'', oc_reason = ''wrong source'', oc_evidenceRefs = None,
      oc_bondMinorUnits = None, oc_challengeId = Some ''c1'', oc_windowSeconds = None,
      oc_now = Some ''2026-01-02T03:04:05.006Z'', oc_metadata = None\<rparr>"

lemma example_challenge_opens:
  "\<exists>c. openDotCastResolutionChallenge ref_runtime '''' example_challenge_input = Inr c"
proof -
  have d: "date_parse ref_runtime ''2026-01-02T03:04:05.006Z'' = Some 1767323045006"
    by (simp add: ref_runtime_def iso_parse_example)
  have x: "date_parse ref_runtime ''x'' = None" by code_simp
  have w: "js_add 1767323045006 (num 900000) = 1767323945006"
    by (simp add: js_add_def num_safe small_safe)
  have iso: "to_iso ref_runtime ms = Some (show_int ms)" for ms by (simp add: ref_runtime_def)
  have b: "assertNonNegativeBond (Fin 50000) l = Inr 50000" for l
    using safe_integer_of_int [of 50000] by (simp add: assertNonNegativeBond_def small_safe)
  have u: "requireNonEmptyInput ''u9'' l = Inr ''u9''" "requireNonEmptyInput ''wrong source'' l = Inr ''wrong source''" for l
    by (simp_all add: requireNonEmptyInput_def trim_def is_white_def)
  show ?thesis
    unfolding openDotCastResolutionChallenge_def Let_def example_challenge_input_def
    by (simp add: d x w iso b u routeWindowClosesAt_def challengeWindow_def
        del: assertNonNegativeBond_Inr requireNonEmptyInput_Inr)
qed

theorem challenge_decided_once_witness:
  "\<exists>c. openDotCastResolutionChallenge ref_runtime '''' example_challenge_input = Inr c \<and>
     (\<exists>c'. challenge_step ref_runtime c c')"
proof -
  obtain c where c: "openDotCastResolutionChallenge ref_runtime '''' example_challenge_input = Inr c"
    using example_challenge_opens by blast
  have r: "reach (challenge_init ref_runtime) (challenge_step ref_runtime) c"
    using c by (intro reach.reach_init) (auto simp: challenge_init_def)
  have "ch_decidedAt c = None"
    using openChallenge_Inr(1,2) [OF c] by (simp add: challenge_ok_def)
  then show ?thesis using challenge_decided_once [OF r] c by blast
qed

text \<open>
  Only an optimistic route that is still open can be challenged, and only inside its window:
  the challenge that is opened belongs to the route, is undecided, carries a non-negative bond,
  and was opened no later than the recorded close of the window; after that close only \<open>expire\<close>
  is accepted as a decision.
\<close>

theorem openDotCastResolutionChallenge_window:
  assumes c: "openDotCastResolutionChallenge rt clock i = Inr c"
    and d: "decideDotCastResolutionChallenge rt clock' j = Inr c'" "dc_challenge j = c"
  shows "challenge_ok c \<and> rr_tier (oc_route i) = OptimisticBonded \<and> ch_routeId c = rr_routeId (oc_route i) \<and>
    (\<exists>opened closes. date_parse rt (ch_openedAt c) = Some opened \<and> opened \<le> closes \<and>
       to_iso rt closes = Some (ch_challengeWindowClosesAt c)) \<and>
    (ch_status c' = ChallengeExpired \<or>
     \<not> afterWindow rt (orElse (dc_now j) clock') (ch_challengeWindowClosesAt c))"
  using openChallenge_Inr [OF c] decide_Inr(2,8) [OF d(1)] d(2) by (cases "dc_action j") auto

theorem openDotCastResolutionChallenge_window_witness:
  "\<exists>c c'. openDotCastResolutionChallenge ref_runtime '''' example_challenge_input = Inr c \<and>
     decideDotCastResolutionChallenge ref_runtime ''''
       \<lparr>dc_challenge = c, dc_action = RejectChallenge, dc_decisionBy = None, dc_reason = None,
        dc_metadata = None, dc_now = Some ''x''\<rparr> = Inr c' \<and> challenge_ok c \<and>
     \<not> afterWindow ref_runtime ''x'' (ch_challengeWindowClosesAt c)"
proof -
  obtain c where c: "openDotCastResolutionChallenge ref_runtime '''' example_challenge_input = Inr c"
    using example_challenge_opens by blast
  let ?j = "\<lparr>dc_challenge = c, dc_action = RejectChallenge, dc_decisionBy = None, dc_reason = None,
        dc_metadata = None, dc_now = Some ''x''\<rparr>"
  have x: "date_parse ref_runtime ''x'' = None" by code_simp
  obtain c' where c': "decideDotCastResolutionChallenge ref_runtime '''' ?j = Inr c'"
    using openChallenge_Inr(2) [OF c] by (simp add: decideDotCastResolutionChallenge_def Let_def afterWindow_def x)
  have st: "ch_status c' \<noteq> ChallengeExpired" using decide_Inr(2) [OF c'] by simp
  show ?thesis
    using openDotCastResolutionChallenge_window [OF c c'] c c' st by auto
qed

text \<open>
  The policy before a settlement: on an optimistic route an accepted challenge blocks every
  automatic settlement (only a resolver panel or a manual review may settle), and without one an
  open challenge holds it; in all other cases settlement is allowed.  Each challenge of the route
  is counted in exactly one of the four groups.
\<close>

theorem challenge_settlement_policy:
  fixes route cs src
  defines "pol \<equiv> evaluateDotCastResolutionChallengeSettlementPolicy route cs src"
    and "own \<equiv> filter (\<lambda>c. ch_routeId c = rr_routeId route) cs"
  shows "cs_action pol =
      (if rr_tier route \<noteq> OptimisticBonded then Allow
       else if list_ex (\<lambda>c. ch_status c = ChallengeAccepted) own
       then (if src = Some ResolverConsensus \<or> src = Some ManualReviewSource then Allow else Block)
       else if list_ex (\<lambda>c. ch_status c = ChallengeOpen) own then Hold else Allow) \<and>
    mset (cs_acceptedChallengeIds pol @ cs_rejectedChallengeIds pol @ cs_openChallengeIds pol @
      cs_expiredChallengeIds pol) = mset (map ch_challengeId own)"
proof -
  have ne: "(filter P xs \<noteq> []) = list_ex P xs" for P :: "DotCastResolutionChallenge \<Rightarrow> bool" and xs
    by (auto simp: filter_empty_conv list_ex_iff)
  have groups: "mset (map ch_challengeId (filter (\<lambda>c. ch_status c = ChallengeAccepted) xs) @
      map ch_challengeId (filter (\<lambda>c. ch_status c = ChallengeRejected) xs) @
      map ch_challengeId (filter (\<lambda>c. ch_status c = ChallengeOpen) xs) @
      map ch_challengeId (filter (\<lambda>c. ch_status c = ChallengeExpired \<or> ch_status c = ChallengeWithdrawn) xs)) =
      mset (map ch_challengeId xs)" for xs
  proof (induction xs)
    case (Cons x xs)
    then show ?case by (cases "ch_status x") auto
  qed simp
  have act: "cs_action pol =
      (if rr_tier route \<noteq> OptimisticBonded then Allow
       else if filter (\<lambda>c. ch_status c = ChallengeAccepted) own \<noteq> []
       then (if src = Some ResolverConsensus \<or> src = Some ManualReviewSource then Allow else Block)
       else if filter (\<lambda>c. ch_status c = ChallengeOpen) own \<noteq> [] then Hold else Allow)"
    unfolding pol_def own_def evaluateDotCastResolutionChallengeSettlementPolicy_def Let_def
    by (cases src) simp_all
  have ids: "cs_acceptedChallengeIds pol = map ch_challengeId (filter (\<lambda>c. ch_status c = ChallengeAccepted) own)"
    "cs_rejectedChallengeIds pol = map ch_challengeId (filter (\<lambda>c. ch_status c = ChallengeRejected) own)"
    "cs_openChallengeIds pol = map ch_challengeId (filter (\<lambda>c. ch_status c = ChallengeOpen) own)"
    "cs_expiredChallengeIds pol =
       map ch_challengeId (filter (\<lambda>c. ch_status c = ChallengeExpired \<or> ch_status c = ChallengeWithdrawn) own)"
    unfolding pol_def own_def evaluateDotCastResolutionChallengeSettlementPolicy_def Let_def by simp_all
  show ?thesis unfolding act ids groups ne by blast
qed

subsection \<open>The registry\<close>

definition profile_ok :: "DotCastResolverRegistryProfile \<Rightarrow> bool" where
  "profile_ok p \<longleftrightarrow>
     0 \<le> rp_reputationBps p \<and> rp_reputationBps p \<le> 10000 \<and>
     0 \<le> rp_bondAvailableMinorUnits p \<and> rp_resolverId p \<noteq> '''' \<and> rp_identityHash p \<noteq> ''''"

lemma assertBps_Inr [simp]: "assertBps v l = Inr i \<longleftrightarrow> v = Fin (of_int i) \<and> 0 \<le> i \<and> i \<le> 10000"
  by (auto simp: assertBps_def safe_integer_Some small_safe split: option.splits if_splits)

lemma requireSignedInteger_Inr [simp]:
  "requireSignedInteger v l = Inr i \<longleftrightarrow> v = Some (Fin (of_int i)) \<and> is_safe_integer i \<and> i \<noteq> 0"
  by (cases v) (auto simp: requireSignedInteger_def safe_integer_Some split: option.splits if_splits)

lemma build_profile_ok: "buildDotCastResolverRegistryProfile clock i = Inr p \<Longrightarrow> profile_ok p"
  by (auto simp: buildDotCastResolverRegistryProfile_def Let_def rbind_eq_Inr profile_ok_def)

inductive registry_step :: "js_runtime \<Rightarrow> DotCastResolverRegistryProfile \<Rightarrow> DotCastResolverRegistryProfile \<Rightarrow> bool"
  for rt :: js_runtime where
  admin: "aa_profile i = p \<Longrightarrow> applyDotCastResolverAdminAction rt clock i = Inr r \<Longrightarrow> registry_step rt p (ax_profile r)"

definition registry_init :: "DotCastResolverRegistryProfile \<Rightarrow> bool" where
  "registry_init p \<longleftrightarrow> (\<exists>clock i. buildDotCastResolverRegistryProfile clock i = Inr p)"

lemma admin_profile_ok:
  assumes "applyDotCastResolverAdminAction rt clock i = Inr r" "profile_ok (aa_profile i)"
  shows "profile_ok (ax_profile r)"
  using assms
  by (cases "aa_action i")
    (auto simp: applyDotCastResolverAdminAction_def Let_def rbind_eq_Inr profile_ok_def clampBps_def split: if_splits)

interpretation registry: step_system registry_init "registry_step rt" profile_ok for rt
  by unfold_locales
    (auto simp: registry_init_def elim!: registry_step.cases dest: build_profile_ok admin_profile_ok)

text \<open>
  Every profile that onboarding and the operator's actions can produce has a reputation in
  basis points and a bond that is not negative, and an action that changes the bond or the
  reputation is recorded with exactly the resulting value.
\<close>

theorem registry_profiles_ok:
  assumes "reach registry_init (registry_step rt) p" "aa_profile i = p"
    "applyDotCastResolverAdminAction rt clock i = Inr r"
  shows "profile_ok p \<and> profile_ok (ax_profile r) \<and>
    (case ax_bondLedgerEntry r of
       Some l \<Rightarrow> aa_action i = AdjustBond \<and> bl_balanceAfterMinorUnits l = rp_bondAvailableMinorUnits (ax_profile r) \<and>
         bl_balanceAfterMinorUnits l = js_add (rp_bondAvailableMinorUnits p) (bl_deltaMinorUnits l)
     | None \<Rightarrow> rp_bondAvailableMinorUnits (ax_profile r) = rp_bondAvailableMinorUnits p) \<and>
    (case ax_reputationEvent r of
       Some e \<Rightarrow> aa_action i = AdjustReputation \<and> re_newReputationBps e = rp_reputationBps (ax_profile r) \<and>
         re_previousReputationBps e = rp_reputationBps p
     | None \<Rightarrow> rp_reputationBps (ax_profile r) = rp_reputationBps p)"
proof -
  have p: "profile_ok p" using assms(1) by (rule registry.reach_inv)
  have "profile_ok (ax_profile r)" using admin_profile_ok [OF assms(3)] p assms(2) by simp
  moreover have "(case ax_bondLedgerEntry r of
       Some l \<Rightarrow> aa_action i = AdjustBond \<and> bl_balanceAfterMinorUnits l = rp_bondAvailableMinorUnits (ax_profile r) \<and>
         bl_balanceAfterMinorUnits l = js_add (rp_bondAvailableMinorUnits p) (bl_deltaMinorUnits l)
     | None \<Rightarrow> rp_bondAvailableMinorUnits (ax_profile r) = rp_bondAvailableMinorUnits p) \<and>
    (case ax_reputationEvent r of
       Some e \<Rightarrow> aa_action i = AdjustReputation \<and> re_newReputationBps e = rp_reputationBps (ax_profile r) \<and>
         re_previousReputationBps e = rp_reputationBps p
     | None \<Rightarrow> rp_reputationBps (ax_profile r) = rp_reputationBps p)"
    using assms(2,3)
    by (cases "aa_action i")
      (auto simp: applyDotCastResolverAdminAction_def Let_def rbind_eq_Inr split: if_splits)
  ultimately show ?thesis using p by blast
qed

definition example_profile :: DotCastResolverRegistryProfile where
  "example_profile =
     \<lparr>rp_resolverId = ''x'', rp_identityHash = ''h'', rp_reputationBps = 7500,
      rp_bondAvailableMinorUnits = 0, rp_stakeHeldPoolIds = [], rp_status = ResolverActive,
      rp_displayName = None, rp_metadata = [], rp_createdAt = ''t'', rp_updatedAt = ''t''\<rparr>"

theorem registry_profiles_ok_witness:
  "\<exists>r. applyDotCastResolverAdminAction ref_runtime ''t''
       \<lparr>aa_profile = example_profile, aa_action = AdjustBond, aa_adminId = None,
        aa_bondDeltaMinorUnits = Some (Fin 250), aa_reputationDeltaBps = None, aa_reason = None,
        aa_metadata = None, aa_now = None\<rparr> = Inr r \<and> profile_ok (ax_profile r)"
proof -
  let ?i = "\<lparr>aa_profile = example_profile, aa_action = AdjustBond, aa_adminId = None,
        aa_bondDeltaMinorUnits = Some (Fin 250), aa_reputationDeltaBps = None, aa_reason = None,
        aa_metadata = None, aa_now = None\<rparr>"
  have n: "requireSignedInteger (Some (Fin 250)) l = Inr 250" for l
    using safe_integer_of_int [of 250] by (simp add: requireSignedInteger_def small_safe)
  have j: "js_add 0 250 = 250" by (simp add: js_add_safe small_safe)
  obtain r where r: "applyDotCastResolverAdminAction ref_runtime ''t'' ?i = Inr r"
    by (simp add: applyDotCastResolverAdminAction_def Let_def n j example_profile_def del: requireSignedInteger_Inr)
  have s: "assertBps (Fin 7500) l = Inr 7500" "assertNonNegativeBond (Fin 0) l = Inr 0" for l
    using safe_integer_of_int [of 7500] safe_integer_of_int [of 0]
    by (simp_all add: assertBps_def assertNonNegativeBond_def small_safe)
  have t: "requireNonEmptyInput ''x'' l = Inr ''x''" "requireNonEmptyInput ''h'' l = Inr ''h''" for l
    by (simp_all add: requireNonEmptyInput_def trim_def is_white_def)
  have "buildDotCastResolverRegistryProfile ''t''
      \<lparr>up_resolverId = ''x'', up_identityHash = ''h'', up_displayName = None, up_reputationBps = None,
       up_bondAvailableMinorUnits = None, up_stakeHeldPoolIds = None, up_status = None, up_metadata = None,
       up_now = None\<rparr> = Inr example_profile"
    by (simp add: buildDotCastResolverRegistryProfile_def Let_def s t example_profile_def uniqueStrings_def
        nullableText_def del: assertBps_Inr assertNonNegativeBond_Inr requireNonEmptyInput_Inr)
  then have "reach registry_init (registry_step ref_runtime) example_profile"
    by (intro reach.reach_init) (auto simp: registry_init_def)
  then show ?thesis using registry_profiles_ok [of ref_runtime example_profile ?i] r by auto
qed

end
