(* ===== verification/SettlementTables.thy ===== *)
theory SettlementTables
  imports ResolutionRoute
begin

text \<open>
  The D1 tables behind the USDC ledger and the store classes that read and write them
  (\<open>D1DotCastSettlementRailStore\<close>, \<open>D1DotCastUsdcPoolFundingStore\<close>,
  \<open>D1DotCastUsdcBondFundingStore\<close>; the schema is \<open>migrations/016\<close> to \<open>018\<close>).  The three stores share
  the table of balances and have the same text for \<open>getBalance\<close> and \<open>saveBalance\<close>.

  A table is an association list from its primary key to the record last written, in the order
  of insertion.  A \<open>SELECT\<close> yields the columns of that record and the code's \<open>...FromRow\<close>
  functions read them back.  A statement that breaks a \<open>CHECK\<close>, \<open>PRIMARY KEY\<close> or \<open>UNIQUE\<close>
  constraint throws and changes nothing; \<open>INSERT OR IGNORE\<close> does nothing instead.  Text written
  by \<open>JSON.stringify\<close> is kept as the JSON object it denotes (\<open>SqlJson\<close>): the objects the code
  serialises hold no \<open>NaN\<close> or infinity, so \<open>JSON.parse\<close> returns them unchanged.
\<close>

named_theorems row_simps

subsection \<open>Records\<close>

datatype DotCastSettlementRailMode = RailDisabled | RailDevnet | RailMainnet

datatype DotCastSolanaCluster = Devnet | MainnetBeta

datatype SolanaNetwork = SolanaDevnet | SolanaMainnetBeta

datatype DotCastSettlementSignerMode = SignerMock | SignerExternal | SignerUnknown

datatype DotCastSettlementRailEventType =
    DEPOSIT_OBSERVED | DEPOSIT_CREDITED | DEPOSIT_REORGED | WITHDRAWAL_REQUESTED
  | WITHDRAWAL_SIGNED | WITHDRAWAL_CONFIRMED | WITHDRAWAL_FAILED | RECONCILIATION

datatype DotCastSettlementTransferKind = Deposit | Withdrawal

datatype DotCastSettlementTransferStatus =
  Observed | Credited | Reorged | Requested | Signed | Confirmed | Failed

record DotCastSettlementBalance =
  sb_userId :: string
  sb_availableUsdc :: int
  sb_pendingDepositUsdc :: int
  sb_pendingWithdrawalUsdc :: int
  sb_lockedPoolUsdc :: int
  sb_lockedBondUsdc :: int
  sb_updatedAt :: string

record DotCastSettlementTransfer =
  tf_transferId :: string
  tf_userId :: string
  tf_kind :: DotCastSettlementTransferKind
  tf_status :: DotCastSettlementTransferStatus
  tf_network :: SolanaNetwork
  tf_cluster :: DotCastSolanaCluster
  tf_mint :: string
  tf_amount :: int
  tf_txRef :: "string option"
  tf_destination :: "string option"
  tf_signerMode :: DotCastSettlementSignerMode
  tf_mockSignature :: "string option"
  tf_requestedAt :: string
  tf_updatedAt :: string
  tf_eventJson :: json_object

datatype RailEventStatus = TransferStatus DotCastSettlementTransferStatus | Reconciled

record DotCastSettlementRailEvent =
  tv_eventId :: string
  tv_userId :: string
  tv_eventType :: DotCastSettlementRailEventType
  tv_network :: SolanaNetwork
  tv_cluster :: DotCastSolanaCluster
  tv_mint :: string
  tv_amount :: "int option"
  tv_txRef :: "string option"
  tv_withdrawalId :: "string option"
  tv_status :: "RailEventStatus option"
  tv_reason :: "string option"
  tv_eventJson :: json_object
  tv_createdAt :: string

datatype DotCastUsdcPoolFundingLockStatus = PoolLocked | PoolReleased | PoolSettled | PoolRefunded

datatype DotCastUsdcPoolFundingEventType =
  POOL_ENTRY_RESERVED | POOL_ENTRY_RELEASED | POOL_ENTRY_SETTLED | POOL_ENTRY_REFUNDED

record DotCastUsdcPoolFundingLock =
  pk_lockId :: string
  pk_poolId :: string
  pk_entryId :: string
  pk_userId :: string
  pk_amount :: int
  pk_status :: DotCastUsdcPoolFundingLockStatus
  pk_payout :: "int option"
  pk_createdAt :: string
  pk_updatedAt :: string
  pk_eventJson :: json_object

record DotCastUsdcPoolFundingEvent =
  pv_eventId :: string
  pv_lockId :: string
  pv_poolId :: string
  pv_entryId :: string
  pv_userId :: string
  pv_eventType :: DotCastUsdcPoolFundingEventType
  pv_amount :: int
  pv_payout :: "int option"
  pv_status :: DotCastUsdcPoolFundingLockStatus
  pv_eventJson :: json_object
  pv_createdAt :: string

datatype DotCastUsdcBondPurpose = ResolutionChallenge | ResolverAssignment

datatype DotCastUsdcBondLockStatus = BondLocked | BondReleased | BondSlashed

datatype DotCastUsdcBondEventType = BOND_LOCKED | BOND_RELEASED | BOND_SLASHED

record DotCastUsdcBondLock =
  bk_lockId :: string
  bk_purpose :: DotCastUsdcBondPurpose
  bk_ownerId :: string
  bk_routeId :: "string option"
  bk_poolId :: "string option"
  bk_panelId :: "string option"
  bk_assignmentId :: "string option"
  bk_challengeId :: "string option"
  bk_amount :: int
  bk_status :: DotCastUsdcBondLockStatus
  bk_credit :: int
  bk_createdAt :: string
  bk_updatedAt :: string
  bk_eventJson :: json_object

record DotCastUsdcBondEvent =
  bv_eventId :: string
  bv_lockId :: string
  bv_purpose :: DotCastUsdcBondPurpose
  bv_ownerId :: string
  bv_routeId :: "string option"
  bv_poolId :: "string option"
  bv_panelId :: "string option"
  bv_assignmentId :: "string option"
  bv_challengeId :: "string option"
  bv_eventType :: DotCastUsdcBondEventType
  bv_amount :: int
  bv_credit :: int
  bv_status :: DotCastUsdcBondLockStatus
  bv_reason :: "string option"
  bv_eventJson :: json_object
  bv_createdAt :: string

record settlement_db =
  db_balances :: "(string \<times> DotCastSettlementBalance) list"
  db_transfers :: "(string \<times> DotCastSettlementTransfer) list"
  db_railEvents :: "(string \<times> DotCastSettlementRailEvent) list"
  db_poolLocks :: "(string \<times> DotCastUsdcPoolFundingLock) list"
  db_poolEvents :: "(string \<times> DotCastUsdcPoolFundingEvent) list"
  db_bondLocks :: "(string \<times> DotCastUsdcBondLock) list"
  db_bondEvents :: "(string \<times> DotCastUsdcBondEvent) list"

definition empty_db :: settlement_db where
  "empty_db = \<lparr>db_balances = [], db_transfers = [], db_railEvents = [], db_poolLocks = [],
     db_poolEvents = [], db_bondLocks = [], db_bondEvents = []\<rparr>"

subsection \<open>Rows\<close>

datatype sql_value = SqlNull | SqlInt int | SqlText string | SqlJson json_object

type_synonym row = "(string \<times> sql_value) list"

definition column_of :: "row \<Rightarrow> string \<Rightarrow> sql_value" where
  "column_of row name = (case map_of row name of None \<Rightarrow> SqlNull | Some v \<Rightarrow> v)"

text \<open>\<open>Number(v ?? 0)\<close> of an integer column and \<open>String(v)\<close> of a text column.\<close>

definition sql_number :: "sql_value \<Rightarrow> int" where
  "sql_number v = (case v of SqlInt i \<Rightarrow> i | _ \<Rightarrow> 0)"

definition sql_string :: "sql_value \<Rightarrow> string" where
  "sql_string v =
     (case v of SqlText s \<Rightarrow> s | SqlInt i \<Rightarrow> show_int i | SqlNull \<Rightarrow> ''null'' | SqlJson j \<Rightarrow> ''[object Object]'')"

definition sql_nullableText :: "sql_value \<Rightarrow> string option" where
  "sql_nullableText v = (case v of SqlText s \<Rightarrow> if s = '''' then None else Some s | _ \<Rightarrow> None)"

definition parseJsonObject :: "sql_value \<Rightarrow> json_object" where
  "parseJsonObject v = (case v of SqlJson j \<Rightarrow> j | _ \<Rightarrow> [])"

definition sql_text_opt :: "string option \<Rightarrow> sql_value" where
  "sql_text_opt v = (case v of None \<Rightarrow> SqlNull | Some s \<Rightarrow> SqlText s)"

definition sql_int_opt :: "int option \<Rightarrow> sql_value" where
  "sql_int_opt v = (case v of None \<Rightarrow> SqlNull | Some i \<Rightarrow> SqlInt i)"

lemma sql_simps [simp]:
  "sql_number (SqlInt i) = i" "sql_string (SqlText s) = s" "parseJsonObject (SqlJson j) = j"
  "sql_nullableText (sql_text_opt t) = nullableText t"
  by (auto simp: sql_number_def sql_string_def parseJsonObject_def sql_nullableText_def
      sql_text_opt_def nullableText_def truthy_text_def split: option.splits)

fun show_network :: "SolanaNetwork \<Rightarrow> string" where
  "show_network SolanaDevnet = ''solana-devnet''"
| "show_network SolanaMainnetBeta = ''solana-mainnet-beta''"

fun show_cluster :: "DotCastSolanaCluster \<Rightarrow> string" where
  "show_cluster Devnet = ''devnet''"
| "show_cluster MainnetBeta = ''mainnet-beta''"

fun show_kind :: "DotCastSettlementTransferKind \<Rightarrow> string" where
  "show_kind Deposit = ''deposit''"
| "show_kind Withdrawal = ''withdrawal''"

fun show_transfer_status :: "DotCastSettlementTransferStatus \<Rightarrow> string" where
  "show_transfer_status Observed = ''observed''"
| "show_transfer_status Credited = ''credited''"
| "show_transfer_status Reorged = ''reorged''"
| "show_transfer_status Requested = ''requested''"
| "show_transfer_status Signed = ''signed''"
| "show_transfer_status Confirmed = ''confirmed''"
| "show_transfer_status Failed = ''failed''"

fun show_signer :: "DotCastSettlementSignerMode \<Rightarrow> string" where
  "show_signer SignerMock = ''mock''"
| "show_signer SignerExternal = ''external''"
| "show_signer SignerUnknown = ''unknown''"

definition parseTransferStatus :: "sql_value \<Rightarrow> DotCastSettlementTransferStatus" where
  "parseTransferStatus value =
     (if value = SqlText ''credited'' then Credited
      else if value = SqlText ''reorged'' then Reorged
      else if value = SqlText ''requested'' then Requested
      else if value = SqlText ''signed'' then Signed
      else if value = SqlText ''confirmed'' then Confirmed
      else if value = SqlText ''failed'' then Failed
      else Observed)"

definition parseSignerMode :: "string option \<Rightarrow> DotCastSettlementRailMode \<Rightarrow> DotCastSettlementSignerMode" where
  "parseSignerMode value mode =
     (if value = Some ''mock'' then SignerMock
      else if value = Some ''external'' then SignerExternal
      else if mode = RailDevnet then SignerMock else SignerUnknown)"

definition balanceRow :: "DotCastSettlementBalance \<Rightarrow> row" where
  "balanceRow b =
     [(''user_id'', SqlText (sb_userId b)), (''available_usdc'', SqlInt (sb_availableUsdc b)),
      (''pending_deposit_usdc'', SqlInt (sb_pendingDepositUsdc b)),
      (''pending_withdrawal_usdc'', SqlInt (sb_pendingWithdrawalUsdc b)),
      (''locked_pool_usdc'', SqlInt (sb_lockedPoolUsdc b)),
      (''locked_bond_usdc'', SqlInt (sb_lockedBondUsdc b)), (''updated_at'', SqlText (sb_updatedAt b))]"

definition balanceFromRow :: "row \<Rightarrow> DotCastSettlementBalance" where
  "balanceFromRow row =
     \<lparr>sb_userId = sql_string (column_of row ''user_id''),
      sb_availableUsdc = sql_number (column_of row ''available_usdc''),
      sb_pendingDepositUsdc = sql_number (column_of row ''pending_deposit_usdc''),
      sb_pendingWithdrawalUsdc = sql_number (column_of row ''pending_withdrawal_usdc''),
      sb_lockedPoolUsdc = sql_number (column_of row ''locked_pool_usdc''),
      sb_lockedBondUsdc = sql_number (column_of row ''locked_bond_usdc''),
      sb_updatedAt = sql_string (column_of row ''updated_at'')\<rparr>"

definition transferParams :: "DotCastSettlementTransfer \<Rightarrow> row" where
  "transferParams t =
     [(''transfer_id'', SqlText (tf_transferId t)), (''user_id'', SqlText (tf_userId t)),
      (''kind'', SqlText (show_kind (tf_kind t))), (''status'', SqlText (show_transfer_status (tf_status t))),
      (''network'', SqlText (show_network (tf_network t))), (''cluster'', SqlText (show_cluster (tf_cluster t))),
      (''mint'', SqlText (tf_mint t)), (''amount'', SqlInt (tf_amount t)),
      (''tx_ref'', sql_text_opt (tf_txRef t)), (''destination'', sql_text_opt (tf_destination t)),
      (''signer_mode'', SqlText (show_signer (tf_signerMode t))),
      (''mock_signature'', sql_text_opt (tf_mockSignature t)),
      (''requested_at'', SqlText (tf_requestedAt t)), (''updated_at'', SqlText (tf_updatedAt t)),
      (''event_json'', SqlJson (tf_eventJson t))]"

definition transferFromRow :: "row \<Rightarrow> DotCastSettlementTransfer" where
  "transferFromRow row =
     \<lparr>tf_transferId = sql_string (column_of row ''transfer_id''),
      tf_userId = sql_string (column_of row ''user_id''),
      tf_kind = (if column_of row ''kind'' = SqlText ''withdrawal'' then Withdrawal else Deposit),
      tf_status = parseTransferStatus (column_of row ''status''),
      tf_network = (if column_of row ''network'' = SqlText ''solana-mainnet-beta''
                    then SolanaMainnetBeta else SolanaDevnet),
      tf_cluster = (if column_of row ''cluster'' = SqlText ''mainnet-beta'' then MainnetBeta else Devnet),
      tf_mint = sql_string (column_of row ''mint''),
      tf_amount = sql_number (column_of row ''amount''),
      tf_txRef = sql_nullableText (column_of row ''tx_ref''),
      tf_destination = sql_nullableText (column_of row ''destination''),
      tf_signerMode = parseSignerMode (Some (sql_string (column_of row ''signer_mode''))) RailDisabled,
      tf_mockSignature = sql_nullableText (column_of row ''mock_signature''),
      tf_requestedAt = sql_string (column_of row ''requested_at''),
      tf_updatedAt = sql_string (column_of row ''updated_at''),
      tf_eventJson = parseJsonObject (column_of row ''event_json'')\<rparr>"

fun show_pool_lock_status :: "DotCastUsdcPoolFundingLockStatus \<Rightarrow> string" where
  "show_pool_lock_status PoolLocked = ''locked''"
| "show_pool_lock_status PoolReleased = ''released''"
| "show_pool_lock_status PoolSettled = ''settled''"
| "show_pool_lock_status PoolRefunded = ''refunded''"

definition parseLockStatus :: "sql_value \<Rightarrow> DotCastUsdcPoolFundingLockStatus" where
  "parseLockStatus value =
     (if value = SqlText ''released'' then PoolReleased
      else if value = SqlText ''settled'' then PoolSettled
      else if value = SqlText ''refunded'' then PoolRefunded
      else PoolLocked)"

definition poolFundingLockParams :: "DotCastUsdcPoolFundingLock \<Rightarrow> row" where
  "poolFundingLockParams l =
     [(''lock_id'', SqlText (pk_lockId l)), (''pool_id'', SqlText (pk_poolId l)),
      (''entry_id'', SqlText (pk_entryId l)), (''user_id'', SqlText (pk_userId l)),
      (''amount'', SqlInt (pk_amount l)), (''status'', SqlText (show_pool_lock_status (pk_status l))),
      (''payout'', sql_int_opt (pk_payout l)), (''created_at'', SqlText (pk_createdAt l)),
      (''updated_at'', SqlText (pk_updatedAt l)), (''event_json'', SqlJson (pk_eventJson l))]"

definition poolFundingLockFromRow :: "row \<Rightarrow> DotCastUsdcPoolFundingLock" where
  "poolFundingLockFromRow row =
     \<lparr>pk_lockId = sql_string (column_of row ''lock_id''),
      pk_poolId = sql_string (column_of row ''pool_id''),
      pk_entryId = sql_string (column_of row ''entry_id''),
      pk_userId = sql_string (column_of row ''user_id''),
      pk_amount = sql_number (column_of row ''amount''),
      pk_status = parseLockStatus (column_of row ''status''),
      pk_payout = (if column_of row ''payout'' = SqlNull then None
                   else Some (sql_number (column_of row ''payout''))),
      pk_createdAt = sql_string (column_of row ''created_at''),
      pk_updatedAt = sql_string (column_of row ''updated_at''),
      pk_eventJson = parseJsonObject (column_of row ''event_json'')\<rparr>"

fun show_purpose :: "DotCastUsdcBondPurpose \<Rightarrow> string" where
  "show_purpose ResolutionChallenge = ''resolution_challenge''"
| "show_purpose ResolverAssignment = ''resolver_assignment''"

fun show_bond_status :: "DotCastUsdcBondLockStatus \<Rightarrow> string" where
  "show_bond_status BondLocked = ''locked''"
| "show_bond_status BondReleased = ''released''"
| "show_bond_status BondSlashed = ''slashed''"

definition parsePurpose :: "sql_value \<Rightarrow> DotCastUsdcBondPurpose" where
  "parsePurpose value =
     (if value = SqlText ''resolver_assignment'' then ResolverAssignment else ResolutionChallenge)"

definition parseBondStatus :: "sql_value \<Rightarrow> DotCastUsdcBondLockStatus" where
  "parseBondStatus value =
     (if value = SqlText ''released'' then BondReleased
      else if value = SqlText ''slashed'' then BondSlashed
      else BondLocked)"

definition bondLockParams :: "DotCastUsdcBondLock \<Rightarrow> row" where
  "bondLockParams l =
     [(''lock_id'', SqlText (bk_lockId l)), (''purpose'', SqlText (show_purpose (bk_purpose l))),
      (''owner_id'', SqlText (bk_ownerId l)), (''route_id'', sql_text_opt (bk_routeId l)),
      (''pool_id'', sql_text_opt (bk_poolId l)), (''panel_id'', sql_text_opt (bk_panelId l)),
      (''assignment_id'', sql_text_opt (bk_assignmentId l)),
      (''challenge_id'', sql_text_opt (bk_challengeId l)), (''amount'', SqlInt (bk_amount l)),
      (''status'', SqlText (show_bond_status (bk_status l))), (''credit'', SqlInt (bk_credit l)),
      (''created_at'', SqlText (bk_createdAt l)), (''updated_at'', SqlText (bk_updatedAt l)),
      (''event_json'', SqlJson (bk_eventJson l))]"

definition bondLockFromRow :: "row \<Rightarrow> DotCastUsdcBondLock" where
  "bondLockFromRow row =
     \<lparr>bk_lockId = sql_string (column_of row ''lock_id''),
      bk_purpose = parsePurpose (column_of row ''purpose''),
      bk_ownerId = sql_string (column_of row ''owner_id''),
      bk_routeId = sql_nullableText (column_of row ''route_id''),
      bk_poolId = sql_nullableText (column_of row ''pool_id''),
      bk_panelId = sql_nullableText (column_of row ''panel_id''),
      bk_assignmentId = sql_nullableText (column_of row ''assignment_id''),
      bk_challengeId = sql_nullableText (column_of row ''challenge_id''),
      bk_amount = sql_number (column_of row ''amount''),
      bk_status = parseBondStatus (column_of row ''status''),
      bk_credit = sql_number (column_of row ''credit''),
      bk_createdAt = sql_string (column_of row ''created_at''),
      bk_updatedAt = sql_string (column_of row ''updated_at''),
      bk_eventJson = parseJsonObject (column_of row ''event_json'')\<rparr>"

text \<open>Reading back what was written: only an empty text in a nullable column becomes null.\<close>

lemma parse_show [simp]:
  "parseTransferStatus (SqlText (show_transfer_status st)) = st"
  "parseLockStatus (SqlText (show_pool_lock_status ps)) = ps"
  "parseBondStatus (SqlText (show_bond_status bs)) = bs"
  "parsePurpose (SqlText (show_purpose p)) = p"
  "parseSignerMode (Some (show_signer sm)) RailDisabled = sm"
  by ((cases st; simp add: parseTransferStatus_def), (cases ps; simp add: parseLockStatus_def),
      (cases bs; simp add: parseBondStatus_def), (cases p; simp add: parsePurpose_def),
      (cases sm; simp add: parseSignerMode_def))

lemma show_text [simp]:
  "show_kind k = ''withdrawal'' \<longleftrightarrow> k = Withdrawal"
  "show_network n = ''solana-mainnet-beta'' \<longleftrightarrow> n = SolanaMainnetBeta"
  "show_cluster c = ''mainnet-beta'' \<longleftrightarrow> c = MainnetBeta"
  by ((cases k; simp), (cases n; simp), (cases c; simp))

lemma balance_roundtrip [simp]: "balanceFromRow (balanceRow b) = b"
  by (simp add: balanceFromRow_def balanceRow_def column_of_def)

lemma kind_network_cluster [simp]:
  "(if k = Withdrawal then Withdrawal else Deposit) = k"
  "(if n = SolanaMainnetBeta then SolanaMainnetBeta else SolanaDevnet) = n"
  "(if c = MainnetBeta then MainnetBeta else Devnet) = c"
  by ((cases k; simp), (cases n; simp), (cases c; simp))

lemma transfer_roundtrip [simp]:
  "transferFromRow (transferParams t) =
     t\<lparr>tf_txRef := nullableText (tf_txRef t), tf_destination := nullableText (tf_destination t),
       tf_mockSignature := nullableText (tf_mockSignature t)\<rparr>"
  by (simp add: transferFromRow_def transferParams_def column_of_def)

lemma poolLock_roundtrip [simp]: "poolFundingLockFromRow (poolFundingLockParams l) = l"
  by (cases "pk_payout l") (simp_all add: poolFundingLockFromRow_def poolFundingLockParams_def column_of_def sql_int_opt_def)

lemma bondLock_roundtrip [simp]:
  "bondLockFromRow (bondLockParams l) =
     l\<lparr>bk_routeId := nullableText (bk_routeId l), bk_poolId := nullableText (bk_poolId l),
       bk_panelId := nullableText (bk_panelId l), bk_assignmentId := nullableText (bk_assignmentId l),
       bk_challengeId := nullableText (bk_challengeId l)\<rparr>"
  by (simp add: bondLockFromRow_def bondLockParams_def column_of_def)

text \<open>
  What is written is what is read.  The row of a balance and of a pool lock reads back as that
  balance and that lock; the row of a transfer and of a bond reads back the same but for the optional
  texts, where an empty string comes back as null.
\<close>

theorem settlement_rows_roundtrip:
  "balanceFromRow (balanceRow b) = b \<and> poolFundingLockFromRow (poolFundingLockParams l) = l \<and>
   transferFromRow (transferParams t) =
     t\<lparr>tf_txRef := nullableText (tf_txRef t), tf_destination := nullableText (tf_destination t),
       tf_mockSignature := nullableText (tf_mockSignature t)\<rparr> \<and>
   bondLockFromRow (bondLockParams k) =
     k\<lparr>bk_routeId := nullableText (bk_routeId k), bk_poolId := nullableText (bk_poolId k),
       bk_panelId := nullableText (bk_panelId k), bk_assignmentId := nullableText (bk_assignmentId k),
       bk_challengeId := nullableText (bk_challengeId k)\<rparr>"
  by simp

subsection \<open>Statements\<close>

definition constraint_error :: js_error where
  "constraint_error = Error ''D1_ERROR: constraint failed''"

definition insert_new :: "string \<Rightarrow> 'r \<Rightarrow> (string \<times> 'r) list \<Rightarrow> (string \<times> 'r) list" where
  "insert_new k r tbl = (if map_of tbl k = None then tbl @ [(k, r)] else tbl)"  \<comment> \<open>\<open>INSERT OR IGNORE\<close>\<close>

definition update_row :: "string \<Rightarrow> ('r \<Rightarrow> 'r) \<Rightarrow> (string \<times> 'r) list \<Rightarrow> (string \<times> 'r) list" where
  "update_row k f tbl = (case map_of tbl k of None \<Rightarrow> tbl | Some r \<Rightarrow> AList.update k (f r) tbl)"

definition getBalance :: "settlement_db \<Rightarrow> string \<Rightarrow> DotCastSettlementBalance option" where
  "getBalance db userId = map_option (\<lambda>b. balanceFromRow (balanceRow b)) (map_of (db_balances db) userId)"

definition balance_check :: "DotCastSettlementBalance \<Rightarrow> bool" where
  "balance_check b \<longleftrightarrow> 0 \<le> sb_availableUsdc b \<and> 0 \<le> sb_pendingDepositUsdc b \<and>
     0 \<le> sb_pendingWithdrawalUsdc b \<and> 0 \<le> sb_lockedPoolUsdc b \<and> 0 \<le> sb_lockedBondUsdc b"

definition saveBalance :: "DotCastSettlementBalance \<Rightarrow> (settlement_db, unit) eff" where
  "saveBalance balance =
     (\<lambda>db. if balance_check balance
           then (Inr (), db\<lparr>db_balances := AList.update (sb_userId balance) balance (db_balances db)\<rparr>)
           else (Inl constraint_error, db))"

definition listBalances :: "settlement_db \<Rightarrow> DotCastSettlementBalance list" where
  "listBalances db = map (\<lambda>kv. balanceFromRow (balanceRow (snd kv))) (db_balances db)"

definition getTransfer :: "settlement_db \<Rightarrow> string \<Rightarrow> DotCastSettlementTransfer option" where
  "getTransfer db transferId =
     map_option (\<lambda>t. transferFromRow (transferParams t)) (map_of (db_transfers db) transferId)"

text \<open>
  \<open>WHERE tx_ref = ? ORDER BY updated_at DESC LIMIT 1\<close>; rows with the same \<open>updated_at\<close> are taken in
  the order of insertion.
\<close>

definition getTransferByTxRef :: "settlement_db \<Rightarrow> string \<Rightarrow> DotCastSettlementTransfer option" where
  "getTransferByTxRef db txRef =
     (case sort_by (\<lambda>a b. code_unit_compare (tf_updatedAt b) (tf_updatedAt a))
             (filter (\<lambda>t. tf_txRef t = Some txRef) (map snd (db_transfers db))) of
        [] \<Rightarrow> None
      | t # _ \<Rightarrow> Some (transferFromRow (transferParams t)))"

definition deposit_tx_ref_taken :: "settlement_db \<Rightarrow> DotCastSettlementTransfer \<Rightarrow> bool" where
  "deposit_tx_ref_taken db transfer \<longleftrightarrow>
     tf_kind transfer = Deposit \<and> tf_txRef transfer \<noteq> None \<and>
     list_ex (\<lambda>t. tf_kind t = Deposit \<and> tf_txRef t = tf_txRef transfer) (map snd (db_transfers db))"

definition insertTransfer :: "DotCastSettlementTransfer \<Rightarrow> (settlement_db, unit) eff" where
  "insertTransfer transfer =
     (\<lambda>db. if map_of (db_transfers db) (tf_transferId transfer) \<noteq> None \<or> tf_amount transfer \<le> 0 \<or>
              deposit_tx_ref_taken db transfer
           then (Inl constraint_error, db)
           else (Inr (), db\<lparr>db_transfers := db_transfers db @ [(tf_transferId transfer, transfer)]\<rparr>))"

definition updateTransfer :: "DotCastSettlementTransfer \<Rightarrow> (settlement_db, unit) eff" where
  "updateTransfer transfer =
     ewrite (\<lambda>db. db\<lparr>db_transfers := update_row (tf_transferId transfer)
       (\<lambda>t. t\<lparr>tf_status := tf_status transfer, tf_txRef := tf_txRef transfer,
              tf_destination := tf_destination transfer, tf_signerMode := tf_signerMode transfer,
              tf_mockSignature := tf_mockSignature transfer, tf_updatedAt := tf_updatedAt transfer,
              tf_eventJson := tf_eventJson transfer\<rparr>) (db_transfers db)\<rparr>)"

definition appendEvent :: "DotCastSettlementRailEvent \<Rightarrow> (settlement_db, unit) eff" where
  "appendEvent event =
     ewrite (\<lambda>db. db\<lparr>db_railEvents := insert_new (tv_eventId event) event (db_railEvents db)\<rparr>)"

definition getPoolFundingLock :: "settlement_db \<Rightarrow> string \<Rightarrow> DotCastUsdcPoolFundingLock option" where
  "getPoolFundingLock db lockId =
     map_option (\<lambda>l. poolFundingLockFromRow (poolFundingLockParams l)) (map_of (db_poolLocks db) lockId)"

definition insertPoolFundingLock :: "DotCastUsdcPoolFundingLock \<Rightarrow> (settlement_db, unit) eff" where
  "insertPoolFundingLock lock =
     (\<lambda>db. if map_of (db_poolLocks db) (pk_lockId lock) \<noteq> None \<or> pk_amount lock \<le> 0 \<or>
              list_ex (\<lambda>l. pk_poolId l = pk_poolId lock \<and> pk_entryId l = pk_entryId lock)
                (map snd (db_poolLocks db))
           then (Inl constraint_error, db)
           else (Inr (), db\<lparr>db_poolLocks := db_poolLocks db @ [(pk_lockId lock, lock)]\<rparr>))"

definition updatePoolFundingLock :: "DotCastUsdcPoolFundingLock \<Rightarrow> (settlement_db, unit) eff" where
  "updatePoolFundingLock lock =
     (\<lambda>db. if map_of (db_poolLocks db) (pk_lockId lock) \<noteq> None \<and> (case pk_payout lock of None \<Rightarrow> False | Some p \<Rightarrow> p < 0)
           then (Inl constraint_error, db)
           else (Inr (), db\<lparr>db_poolLocks := update_row (pk_lockId lock)
             (\<lambda>l. l\<lparr>pk_status := pk_status lock, pk_payout := pk_payout lock,
                    pk_updatedAt := pk_updatedAt lock, pk_eventJson := pk_eventJson lock\<rparr>)
             (db_poolLocks db)\<rparr>))"

definition appendPoolFundingEvent :: "DotCastUsdcPoolFundingEvent \<Rightarrow> (settlement_db, unit) eff" where
  "appendPoolFundingEvent event =
     ewrite (\<lambda>db. db\<lparr>db_poolEvents := insert_new (pv_eventId event) event (db_poolEvents db)\<rparr>)"

definition getBondLock :: "settlement_db \<Rightarrow> string \<Rightarrow> DotCastUsdcBondLock option" where
  "getBondLock db lockId =
     map_option (\<lambda>l. bondLockFromRow (bondLockParams l)) (map_of (db_bondLocks db) lockId)"

definition insertBondLock :: "DotCastUsdcBondLock \<Rightarrow> (settlement_db, unit) eff" where
  "insertBondLock lock =
     (\<lambda>db. if map_of (db_bondLocks db) (bk_lockId lock) \<noteq> None \<or> bk_amount lock \<le> 0 \<or> bk_credit lock < 0
           then (Inl constraint_error, db)
           else (Inr (), db\<lparr>db_bondLocks := db_bondLocks db @ [(bk_lockId lock, lock)]\<rparr>))"

definition updateBondLock :: "DotCastUsdcBondLock \<Rightarrow> (settlement_db, unit) eff" where
  "updateBondLock lock =
     (\<lambda>db. if map_of (db_bondLocks db) (bk_lockId lock) \<noteq> None \<and> bk_credit lock < 0
           then (Inl constraint_error, db)
           else (Inr (), db\<lparr>db_bondLocks := update_row (bk_lockId lock)
             (\<lambda>l. l\<lparr>bk_status := bk_status lock, bk_credit := bk_credit lock,
                    bk_updatedAt := bk_updatedAt lock, bk_eventJson := bk_eventJson lock\<rparr>)
             (db_bondLocks db)\<rparr>))"

definition appendBondEvent :: "DotCastUsdcBondEvent \<Rightarrow> (settlement_db, unit) eff" where
  "appendBondEvent event =
     ewrite (\<lambda>db. db\<lparr>db_bondEvents := insert_new (bv_eventId event) event (db_bondEvents db)\<rparr>)"

definition emptySettlementBalance :: "string \<Rightarrow> string \<Rightarrow> DotCastSettlementBalance" where
  "emptySettlementBalance userId now =
     \<lparr>sb_userId = userId, sb_availableUsdc = 0, sb_pendingDepositUsdc = 0,
      sb_pendingWithdrawalUsdc = 0, sb_lockedPoolUsdc = 0, sb_lockedBondUsdc = 0, sb_updatedAt = now\<rparr>"

definition readSettlementBalance :: "settlement_db \<Rightarrow> string \<Rightarrow> string \<Rightarrow> DotCastSettlementBalance" where
  "readSettlementBalance db userId now = orElse (getBalance db userId) (emptySettlementBalance userId now)"

lemma getBalance_eq [simp]: "getBalance db u = map_of (db_balances db) u"
  by (simp add: getBalance_def option.map_ident)

lemma listBalances_eq [simp]: "listBalances db = map snd (db_balances db)"
  by (simp add: listBalances_def)

lemma getPoolFundingLock_eq [simp]: "getPoolFundingLock db k = map_of (db_poolLocks db) k"
  by (simp add: getPoolFundingLock_def option.map_ident)

lemma akeys_insert [simp]: "map_of tbl k = None \<Longrightarrow> akeys tbl \<Longrightarrow> akeys (tbl @ [(k, v)])"
  by (auto simp: akeys_def map_of_eq_None_iff)

lemma map_of_insert [simp]:
  "map_of tbl k = None \<Longrightarrow> map_of (tbl @ [(k, v)]) j = (if j = k then Some v else map_of tbl j)"
  by (auto simp: map_add_def split: option.splits)

declare map_of_append [simp del]

lemma akeys_update_row [simp]: "akeys tbl \<Longrightarrow> akeys (update_row k f tbl)"
  by (simp add: update_row_def split: option.splits)

lemma map_of_update_row: "map_of (update_row k f tbl) j = (if j = k then map_option f (map_of tbl k) else map_of tbl j)"
  by (simp add: update_row_def split: option.splits)

text \<open>
  What the ledger relies on of a store: a saved balance is read back, and no other account is
  touched.
\<close>

locale balance_store =
  fixes get :: "'db \<Rightarrow> string \<Rightarrow> DotCastSettlementBalance option"
    and save :: "DotCastSettlementBalance \<Rightarrow> ('db, unit) eff"
  assumes get_save: "save b db = (Inr u, db') \<Longrightarrow> get db' k = (if k = sb_userId b then Some b else get db k)"
    and save_fail: "save b db = (Inl e, db') \<Longrightarrow> db' = db"
begin

lemma save_other: "save b db = (r, db') \<Longrightarrow> k \<noteq> sb_userId b \<Longrightarrow> get db' k = get db k"
  by (cases r) (auto simp: get_save dest: save_fail)

lemma save_idem:
  assumes "save b db = (Inr u, db')" and "save b db' = (Inr v, db'')"
  shows "get db'' k = get db' k"
  using get_save [OF assms(1)] get_save [OF assms(2)] by simp

end

interpretation d1_balances: balance_store getBalance saveBalance
  by unfold_locales (auto simp: saveBalance_def split: if_splits)

text \<open>
  What the funding operations rely on of a table of locks: a new lock is inserted at most once
  under its identifier, and an update changes the lock of that identifier only.
\<close>

locale lock_store =
  fixes get :: "'db \<Rightarrow> string \<Rightarrow> 'lock option"
    and ins :: "'lock \<Rightarrow> ('db, unit) eff"
    and upd :: "'lock \<Rightarrow> ('db, unit) eff"
    and key :: "'lock \<Rightarrow> string"
  assumes ins_dup: "get db (key l) \<noteq> None \<Longrightarrow> \<exists>e. ins l db = (Inl e, db)"
    and ins_get: "ins l db = (Inr u, db') \<Longrightarrow> get db' (key l) \<noteq> None"
    and ins_other: "ins l db = (r, db') \<Longrightarrow> k \<noteq> key l \<Longrightarrow> get db' k = get db k"
    and upd_other: "upd l db = (r, db') \<Longrightarrow> k \<noteq> key l \<Longrightarrow> get db' k = get db k"
    and upd_none: "upd l db = (r, db') \<Longrightarrow> get db (key l) = None \<Longrightarrow> get db' (key l) = None"
begin

lemma inserted_once: "ins l db = (Inr u, db') \<Longrightarrow> key l' = key l \<Longrightarrow> \<exists>e. ins l' db' = (Inl e, db')"
  using ins_get ins_dup by metis

end

interpretation d1_poolLocks: lock_store getPoolFundingLock insertPoolFundingLock updatePoolFundingLock pk_lockId
  by unfold_locales
    (auto simp: insertPoolFundingLock_def updatePoolFundingLock_def map_of_update_row split: if_splits)

interpretation d1_bondLocks: lock_store getBondLock insertBondLock updateBondLock bk_lockId
  by unfold_locales
    (auto simp: getBondLock_def insertBondLock_def updateBondLock_def map_of_update_row split: if_splits)

end
