(* ===== verification/SettlementRail.thy ===== *)
theory SettlementRail
  imports SettlementTables
begin

text \<open>
  \<open>src/engine/dotcast/SolanaUsdcSettlementRail.ts\<close>: the settings of the USDC rail, the deposits,
  withdrawals and the reconciliation.  An operation is an effect over \<open>settlement_db\<close>; the clock
  (\<open>new Date().toISOString()\<close>) is an argument.
\<close>

subsection \<open>Settings\<close>

record DotCastSettlementRailEnv =
  re_mode :: "string option"
  re_cluster :: "string option"
  re_mint :: "string option"
  re_signerMode :: "string option"
  re_withdrawalsApproved :: "string option"
  re_withdrawalMax :: "string option"
  re_confirmations :: "string option"

record DotCastSettlementRailStatus =
  rail_mode :: DotCastSettlementRailMode
  rail_network :: SolanaNetwork
  rail_cluster :: DotCastSolanaCluster
  rail_mint :: string
  rail_decimals :: int
  rail_signerMode :: DotCastSettlementSignerMode
  rail_depositConfirmationsRequired :: int
  rail_withdrawalMaxMinorUnits :: int
  rail_operatorWithdrawalsApproved :: bool
  rail_ready :: bool
  rail_operational :: bool
  rail_guards :: "string list"

definition DOTCAST_USDC_DECIMALS :: int where
  "DOTCAST_USDC_DECIMALS = 6"

definition DOTCAST_SOLANA_DEVNET_USDC_MINT :: string where
  "DOTCAST_SOLANA_DEVNET_USDC_MINT = ''4zMMC9srt5Ri5X14GAgXhaHii3GnPAEERYPJgZJDncDU''"

definition DOTCAST_SOLANA_MAINNET_USDC_MINT :: string where
  "DOTCAST_SOLANA_MAINNET_USDC_MINT = ''EPjFWdd5AufqSSqeM2qN1xzybapC8G4wEGGkZwyTDt1v''"

definition parseRailMode :: "string option \<Rightarrow> DotCastSettlementRailMode" where
  "parseRailMode value =
     (if value = Some ''devnet'' then RailDevnet
      else if value = Some ''mainnet'' then RailMainnet else RailDisabled)"

definition parseCluster :: "string option \<Rightarrow> DotCastSettlementRailMode \<Rightarrow> DotCastSolanaCluster" where
  "parseCluster value mode =
     (if value = Some ''devnet'' then Devnet
      else if value = Some ''mainnet-beta'' then MainnetBeta
      else if mode = RailMainnet then MainnetBeta else Devnet)"

definition parsePositiveEnvInt :: "string option \<Rightarrow> int \<Rightarrow> int" where
  "parsePositiveEnvInt value fallback =
     (if truthy_text value
      then case safe_integer (js_number (orElse value '''')) of
          Some parsed \<Rightarrow> if parsed > 0 then parsed else fallback
        | None \<Rightarrow> fallback
      else fallback)"

definition railGuards ::
  "DotCastSettlementRailMode \<Rightarrow> DotCastSolanaCluster \<Rightarrow> DotCastSettlementSignerMode \<Rightarrow> string \<Rightarrow> string list" where
  "railGuards mode cluster signerMode mint =
     (if mode = RailDisabled then [''settlement rail disabled''] else []) @
     (if mode = RailDevnet \<and> cluster \<noteq> Devnet then [''devnet mode requires solana devnet cluster''] else []) @
     (if mode = RailDevnet \<and> signerMode \<noteq> SignerMock
      then [''devnet settlement rail requires mock signer mode''] else []) @
     (if mode = RailMainnet
      then [''mainnet withdrawals require operator approval and live signer integration''] else []) @
     (if mint = '''' then [''solana usdc mint is not configured''] else [])"

definition readSolanaUsdcSettlementRailStatus ::
  "'e DotCastSettlementRailEnv_scheme \<Rightarrow> DotCastSettlementRailStatus" where
  "readSolanaUsdcSettlementRailStatus env =
     (let mode = parseRailMode (re_mode env);
          cluster = parseCluster (re_cluster env) mode;
          signerMode = parseSignerMode (re_signerMode env) mode;
          mint = orElse (nullableText (map_option trim (re_mint env)))
            (if cluster = Devnet then DOTCAST_SOLANA_DEVNET_USDC_MINT else DOTCAST_SOLANA_MAINNET_USDC_MINT);
          ready = (mode = RailDevnet \<and> cluster = Devnet \<and> signerMode = SignerMock \<and> mint \<noteq> '''')
      in \<lparr>rail_mode = mode,
          rail_network = (if cluster = Devnet then SolanaDevnet else SolanaMainnetBeta),
          rail_cluster = cluster,
          rail_mint = mint,
          rail_decimals = DOTCAST_USDC_DECIMALS,
          rail_signerMode = signerMode,
          rail_depositConfirmationsRequired = parsePositiveEnvInt (re_confirmations env) 1,
          rail_withdrawalMaxMinorUnits = parsePositiveEnvInt (re_withdrawalMax env) 1000000,
          rail_operatorWithdrawalsApproved = (re_withdrawalsApproved env = Some ''true''),
          rail_ready = ready,
          rail_operational = ready,
          rail_guards = railGuards mode cluster signerMode mint\<rparr>)"

definition assertDevnetMockRail ::
  "'e DotCastSettlementRailEnv_scheme \<Rightarrow> DotCastSettlementRailStatus res" where
  "assertDevnetMockRail env =
     (let rail = readSolanaUsdcSettlementRailStatus env
      in if rail_mode rail = RailDisabled
         then Inl (CodedError ''SETTLEMENT_RAIL_DISABLED'' ''E5 settlement rail is disabled'' 503)
         else if rail_mode rail \<noteq> RailDevnet \<or> rail_cluster rail \<noteq> Devnet
         then Inl (CodedError ''MAINNET_WITHDRAWALS_BLOCKED''
           ''E5 only permits Solana USDC devnet mock-settlement operations; mainnet withdrawals require operator approval'' 403)
         else if rail_signerMode rail \<noteq> SignerMock
         then Inl (CodedError ''MOCK_SIGNER_REQUIRED'' ''E5 devnet settlement rail requires the mock signer'' 503)
         else if \<not> rail_ready rail
         then Inl (CodedError ''SETTLEMENT_RAIL_NOT_READY''
           (case rail_guards rail of g # _ \<Rightarrow> g | [] \<Rightarrow> ''E5 settlement rail is not ready'') 503)
         else Inr rail)"

subsection \<open>Inputs\<close>

definition requireSettlementText :: "string \<Rightarrow> string \<Rightarrow> string res" where
  "requireSettlementText value label =
     (if trim value \<noteq> '''' then Inr (trim value)
      else Inl (CodedError ''INVALID_SETTLEMENT_INPUT'' (label @ '' is required'') 400))"

definition assertPositiveAmount :: "number \<Rightarrow> string \<Rightarrow> int res" where
  "assertPositiveAmount value label =
     (case safe_integer value of
        Some v \<Rightarrow> if v > 0 then Inr v
          else Inl (CodedError ''INVALID_SETTLEMENT_AMOUNT'' (label @ '' must be a positive integer minor-unit amount'') 400)
      | None \<Rightarrow> Inl (CodedError ''INVALID_SETTLEMENT_AMOUNT'' (label @ '' must be a positive integer minor-unit amount'') 400))"

definition assertSettlementInteger :: "number \<Rightarrow> string \<Rightarrow> int res" where
  "assertSettlementInteger value label =
     (case safe_integer value of
        Some v \<Rightarrow> if v \<ge> 0 then Inr v
          else Inl (CodedError ''INVALID_SETTLEMENT_INTEGER'' (label @ '' must be a non-negative integer'') 400)
      | None \<Rightarrow> Inl (CodedError ''INVALID_SETTLEMENT_INTEGER'' (label @ '' must be a non-negative integer'') 400))"

text \<open>\<open>/^[1-9A-HJ-NP-Za-km-z]{32,44}$/\<close>\<close>

definition isBase58 :: "char \<Rightarrow> bool" where
  "isBase58 c \<longleftrightarrow>
     (let n = (of_char c :: nat)
      in 49 \<le> n \<and> n \<le> 57 \<or> 65 \<le> n \<and> n \<le> 72 \<or> 74 \<le> n \<and> n \<le> 78 \<or> 80 \<le> n \<and> n \<le> 90 \<or>
         97 \<le> n \<and> n \<le> 107 \<or> 109 \<le> n \<and> n \<le> 122)"

definition isLikelySolanaAddress :: "string \<Rightarrow> bool" where
  "isLikelySolanaAddress value \<longleftrightarrow> 32 \<le> length value \<and> length value \<le> 44 \<and> list_all isBase58 value"

fun show_hex :: "nat \<Rightarrow> string" where
  "show_hex n =
     (if n < 16 then [''0123456789abcdef'' ! n] else show_hex (n div 16) @ [''0123456789abcdef'' ! (n mod 16)])"

definition padStart :: "nat \<Rightarrow> char \<Rightarrow> string \<Rightarrow> string" where
  "padStart n c s = replicate (n - length s) c @ s"

definition hashText :: "string \<Rightarrow> string" where
  "hashText value =
     padStart 8 (CHR ''0'')
       (show_hex (unat (foldl (\<lambda>hash c. (xor hash (of_nat (of_char c))) * 0x01000193) (0x811c9dc5 :: 32 word) value)))"

definition mockSolanaSignature :: "string \<Rightarrow> string" where
  "mockSolanaSignature seed = ''mock-solana-devnet-'' @ hashText seed"

subsection \<open>Events\<close>

fun show_rail_event :: "DotCastSettlementRailEventType \<Rightarrow> string" where
  "show_rail_event DEPOSIT_OBSERVED = ''DEPOSIT_OBSERVED''"
| "show_rail_event DEPOSIT_CREDITED = ''DEPOSIT_CREDITED''"
| "show_rail_event DEPOSIT_REORGED = ''DEPOSIT_REORGED''"
| "show_rail_event WITHDRAWAL_REQUESTED = ''WITHDRAWAL_REQUESTED''"
| "show_rail_event WITHDRAWAL_SIGNED = ''WITHDRAWAL_SIGNED''"
| "show_rail_event WITHDRAWAL_CONFIRMED = ''WITHDRAWAL_CONFIRMED''"
| "show_rail_event WITHDRAWAL_FAILED = ''WITHDRAWAL_FAILED''"
| "show_rail_event RECONCILIATION = ''RECONCILIATION''"

definition transferEvent ::
  "DotCastSettlementTransfer \<Rightarrow> DotCastSettlementRailEventType \<Rightarrow> DotCastSettlementTransferStatus \<Rightarrow> string
    \<Rightarrow> DotCastSettlementRailEvent" where
  "transferEvent transfer eventType status createdAt =
     \<lparr>tv_eventId = tf_transferId transfer @ '':'' @ to_lower (show_rail_event eventType),
      tv_userId = tf_userId transfer, tv_eventType = eventType, tv_network = tf_network transfer,
      tv_cluster = tf_cluster transfer, tv_mint = tf_mint transfer,
      tv_amount = Some (tf_amount transfer), tv_txRef = tf_txRef transfer,
      tv_withdrawalId = (if tf_kind transfer = Withdrawal then Some (tf_transferId transfer) else None),
      tv_status = Some (TransferStatus status), tv_reason = None,
      tv_eventJson = tf_eventJson transfer, tv_createdAt = createdAt\<rparr>"

subsection \<open>Deposits\<close>

record CreditDevnetDepositInput =
  di_userId :: string
  di_amount :: number
  di_txRef :: string
  di_confirmations :: number
  di_now :: "string option"

record RequestDevnetWithdrawalInput =
  wi_userId :: string
  wi_amount :: number
  wi_destination :: string
  wi_idempotencyKey :: string
  wi_now :: "string option"

record ConfirmMockWithdrawalInput =
  ki_transferId :: string
  ki_txRef :: "string option"
  ki_now :: "string option"

record ReconcileDevnetRailInput =
  ni_custodiedAmount :: number
  ni_now :: "string option"

record rail_result =
  ro_status :: DotCastSettlementTransferStatus
  ro_idempotent :: bool
  ro_transfer :: DotCastSettlementTransfer
  ro_balance :: DotCastSettlementBalance
  ro_rail :: DotCastSettlementRailStatus

record withdrawal_result = rail_result +
  ro_broadcast :: bool

definition depositTransferId :: "string \<Rightarrow> string" where
  "depositTransferId txRef = ''dotcast:e5:deposit:'' @ txRef"

definition withdrawalTransferId :: "string \<Rightarrow> string \<Rightarrow> string" where
  "withdrawalTransferId userId idempotencyKey = ''dotcast:e5:withdrawal:'' @ userId @ '':'' @ idempotencyKey"

definition depositTransfer ::
  "DotCastSettlementRailStatus \<Rightarrow> string \<Rightarrow> int \<Rightarrow> string \<Rightarrow> int \<Rightarrow> string \<Rightarrow> DotCastSettlementTransfer" where
  "depositTransfer rail userId amount txRef confirmations now =
     \<lparr>tf_transferId = depositTransferId txRef, tf_userId = userId, tf_kind = Deposit,
      tf_status = (if confirmations \<ge> rail_depositConfirmationsRequired rail then Credited else Observed),
      tf_network = rail_network rail, tf_cluster = rail_cluster rail, tf_mint = rail_mint rail,
      tf_amount = amount, tf_txRef = Some txRef, tf_destination = None,
      tf_signerMode = rail_signerMode rail, tf_mockSignature = None, tf_requestedAt = now,
      tf_updatedAt = now,
      tf_eventJson =
        [(''source'', JStr ''solana-usdc-devnet''), (''confirmations'', jint confirmations),
         (''requiredConfirmations'', jint (rail_depositConfirmationsRequired rail))]\<rparr>"

definition creditObservedDeposit ::
  "DotCastSettlementRailStatus \<Rightarrow> DotCastSettlementTransfer \<Rightarrow> string \<Rightarrow> int \<Rightarrow> int \<Rightarrow> string
    \<Rightarrow> (settlement_db, rail_result) eff" where
  "creditObservedDeposit rail existing userId amount confirmations now =
     (\<lambda>db. let credited = existing\<lparr>tf_status := Credited, tf_updatedAt := now,
                tf_eventJson := spread (tf_eventJson existing)
                  [(''confirmations'', jint confirmations), (''creditedAt'', JStr now)]\<rparr>;
               balance = readSettlementBalance db userId now;
               nextBalance = balance\<lparr>
                 sb_availableUsdc := js_add (sb_availableUsdc balance) amount,
                 sb_pendingDepositUsdc := max 0 (js_sub (sb_pendingDepositUsdc balance) amount),
                 sb_updatedAt := now\<rparr>
           in ebind (updateTransfer credited) (\<lambda>_.
              ebind (saveBalance nextBalance) (\<lambda>_.
              ebind (appendEvent (transferEvent credited DEPOSIT_CREDITED Credited now)) (\<lambda>_.
                ereturn \<lparr>ro_status = Credited, ro_idempotent = False, ro_transfer = credited,
                         ro_balance = nextBalance, ro_rail = rail\<rparr>))) db)"

definition recordNewDeposit ::
  "DotCastSettlementRailStatus \<Rightarrow> string \<Rightarrow> int \<Rightarrow> string \<Rightarrow> int \<Rightarrow> string \<Rightarrow> (settlement_db, rail_result) eff" where
  "recordNewDeposit rail userId amount txRef confirmations now =
     (\<lambda>db. let transfer = depositTransfer rail userId amount txRef confirmations now;
               balance = readSettlementBalance db userId now;
               nextBalance =
                 (if tf_status transfer = Credited
                  then balance\<lparr>sb_availableUsdc := js_add (sb_availableUsdc balance) amount,
                               sb_updatedAt := now\<rparr>
                  else balance\<lparr>sb_pendingDepositUsdc := js_add (sb_pendingDepositUsdc balance) amount,
                               sb_updatedAt := now\<rparr>)
           in ebind (insertTransfer transfer) (\<lambda>_.
              ebind (saveBalance nextBalance) (\<lambda>_.
              ebind (appendEvent (transferEvent transfer DEPOSIT_OBSERVED Observed now)) (\<lambda>_.
              ebind (if tf_status transfer = Credited
                     then appendEvent (transferEvent transfer DEPOSIT_CREDITED Credited now)
                     else ereturn ()) (\<lambda>_.
                ereturn \<lparr>ro_status = (if tf_status transfer = Credited then Credited else Observed),
                         ro_idempotent = False, ro_transfer = transfer, ro_balance = nextBalance,
                         ro_rail = rail\<rparr>)))) db)"

definition creditDevnetDeposit ::
  "string \<Rightarrow> 'e DotCastSettlementRailEnv_scheme \<Rightarrow> CreditDevnetDepositInput \<Rightarrow> (settlement_db, rail_result) eff" where
  "creditDevnetDeposit clock env input =
     ebind (elift (assertDevnetMockRail env)) (\<lambda>rail.
     let now = orElse (di_now input) clock
     in ebind (elift (requireSettlementText (di_userId input) ''userId'')) (\<lambda>userId.
        ebind (elift (requireSettlementText (di_txRef input) ''txRef'')) (\<lambda>txRef.
        ebind (elift (assertPositiveAmount (di_amount input) ''amount'')) (\<lambda>amount.
        ebind (elift (assertSettlementInteger (di_confirmations input) ''confirmations'')) (\<lambda>confirmations.
        ebind (eread (\<lambda>db. getTransferByTxRef db txRef)) (\<lambda>found.
          case found of
            None \<Rightarrow> recordNewDeposit rail userId amount txRef confirmations now
          | Some existing \<Rightarrow>
              if tf_kind existing \<noteq> Deposit \<or> tf_userId existing \<noteq> userId \<or> tf_amount existing \<noteq> amount
              then ethrow (CodedError ''DEPOSIT_TX_REF_CONFLICT''
                     ''deposit txRef already belongs to a different transfer'' 409)
              else if tf_status existing = Credited
              then eread (\<lambda>db. \<lparr>ro_status = Credited, ro_idempotent = True, ro_transfer = existing,
                                ro_balance = readSettlementBalance db userId now, ro_rail = rail\<rparr>)
              else if confirmations < rail_depositConfirmationsRequired rail
              then eread (\<lambda>db. \<lparr>ro_status = Observed, ro_idempotent = True, ro_transfer = existing,
                                ro_balance = readSettlementBalance db userId now, ro_rail = rail\<rparr>)
              else creditObservedDeposit rail existing userId amount confirmations now))))))"

subsection \<open>Withdrawals\<close>

definition withdrawalTransfer ::
  "DotCastSettlementRailStatus \<Rightarrow> string \<Rightarrow> string \<Rightarrow> int \<Rightarrow> string \<Rightarrow> string \<Rightarrow> DotCastSettlementTransfer" where
  "withdrawalTransfer rail transferId userId amount destination now =
     \<lparr>tf_transferId = transferId, tf_userId = userId, tf_kind = Withdrawal, tf_status = Signed,
      tf_network = rail_network rail, tf_cluster = rail_cluster rail, tf_mint = rail_mint rail,
      tf_amount = amount, tf_txRef = None, tf_destination = Some destination,
      tf_signerMode = SignerMock,
      tf_mockSignature =
        Some (mockSolanaSignature (transferId @ '':'' @ destination @ '':'' @ show_int amount)),
      tf_requestedAt = now, tf_updatedAt = now,
      tf_eventJson =
        [(''source'', JStr ''solana-usdc-devnet''), (''signer'', JStr ''mock''),
         (''broadcast'', JBool False)]\<rparr>"

definition signWithdrawal ::
  "DotCastSettlementRailStatus \<Rightarrow> string \<Rightarrow> string \<Rightarrow> int \<Rightarrow> string \<Rightarrow> string
    \<Rightarrow> (settlement_db, withdrawal_result) eff" where
  "signWithdrawal rail transferId userId amount destination now =
     (\<lambda>db. let balance = readSettlementBalance db userId now
           in if sb_availableUsdc balance < amount
              then (Inl (CodedError ''INSUFFICIENT_USDC_BALANCE''
                      ''available USDC balance is insufficient for this devnet withdrawal'' 409), db)
              else
                let transfer = withdrawalTransfer rail transferId userId amount destination now;
                    nextBalance = balance\<lparr>
                      sb_availableUsdc := js_sub (sb_availableUsdc balance) amount,
                      sb_pendingWithdrawalUsdc := js_add (sb_pendingWithdrawalUsdc balance) amount,
                      sb_updatedAt := now\<rparr>
                in ebind (insertTransfer transfer) (\<lambda>_.
                   ebind (saveBalance nextBalance) (\<lambda>_.
                   ebind (appendEvent (transferEvent transfer WITHDRAWAL_REQUESTED Requested now)) (\<lambda>_.
                   ebind (appendEvent (transferEvent transfer WITHDRAWAL_SIGNED Signed now)) (\<lambda>_.
                     ereturn \<lparr>ro_status = Signed, ro_idempotent = False, ro_transfer = transfer,
                              ro_balance = nextBalance, ro_rail = rail, ro_broadcast = False\<rparr>)))) db)"

definition requestDevnetWithdrawal ::
  "string \<Rightarrow> 'e DotCastSettlementRailEnv_scheme \<Rightarrow> RequestDevnetWithdrawalInput
    \<Rightarrow> (settlement_db, withdrawal_result) eff" where
  "requestDevnetWithdrawal clock env input =
     ebind (elift (assertDevnetMockRail env)) (\<lambda>rail.
     let now = orElse (wi_now input) clock
     in ebind (elift (requireSettlementText (wi_userId input) ''userId'')) (\<lambda>userId.
        ebind (elift (requireSettlementText (wi_destination input) ''destination'')) (\<lambda>destination.
        ebind (elift (requireSettlementText (wi_idempotencyKey input) ''idempotencyKey'')) (\<lambda>idempotencyKey.
        ebind (elift (assertPositiveAmount (wi_amount input) ''amount'')) (\<lambda>amount.
          if \<not> isLikelySolanaAddress destination
          then ethrow (CodedError ''INVALID_SOLANA_DESTINATION'' ''destination must look like a Solana address'' 400)
          else if amount > rail_withdrawalMaxMinorUnits rail
          then ethrow (CodedError ''WITHDRAWAL_AMOUNT_EXCEEDS_DEVNET_LIMIT''
                 ''withdrawal amount exceeds the configured devnet limit'' 400)
          else
            let transferId = withdrawalTransferId userId idempotencyKey
            in ebind (eread (\<lambda>db. getTransfer db transferId)) (\<lambda>found.
                 case found of
                   Some existing \<Rightarrow>
                     eread (\<lambda>db. \<lparr>ro_status = Signed, ro_idempotent = True, ro_transfer = existing,
                                  ro_balance = readSettlementBalance db userId now, ro_rail = rail,
                                  ro_broadcast = False\<rparr>)
                 | None \<Rightarrow> signWithdrawal rail transferId userId amount destination now))))))"

definition confirmationRef :: "string option \<Rightarrow> DotCastSettlementTransfer \<Rightarrow> string" where
  "confirmationRef txRef transfer =
     orElse (nullableText (map_option trim txRef))
       (''mock-confirm:'' @ orElse (tf_mockSignature transfer) (tf_transferId transfer))"

definition confirmTransfer ::
  "DotCastSettlementRailStatus \<Rightarrow> DotCastSettlementTransfer \<Rightarrow> string option \<Rightarrow> string
    \<Rightarrow> (settlement_db, rail_result) eff" where
  "confirmTransfer rail transfer txRef now =
     (\<lambda>db. let confirmed = transfer\<lparr>tf_status := Confirmed,
                tf_txRef := Some (confirmationRef txRef transfer),
                tf_updatedAt := now,
                tf_eventJson := spread (tf_eventJson transfer) [(''confirmedAt'', JStr now)]\<rparr>;
               balance = readSettlementBalance db (tf_userId transfer) now;
               nextBalance = balance\<lparr>
                 sb_pendingWithdrawalUsdc :=
                   max 0 (js_sub (sb_pendingWithdrawalUsdc balance) (tf_amount transfer)),
                 sb_updatedAt := now\<rparr>
           in ebind (updateTransfer confirmed) (\<lambda>_.
              ebind (saveBalance nextBalance) (\<lambda>_.
              ebind (appendEvent (transferEvent confirmed WITHDRAWAL_CONFIRMED Confirmed now)) (\<lambda>_.
                ereturn \<lparr>ro_status = Confirmed, ro_idempotent = False, ro_transfer = confirmed,
                         ro_balance = nextBalance, ro_rail = rail\<rparr>))) db)"

definition confirmMockWithdrawal ::
  "string \<Rightarrow> 'e DotCastSettlementRailEnv_scheme \<Rightarrow> ConfirmMockWithdrawalInput \<Rightarrow> (settlement_db, rail_result) eff" where
  "confirmMockWithdrawal clock env input =
     ebind (elift (assertDevnetMockRail env)) (\<lambda>rail.
     let now = orElse (ki_now input) clock
     in ebind (elift (requireSettlementText (ki_transferId input) ''transferId'')) (\<lambda>transferId.
        ebind (eread (\<lambda>db. getTransfer db transferId)) (\<lambda>found.
          case found of
            None \<Rightarrow> ethrow (CodedError ''WITHDRAWAL_NOT_FOUND'' ''withdrawal was not found'' 404)
          | Some transfer \<Rightarrow>
              if tf_kind transfer \<noteq> Withdrawal
              then ethrow (CodedError ''WITHDRAWAL_NOT_FOUND'' ''withdrawal was not found'' 404)
              else if tf_status transfer = Confirmed
              then eread (\<lambda>db. \<lparr>ro_status = Confirmed, ro_idempotent = True, ro_transfer = transfer,
                                ro_balance = readSettlementBalance db (tf_userId transfer) now,
                                ro_rail = rail\<rparr>)
              else if tf_status transfer \<noteq> Signed \<and> tf_status transfer \<noteq> Requested
              then ethrow (CodedError ''WITHDRAWAL_NOT_CONFIRMABLE''
                     ''withdrawal is not in a confirmable state'' 409)
              else confirmTransfer rail transfer (ki_txRef input) now)))"

subsection \<open>Reconciliation\<close>

record rail_totals =
  to_availableUsdc :: int
  to_pendingDepositUsdc :: int
  to_pendingWithdrawalUsdc :: int
  to_lockedPoolUsdc :: int
  to_lockedBondUsdc :: int

record reconciliation_result = rail_totals +
  rc_rail :: DotCastSettlementRailStatus
  rc_custodiedAmount :: int
  rc_internalLiabilityUsdc :: int
  rc_driftUsdc :: int
  rc_reconciledAt :: string

definition addBalance :: "rail_totals \<Rightarrow> DotCastSettlementBalance \<Rightarrow> rail_totals" where
  "addBalance acc b =
     \<lparr>to_availableUsdc = js_add (to_availableUsdc acc) (sb_availableUsdc b),
      to_pendingDepositUsdc = js_add (to_pendingDepositUsdc acc) (sb_pendingDepositUsdc b),
      to_pendingWithdrawalUsdc = js_add (to_pendingWithdrawalUsdc acc) (sb_pendingWithdrawalUsdc b),
      to_lockedPoolUsdc = js_add (to_lockedPoolUsdc acc) (sb_lockedPoolUsdc b),
      to_lockedBondUsdc = js_add (to_lockedBondUsdc acc) (sb_lockedBondUsdc b)\<rparr>"

definition railTotals :: "DotCastSettlementBalance list \<Rightarrow> rail_totals" where
  "railTotals balances =
     foldl addBalance \<lparr>to_availableUsdc = 0, to_pendingDepositUsdc = 0, to_pendingWithdrawalUsdc = 0,
       to_lockedPoolUsdc = 0, to_lockedBondUsdc = 0\<rparr> balances"

definition totals_json :: "rail_totals \<Rightarrow> json_object" where
  "totals_json t =
     [(''availableUsdc'', jint (to_availableUsdc t)), (''pendingDepositUsdc'', jint (to_pendingDepositUsdc t)),
      (''pendingWithdrawalUsdc'', jint (to_pendingWithdrawalUsdc t)),
      (''lockedPoolUsdc'', jint (to_lockedPoolUsdc t)), (''lockedBondUsdc'', jint (to_lockedBondUsdc t))]"

definition reconcileDevnetSettlementRail ::
  "js_runtime \<Rightarrow> string \<Rightarrow> 'e DotCastSettlementRailEnv_scheme \<Rightarrow> ReconcileDevnetRailInput
    \<Rightarrow> (settlement_db, reconciliation_result) eff" where
  "reconcileDevnetSettlementRail rt clock env input =
     ebind (elift (assertDevnetMockRail env)) (\<lambda>rail.
     let now = orElse (ni_now input) clock
     in ebind (elift (assertSettlementInteger (ni_custodiedAmount input) ''custodiedAmount'')) (\<lambda>custodiedAmount.
        ebind (eread listBalances) (\<lambda>balances.
          let totals = railTotals balances;
              internalLiabilityUsdc =
                js_add (js_add (js_add (to_availableUsdc totals) (to_pendingWithdrawalUsdc totals))
                  (to_lockedPoolUsdc totals)) (to_lockedBondUsdc totals);
              driftUsdc = js_sub custodiedAmount internalLiabilityUsdc
          in ebind (appendEvent
               \<lparr>tv_eventId = ''dotcast:e5:reconciliation:'' @ show_date rt now @ '':'' @
                  show_int custodiedAmount @ '':'' @ show_int internalLiabilityUsdc,
                tv_userId = ''system'', tv_eventType = RECONCILIATION, tv_network = rail_network rail,
                tv_cluster = rail_cluster rail, tv_mint = rail_mint rail,
                tv_amount = Some custodiedAmount, tv_txRef = None, tv_withdrawalId = None,
                tv_status = Some Reconciled,
                tv_reason = Some (if driftUsdc = 0 then ''BALANCED'' else ''DRIFT''),
                tv_eventJson = totals_json totals @
                  [(''internalLiabilityUsdc'', jint internalLiabilityUsdc), (''driftUsdc'', jint driftUsdc)],
                tv_createdAt = now\<rparr>) (\<lambda>_.
               ereturn \<lparr>to_availableUsdc = to_availableUsdc totals,
                 to_pendingDepositUsdc = to_pendingDepositUsdc totals,
                 to_pendingWithdrawalUsdc = to_pendingWithdrawalUsdc totals,
                 to_lockedPoolUsdc = to_lockedPoolUsdc totals, to_lockedBondUsdc = to_lockedBondUsdc totals,
                 rc_rail = rail, rc_custodiedAmount = custodiedAmount,
                 rc_internalLiabilityUsdc = internalLiabilityUsdc, rc_driftUsdc = driftUsdc,
                 rc_reconciledAt = now\<rparr>))))"

end
