(* ===== verification/UsdcPoolFunding.thy ===== *)
theory UsdcPoolFunding
  imports SettlementRail
begin

text \<open>
  \<open>src/engine/dotcast/UsdcPoolFunding.ts\<close>: the USDC behind the entries of a pool.  Placing an entry
  reserves its amount (a lock), a failed placement releases it, and the end of the pool settles or
  refunds every lock.
\<close>

subsection \<open>Settings and inputs\<close>

record DotCastUsdcPoolFundingEnv = DotCastSettlementRailEnv +
  re_usdcPoolsEnabled :: "string option"

record DotCastUsdcPoolFundingStatus =
  uf_enabled :: bool
  uf_ready :: bool
  uf_rail :: DotCastSettlementRailStatus
  uf_guards :: "string list"

definition readUsdcPoolFundingStatus ::
  "'e DotCastUsdcPoolFundingEnv_scheme \<Rightarrow> DotCastUsdcPoolFundingStatus" where
  "readUsdcPoolFundingStatus env =
     (let rail = readSolanaUsdcSettlementRailStatus env;
          enabled = (re_usdcPoolsEnabled env = Some ''true'')
      in \<lparr>uf_enabled = enabled, uf_ready = (enabled \<and> rail_ready rail), uf_rail = rail,
          uf_guards = rail_guards rail @ (if \<not> enabled then [''usdc pools disabled''] else []) @
            (if \<not> rail_ready rail then [''settlement rail not ready''] else [])\<rparr>)"

definition assertUsdcPoolFundingReady ::
  "'e DotCastUsdcPoolFundingEnv_scheme \<Rightarrow> DotCastUsdcPoolFundingStatus res" where
  "assertUsdcPoolFundingReady env =
     (let funding = readUsdcPoolFundingStatus env
      in if \<not> uf_enabled funding
         then Inl (CodedError ''USDC_POOLS_DISABLED''
                ''USDC pools are disabled until the E6 pool funding rail is enabled'' 503)
         else if \<not> rail_ready (uf_rail funding)
         then Inl (CodedError ''USDC_POOL_FUNDING_NOT_READY''
                (case uf_guards funding of g # _ \<Rightarrow> g | [] \<Rightarrow> ''USDC pool funding is not ready'') 503)
         else Inr funding)"

record ReserveUsdcPoolEntryInput =
  ui_poolId :: string
  ui_entryId :: string
  ui_userId :: string
  ui_amount :: number
  ui_now :: "string option"

record ReleaseUsdcPoolEntryReservationInput =
  li_poolId :: string
  li_entryId :: string
  li_userId :: string
  li_reason :: string
  li_now :: "string option"

record ApplyUsdcPoolTerminalSettlementInput =
  ti_snapshot :: DotCastPoolSnapshot
  ti_now :: "string option"

definition requirePoolFundingText :: "string \<Rightarrow> string \<Rightarrow> string res" where
  "requirePoolFundingText value label =
     (if trim value \<noteq> '''' then Inr (trim value)
      else Inl (CodedError ''INVALID_USDC_POOL_FUNDING_INPUT'' (label @ '' is required'') 400))"

definition assertPositiveFunding :: "number \<Rightarrow> string \<Rightarrow> int res" where
  "assertPositiveFunding value label =
     (let bad = CodedError ''INVALID_USDC_POOL_FUNDING_AMOUNT''
            (label @ '' must be a positive integer minor-unit amount'') 400
      in case safe_integer value of Some v \<Rightarrow> if v > 0 then Inr v else Inl bad | None \<Rightarrow> Inl bad)"

definition poolFundingLockId :: "string \<Rightarrow> string \<Rightarrow> string" where
  "poolFundingLockId poolId entryId = ''dotcast:e6:pool-lock:'' @ poolId @ '':'' @ entryId"

definition readPoolFundingBalance :: "settlement_db \<Rightarrow> string \<Rightarrow> string \<Rightarrow> DotCastSettlementBalance" where
  "readPoolFundingBalance db userId now =
     orElse (getBalance db userId)
       \<lparr>sb_userId = userId, sb_availableUsdc = 0, sb_pendingDepositUsdc = 0,
        sb_pendingWithdrawalUsdc = 0, sb_lockedPoolUsdc = 0, sb_lockedBondUsdc = 0, sb_updatedAt = now\<rparr>"

definition requirePoolFundingLock ::
  "settlement_db \<Rightarrow> string \<Rightarrow> string \<Rightarrow> DotCastUsdcPoolFundingLock res" where
  "requirePoolFundingLock db poolId entryId =
     (case getPoolFundingLock db (poolFundingLockId poolId entryId) of
        None \<Rightarrow> Inl (CodedError ''USDC_POOL_LOCK_NOT_FOUND''
                  ''USDC pool funding lock was not found for terminal settlement'' 409)
      | Some lock \<Rightarrow> Inr lock)"

fun show_pool_event :: "DotCastUsdcPoolFundingEventType \<Rightarrow> string" where
  "show_pool_event POOL_ENTRY_RESERVED = ''POOL_ENTRY_RESERVED''"
| "show_pool_event POOL_ENTRY_RELEASED = ''POOL_ENTRY_RELEASED''"
| "show_pool_event POOL_ENTRY_SETTLED = ''POOL_ENTRY_SETTLED''"
| "show_pool_event POOL_ENTRY_REFUNDED = ''POOL_ENTRY_REFUNDED''"

definition poolFundingEvent ::
  "DotCastUsdcPoolFundingLock \<Rightarrow> DotCastUsdcPoolFundingEventType \<Rightarrow> string \<Rightarrow> DotCastUsdcPoolFundingEvent" where
  "poolFundingEvent lock eventType createdAt =
     \<lparr>pv_eventId = pk_lockId lock @ '':'' @ to_lower (show_pool_event eventType),
      pv_lockId = pk_lockId lock, pv_poolId = pk_poolId lock, pv_entryId = pk_entryId lock,
      pv_userId = pk_userId lock, pv_eventType = eventType, pv_amount = pk_amount lock,
      pv_payout = pk_payout lock, pv_status = pk_status lock, pv_eventJson = pk_eventJson lock,
      pv_createdAt = createdAt\<rparr>"

subsection \<open>Reserving and releasing\<close>

record pool_funding_result =
  fo_status :: DotCastUsdcPoolFundingLockStatus
  fo_idempotent :: bool
  fo_lock :: DotCastUsdcPoolFundingLock
  fo_balance :: DotCastSettlementBalance
  fo_funding :: DotCastUsdcPoolFundingStatus

definition lockPoolEntry ::
  "DotCastUsdcPoolFundingStatus \<Rightarrow> string \<Rightarrow> string \<Rightarrow> string \<Rightarrow> int \<Rightarrow> string
    \<Rightarrow> (settlement_db, pool_funding_result) eff" where
  "lockPoolEntry funding poolId entryId userId amount now =
     (\<lambda>db. let balance = readPoolFundingBalance db userId now
           in if sb_availableUsdc balance < amount
              then (Inl (CodedError ''INSUFFICIENT_USDC_BALANCE''
                      ''available USDC balance is insufficient for this pool entry'' 409), db)
              else
                let nextBalance = balance\<lparr>
                      sb_availableUsdc := js_sub (sb_availableUsdc balance) amount,
                      sb_lockedPoolUsdc := js_add (sb_lockedPoolUsdc balance) amount,
                      sb_updatedAt := now\<rparr>;
                    lock = \<lparr>pk_lockId = poolFundingLockId poolId entryId, pk_poolId = poolId,
                      pk_entryId = entryId, pk_userId = userId, pk_amount = amount,
                      pk_status = PoolLocked, pk_payout = None, pk_createdAt = now, pk_updatedAt = now,
                      pk_eventJson =
                        [(''source'', JStr ''dotcast-e6-usdc-pool-funding''),
                         (''rail'', JStr (show_network (rail_network (uf_rail funding))))]\<rparr>
                in ebind (insertPoolFundingLock lock) (\<lambda>_.
                   ebind (saveBalance nextBalance) (\<lambda>_.
                   ebind (appendPoolFundingEvent (poolFundingEvent lock POOL_ENTRY_RESERVED now)) (\<lambda>_.
                     ereturn \<lparr>fo_status = PoolLocked, fo_idempotent = False, fo_lock = lock,
                              fo_balance = nextBalance, fo_funding = funding\<rparr>))) db)"

definition reserveUsdcPoolEntry ::
  "string \<Rightarrow> 'e DotCastUsdcPoolFundingEnv_scheme \<Rightarrow> ReserveUsdcPoolEntryInput
    \<Rightarrow> (settlement_db, pool_funding_result) eff" where
  "reserveUsdcPoolEntry clock env input =
     ebind (elift (assertUsdcPoolFundingReady env)) (\<lambda>funding.
     let now = orElse (ui_now input) clock
     in ebind (elift (requirePoolFundingText (ui_poolId input) ''poolId'')) (\<lambda>poolId.
        ebind (elift (requirePoolFundingText (ui_entryId input) ''entryId'')) (\<lambda>entryId.
        ebind (elift (requirePoolFundingText (ui_userId input) ''userId'')) (\<lambda>userId.
        ebind (elift (assertPositiveFunding (ui_amount input) ''amount'')) (\<lambda>amount.
        ebind (eread (\<lambda>db. getPoolFundingLock db (poolFundingLockId poolId entryId))) (\<lambda>found.
          case found of
            Some existing \<Rightarrow>
              if pk_userId existing \<noteq> userId \<or> pk_amount existing \<noteq> amount
              then ethrow (CodedError ''USDC_POOL_LOCK_CONFLICT''
                     ''USDC pool funding lock already belongs to a different entry'' 409)
              else eread (\<lambda>db. \<lparr>fo_status = PoolLocked, fo_idempotent = True, fo_lock = existing,
                                fo_balance = readPoolFundingBalance db userId now, fo_funding = funding\<rparr>)
          | None \<Rightarrow> lockPoolEntry funding poolId entryId userId amount now))))))"

definition releasePoolLock ::
  "DotCastUsdcPoolFundingStatus \<Rightarrow> DotCastUsdcPoolFundingLock \<Rightarrow> string \<Rightarrow> string \<Rightarrow> string
    \<Rightarrow> (settlement_db, pool_funding_result) eff" where
  "releasePoolLock funding lock userId reason now =
     (\<lambda>db. let balance = readPoolFundingBalance db userId now;
               nextBalance = balance\<lparr>
                 sb_availableUsdc := js_add (sb_availableUsdc balance) (pk_amount lock),
                 sb_lockedPoolUsdc := max 0 (js_sub (sb_lockedPoolUsdc balance) (pk_amount lock)),
                 sb_updatedAt := now\<rparr>;
               released = lock\<lparr>pk_status := PoolReleased, pk_updatedAt := now,
                 pk_eventJson := spread (pk_eventJson lock)
                   [(''releasedAt'', JStr now), (''releaseReason'', JStr reason)]\<rparr>
           in ebind (updatePoolFundingLock released) (\<lambda>_.
              ebind (saveBalance nextBalance) (\<lambda>_.
              ebind (appendPoolFundingEvent (poolFundingEvent released POOL_ENTRY_RELEASED now)) (\<lambda>_.
                ereturn \<lparr>fo_status = PoolReleased, fo_idempotent = False, fo_lock = released,
                         fo_balance = nextBalance, fo_funding = funding\<rparr>))) db)"

definition releaseUsdcPoolEntryReservation ::
  "string \<Rightarrow> 'e DotCastUsdcPoolFundingEnv_scheme \<Rightarrow> ReleaseUsdcPoolEntryReservationInput
    \<Rightarrow> (settlement_db, pool_funding_result) eff" where
  "releaseUsdcPoolEntryReservation clock env input =
     ebind (elift (assertUsdcPoolFundingReady env)) (\<lambda>funding.
     let now = orElse (li_now input) clock
     in ebind (elift (requirePoolFundingText (li_poolId input) ''poolId'')) (\<lambda>poolId.
        ebind (elift (requirePoolFundingText (li_entryId input) ''entryId'')) (\<lambda>entryId.
        ebind (elift (requirePoolFundingText (li_userId input) ''userId'')) (\<lambda>userId.
        ebind (eread (\<lambda>db. requirePoolFundingLock db poolId entryId)) (\<lambda>found.
        ebind (elift found) (\<lambda>lock.
          if pk_userId lock \<noteq> userId
          then ethrow (CodedError ''USDC_POOL_LOCK_CONFLICT''
                 ''USDC pool funding lock user does not match release user'' 409)
          else if pk_status lock \<noteq> PoolLocked
          then eread (\<lambda>db. \<lparr>fo_status = PoolReleased, fo_idempotent = True, fo_lock = lock,
                            fo_balance = readPoolFundingBalance db userId now, fo_funding = funding\<rparr>)
          else releasePoolLock funding lock userId (li_reason input) now))))))"

subsection \<open>The end of a pool\<close>

record terminal_result =
  tr_applied :: nat
  tr_idempotent :: nat
  tr_funding :: DotCastUsdcPoolFundingStatus

definition finalizePoolLock ::
  "DotCastPool \<Rightarrow> string \<Rightarrow> DotCastEntry \<Rightarrow> DotCastUsdcPoolFundingLock \<Rightarrow> (settlement_db, unit) eff" where
  "finalizePoolLock pool now entry lock =
     (\<lambda>db. let payout = (if e_refunded entry then e_amount entry else orElse (e_payout entry) 0);
               status = (if e_refunded entry then PoolRefunded else PoolSettled);
               eventType = (if e_refunded entry then POOL_ENTRY_REFUNDED else POOL_ENTRY_SETTLED);
               balance = readPoolFundingBalance db (e_userId entry) now;
               nextBalance = balance\<lparr>
                 sb_availableUsdc := js_add (sb_availableUsdc balance) payout,
                 sb_lockedPoolUsdc := max 0 (js_sub (sb_lockedPoolUsdc balance) (e_amount entry)),
                 sb_updatedAt := now\<rparr>;
               finalized = lock\<lparr>pk_status := status, pk_payout := Some payout, pk_updatedAt := now,
                 pk_eventJson := spread (pk_eventJson lock)
                   [(''finalizedAt'', JStr now), (''poolStatus'', JStr (show_status (p_status pool))),
                    (''outcome'', jopt (\<lambda>oc. JStr (show_outcome oc)) (p_outcome pool))]\<rparr>
           in ebind (updatePoolFundingLock finalized) (\<lambda>_.
              ebind (saveBalance nextBalance) (\<lambda>_.
                appendPoolFundingEvent (poolFundingEvent finalized eventType now))) db)"

fun settleEntryLocks ::
  "DotCastPool \<Rightarrow> string \<Rightarrow> nat \<Rightarrow> nat \<Rightarrow> DotCastEntry list \<Rightarrow> (settlement_db, nat \<times> nat) eff" where
  "settleEntryLocks pool now applied idempotent [] = ereturn (applied, idempotent)"
| "settleEntryLocks pool now applied idempotent (entry # entries) =
     (if e_funding entry \<noteq> UserFunded then settleEntryLocks pool now applied idempotent entries
      else
        ebind (eread (\<lambda>db. requirePoolFundingLock db (p_id pool) (e_id entry))) (\<lambda>found.
        ebind (elift found) (\<lambda>lock.
          if pk_status lock \<noteq> PoolLocked
          then settleEntryLocks pool now applied (idempotent + 1) entries
          else ebind (finalizePoolLock pool now entry lock) (\<lambda>_.
                 settleEntryLocks pool now (applied + 1) idempotent entries))))"

definition applyUsdcPoolTerminalSettlement ::
  "'e DotCastUsdcPoolFundingEnv_scheme \<Rightarrow> ApplyUsdcPoolTerminalSettlementInput
    \<Rightarrow> (settlement_db, terminal_result) eff" where
  "applyUsdcPoolTerminalSettlement env input =
     ebind (elift (assertUsdcPoolFundingReady env)) (\<lambda>funding.
     let snapshot = ti_snapshot input; now = orElse (ti_now input) (s_updatedAt snapshot)
     in if p_unit (s_pool snapshot) \<noteq> Usdc \<or> \<not> terminal (p_status (s_pool snapshot))
        then ereturn \<lparr>tr_applied = 0, tr_idempotent = 0, tr_funding = funding\<rparr>
        else ebind (settleEntryLocks (s_pool snapshot) now 0 0 (s_entries snapshot)) (\<lambda>(applied, idempotent).
               ereturn \<lparr>tr_applied = applied, tr_idempotent = idempotent, tr_funding = funding\<rparr>))"

end
