(* ===== verification/UsdcBondFunding.thy ===== *)
theory UsdcBondFunding
  imports UsdcPoolFunding
begin

text \<open>
  \<open>src/engine/dotcast/UsdcBondFunding.ts\<close>: the bonds of challengers and resolvers.  A bond is
  locked from the owner's available balance, and later either released, with an optional extra
  credit, or slashed.
\<close>

record ReserveUsdcBondInput =
  gi_lockId :: string
  gi_purpose :: DotCastUsdcBondPurpose
  gi_ownerId :: string
  gi_amount :: number
  gi_routeId :: "string option"
  gi_poolId :: "string option"
  gi_panelId :: "string option"
  gi_assignmentId :: "string option"
  gi_challengeId :: "string option"
  gi_metadata :: "json_object option"
  gi_now :: "string option"

datatype BondAction = ReleaseBond | SlashBond

record SettleUsdcBondInput =
  si_lockId :: string
  si_action :: BondAction
  si_reason :: string
  si_creditMinorUnits :: "number option"
  si_metadata :: "json_object option"
  si_now :: "string option"
  si_allowMissing :: "bool option"

definition requireBondText :: "string \<Rightarrow> string \<Rightarrow> string res" where
  "requireBondText value label =
     (if trim value \<noteq> '''' then Inr (trim value)
      else Inl (CodedError ''INVALID_USDC_BOND_INPUT'' (label @ '' is required'') 400))"

definition assertPositiveBond :: "number \<Rightarrow> string \<Rightarrow> int res" where
  "assertPositiveBond value label =
     (let bad = CodedError ''INVALID_USDC_BOND_AMOUNT''
            (label @ '' must be a positive integer minor-unit amount'') 400
      in case safe_integer value of Some v \<Rightarrow> if v > 0 then Inr v else Inl bad | None \<Rightarrow> Inl bad)"

definition assertNonNegativeAmount :: "number \<Rightarrow> string \<Rightarrow> int res" where
  "assertNonNegativeAmount value label =
     (let bad = CodedError ''INVALID_USDC_BOND_AMOUNT''
            (label @ '' must be a non-negative integer minor-unit amount'') 400
      in case safe_integer value of Some v \<Rightarrow> if v \<ge> 0 then Inr v else Inl bad | None \<Rightarrow> Inl bad)"

definition usdcBondLockId :: "string \<Rightarrow> string \<Rightarrow> string" where
  "usdcBondLockId prefix ident = ''dotcast:e13:usdc-bond:'' @ prefix @ '':'' @ ident"

definition assertBondFundingReady :: "'e DotCastUsdcPoolFundingEnv_scheme \<Rightarrow> unit res" where
  "assertBondFundingReady env =
     (let funding = readUsdcPoolFundingStatus env
      in if \<not> uf_ready funding
         then Inl (CodedError ''USDC_BOND_FUNDING_NOT_READY''
                (case uf_guards funding of g # _ \<Rightarrow> g | [] \<Rightarrow> ''E13 USDC bond funding is not ready'') 503)
         else Inr ())"

definition readBondBalance :: "settlement_db \<Rightarrow> string \<Rightarrow> string \<Rightarrow> DotCastSettlementBalance" where
  "readBondBalance db userId now =
     orElse (getBalance db userId)
       \<lparr>sb_userId = userId, sb_availableUsdc = 0, sb_pendingDepositUsdc = 0,
        sb_pendingWithdrawalUsdc = 0, sb_lockedPoolUsdc = 0, sb_lockedBondUsdc = 0, sb_updatedAt = now\<rparr>"

fun show_bond_event :: "DotCastUsdcBondEventType \<Rightarrow> string" where
  "show_bond_event BOND_LOCKED = ''BOND_LOCKED''"
| "show_bond_event BOND_RELEASED = ''BOND_RELEASED''"
| "show_bond_event BOND_SLASHED = ''BOND_SLASHED''"

definition bondEvent ::
  "DotCastUsdcBondLock \<Rightarrow> DotCastUsdcBondEventType \<Rightarrow> string option \<Rightarrow> string \<Rightarrow> DotCastUsdcBondEvent" where
  "bondEvent lock eventType reason createdAt =
     \<lparr>bv_eventId = bk_lockId lock @ '':'' @ to_lower (show_bond_event eventType),
      bv_lockId = bk_lockId lock, bv_purpose = bk_purpose lock, bv_ownerId = bk_ownerId lock,
      bv_routeId = bk_routeId lock, bv_poolId = bk_poolId lock, bv_panelId = bk_panelId lock,
      bv_assignmentId = bk_assignmentId lock, bv_challengeId = bk_challengeId lock,
      bv_eventType = eventType, bv_amount = bk_amount lock, bv_credit = bk_credit lock,
      bv_status = bk_status lock, bv_reason = reason, bv_eventJson = bk_eventJson lock,
      bv_createdAt = createdAt\<rparr>"

record bond_result =
  bo_status :: "DotCastUsdcBondLockStatus option"  \<comment> \<open>\<open>None\<close> is \<open>"missing"\<close>\<close>
  bo_idempotent :: bool
  bo_lock :: "DotCastUsdcBondLock option"
  bo_balance :: "DotCastSettlementBalance option"

definition lockBond ::
  "ReserveUsdcBondInput \<Rightarrow> string \<Rightarrow> string \<Rightarrow> int \<Rightarrow> string \<Rightarrow> (settlement_db, bond_result) eff" where
  "lockBond input lockId ownerId amount now =
     (\<lambda>db. let balance = readBondBalance db ownerId now
           in if sb_availableUsdc balance < amount
              then (Inl (CodedError ''INSUFFICIENT_USDC_BOND_BALANCE''
                      ''available USDC balance is insufficient for this E13 bond'' 409), db)
              else
                let nextBalance = balance\<lparr>
                      sb_availableUsdc := js_sub (sb_availableUsdc balance) amount,
                      sb_lockedBondUsdc := js_add (sb_lockedBondUsdc balance) amount,
                      sb_updatedAt := now\<rparr>;
                    lock = \<lparr>bk_lockId = lockId, bk_purpose = gi_purpose input, bk_ownerId = ownerId,
                      bk_routeId = gi_routeId input, bk_poolId = gi_poolId input,
                      bk_panelId = gi_panelId input, bk_assignmentId = gi_assignmentId input,
                      bk_challengeId = gi_challengeId input, bk_amount = amount,
                      bk_status = BondLocked, bk_credit = 0, bk_createdAt = now, bk_updatedAt = now,
                      bk_eventJson =
                        [(''source'', JStr ''dotcast-e13-usdc-bond-funding''),
                         (''metadata'', JObj (orElse (gi_metadata input) []))]\<rparr>
                in ebind (insertBondLock lock) (\<lambda>_.
                   ebind (saveBalance nextBalance) (\<lambda>_.
                   ebind (appendBondEvent (bondEvent lock BOND_LOCKED None now)) (\<lambda>_.
                     ereturn \<lparr>bo_status = Some BondLocked, bo_idempotent = False, bo_lock = Some lock,
                              bo_balance = Some nextBalance\<rparr>))) db)"

definition reserveUsdcBond ::
  "string \<Rightarrow> 'e DotCastUsdcPoolFundingEnv_scheme \<Rightarrow> ReserveUsdcBondInput \<Rightarrow> (settlement_db, bond_result) eff" where
  "reserveUsdcBond clock env input =
     ebind (elift (assertBondFundingReady env)) (\<lambda>_.
     let now = orElse (gi_now input) clock
     in ebind (elift (requireBondText (gi_lockId input) ''lockId'')) (\<lambda>lockId.
        ebind (elift (requireBondText (gi_ownerId input) ''ownerId'')) (\<lambda>ownerId.
        ebind (elift (assertPositiveBond (gi_amount input) ''amount'')) (\<lambda>amount.
        ebind (eread (\<lambda>db. getBondLock db lockId)) (\<lambda>found.
          case found of
            Some existing \<Rightarrow>
              if bk_ownerId existing \<noteq> ownerId \<or> bk_purpose existing \<noteq> gi_purpose input \<or>
                 bk_amount existing \<noteq> amount
              then ethrow (CodedError ''USDC_BOND_LOCK_CONFLICT''
                     ''USDC bond lock already belongs to a different owner or amount'' 409)
              else if bk_status existing \<noteq> BondLocked
              then ethrow (CodedError ''USDC_BOND_LOCK_FINALIZED''
                     ''USDC bond lock has already been finalized'' 409)
              else eread (\<lambda>db. \<lparr>bo_status = Some BondLocked, bo_idempotent = True,
                     bo_lock = Some existing, bo_balance = Some (readBondBalance db ownerId now)\<rparr>)
          | None \<Rightarrow> lockBond input lockId ownerId amount now)))))"

definition show_bond_action :: "BondAction \<Rightarrow> string" where
  "show_bond_action a = (case a of ReleaseBond \<Rightarrow> ''release'' | SlashBond \<Rightarrow> ''slash'')"

definition bondNextStatus :: "BondAction \<Rightarrow> DotCastUsdcBondLockStatus" where
  "bondNextStatus action = (if action = ReleaseBond then BondReleased else BondSlashed)"

definition bondCredit :: "BondAction \<Rightarrow> int \<Rightarrow> int \<Rightarrow> int" where
  "bondCredit action amount extraCredit = (if action = ReleaseBond then js_add amount extraCredit else 0)"

definition bondEventType :: "BondAction \<Rightarrow> DotCastUsdcBondEventType" where
  "bondEventType action = (if action = ReleaseBond then BOND_RELEASED else BOND_SLASHED)"

definition finalizeBond ::
  "SettleUsdcBondInput \<Rightarrow> DotCastUsdcBondLock \<Rightarrow> int \<Rightarrow> string \<Rightarrow> (settlement_db, bond_result) eff" where
  "finalizeBond input lock extraCredit now =
     (\<lambda>db. let nextStatus = bondNextStatus (si_action input);
               credit = bondCredit (si_action input) (bk_amount lock) extraCredit;
               balance = readBondBalance db (bk_ownerId lock) now;
               nextBalance = balance\<lparr>
                 sb_availableUsdc := js_add (sb_availableUsdc balance) credit,
                 sb_lockedBondUsdc := max 0 (js_sub (sb_lockedBondUsdc balance) (bk_amount lock)),
                 sb_updatedAt := now\<rparr>;
               finalized = lock\<lparr>bk_status := nextStatus, bk_credit := credit, bk_updatedAt := now,
                 bk_eventJson := spread (bk_eventJson lock)
                   [(''finalizedAt'', JStr now), (''finalAction'', JStr (show_bond_action (si_action input))),
                    (''reason'', JStr (si_reason input)),
                    (''metadata'', JObj (orElse (si_metadata input) []))]\<rparr>
           in ebind (updateBondLock finalized) (\<lambda>_.
              ebind (saveBalance nextBalance) (\<lambda>_.
              ebind (appendBondEvent (bondEvent finalized (bondEventType (si_action input)) (Some (si_reason input)) now)) (\<lambda>_.
                ereturn \<lparr>bo_status = Some nextStatus, bo_idempotent = False, bo_lock = Some finalized,
                         bo_balance = Some nextBalance\<rparr>))) db)"

definition settleUsdcBond ::
  "string \<Rightarrow> 'e DotCastUsdcPoolFundingEnv_scheme \<Rightarrow> SettleUsdcBondInput \<Rightarrow> (settlement_db, bond_result) eff" where
  "settleUsdcBond clock env input =
     ebind (elift (assertBondFundingReady env)) (\<lambda>_.
     let now = orElse (si_now input) clock
     in ebind (elift (requireBondText (si_lockId input) ''lockId'')) (\<lambda>lockId.
        ebind (eread (\<lambda>db. getBondLock db lockId)) (\<lambda>found.
          case found of
            None \<Rightarrow>
              if orElse (si_allowMissing input) False
              then ereturn \<lparr>bo_status = None, bo_idempotent = True, bo_lock = None, bo_balance = None\<rparr>
              else ethrow (CodedError ''USDC_BOND_LOCK_NOT_FOUND''
                     ''USDC bond lock was not found for E13 settlement'' 409)
          | Some lock \<Rightarrow>
              if bk_status lock \<noteq> BondLocked
              then eread (\<lambda>db. \<lparr>bo_status = Some (bk_status lock),
                     bo_idempotent = (bk_status lock = bondNextStatus (si_action input)),
                     bo_lock = Some lock, bo_balance = Some (readBondBalance db (bk_ownerId lock) now)\<rparr>)
              else ebind (elift (assertNonNegativeAmount (orElse (si_creditMinorUnits input) (Fin 0))
                       ''creditMinorUnits'')) (\<lambda>extraCredit.
                     finalizeBond input lock extraCredit now))))"

end
