(* ===== verification/SettlementLedger.thy ===== *)
theory SettlementLedger
  imports UsdcBondFunding
begin

text \<open>
  The ledger as a whole.  The abstract view of the tables is double-entry book-keeping: every
  transfer and every lock \<^emph>\<open>posts\<close> amounts to the five accounts of its owner, and a balance row is
  what was posted (\<open>books\<close>).  Every operation of the rail, of the pool funding and of the bond funding
  changes one record and, by the same amounts, one balance row; so the books stay right under every
  interleaving of operations, thrown errors included.
\<close>

subsection \<open>Accounts and postings\<close>

datatype account = Available | PendingDeposit | PendingWithdrawal | LockedPool | LockedBond

fun account_of :: "account \<Rightarrow> DotCastSettlementBalance \<Rightarrow> int" where
  "account_of Available b = sb_availableUsdc b"
| "account_of PendingDeposit b = sb_pendingDepositUsdc b"
| "account_of PendingWithdrawal b = sb_pendingWithdrawalUsdc b"
| "account_of LockedPool b = sb_lockedPoolUsdc b"
| "account_of LockedBond b = sb_lockedBondUsdc b"

definition bal :: "account \<Rightarrow> settlement_db \<Rightarrow> string \<Rightarrow> int" where
  "bal a db u = (case map_of (db_balances db) u of None \<Rightarrow> 0 | Some b \<Rightarrow> account_of a b)"

fun post_transfer :: "account \<Rightarrow> DotCastSettlementTransfer \<Rightarrow> int" where
  "post_transfer Available t =
     (case tf_kind t of
        Deposit \<Rightarrow> if tf_status t = Credited then tf_amount t else 0
      | Withdrawal \<Rightarrow> - tf_amount t)"
| "post_transfer PendingDeposit t =
     (if tf_kind t = Deposit \<and> tf_status t = Observed then tf_amount t else 0)"
| "post_transfer PendingWithdrawal t =
     (if tf_kind t = Withdrawal \<and> tf_status t = Signed then tf_amount t else 0)"
| "post_transfer LockedPool t = 0"
| "post_transfer LockedBond t = 0"

fun post_pool :: "account \<Rightarrow> DotCastUsdcPoolFundingLock \<Rightarrow> int" where
  "post_pool Available l =
     (case pk_status l of
        PoolLocked \<Rightarrow> - pk_amount l
      | PoolReleased \<Rightarrow> 0
      | _ \<Rightarrow> orElse (pk_payout l) 0 - pk_amount l)"
| "post_pool LockedPool l = (if pk_status l = PoolLocked then pk_amount l else 0)"
| "post_pool _ l = 0"

fun post_bond :: "account \<Rightarrow> DotCastUsdcBondLock \<Rightarrow> int" where
  "post_bond Available l = bk_credit l - bk_amount l"
| "post_bond LockedBond l = (if bk_status l = BondLocked then bk_amount l else 0)"
| "post_bond _ l = 0"

definition usum :: "('r \<Rightarrow> string) \<Rightarrow> ('r \<Rightarrow> int) \<Rightarrow> string \<Rightarrow> (string \<times> 'r) list \<Rightarrow> int" where
  "usum own f u tbl = asum (\<lambda>r. if own r = u then f r else 0) tbl"

definition booked :: "account \<Rightarrow> settlement_db \<Rightarrow> string \<Rightarrow> int" where
  "booked a db u =
     usum tf_userId (post_transfer a) u (db_transfers db) +
     usum pk_userId (post_pool a) u (db_poolLocks db) +
     usum bk_ownerId (post_bond a) u (db_bondLocks db)"

definition transfer_ok :: "string \<Rightarrow> DotCastSettlementTransfer \<Rightarrow> bool" where
  "transfer_ok k t \<longleftrightarrow> tf_transferId t = k \<and> 0 < tf_amount t \<and> nullableText (tf_txRef t) = tf_txRef t \<and>
     nullableText (tf_destination t) = tf_destination t \<and>
     nullableText (tf_mockSignature t) = tf_mockSignature t \<and>
     (case tf_kind t of
        Deposit \<Rightarrow> tf_status t \<in> {Observed, Credited} \<and>
          (\<exists>r. tf_txRef t = Some r \<and> k = depositTransferId r)
      | Withdrawal \<Rightarrow> tf_status t \<in> {Signed, Confirmed} \<and>
          (\<exists>u i. k = withdrawalTransferId u i))"

definition pool_lock_ok :: "string \<Rightarrow> DotCastUsdcPoolFundingLock \<Rightarrow> bool" where
  "pool_lock_ok k l \<longleftrightarrow> pk_lockId l = k \<and> k = poolFundingLockId (pk_poolId l) (pk_entryId l) \<and> 0 < pk_amount l \<and>
     (pk_status l = PoolLocked \<longrightarrow> pk_payout l = None)"

definition bond_lock_ok :: "string \<Rightarrow> DotCastUsdcBondLock \<Rightarrow> bool" where
  "bond_lock_ok k l \<longleftrightarrow> bk_lockId l = k \<and> 0 < bk_amount l \<and> (bk_status l = BondLocked \<longrightarrow> bk_credit l = 0)"

definition balance_ok :: "string \<Rightarrow> DotCastSettlementBalance \<Rightarrow> bool" where
  "balance_ok k b \<longleftrightarrow> sb_userId b = k \<and> balance_check b"

definition table_ok :: "('k \<Rightarrow> 'r \<Rightarrow> bool) \<Rightarrow> ('k \<times> 'r) list \<Rightarrow> bool" where
  "table_ok P tbl \<longleftrightarrow> akeys tbl \<and> (\<forall>k r. map_of tbl k = Some r \<longrightarrow> P k r)"

definition rows_ok :: "settlement_db \<Rightarrow> bool" where
  "rows_ok db \<longleftrightarrow> table_ok balance_ok (db_balances db) \<and> table_ok transfer_ok (db_transfers db) \<and>
     table_ok pool_lock_ok (db_poolLocks db) \<and> table_ok bond_lock_ok (db_bondLocks db)"

definition books :: "settlement_db \<Rightarrow> bool" where
  "books db \<longleftrightarrow> rows_ok db \<and> (\<forall>a u. bal a db u = booked a db u)"

definition holdings :: "settlement_db \<Rightarrow> string \<Rightarrow> int" where
  "holdings db u =
     bal Available db u + bal PendingDeposit db u + bal PendingWithdrawal db u + bal LockedPool db u +
     bal LockedBond db u"

lemma usum_insert [simp]:
  "usum own f u (tbl @ [(k, r)]) = usum own f u tbl + (if own r = u then f r else 0)"
  by (simp add: usum_def asum_def)

lemma usum_update_row:
  assumes "akeys tbl" "map_of tbl k = Some r" "own (g r) = own r"
  shows "usum own f u (update_row k g tbl) = usum own f u tbl + (if own r = u then f (g r) - f r else 0)"
  using assms by (simp add: usum_def update_row_def asum_update)

lemma table_ok_insert [simp]:
  "table_ok P tbl \<Longrightarrow> map_of tbl k = None \<Longrightarrow> P k r \<Longrightarrow> table_ok P (tbl @ [(k, r)])"
  by (auto simp: table_ok_def)

lemma table_ok_update [simp]: "table_ok P tbl \<Longrightarrow> P k r \<Longrightarrow> table_ok P (AList.update k r tbl)"
  by (auto simp: table_ok_def)

lemma table_ok_update_row:
  "table_ok P tbl \<Longrightarrow> (\<And>r. map_of tbl k = Some r \<Longrightarrow> P k (g r)) \<Longrightarrow> table_ok P (update_row k g tbl)"
  by (auto simp: table_ok_def map_of_update_row)

lemma table_okD: "table_ok P tbl \<Longrightarrow> map_of tbl k = Some r \<Longrightarrow> P k r"
  by (simp add: table_ok_def)

lemma table_ok_akeys: "table_ok P tbl \<Longrightarrow> akeys tbl"
  by (simp add: table_ok_def)

lemma books_empty: "books empty_db"
  by (simp add: books_def rows_ok_def table_ok_def empty_db_def bal_def booked_def usum_def)

lemma bal_nonneg: "rows_ok db \<Longrightarrow> 0 \<le> bal a db u"
  by (cases a) (auto simp: bal_def rows_ok_def table_ok_def balance_ok_def balance_check_def split: option.splits)

lemma bal_le_holdings: "rows_ok db \<Longrightarrow> bal a db u \<le> holdings db u"
  using bal_nonneg [of db Available u] bal_nonneg [of db PendingDeposit u]
    bal_nonneg [of db PendingWithdrawal u] bal_nonneg [of db LockedPool u] bal_nonneg [of db LockedBond u]
  by (cases a) (auto simp: holdings_def)

text \<open>The balance an operation reads.\<close>

lemma read_balance_eqs:
  "readPoolFundingBalance db u now = readSettlementBalance db u now"
  "readBondBalance db u now = readSettlementBalance db u now"
  by (simp_all add: readPoolFundingBalance_def readBondBalance_def readSettlementBalance_def emptySettlementBalance_def)

lemma read_account [simp]: "account_of a (readSettlementBalance db u now) = bal a db u"
  by (cases a) (auto simp: readSettlementBalance_def bal_def emptySettlementBalance_def orElse_def split: option.splits)

lemma read_fields [simp]:
  "sb_availableUsdc (readSettlementBalance db u now) = bal Available db u"
  "sb_pendingDepositUsdc (readSettlementBalance db u now) = bal PendingDeposit db u"
  "sb_pendingWithdrawalUsdc (readSettlementBalance db u now) = bal PendingWithdrawal db u"
  "sb_lockedPoolUsdc (readSettlementBalance db u now) = bal LockedPool db u"
  "sb_lockedBondUsdc (readSettlementBalance db u now) = bal LockedBond db u"
  by (auto simp: readSettlementBalance_def bal_def emptySettlementBalance_def orElse_def split: option.splits)

lemma read_user [simp]: "rows_ok db \<Longrightarrow> sb_userId (readSettlementBalance db u now) = u"
  by (auto simp: readSettlementBalance_def emptySettlementBalance_def orElse_def rows_ok_def table_ok_def
      balance_ok_def split: option.splits)

text \<open>
  The one accounting step: a record posts \<open>\<delta>\<close> to the accounts of \<open>u\<close>, and the balance row of \<open>u\<close>
  is saved with its accounts changed by \<open>\<delta>\<close>.
\<close>

lemma books_post:
  assumes books: "books db"
    and tables: "table_ok transfer_ok (db_transfers db')" "table_ok pool_lock_ok (db_poolLocks db')"
      "table_ok bond_lock_ok (db_bondLocks db')"
    and saved: "db_balances db' = AList.update u b (db_balances db)" "balance_ok u b"
    and accounts: "\<And>a. account_of a b = bal a db u + d a"
    and posted: "\<And>a v. booked a db' v = booked a db v + (if v = u then d a else 0)"
  shows "books db'"
  using assms by (auto simp: books_def rows_ok_def bal_def)

lemma books_events [simp]:
  "books (db\<lparr>db_railEvents := re\<rparr>) = books db" "books (db\<lparr>db_poolEvents := pe\<rparr>) = books db"
  "books (db\<lparr>db_bondEvents := be\<rparr>) = books db"
  by (auto simp: books_def rows_ok_def bal_def booked_def)

lemma holdings_events [simp]:
  "holdings (db\<lparr>db_railEvents := re\<rparr>) u = holdings db u" "holdings (db\<lparr>db_poolEvents := pe\<rparr>) u = holdings db u"
  "holdings (db\<lparr>db_bondEvents := be\<rparr>) u = holdings db u"
  by (auto simp: holdings_def bal_def)

subsection \<open>Exact arithmetic on balances\<close>

definition moved :: "settlement_db \<Rightarrow> string \<Rightarrow> (account \<Rightarrow> int) \<Rightarrow> settlement_db \<Rightarrow> bool" where
  "moved db u d db' \<longleftrightarrow> (\<forall>a v. bal a db' v = bal a db v + (if v = u then d a else 0))"

lemma books_rows: "books db \<Longrightarrow> rows_ok db"
  by (simp add: books_def)

lemma js_give:
  assumes "rows_ok db" "holdings db u + x \<le> max_safe_integer" "0 \<le> x"
  shows "js_add (bal a db u) x = bal a db u + x"
  using assms bal_nonneg [of db a u] bal_le_holdings [of db a u]
  by (intro js_add_safe) (simp add: is_safe_integer_def)

lemma js_take:
  assumes "rows_ok db" "holdings db u \<le> max_safe_integer" "0 \<le> x" "x \<le> bal a db u"
  shows "js_sub (bal a db u) x = bal a db u - x"
  using assms bal_nonneg [of db a u] bal_le_holdings [of db a u]
  by (intro js_sub_safe) (simp add: is_safe_integer_def)

lemma two_accounts:
  assumes "rows_ok db" "a \<noteq> b"
  shows "bal a db u + bal b db u \<le> holdings db u"
  using assms(2) bal_nonneg [OF assms(1), of Available u] bal_nonneg [OF assms(1), of PendingDeposit u]
    bal_nonneg [OF assms(1), of PendingWithdrawal u] bal_nonneg [OF assms(1), of LockedPool u]
    bal_nonneg [OF assms(1), of LockedBond u]
  by (cases a; cases b) (simp_all add: holdings_def)

lemma js_move:
  assumes "rows_ok db" "holdings db u \<le> max_safe_integer" "0 \<le> x" "x \<le> bal a db u" "a \<noteq> b"
  shows "js_add (bal b db u) x = bal b db u + x"
  using assms two_accounts [OF assms(1,5), of u] bal_nonneg [of db b u]
  by (intro js_add_safe) (simp add: is_safe_integer_def)

lemma usum_ge:
  assumes "map_of tbl k = Some r" and "\<And>k r. map_of tbl k = Some r \<Longrightarrow> 0 \<le> f r" and "akeys tbl"
  shows "f r \<le> usum own f (own r) tbl"
proof -
  have "\<forall>kv \<in> set tbl. 0 \<le> (if own (snd kv) = own r then f (snd kv) else 0)"
    using assms(2,3) by (auto simp: akeys_def)
  then show ?thesis using asum_ge [OF assms(1)] by (fastforce simp: usum_def)
qed

lemma usum_zero [simp]: "usum own (\<lambda>_. 0) u tbl = 0"
  by (simp add: usum_def asum_def)

lemma booked_locked:
  "booked LockedPool db u = usum pk_userId (post_pool LockedPool) u (db_poolLocks db)"
  "booked LockedBond db u = usum bk_ownerId (post_bond LockedBond) u (db_bondLocks db)"
  "booked PendingDeposit db u = usum tf_userId (post_transfer PendingDeposit) u (db_transfers db)"
  "booked PendingWithdrawal db u = usum tf_userId (post_transfer PendingWithdrawal) u (db_transfers db)"
  by (simp_all add: booked_def usum_def asum_def cong: if_cong)

lemma held_pool:
  assumes "books db" "map_of (db_poolLocks db) k = Some l" "pk_status l = PoolLocked"
  shows "pk_amount l \<le> bal LockedPool db (pk_userId l)"
proof -
  have t: "table_ok pool_lock_ok (db_poolLocks db)" using assms(1) by (simp add: books_def rows_ok_def)
  have "post_pool LockedPool l \<le> usum pk_userId (post_pool LockedPool) (pk_userId l) (db_poolLocks db)"
    using assms(2) t by (intro usum_ge) (force simp: pool_lock_ok_def table_ok_def)+
  then show ?thesis using assms by (simp add: books_def booked_locked)
qed

lemma held_bond:
  assumes "books db" "map_of (db_bondLocks db) k = Some l" "bk_status l = BondLocked"
  shows "bk_amount l \<le> bal LockedBond db (bk_ownerId l)"
proof -
  have t: "table_ok bond_lock_ok (db_bondLocks db)" using assms(1) by (simp add: books_def rows_ok_def)
  have "post_bond LockedBond l \<le> usum bk_ownerId (post_bond LockedBond) (bk_ownerId l) (db_bondLocks db)"
    using assms(2) t by (intro usum_ge) (force simp: bond_lock_ok_def table_ok_def)+
  then show ?thesis using assms by (simp add: books_def booked_locked)
qed

lemma held_transfer:
  assumes "books db" "map_of (db_transfers db) k = Some t" "a = PendingDeposit \<or> a = PendingWithdrawal"
  shows "post_transfer a t \<le> bal a db (tf_userId t)"
proof -
  have tk: "table_ok transfer_ok (db_transfers db)" using assms(1) by (simp add: books_def rows_ok_def)
  have "post_transfer a t \<le> usum tf_userId (post_transfer a) (tf_userId t) (db_transfers db)"
    using assms(2,3) tk by (intro usum_ge) (force simp: transfer_ok_def table_ok_def)+
  moreover have "bal a db (tf_userId t) = booked a db (tf_userId t)" using assms(1) by (simp add: books_def)
  ultimately show ?thesis using assms(3) booked_locked(3,4) by auto
qed

lemma moved_update:
  assumes "db_balances db' = AList.update u b (db_balances db)"
    and "\<And>a. account_of a b = bal a db u + d a"
  shows "moved db u d db'"
  using assms by (auto simp: moved_def bal_def)

lemma account_ext: "(\<forall>a. P a) \<longleftrightarrow> P Available \<and> P PendingDeposit \<and> P PendingWithdrawal \<and> P LockedPool \<and> P LockedBond"
  by (metis account.exhaust)

text \<open>The statements, where their constraints hold.\<close>

lemma saveBalance_ok:
  "balance_ok u b \<Longrightarrow> saveBalance b db = (Inr (), db\<lparr>db_balances := AList.update u b (db_balances db)\<rparr>)"
  by (auto simp: saveBalance_def balance_ok_def)

subsection \<open>Pool locks\<close>

definition reserve_post :: "int \<Rightarrow> account \<Rightarrow> int" where
  "reserve_post x a = (case a of Available \<Rightarrow> - x | LockedPool \<Rightarrow> x | _ \<Rightarrow> 0)"

definition finish_post :: "int \<Rightarrow> int \<Rightarrow> account \<Rightarrow> int" where
  "finish_post x payout a = (case a of Available \<Rightarrow> payout | LockedPool \<Rightarrow> - x | _ \<Rightarrow> 0)"

lemma lockPoolEntry_ok:
  assumes books: "books db" and room: "holdings db u \<le> max_safe_integer"
    and x: "0 < x" "x \<le> bal Available db u"
    and fresh: "map_of (db_poolLocks db) (poolFundingLockId pid eid) = None"
      "\<not> list_ex (\<lambda>l. pk_poolId l = pid \<and> pk_entryId l = eid) (map snd (db_poolLocks db))"
  shows "\<exists>r db'. lockPoolEntry fu pid eid u x now db = (Inr r, db') \<and> books db' \<and>
    moved db u (reserve_post x) db' \<and> fo_status r = PoolLocked \<and> \<not> fo_idempotent r \<and>
    pk_userId (fo_lock r) = u \<and> pk_amount (fo_lock r) = x \<and> pk_status (fo_lock r) = PoolLocked \<and>
    db_poolLocks db' = db_poolLocks db @ [(poolFundingLockId pid eid, fo_lock r)] \<and>
    db_transfers db' = db_transfers db \<and> db_bondLocks db' = db_bondLocks db"
proof -
  have rows: "rows_ok db" using books by (rule books_rows)
  define l where "l = \<lparr>pk_lockId = poolFundingLockId pid eid, pk_poolId = pid,
    pk_entryId = eid, pk_userId = u, pk_amount = x, pk_status = PoolLocked, pk_payout = None,
    pk_createdAt = now, pk_updatedAt = now,
    pk_eventJson = [(''source'', JStr ''dotcast-e6-usdc-pool-funding''),
      (''rail'', JStr (show_network (rail_network (uf_rail fu))))]\<rparr>"
  define b where "b = (readSettlementBalance db u now)\<lparr>sb_availableUsdc := bal Available db u - x,
    sb_lockedPoolUsdc := bal LockedPool db u + x, sb_updatedAt := now\<rparr>"
  have acc: "account_of a b = bal a db u + reserve_post x a" for a
    by (cases a) (simp_all add: b_def reserve_post_def)
  have bok: "balance_ok u b"
    using x rows bal_nonneg [OF rows] by (simp add: balance_ok_def balance_check_def b_def)
  define db1 where "db1 = db\<lparr>db_poolLocks := db_poolLocks db @ [(poolFundingLockId pid eid, l)],
    db_balances := AList.update u b (db_balances db)\<rparr>"
  have "books db1"
  proof (rule books_post [OF books _ _ _ _ bok acc])
    show "booked a db1 v = booked a db v + (if v = u then reserve_post x a else 0)" for a v
      by (cases a) (auto simp: db1_def booked_def l_def reserve_post_def)
  qed (use rows fresh x in \<open>auto simp: db1_def rows_ok_def pool_lock_ok_def l_def\<close>)
  moreover have "moved db u (reserve_post x) db1" by (rule moved_update [OF _ acc]) (simp add: db1_def)
  moreover have ins: "insertPoolFundingLock l db =
      (Inr (), db\<lparr>db_poolLocks := db_poolLocks db @ [(poolFundingLockId pid eid, l)]\<rparr>)"
    using fresh x by (simp add: insertPoolFundingLock_def l_def)
  moreover have "lockPoolEntry fu pid eid u x now db =
      (Inr \<lparr>fo_status = PoolLocked, fo_idempotent = False, fo_lock = l, fo_balance = b, fo_funding = fu\<rparr>,
       db1\<lparr>db_poolEvents := insert_new (pv_eventId (poolFundingEvent l POOL_ENTRY_RESERVED now))
         (poolFundingEvent l POOL_ENTRY_RESERVED now) (db_poolEvents db)\<rparr>)"
    using x js_take [OF rows room, of x Available] js_move [OF rows room, of x Available LockedPool]
    by (simp add: lockPoolEntry_def read_balance_eqs Let_def ins saveBalance_ok [OF bok]
        appendPoolFundingEvent_def db1_def flip: l_def b_def)
  ultimately show ?thesis by (auto simp: moved_def bal_def db1_def l_def)
qed

definition returned :: "DotCastUsdcPoolFundingLock \<Rightarrow> int" where
  "returned l = (case pk_status l of PoolLocked \<Rightarrow> 0 | PoolReleased \<Rightarrow> pk_amount l | _ \<Rightarrow> orElse (pk_payout l) 0)"

lemma usum_update:
  assumes "akeys tbl" "map_of tbl k = Some r" "own r' = own r"
  shows "usum own f u (AList.update k r' tbl) = usum own f u tbl + (if own r = u then f r' - f r else 0)"
  using assms by (simp add: usum_def asum_update)

text \<open>
  The two writes that end a lock: \<open>finished_lock\<close> is the lock with another status, and \<open>credited\<close>
  the balance row with the amount taken out of the locked account and the return made available.
\<close>

definition finished_lock :: "DotCastUsdcPoolFundingLock \<Rightarrow> DotCastUsdcPoolFundingLock \<Rightarrow> bool" where
  "finished_lock l l' \<longleftrightarrow>
     pk_lockId l' = pk_lockId l \<and> pk_poolId l' = pk_poolId l \<and> pk_entryId l' = pk_entryId l \<and>
     pk_userId l' = pk_userId l \<and> pk_amount l' = pk_amount l \<and> pk_createdAt l' = pk_createdAt l \<and>
     pk_status l' \<noteq> PoolLocked \<and> 0 \<le> returned l' \<and> (\<forall>p. pk_payout l' = Some p \<longrightarrow> 0 \<le> p)"

lemma finished_lock_eq:
  "finished_lock l l' \<Longrightarrow>
   l\<lparr>pk_status := pk_status l', pk_payout := pk_payout l', pk_updatedAt := pk_updatedAt l',
     pk_eventJson := pk_eventJson l'\<rparr> = l'"
  by (simp add: finished_lock_def)

definition credited :: "settlement_db \<Rightarrow> string \<Rightarrow> int \<Rightarrow> int \<Rightarrow> string \<Rightarrow> DotCastSettlementBalance" where
  "credited db u x y now = (readSettlementBalance db u now)\<lparr>
     sb_availableUsdc := js_add (bal Available db u) y,
     sb_lockedPoolUsdc := max 0 (js_sub (bal LockedPool db u) x), sb_updatedAt := now\<rparr>"

lemma pool_finish_ok:
  fixes db l l' now
  defines "u \<equiv> pk_userId l"
  defines "b \<equiv> credited db u (pk_amount l) (returned l') now"
  defines "dbA \<equiv> db\<lparr>db_poolLocks := AList.update (pk_lockId l) l' (db_poolLocks db)\<rparr>"
  defines "dbB \<equiv> dbA\<lparr>db_balances := AList.update u b (db_balances db)\<rparr>"
  assumes books: "books db"
    and room: "holdings db u \<le> max_safe_integer" "bal Available db u + returned l' \<le> max_safe_integer"
    and l: "map_of (db_poolLocks db) (pk_lockId l) = Some l" "pk_status l = PoolLocked"
    and l': "finished_lock l l'"
  shows "updatePoolFundingLock l' db = (Inr (), dbA)" "saveBalance b dbA = (Inr (), dbB)"
    "books dbB" "moved db u (finish_post (pk_amount l) (returned l')) dbB"
proof -
  let ?x = "pk_amount l" and ?y = "returned l'"
  have rows: "rows_ok db" using books by (rule books_rows)
  have x: "0 < ?x" using rows l(1) by (auto simp: rows_ok_def table_ok_def pool_lock_ok_def)
  have held: "?x \<le> bal LockedPool db u" using held_pool [OF books l] by (simp add: u_def)
  have keep: "pk_lockId l' = pk_lockId l" "pk_userId l' = u" "pk_amount l' = ?x" "pk_status l' \<noteq> PoolLocked"
    "0 \<le> ?y" "\<not> (\<exists>p. pk_payout l' = Some p \<and> p < 0)"
    using l' by (force simp: finished_lock_def u_def)+
  have b: "sb_availableUsdc b = bal Available db u + ?y" "sb_lockedPoolUsdc b = bal LockedPool db u - ?x"
    using room keep(5) x held js_take [OF rows room(1), of ?x LockedPool] bal_nonneg [OF rows, of Available u]
    by (simp_all add: b_def credited_def js_add_safe is_safe_integer_def)
  have acc: "account_of a b = bal a db u + finish_post ?x ?y a" for a
    by (cases a) (simp_all add: b finish_post_def, simp_all add: b_def credited_def)
  have bok: "balance_ok u b"
    using b held rows bal_nonneg [OF rows] keep(5) by (simp add: balance_ok_def balance_check_def) (simp add: b_def credited_def rows)
  show "updatePoolFundingLock l' db = (Inr (), dbA)"
    using l(1) keep finished_lock_eq [OF l'] by (simp add: updatePoolFundingLock_def dbA_def update_row_def split: option.split)
  show "saveBalance b dbA = (Inr (), dbB)" using saveBalance_ok [OF bok] by (simp add: dbB_def dbA_def)
  show "moved db u (finish_post ?x ?y) dbB" by (rule moved_update [OF _ acc]) (simp add: dbB_def dbA_def)
  have t: "table_ok pool_lock_ok (db_poolLocks db)" using rows by (simp add: rows_ok_def)
  show "books dbB"
  proof (rule books_post [OF books _ _ _ _ bok acc])
    show "table_ok pool_lock_ok (db_poolLocks dbB)"
      using t x keep l' table_okD [OF t l(1)] by (simp add: dbB_def dbA_def pool_lock_ok_def finished_lock_def)
    show "booked a dbB v = booked a db v + (if v = u then finish_post ?x ?y a else 0)" for a v
      using usum_update [OF table_ok_akeys [OF t] l(1), of pk_userId l' "post_pool a" v] keep l(2)
      by (cases a; cases "pk_status l'") (auto simp: booked_def finish_post_def returned_def u_def dbB_def dbA_def)
  qed (use rows in \<open>auto simp: rows_ok_def dbB_def dbA_def\<close>)
qed

lemma releasePoolLock_ok:
  assumes books: "books db" and room: "holdings db (pk_userId l) \<le> max_safe_integer"
    and l: "map_of (db_poolLocks db) (pk_lockId l) = Some l" "pk_status l = PoolLocked" "pk_payout l = None"
  shows "\<exists>r db'. releasePoolLock fu l (pk_userId l) reason now db = (Inr r, db') \<and> books db' \<and>
    moved db (pk_userId l) (finish_post (pk_amount l) (pk_amount l)) db' \<and>
    fo_status r = PoolReleased \<and> \<not> fo_idempotent r \<and> pk_status (fo_lock r) = PoolReleased \<and> finished_lock l (fo_lock r) \<and>
    db_poolLocks db' = AList.update (pk_lockId l) (fo_lock r) (db_poolLocks db) \<and>
    db_transfers db' = db_transfers db \<and> db_bondLocks db' = db_bondLocks db"
proof -
  define l' where "l' = l\<lparr>pk_status := PoolReleased, pk_updatedAt := now,
    pk_eventJson := spread (pk_eventJson l) [(''releasedAt'', JStr now), (''releaseReason'', JStr reason)]\<rparr>"
  have "0 < pk_amount l"
    using books_rows [OF books] l(1) by (auto simp: rows_ok_def table_ok_def pool_lock_ok_def)
  moreover have ret: "returned l' = pk_amount l" by (simp add: returned_def l'_def)
  ultimately have fin: "finished_lock l l'" using l(3) by (simp add: finished_lock_def) (simp add: l'_def)
  have room': "bal Available db (pk_userId l) + returned l' \<le> max_safe_integer"
    using two_accounts [OF books_rows [OF books], of Available LockedPool "pk_userId l"] held_pool [OF books l(1,2)] room
    by (simp add: ret)
  note run = pool_finish_ok(1) [OF books room room' l(1,2) fin]
    pool_finish_ok(2-4) [where now = now, OF books room room' l(1,2) fin]
  show ?thesis
    using run(3,4) run(1,2) fin
    by (simp add: releasePoolLock_def read_balance_eqs Let_def appendPoolFundingEvent_def ret credited_def
        flip: l'_def) (auto simp: moved_def bal_def l'_def)
qed

subsection \<open>The end of a pool\<close>

definition entry_return :: "DotCastEntry \<Rightarrow> int" where
  "entry_return e = (if e_refunded e then e_amount e else orElse (e_payout e) 0)"

lemma poolFundingLockId_inj [simp]: "poolFundingLockId p i = poolFundingLockId p j \<longleftrightarrow> i = j"
  by (simp add: poolFundingLockId_def)

abbreviation entry_lock_id :: "DotCastPool \<Rightarrow> DotCastEntry \<Rightarrow> string" where
  "entry_lock_id pool e \<equiv> poolFundingLockId (p_id pool) (e_id e)"

definition entry_funded :: "settlement_db \<Rightarrow> DotCastPool \<Rightarrow> DotCastEntry \<Rightarrow> bool" where
  "entry_funded db pool e \<longleftrightarrow> e_funding e = UserFunded \<longrightarrow>
     0 \<le> entry_return e \<and>
     (\<exists>l. map_of (db_poolLocks db) (entry_lock_id pool e) = Some l \<and>
          pk_userId l = e_userId e \<and> pk_amount l = e_amount e)"

definition entry_open :: "settlement_db \<Rightarrow> DotCastPool \<Rightarrow> DotCastEntry \<Rightarrow> bool" where
  "entry_open db pool e \<longleftrightarrow> e_funding e = UserFunded \<and>
     (\<exists>l. map_of (db_poolLocks db) (entry_lock_id pool e) = Some l \<and> pk_status l = PoolLocked)"

definition user_returns :: "DotCastEntry list \<Rightarrow> string \<Rightarrow> int" where
  "user_returns es u =
     sum_list (map (\<lambda>e. if e_funding e = UserFunded \<and> e_userId e = u then entry_return e else 0) es)"

definition settled_amount :: "settlement_db \<Rightarrow> DotCastPool \<Rightarrow> DotCastEntry list \<Rightarrow> account \<Rightarrow> string \<Rightarrow> int" where
  "settled_amount db pool es a u =
     sum_list (map (\<lambda>e. if entry_open db pool e \<and> e_userId e = u
                        then finish_post (e_amount e) (entry_return e) a else 0) es)"

lemma holdings_moved:
  "moved db u d db' \<Longrightarrow> holdings db' v = holdings db v +
     (if v = u then d Available + d PendingDeposit + d PendingWithdrawal + d LockedPool + d LockedBond else 0)"
  by (simp add: moved_def holdings_def)

lemma finalizePoolLock_ok:
  assumes books: "books db"
    and room: "holdings db (e_userId e) + entry_return e \<le> max_safe_integer" and ret: "0 \<le> entry_return e"
    and l: "map_of (db_poolLocks db) k = Some l" "pk_status l = PoolLocked"
    and e: "pk_userId l = e_userId e" "pk_amount l = e_amount e"
  shows "\<exists>l' db'. finalizePoolLock pool now e l db = (Inr (), db') \<and> books db' \<and>
    moved db (e_userId e) (finish_post (e_amount e) (entry_return e)) db' \<and>
    pk_status l' = (if e_refunded e then PoolRefunded else PoolSettled) \<and> finished_lock l l' \<and>
    pk_payout l' = Some (entry_return e) \<and>
    db_poolLocks db' = AList.update k l' (db_poolLocks db) \<and>
    db_transfers db' = db_transfers db \<and> db_bondLocks db' = db_bondLocks db"
proof -
  have rows: "rows_ok db" using books by (rule books_rows)
  have k: "pk_lockId l = k" using rows l(1) by (auto simp: rows_ok_def table_ok_def pool_lock_ok_def)
  define l' where "l' = l\<lparr>pk_status := if e_refunded e then PoolRefunded else PoolSettled,
    pk_payout := Some (entry_return e), pk_updatedAt := now,
    pk_eventJson := spread (pk_eventJson l)
      [(''finalizedAt'', JStr now), (''poolStatus'', JStr (show_status (p_status pool))),
       (''outcome'', jopt (\<lambda>oc. JStr (show_outcome oc)) (p_outcome pool))]\<rparr>"
  have rt: "returned l' = entry_return e" by (simp add: returned_def l'_def orElse_def)
  have fin: "finished_lock l l'" using ret by (simp add: finished_lock_def rt) (simp add: l'_def)
  have room1: "holdings db (pk_userId l) \<le> max_safe_integer" using room ret e by simp
  have room2: "bal Available db (pk_userId l) + returned l' \<le> max_safe_integer"
    using bal_le_holdings [OF rows, of Available "e_userId e"] room by (simp add: rt e)
  note run = pool_finish_ok(1) [OF books room1 room2 l(1) [folded k] l(2) fin]
    pool_finish_ok(2-4) [where now = now, OF books room1 room2 l(1) [folded k] l(2) fin]
  show ?thesis
    using run fin unfolding rt e k credited_def
    by (intro exI [of _ l']) (simp add: finalizePoolLock_def read_balance_eqs Let_def appendPoolFundingEvent_def
        flip: entry_return_def l'_def, auto simp: moved_def bal_def l'_def)
qed

text \<open>A lock only moves forward: it is ended at most once, for its owner and amount.\<close>

definition pool_lock_forward :: "DotCastUsdcPoolFundingLock \<Rightarrow> DotCastUsdcPoolFundingLock \<Rightarrow> bool" where
  "pool_lock_forward l l' \<longleftrightarrow> l' = l \<or> pk_status l = PoolLocked \<and> finished_lock l l'"

definition table_forward :: "('r \<Rightarrow> 'r \<Rightarrow> bool) \<Rightarrow> (string \<times> 'r) list \<Rightarrow> (string \<times> 'r) list \<Rightarrow> bool" where
  "table_forward R tbl tbl' \<longleftrightarrow> (\<forall>k r. map_of tbl k = Some r \<longrightarrow> (\<exists>r'. map_of tbl' k = Some r' \<and> R r r'))"

lemma table_forward_refl [simp]: "(\<And>r. R r r) \<Longrightarrow> table_forward R tbl tbl"
  by (simp add: table_forward_def)

lemma table_forward_insert [simp]:
  "(\<And>r. R r r) \<Longrightarrow> map_of tbl k = None \<Longrightarrow> table_forward R tbl (tbl @ [(k, r)])"
  by (auto simp: table_forward_def)

lemma table_forward_update:
  "(\<And>r. R r r) \<Longrightarrow> map_of tbl k = Some r \<Longrightarrow> R r r' \<Longrightarrow> table_forward R tbl (AList.update k r' tbl)"
  by (auto simp: table_forward_def)

lemma pool_lock_forward_trans:
  "pool_lock_forward l m \<Longrightarrow> pool_lock_forward m n \<Longrightarrow> pool_lock_forward l n"
  by (auto simp: pool_lock_forward_def finished_lock_def)

lemma pool_locks_forward_trans:
  "table_forward pool_lock_forward a b \<Longrightarrow> table_forward pool_lock_forward b c \<Longrightarrow> table_forward pool_lock_forward a c"
  unfolding table_forward_def using pool_lock_forward_trans by meson

lemma pool_lock_forward_refl [simp]: "pool_lock_forward l l"
  by (simp add: pool_lock_forward_def)

text \<open>
  A lock closed for its entry: in the status that the end of the pool gives it, with what the pool gives
  back.  The loop closes the open locks so and leaves the others.
\<close>

definition entry_closed :: "settlement_db \<Rightarrow> DotCastPool \<Rightarrow> DotCastEntry \<Rightarrow> bool" where
  "entry_closed db pool e \<longleftrightarrow>
     (\<exists>l. map_of (db_poolLocks db) (entry_lock_id pool e) = Some l \<and> pk_userId l = e_userId e \<and>
        pk_amount l = e_amount e \<and> pk_status l = (if e_refunded e then PoolRefunded else PoolSettled) \<and>
        pk_payout l = Some (entry_return e))"

definition entry_done :: "settlement_db \<Rightarrow> DotCastPool \<Rightarrow> DotCastEntry \<Rightarrow> settlement_db \<Rightarrow> bool" where
  "entry_done db pool e db' \<longleftrightarrow> e_funding e = UserFunded \<longrightarrow>
     (if entry_open db pool e then entry_closed db' pool e
      else map_of (db_poolLocks db') (entry_lock_id pool e) = map_of (db_poolLocks db) (entry_lock_id pool e))"

lemma entry_done_refl: "\<not> entry_open db pool e \<Longrightarrow> entry_done db pool e db"
  by (simp add: entry_done_def)

text \<open>What the loop over some entries has done.\<close>

definition entries_settled :: "settlement_db \<Rightarrow> DotCastPool \<Rightarrow> DotCastEntry list \<Rightarrow> settlement_db \<Rightarrow> bool" where
  "entries_settled db pool es db' \<longleftrightarrow> books db' \<and>
     (\<forall>a u. bal a db' u = bal a db u + settled_amount db pool es a u) \<and>
     (\<forall>e \<in> set es. \<not> entry_open db' pool e \<and> entry_funded db' pool e) \<and>
     (\<forall>e \<in> set es. entry_done db pool e db') \<and>
     (\<forall>k. (\<forall>e \<in> set es. e_funding e = UserFunded \<longrightarrow> k \<noteq> entry_lock_id pool e) \<longrightarrow>
       map_of (db_poolLocks db') k = map_of (db_poolLocks db) k) \<and>
     table_forward pool_lock_forward (db_poolLocks db) (db_poolLocks db') \<and>
     db_transfers db' = db_transfers db \<and> db_bondLocks db' = db_bondLocks db"

lemma entries_settled_other:
  assumes "entries_settled db pool [e] db1" "e' \<in> set es"
    and "e_funding e = UserFunded \<Longrightarrow> e_funding e' = UserFunded \<Longrightarrow> e_id e' \<noteq> e_id e"
  shows "entry_open db1 pool e' = entry_open db pool e'" "entry_funded db1 pool e' = entry_funded db pool e'"
    "entry_done db1 pool e' db' = entry_done db pool e' db'"
proof -
  have "map_of (db_poolLocks db1) (entry_lock_id pool e') = map_of (db_poolLocks db) (entry_lock_id pool e')"
    if "e_funding e' = UserFunded"
    using assms(1,3) that unfolding entries_settled_def by (metis empty_iff list.set(1) poolFundingLockId_inj set_ConsD)
  then show "entry_open db1 pool e' = entry_open db pool e'" "entry_funded db1 pool e' = entry_funded db pool e'"
      "entry_done db1 pool e' db' = entry_done db pool e' db'"
    by (simp_all add: entry_open_def entry_funded_def entry_done_def cong: conj_cong imp_cong)
qed

lemma entries_settled_Cons:
  assumes one: "entries_settled db pool [e] db1" and rest: "entries_settled db1 pool es db'"
    and fresh: "\<And>e'. e' \<in> set es \<Longrightarrow> e_funding e = UserFunded \<Longrightarrow> e_funding e' = UserFunded \<Longrightarrow> e_id e' \<noteq> e_id e"
  shows "entries_settled db pool (e # es) db'"
proof -
  have "settled_amount db1 pool es a u = settled_amount db pool es a u" for a u
    unfolding settled_amount_def using entries_settled_other(1) [OF one] fresh
    by (intro arg_cong [where f = sum_list] map_cong) auto
  then have bals: "\<forall>a u. bal a db' u = bal a db u + settled_amount db pool (e # es) a u"
    using one rest by (simp add: entries_settled_def settled_amount_def)
  have k: "map_of (db_poolLocks db') (entry_lock_id pool e) = map_of (db_poolLocks db1) (entry_lock_id pool e)"
    if "e_funding e = UserFunded"
    using rest fresh that unfolding entries_settled_def by (metis poolFundingLockId_inj)
  have "\<not> entry_open db' pool e \<and> entry_funded db' pool e"
    using one k by (auto simp: entries_settled_def entry_open_def entry_funded_def)
  moreover have "entry_done db pool e db'"
    using one k by (auto simp: entries_settled_def entry_done_def entry_closed_def)
  moreover have "\<forall>e' \<in> set es. entry_done db pool e' db'"
    using rest entries_settled_other(3) [OF one] fresh by (auto simp: entries_settled_def)
  moreover have "table_forward pool_lock_forward (db_poolLocks db) (db_poolLocks db')"
    using one rest by (auto simp: entries_settled_def intro: pool_locks_forward_trans)
  ultimately show ?thesis using one rest bals by (auto simp: entries_settled_def)
qed

lemma settle_one_entry:
  assumes books: "books db" and room: "holdings db (e_userId e) + entry_return e \<le> max_safe_integer"
    and funded: "entry_funded db pool e"
  shows "\<exists>db1. entries_settled db pool [e] db1 \<and> settleEntryLocks pool now ap idem (e # es) db =
    settleEntryLocks pool now (ap + (if entry_open db pool e then 1 else 0))
      (idem + (if e_funding e = UserFunded \<and> \<not> entry_open db pool e then 1 else 0)) es db1"
proof (cases "entry_open db pool e")
  case False
  then have "entries_settled db pool [e] db"
    using books funded by (simp add: entries_settled_def settled_amount_def entry_done_refl)
  moreover have "settleEntryLocks pool now ap idem (e # es) db =
      settleEntryLocks pool now ap (idem + (if e_funding e = UserFunded then 1 else 0)) es db"
    using False funded by (auto simp: requirePoolFundingLock_def entry_open_def entry_funded_def)
  ultimately show ?thesis using False by (intro exI [of _ db]) simp
next
  case True
  then obtain l where l: "map_of (db_poolLocks db) (entry_lock_id pool e) = Some l" "pk_status l = PoolLocked"
      "pk_userId l = e_userId e" "pk_amount l = e_amount e"
    and ret: "0 \<le> entry_return e" and user: "e_funding e = UserFunded"
    using funded by (auto simp: entry_open_def entry_funded_def)
  from finalizePoolLock_ok [OF books room ret l, of pool now]
  obtain l' db1 where run: "finalizePoolLock pool now e l db = (Inr (), db1)" "books db1"
      "moved db (e_userId e) (finish_post (e_amount e) (entry_return e)) db1"
      "finished_lock l l'" "pk_status l' = (if e_refunded e then PoolRefunded else PoolSettled)"
      "pk_payout l' = Some (entry_return e)" "db_poolLocks db1 = AList.update (entry_lock_id pool e) l' (db_poolLocks db)"
      "db_transfers db1 = db_transfers db" "db_bondLocks db1 = db_bondLocks db"
    by auto
  have "table_forward pool_lock_forward (db_poolLocks db) (db_poolLocks db1)"
    unfolding run(7) using l run(4) by (intro table_forward_update) (auto simp: pool_lock_forward_def)
  moreover have "entry_done db pool e db1"
    using True run(4-7) l(3,4) by (simp add: entry_done_def entry_closed_def finished_lock_def)
  ultimately have "entries_settled db pool [e] db1"
    using run(2-4,7-) l ret user True
    by (auto simp: entries_settled_def settled_amount_def moved_def entry_open_def entry_funded_def finished_lock_def)
  then show ?thesis using True user l run(1) by (intro exI [of _ db1]) (simp add: requirePoolFundingLock_def)
qed

lemma settled_room:
  assumes one: "entries_settled db pool [e] db1" and books: "books db"
    and funded: "\<forall>e' \<in> set (e # es). entry_funded db pool e'" and user: "e_funding e = UserFunded"
  shows "holdings db1 u \<le> holdings db u + (if e_userId e = u then entry_return e else 0)"
proof -
  obtain l where l: "map_of (db_poolLocks db) (entry_lock_id pool e) = Some l" "pk_amount l = e_amount e"
    and ret: "0 \<le> entry_return e"
    using funded user by (auto simp: entry_funded_def)
  then have "0 < e_amount e"
    using books_rows [OF books] by (force simp: rows_ok_def table_ok_def pool_lock_ok_def)
  then show ?thesis using one ret
    by (simp add: entries_settled_def settled_amount_def holdings_def finish_post_def)
qed

lemma settleEntryLocks_ok:
  assumes "books db" and "\<And>u. holdings db u + user_returns es u \<le> max_safe_integer"
    and "\<forall>e \<in> set es. entry_funded db pool e" and "distinct (map e_id (filter (\<lambda>e. e_funding e = UserFunded) es))"
  shows "\<exists>db'. entries_settled db pool es db' \<and> settleEntryLocks pool now ap idem es db =
      (Inr (ap + length (filter (entry_open db pool) es),
            idem + length (filter (\<lambda>e. e_funding e = UserFunded \<and> \<not> entry_open db pool e) es)), db')"
  using assms
proof (induction es arbitrary: db ap idem)
  case Nil
  then show ?case by (simp add: entries_settled_def settled_amount_def)
next
  case (Cons e es)
  have rets: "0 \<le> user_returns es u" for u
    using Cons.prems(3) by (auto simp: user_returns_def entry_funded_def intro!: sum_list_nonneg)
  have fresh: "e_id e' \<noteq> e_id e" if "e' \<in> set es" "e_funding e = UserFunded" "e_funding e' = UserFunded" for e'
  proof -
    have "e_id e \<notin> e_id ` {x \<in> set es. e_funding x = UserFunded}" using Cons.prems(4) that(2) by simp
    then show ?thesis using that by (metis (mono_tags, lifting) image_eqI mem_Collect_eq)
  qed
  show ?case
  proof (cases "e_funding e = UserFunded")
    case False
    have "\<And>u. holdings db u + user_returns es u \<le> max_safe_integer"
      using Cons.prems(2) False by (simp add: user_returns_def)
    moreover have "\<not> entry_open db pool e" using False by (simp add: entry_open_def)
    ultimately obtain db' where "entries_settled db pool es db'" "settleEntryLocks pool now ap idem (e # es) db =
        (Inr (ap + length (filter (entry_open db pool) (e # es)),
          idem + length (filter (\<lambda>e. e_funding e = UserFunded \<and> \<not> entry_open db pool e) (e # es))), db')"
      using Cons.IH [OF Cons.prems(1), of ap idem] Cons.prems(3,4) False by auto
    moreover have "entries_settled db pool [e] db"
      using False Cons.prems(1)
      by (simp add: entries_settled_def settled_amount_def entry_open_def entry_funded_def entry_done_def)
    ultimately show ?thesis using entries_settled_Cons fresh by blast
  next
    case True
    have room: "holdings db (e_userId e) + entry_return e \<le> max_safe_integer"
      using Cons.prems(2) [of "e_userId e"] True rets [of "e_userId e"] by (simp add: user_returns_def)
    obtain db1 where one: "entries_settled db pool [e] db1"
      and run: "settleEntryLocks pool now ap idem (e # es) db =
        settleEntryLocks pool now (ap + (if entry_open db pool e then 1 else 0))
          (idem + (if e_funding e = UserFunded \<and> \<not> entry_open db pool e then 1 else 0)) es db1"
      using settle_one_entry [OF Cons.prems(1) room, of pool now ap idem es] Cons.prems(3)
      by (metis list.set_intros(1))
    have other: "entry_open db1 pool e' = entry_open db pool e'" "entry_funded db1 pool e' = entry_funded db pool e'"
      if "e' \<in> set es" for e' using entries_settled_other [OF one that] fresh that by auto
    have filters: "filter (entry_open db1 pool) es = filter (entry_open db pool) es"
      "filter (\<lambda>e. e_funding e = UserFunded \<and> \<not> entry_open db1 pool e) es =
       filter (\<lambda>e. e_funding e = UserFunded \<and> \<not> entry_open db pool e) es"
      using other by (auto intro!: filter_cong)
    have room1: "holdings db1 u + user_returns es u \<le> max_safe_integer" for u
      using settled_room [OF one Cons.prems(1,3) True, of u] Cons.prems(2) [of u] True
      by (auto simp: user_returns_def split: if_splits)
    have "books db1" "\<forall>e' \<in> set es. entry_funded db1 pool e'" "distinct (map e_id (filter (\<lambda>e. e_funding e = UserFunded) es))"
      using one Cons.prems(3,4) other True by (simp_all add: entries_settled_def)
    from Cons.IH [OF this(1) room1 this(2,3)]
    obtain db' where rest: "entries_settled db1 pool es db'"
      and more: "settleEntryLocks pool now (ap + (if entry_open db pool e then 1 else 0))
          (idem + (if e_funding e = UserFunded \<and> \<not> entry_open db pool e then 1 else 0)) es db1 =
        (Inr (ap + (if entry_open db pool e then 1 else 0) + length (filter (entry_open db pool) es),
          idem + (if e_funding e = UserFunded \<and> \<not> entry_open db pool e then 1 else 0) +
          length (filter (\<lambda>e. e_funding e = UserFunded \<and> \<not> entry_open db pool e) es)), db')"
      unfolding filters by blast
    have "entries_settled db pool (e # es) db'" using entries_settled_Cons [OF one rest] fresh by blast
    moreover have "settleEntryLocks pool now ap idem (e # es) db =
        (Inr (ap + length (filter (entry_open db pool) (e # es)),
          idem + length (filter (\<lambda>e. e_funding e = UserFunded \<and> \<not> entry_open db pool e) (e # es))), db')"
      unfolding run more by (simp add: True)
    ultimately show ?thesis by blast
  qed
qed

lemma settle_closed:
  "\<forall>e \<in> set es. \<not> entry_open db pool e \<and> entry_funded db pool e \<Longrightarrow>
   settleEntryLocks pool now ap idem es db =
     (Inr (ap, idem + length (filter (\<lambda>e. e_funding e = UserFunded) es)), db)"
  by (induction es arbitrary: idem) (auto simp: requirePoolFundingLock_def entry_open_def entry_funded_def)

text \<open>
  C29: The end of a USDC pool is paid out exactly once.  If the ledger is in order and every user entry
  of the finished pool has its lock, the terminal settlement succeeds, keeps the books, closes every
  lock, moves for each lock that was still open the amount out of the locked account and the pay-out
  (the stake, for a refund) into the available account of its owner, and touches nothing else; a second
  run finds every lock closed and changes nothing.
\<close>

theorem applyUsdcPoolTerminalSettlement_pays_once:
  fixes db snapshot
  defines "pool \<equiv> s_pool snapshot" and "es \<equiv> s_entries snapshot"
  assumes books: "books db" and ready: "assertUsdcPoolFundingReady env = Inr funding"
    and pool: "p_unit pool = Usdc" "terminal (p_status pool)"
    and funded: "\<forall>e \<in> set es. entry_funded db pool e"
    and ids: "distinct (map e_id (filter (\<lambda>e. e_funding e = UserFunded) es))"
    and room: "\<forall>u. holdings db u + user_returns es u \<le> max_safe_integer"
  shows "\<exists>r db'. applyUsdcPoolTerminalSettlement env \<lparr>ti_snapshot = snapshot, ti_now = now\<rparr> db = (Inr r, db') \<and>
    books db' \<and> tr_applied r = length (filter (entry_open db pool) es) \<and>
    tr_applied r + tr_idempotent r = length (filter (\<lambda>e. e_funding e = UserFunded) es) \<and>
    (\<forall>a u. bal a db' u = bal a db u + settled_amount db pool es a u) \<and>
    (\<forall>e \<in> set es. \<not> entry_open db' pool e) \<and>
    (\<forall>k. (\<forall>e \<in> set es. k \<noteq> entry_lock_id pool e) \<longrightarrow> map_of (db_poolLocks db') k = map_of (db_poolLocks db) k) \<and>
    db_transfers db' = db_transfers db \<and> db_bondLocks db' = db_bondLocks db \<and>
    (\<exists>r'. applyUsdcPoolTerminalSettlement env \<lparr>ti_snapshot = snapshot, ti_now = now'\<rparr> db' = (Inr r', db') \<and>
      tr_applied r' = 0)"
proof -
  obtain db' where settled: "entries_settled db pool es db'"
    and run: "settleEntryLocks pool (orElse now (s_updatedAt snapshot)) 0 0 es db =
      (Inr (length (filter (entry_open db pool) es),
            length (filter (\<lambda>e. e_funding e = UserFunded \<and> \<not> entry_open db pool e) es)), db')"
    using settleEntryLocks_ok [OF books _ funded ids, of _ 0 0] room by fastforce
  have count: "length (filter (entry_open db pool) es) +
      length (filter (\<lambda>e. e_funding e = UserFunded \<and> \<not> entry_open db pool e) es) =
      length (filter (\<lambda>e. e_funding e = UserFunded) es)"
    by (induction es) (auto simp: entry_open_def)
  show ?thesis
    using settled run settle_closed [of es db' pool "orElse now' (s_updatedAt snapshot)" 0 0] pool count
    by (auto simp: applyUsdcPoolTerminalSettlement_def ready entries_settled_def pool_def es_def)
qed

subsection \<open>Transfers\<close>

lemma transfer_ids [simp]:
  "depositTransferId r = depositTransferId r' \<longleftrightarrow> r = r'"
  "depositTransferId r \<noteq> withdrawalTransferId u i" "withdrawalTransferId u i \<noteq> depositTransferId r"
  by (simp_all add: depositTransferId_def withdrawalTransferId_def)

definition same_transfer :: "DotCastSettlementTransfer \<Rightarrow> DotCastSettlementTransfer \<Rightarrow> bool" where
  "same_transfer t t' \<longleftrightarrow> tf_userId t' = tf_userId t \<and> tf_kind t' = tf_kind t \<and> tf_amount t' = tf_amount t"

lemma transfer_insert_books:
  fixes db t b
  defines "u \<equiv> tf_userId t"
  defines "db' \<equiv> db\<lparr>db_transfers := db_transfers db @ [(tf_transferId t, t)],
    db_balances := AList.update u b (db_balances db)\<rparr>"
  assumes books: "books db" and t: "map_of (db_transfers db) (tf_transferId t) = None" "transfer_ok (tf_transferId t) t"
    and b: "balance_ok u b" "\<And>a. account_of a b = bal a db u + post_transfer a t"
  shows "books db'" "moved db u (\<lambda>a. post_transfer a t) db'"
proof -
  show "books db'"
  proof (rule books_post [OF books _ _ _ _ b])
    show "booked a db' v = booked a db v + (if v = u then post_transfer a t else 0)" for a v
      by (auto simp: booked_def u_def db'_def)
  qed (use books t in \<open>auto simp: books_def rows_ok_def db'_def\<close>)
  show "moved db u (\<lambda>a. post_transfer a t) db'" by (rule moved_update [OF _ b(2)]) (simp add: db'_def)
qed

lemma transfer_update_books:
  fixes db t t' b k
  defines "u \<equiv> tf_userId t"
  defines "db' \<equiv> db\<lparr>db_transfers := AList.update k t' (db_transfers db),
    db_balances := AList.update u b (db_balances db)\<rparr>"
  assumes books: "books db" and t: "map_of (db_transfers db) k = Some t" "transfer_ok k t'" "tf_userId t' = u"
    and b: "balance_ok u b" "\<And>a. account_of a b = bal a db u + (post_transfer a t' - post_transfer a t)"
  shows "books db'" "moved db u (\<lambda>a. post_transfer a t' - post_transfer a t) db'"
proof -
  have tb: "table_ok transfer_ok (db_transfers db)" using books by (simp add: books_def rows_ok_def)
  show "books db'"
  proof (rule books_post [OF books _ _ _ _ b])
    show "booked a db' v = booked a db v + (if v = u then post_transfer a t' - post_transfer a t else 0)" for a v
      using usum_update [OF table_ok_akeys [OF tb] t(1), of tf_userId t' "post_transfer a" v] t(3)
      by (auto simp: booked_def u_def db'_def)
  qed (use books t tb in \<open>auto simp: books_def rows_ok_def db'_def\<close>)
  show "moved db u (\<lambda>a. post_transfer a t' - post_transfer a t) db'" by (rule moved_update [OF _ b(2)]) (simp add: db'_def)
qed

lemma getTransferByTxRef_None: "getTransferByTxRef db r = None \<longleftrightarrow> (\<forall>t \<in> snd ` set (db_transfers db). tf_txRef t \<noteq> Some r)"
proof -
  let ?xs = "filter (\<lambda>t. tf_txRef t = Some r) (map snd (db_transfers db))"
  have "getTransferByTxRef db r = None \<longleftrightarrow> set (sort_by (\<lambda>a b. code_unit_compare (tf_updatedAt b) (tf_updatedAt a)) ?xs) = {}"
    by (simp only: getTransferByTxRef_def set_empty) (simp split: list.splits)
  then show ?thesis by (auto simp: image_iff)
qed

lemma stored_transfer:
  assumes "table_ok transfer_ok (db_transfers db)" "map_of (db_transfers db) k = Some t"
  shows "transferFromRow (transferParams t) = t"
  using table_okD [OF assms] by (simp add: transfer_ok_def)

lemma getTransfer_eq: "table_ok transfer_ok (db_transfers db) \<Longrightarrow> getTransfer db k = map_of (db_transfers db) k"
  by (cases "map_of (db_transfers db) k")
    (simp_all add: getTransfer_def stored_transfer del: transfer_roundtrip)

lemma getTransferByTxRef_Some:
  assumes "getTransferByTxRef db r = Some t" and tb: "table_ok transfer_ok (db_transfers db)"
  shows "map_of (db_transfers db) (tf_transferId t) = Some t" "tf_txRef t = Some r"
proof -
  let ?xs = "filter (\<lambda>t. tf_txRef t = Some r) (map snd (db_transfers db))"
  obtain t0 rest where t0: "sort_by (\<lambda>a b. code_unit_compare (tf_updatedAt b) (tf_updatedAt a)) ?xs = t0 # rest"
      "t = transferFromRow (transferParams t0)"
    using assms(1) by (auto simp: getTransferByTxRef_def simp del: transfer_roundtrip split: list.splits)
  have "t0 \<in> set ?xs" using t0(1) by (metis list.set_intros(1) set_sort_by)
  then obtain k where k: "(k, t0) \<in> set (db_transfers db)" "tf_txRef t0 = Some r" by auto
  then have m: "map_of (db_transfers db) k = Some t0" using tb by (simp add: table_ok_def akeys_def)
  have "t = t0" using t0(2) stored_transfer [OF tb m] by simp
  then show "map_of (db_transfers db) (tf_transferId t) = Some t" "tf_txRef t = Some r"
    using m k(2) table_okD [OF tb m] by (auto simp: transfer_ok_def)
qed

lemma fresh_deposit:
  assumes "getTransferByTxRef db r = None" and tb: "table_ok transfer_ok (db_transfers db)"
  shows "map_of (db_transfers db) (depositTransferId r) = None"
proof (rule ccontr)
  assume "map_of (db_transfers db) (depositTransferId r) \<noteq> None"
  then obtain t where t: "map_of (db_transfers db) (depositTransferId r) = Some t" by auto
  have "tf_txRef t = Some r" using table_okD [OF tb t] by (auto simp: transfer_ok_def split: DotCastSettlementTransferKind.splits)
  moreover have "t \<in> snd ` set (db_transfers db)" using map_of_SomeD [OF t] by force
  ultimately show False using assms(1) by (auto simp: getTransferByTxRef_None)
qed

lemma recordNewDeposit_ok:
  fixes rail c now
  assumes books: "books db" and room: "holdings db u + x \<le> max_safe_integer" and x: "0 < x"
    and r: "r \<noteq> ''''" "getTransferByTxRef db r = None"
  defines "t \<equiv> depositTransfer rail u x r c now"
  shows "\<exists>res db'. recordNewDeposit rail u x r c now db = (Inr res, db') \<and> books db' \<and>
    moved db u (\<lambda>a. post_transfer a t) db' \<and> ro_status res = tf_status t \<and> \<not> ro_idempotent res \<and>
    ro_transfer res = t \<and> db_transfers db' = db_transfers db @ [(depositTransferId r, t)] \<and>
    db_poolLocks db' = db_poolLocks db \<and> db_bondLocks db' = db_bondLocks db"
proof -
  have rows: "rows_ok db" using books by (rule books_rows)
  then have tb: "table_ok transfer_ok (db_transfers db)" by (simp add: rows_ok_def)
  have t: "tf_transferId t = depositTransferId r" "tf_userId t = u" "tf_kind t = Deposit" "tf_amount t = x"
    "tf_status t = Credited \<or> tf_status t = Observed" "transfer_ok (tf_transferId t) t"
    using x r(1) by (auto simp: t_def depositTransfer_def transfer_ok_def nullableText_def truthy_text_def)
  define b where "b = (if tf_status t = Credited
    then (readSettlementBalance db u now)\<lparr>sb_availableUsdc := bal Available db u + x, sb_updatedAt := now\<rparr>
    else (readSettlementBalance db u now)\<lparr>sb_pendingDepositUsdc := bal PendingDeposit db u + x, sb_updatedAt := now\<rparr>)"
  have acc: "account_of a b = bal a db (tf_userId t) + post_transfer a t" for a
    using t by (cases a) (auto simp: b_def)
  have bok: "balance_ok u b"
    using rows x bal_nonneg [OF rows] by (simp add: balance_ok_def balance_check_def b_def)
  note post = transfer_insert_books [OF books _ t(6) _ acc, unfolded t(1,2)]
  have fresh: "map_of (db_transfers db) (depositTransferId r) = None" by (rule fresh_deposit [OF r(2) tb])
  have "\<not> deposit_tx_ref_taken db t"
    using r(2) by (auto simp: deposit_tx_ref_taken_def getTransferByTxRef_None list_ex_iff t_def depositTransfer_def)
  then have ins: "insertTransfer t db = (Inr (), db\<lparr>db_transfers := db_transfers db @ [(depositTransferId r, t)]\<rparr>)"
    using fresh x t by (simp add: insertTransfer_def)
  have js: "js_add (bal a db u) x = bal a db u + x" for a using js_give [OF rows room] x by simp
  have next_b: "tf_status t = Credited \<Longrightarrow>
      (readSettlementBalance db u now)\<lparr>sb_availableUsdc := js_add (bal Available db u) x, sb_updatedAt := now\<rparr> = b"
    "tf_status t \<noteq> Credited \<Longrightarrow> (readSettlementBalance db u now)\<lparr>
      sb_pendingDepositUsdc := js_add (bal PendingDeposit db u) x, sb_updatedAt := now\<rparr> = b"
    by (simp_all add: b_def js)
  show ?thesis using post [OF fresh bok] t(5)
    by (cases "tf_status t = Credited")
      (simp_all add: recordNewDeposit_def Let_def ins saveBalance_ok [OF bok] appendEvent_def next_b
        flip: t_def, auto simp: moved_def bal_def)
qed

lemma updateTransfer_ok:
  assumes "map_of (db_transfers db) (tf_transferId t) = Some t"
    and "t' = t\<lparr>tf_status := st, tf_txRef := r, tf_updatedAt := now, tf_eventJson := j\<rparr>"
  shows "updateTransfer t' db = (Inr (), db\<lparr>db_transfers := AList.update (tf_transferId t) t' (db_transfers db)\<rparr>)"
  using assms by (simp add: updateTransfer_def update_row_def)

lemma creditObservedDeposit_ok:
  assumes books: "books db" and room: "holdings db (tf_userId t) \<le> max_safe_integer"
    and t: "map_of (db_transfers db) (tf_transferId t) = Some t" "tf_kind t = Deposit" "tf_status t \<noteq> Credited"
  shows "\<exists>res db'. creditObservedDeposit rail t (tf_userId t) (tf_amount t) c now db = (Inr res, db') \<and> books db' \<and>
    moved db (tf_userId t) (\<lambda>a. case a of Available \<Rightarrow> tf_amount t | PendingDeposit \<Rightarrow> - tf_amount t | _ \<Rightarrow> 0) db' \<and>
    ro_status res = Credited \<and> \<not> ro_idempotent res \<and> tf_status (ro_transfer res) = Credited \<and> same_transfer t (ro_transfer res) \<and>
    db_transfers db' = AList.update (tf_transferId t) (ro_transfer res) (db_transfers db) \<and>
    db_poolLocks db' = db_poolLocks db \<and> db_bondLocks db' = db_bondLocks db"
proof -
  let ?u = "tf_userId t" and ?x = "tf_amount t"
  have rows: "rows_ok db" using books by (rule books_rows)
  then have ok: "transfer_ok (tf_transferId t) t" using t(1) by (auto simp: rows_ok_def table_ok_def)
  then have st: "tf_status t = Observed" "0 < ?x" using t(2,3) by (auto simp: transfer_ok_def)
  have held: "?x \<le> bal PendingDeposit db ?u"
    using held_transfer [OF books t(1), of PendingDeposit] st t(2) by simp
  define t' where "t' = t\<lparr>tf_status := Credited, tf_updatedAt := now, tf_eventJson :=
    spread (tf_eventJson t) [(''confirmations'', jint c), (''creditedAt'', JStr now)]\<rparr>"
  define b where "b = (readSettlementBalance db ?u now)\<lparr>sb_availableUsdc := bal Available db ?u + ?x,
    sb_pendingDepositUsdc := bal PendingDeposit db ?u - ?x, sb_updatedAt := now\<rparr>"
  have t': "tf_userId t' = ?u" "transfer_ok (tf_transferId t) t'"
    using ok t(2) by (auto simp: t'_def transfer_ok_def)
  have acc: "account_of a b = bal a db ?u + (post_transfer a t' - post_transfer a t)" for a
    using t(2) st by (cases a) (simp_all add: b_def t'_def)
  have bok: "balance_ok ?u b"
    using rows st held bal_nonneg [OF rows] by (simp add: balance_ok_def balance_check_def b_def)
  have diff: "(\<lambda>a. post_transfer a t' - post_transfer a t) =
      (\<lambda>a. case a of Available \<Rightarrow> ?x | PendingDeposit \<Rightarrow> - ?x | _ \<Rightarrow> 0)"
    using t(2) st by (intro ext) (auto simp: t'_def split: account.splits)
  note post = transfer_update_books [OF books t(1) t'(2,1) bok acc, unfolded diff]
  have upd: "updateTransfer t' db = (Inr (), db\<lparr>db_transfers := AList.update (tf_transferId t) t' (db_transfers db)\<rparr>)"
    by (rule updateTransfer_ok [OF t(1), where st = Credited and r = "tf_txRef t" and now = now and j = "tf_eventJson t'"])
      (simp add: t'_def)
  show ?thesis
    using post held st js_take [OF rows room, of ?x PendingDeposit] js_move [OF rows room, of ?x PendingDeposit Available]
    by (simp add: creditObservedDeposit_def Let_def upd saveBalance_ok [OF bok] appendEvent_def flip: t'_def b_def)
      (auto simp: moved_def bal_def t'_def same_transfer_def)
qed

definition withdraw_post :: "int \<Rightarrow> account \<Rightarrow> int" where
  "withdraw_post x a = (case a of Available \<Rightarrow> - x | PendingWithdrawal \<Rightarrow> x | _ \<Rightarrow> 0)"

lemma signWithdrawal_ok:
  fixes rail now d
  assumes books: "books db" and room: "holdings db u \<le> max_safe_integer" and x: "0 < x" "x \<le> bal Available db u"
    and d: "d \<noteq> ''''" and fresh: "map_of (db_transfers db) (withdrawalTransferId v i) = None"
  defines "t \<equiv> withdrawalTransfer rail (withdrawalTransferId v i) u x d now"
  shows "\<exists>res db'. signWithdrawal rail (withdrawalTransferId v i) u x d now db = (Inr res, db') \<and> books db' \<and>
    moved db u (withdraw_post x) db' \<and> ro_status res = Signed \<and> \<not> ro_idempotent res \<and> \<not> ro_broadcast res \<and>
    ro_transfer res = t \<and> db_transfers db' = db_transfers db @ [(withdrawalTransferId v i, t)] \<and>
    db_poolLocks db' = db_poolLocks db \<and> db_bondLocks db' = db_bondLocks db"
proof -
  have rows: "rows_ok db" using books by (rule books_rows)
  have t: "tf_transferId t = withdrawalTransferId v i" "tf_userId t = u" "tf_kind t = Withdrawal" "tf_amount t = x"
    "tf_status t = Signed" "transfer_ok (tf_transferId t) t"
    using x d by (auto simp: t_def withdrawalTransfer_def transfer_ok_def nullableText_def truthy_text_def
        mockSolanaSignature_def)
  define b where "b = (readSettlementBalance db u now)\<lparr>sb_availableUsdc := bal Available db u - x,
    sb_pendingWithdrawalUsdc := bal PendingWithdrawal db u + x, sb_updatedAt := now\<rparr>"
  have acc: "account_of a b = bal a db (tf_userId t) + post_transfer a t" for a
    using t by (cases a) (simp_all add: b_def)
  have bok: "balance_ok u b"
    using rows x bal_nonneg [OF rows] by (simp add: balance_ok_def balance_check_def b_def)
  have post_eq: "(\<lambda>a. post_transfer a t) = withdraw_post x"
    using t by (intro ext) (auto simp: withdraw_post_def split: account.splits)
  note post = transfer_insert_books [OF books _ t(6) _ acc, unfolded t(1,2) post_eq, OF fresh bok]
  have ins: "insertTransfer t db = (Inr (), db\<lparr>db_transfers := db_transfers db @ [(withdrawalTransferId v i, t)]\<rparr>)"
    using fresh x t by (simp add: insertTransfer_def deposit_tx_ref_taken_def)
  show ?thesis
    using post x js_take [OF rows room, of x Available] js_move [OF rows room, of x Available PendingWithdrawal]
    by (simp add: signWithdrawal_def Let_def ins saveBalance_ok [OF bok] appendEvent_def flip: t_def b_def)
      (auto simp: moved_def bal_def)
qed

lemma confirmTransfer_ok:
  assumes books: "books db" and room: "holdings db (tf_userId t) \<le> max_safe_integer"
    and t: "map_of (db_transfers db) (tf_transferId t) = Some t" "tf_kind t = Withdrawal" "tf_status t = Signed"
  shows "\<exists>res db'. confirmTransfer rail t r now db = (Inr res, db') \<and> books db' \<and>
    moved db (tf_userId t) (\<lambda>a. if a = PendingWithdrawal then - tf_amount t else 0) db' \<and>
    ro_status res = Confirmed \<and> \<not> ro_idempotent res \<and> tf_status (ro_transfer res) = Confirmed \<and> same_transfer t (ro_transfer res) \<and>
    tf_txRef (ro_transfer res) \<noteq> None \<and>
    db_transfers db' = AList.update (tf_transferId t) (ro_transfer res) (db_transfers db) \<and>
    db_poolLocks db' = db_poolLocks db \<and> db_bondLocks db' = db_bondLocks db"
proof -
  let ?u = "tf_userId t" and ?x = "tf_amount t"
  have rows: "rows_ok db" using books by (rule books_rows)
  then have ok: "transfer_ok (tf_transferId t) t" using t(1) by (auto simp: rows_ok_def table_ok_def)
  then have x: "0 < ?x" by (auto simp: transfer_ok_def)
  have held: "?x \<le> bal PendingWithdrawal db ?u"
    using held_transfer [OF books t(1), of PendingWithdrawal] t(2,3) by simp
  let ?ref = "confirmationRef r t"
  define t' where "t' = t\<lparr>tf_status := Confirmed, tf_txRef := Some ?ref, tf_updatedAt := now,
    tf_eventJson := spread (tf_eventJson t) [(''confirmedAt'', JStr now)]\<rparr>"
  define b where "b = (readSettlementBalance db ?u now)\<lparr>
    sb_pendingWithdrawalUsdc := bal PendingWithdrawal db ?u - ?x, sb_updatedAt := now\<rparr>"
  have "?ref \<noteq> ''''" by (auto simp: confirmationRef_def nullableText_def truthy_text_def orElse_def split: option.splits)
  then have t': "tf_userId t' = ?u" "transfer_ok (tf_transferId t) t'"
    using ok t(2) by (auto simp: t'_def transfer_ok_def nullableText_def truthy_text_def)
  have acc: "account_of a b = bal a db ?u + (post_transfer a t' - post_transfer a t)" for a
    using t(2,3) by (cases a) (simp_all add: b_def t'_def)
  have bok: "balance_ok ?u b"
    using rows held bal_nonneg [OF rows] by (simp add: balance_ok_def balance_check_def b_def)
  have diff: "(\<lambda>a. post_transfer a t' - post_transfer a t) = (\<lambda>a. if a = PendingWithdrawal then - ?x else 0)"
  proof
    show "post_transfer a t' - post_transfer a t = (if a = PendingWithdrawal then - ?x else 0)" for a
      using t(2,3) by (cases a) (simp_all add: t'_def)
  qed
  note post = transfer_update_books [OF books t(1) t'(2,1) bok acc, unfolded diff]
  have upd: "updateTransfer t' db = (Inr (), db\<lparr>db_transfers := AList.update (tf_transferId t) t' (db_transfers db)\<rparr>)"
    by (rule updateTransfer_ok [OF t(1), where st = Confirmed and r = "Some ?ref" and now = now and j = "tf_eventJson t'"])
      (simp add: t'_def)
  show ?thesis
    using post held x js_take [OF rows room, of ?x PendingWithdrawal]
    by (simp add: confirmTransfer_def Let_def upd saveBalance_ok [OF bok] appendEvent_def flip: t'_def b_def)
      (auto simp: moved_def bal_def t'_def same_transfer_def)
qed

subsection \<open>Bonds\<close>

definition bond_post :: "int \<Rightarrow> account \<Rightarrow> int" where
  "bond_post x a = (case a of Available \<Rightarrow> - x | LockedBond \<Rightarrow> x | _ \<Rightarrow> 0)"

definition bond_end_post :: "int \<Rightarrow> int \<Rightarrow> account \<Rightarrow> int" where
  "bond_end_post x credit a = (case a of Available \<Rightarrow> credit | LockedBond \<Rightarrow> - x | _ \<Rightarrow> 0)"

lemma lockBond_ok:
  fixes input k now
  assumes books: "books db" and room: "holdings db u \<le> max_safe_integer" and x: "0 < x" "x \<le> bal Available db u"
    and fresh: "map_of (db_bondLocks db) k = None"
  shows "\<exists>l db'. lockBond input k u x now db = (Inr \<lparr>bo_status = Some BondLocked, bo_idempotent = False,
      bo_lock = Some l, bo_balance = map_of (db_balances db') u\<rparr>, db') \<and> books db' \<and>
    moved db u (bond_post x) db' \<and> bk_ownerId l = u \<and> bk_amount l = x \<and> bk_status l = BondLocked \<and>
    bk_purpose l = gi_purpose input \<and> db_bondLocks db' = db_bondLocks db @ [(k, l)] \<and>
    db_transfers db' = db_transfers db \<and> db_poolLocks db' = db_poolLocks db"
proof -
  have rows: "rows_ok db" using books by (rule books_rows)
  define l where "l = \<lparr>bk_lockId = k, bk_purpose = gi_purpose input, bk_ownerId = u,
    bk_routeId = gi_routeId input, bk_poolId = gi_poolId input, bk_panelId = gi_panelId input,
    bk_assignmentId = gi_assignmentId input, bk_challengeId = gi_challengeId input, bk_amount = x,
    bk_status = BondLocked, bk_credit = 0, bk_createdAt = now, bk_updatedAt = now,
    bk_eventJson = [(''source'', JStr ''dotcast-e13-usdc-bond-funding''),
      (''metadata'', JObj (orElse (gi_metadata input) []))]\<rparr>"
  define b where "b = (readSettlementBalance db u now)\<lparr>sb_availableUsdc := bal Available db u - x,
    sb_lockedBondUsdc := bal LockedBond db u + x, sb_updatedAt := now\<rparr>"
  have acc: "account_of a b = bal a db u + bond_post x a" for a
    by (cases a) (simp_all add: b_def bond_post_def)
  have bok: "balance_ok u b"
    using rows x bal_nonneg [OF rows] by (simp add: balance_ok_def balance_check_def b_def)
  define db1 where "db1 = db\<lparr>db_bondLocks := db_bondLocks db @ [(k, l)],
    db_balances := AList.update u b (db_balances db)\<rparr>"
  have "books db1"
  proof (rule books_post [OF books _ _ _ _ bok acc])
    show "booked a db1 v = booked a db v + (if v = u then bond_post x a else 0)" for a v
      by (cases a) (auto simp: db1_def booked_def l_def bond_post_def)
  qed (use rows fresh x in \<open>auto simp: db1_def rows_ok_def bond_lock_ok_def l_def\<close>)
  moreover have "moved db u (bond_post x) db1" by (rule moved_update [OF _ acc]) (simp add: db1_def)
  moreover have ins: "insertBondLock l db = (Inr (), db\<lparr>db_bondLocks := db_bondLocks db @ [(k, l)]\<rparr>)"
    using fresh x by (simp add: insertBondLock_def l_def)
  ultimately show ?thesis
    using x js_take [OF rows room, of x Available] js_move [OF rows room, of x Available LockedBond]
    by (simp add: lockBond_def read_balance_eqs Let_def saveBalance_ok [OF bok] appendBondEvent_def db1_def
        flip: l_def b_def) (auto simp: moved_def bal_def l_def)
qed

abbreviation read_bond :: "DotCastUsdcBondLock \<Rightarrow> DotCastUsdcBondLock" where
  "read_bond l \<equiv> bondLockFromRow (bondLockParams l)"

lemma finalizeBond_ok:
  fixes input extra now
  assumes books: "books db" and room: "holdings db (bk_ownerId l) + extra \<le> max_safe_integer" and extra: "0 \<le> extra"
    and l: "map_of (db_bondLocks db) k = Some l" "bk_status l = BondLocked"
  defines "c \<equiv> bondCredit (si_action input) (bk_amount l) extra"
  shows "\<exists>l' r db'. finalizeBond input (read_bond l) extra now db = (Inr r, db') \<and> books db' \<and>
    moved db (bk_ownerId l) (bond_end_post (bk_amount l) c) db' \<and>
    bo_status r = Some (bondNextStatus (si_action input)) \<and> \<not> bo_idempotent r \<and>
    bk_status l' = bondNextStatus (si_action input) \<and> bk_credit l' = c \<and> bk_ownerId l' = bk_ownerId l \<and> bk_amount l' = bk_amount l \<and>
    db_bondLocks db' = AList.update k l' (db_bondLocks db) \<and>
    db_transfers db' = db_transfers db \<and> db_poolLocks db' = db_poolLocks db"
proof -
  let ?u = "bk_ownerId l" and ?x = "bk_amount l"
  have rows: "rows_ok db" using books by (rule books_rows)
  then have tb: "table_ok bond_lock_ok (db_bondLocks db)" by (simp add: rows_ok_def)
  have ok: "bk_lockId l = k" "0 < ?x" "bk_credit l = 0" using table_okD [OF tb l(1)] l(2) by (auto simp: bond_lock_ok_def)
  have held: "?x \<le> bal LockedBond db ?u" by (rule held_bond [OF books l])
  have hold: "bal Available db ?u + ?x + extra \<le> max_safe_integer"
    using two_accounts [OF rows, of Available LockedBond ?u] held room by simp
  have room1: "holdings db ?u \<le> max_safe_integer" using room extra by simp
  have c: "js_add ?x extra = ?x + extra"
    using hold ok extra bal_nonneg [OF rows, of Available ?u] by (intro js_add_safe) (simp add: is_safe_integer_def)
  have a: "js_add (bal Available db ?u) c = bal Available db ?u + c"
    using hold ok extra bal_nonneg [OF rows, of Available ?u]
    by (intro js_add_safe) (auto simp: is_safe_integer_def c_def bondCredit_def c)
  define j where "j = spread (bk_eventJson l)
      [(''finalizedAt'', JStr now), (''finalAction'', JStr (show_bond_action (si_action input))),
       (''reason'', JStr (si_reason input)), (''metadata'', JObj (orElse (si_metadata input) []))]"
  define l' where "l' = l\<lparr>bk_status := bondNextStatus (si_action input), bk_credit := c, bk_updatedAt := now, bk_eventJson := j\<rparr>"
  define b where "b = (readSettlementBalance db ?u now)\<lparr>sb_availableUsdc := bal Available db ?u + c,
    sb_lockedBondUsdc := bal LockedBond db ?u - ?x, sb_updatedAt := now\<rparr>"
  define db1 where "db1 = db\<lparr>db_bondLocks := AList.update k l' (db_bondLocks db),
    db_balances := AList.update ?u b (db_balances db)\<rparr>"
  have nn: "0 \<le> c" using ok extra by (simp add: c_def bondCredit_def c)
  have acc: "account_of a b = bal a db ?u + bond_end_post ?x c a" for a
    by (cases a) (simp_all add: b_def bond_end_post_def)
  have bok: "balance_ok ?u b"
    using rows held nn bal_nonneg [OF rows] by (simp add: balance_ok_def balance_check_def b_def)
  have ns: "bondNextStatus (si_action input) \<noteq> BondLocked" by (simp add: bondNextStatus_def)
  have "books db1"
  proof (rule books_post [OF books _ _ _ _ bok acc])
    show "table_ok bond_lock_ok (db_bondLocks db1)"
      using tb ok ns by (simp add: db1_def l'_def bond_lock_ok_def)
    show "booked a db1 v = booked a db v + (if v = ?u then bond_end_post ?x c a else 0)" for a v
      using usum_update [OF table_ok_akeys [OF tb] l(1), of bk_ownerId l' "post_bond a" v] l(2) ok ns
      by (cases a) (auto simp: booked_def bond_end_post_def l'_def db1_def)
  qed (use rows in \<open>auto simp: rows_ok_def db1_def\<close>)
  moreover have "moved db ?u (bond_end_post ?x c) db1" by (rule moved_update [OF _ acc]) (simp add: db1_def)
  moreover have upd: "updateBondLock ((read_bond l)\<lparr>bk_status := bondNextStatus (si_action input), bk_credit := c,
        bk_updatedAt := now, bk_eventJson := j\<rparr>) db =
      (Inr (), db\<lparr>db_bondLocks := AList.update k l' (db_bondLocks db)\<rparr>)"
    using l ok nn by (simp add: updateBondLock_def update_row_def l'_def)
  ultimately show ?thesis
    using held ok js_take [OF rows room1, of ?x LockedBond] a
    by (intro exI [of _ l']) (simp add: finalizeBond_def read_balance_eqs Let_def saveBalance_ok [OF bok]
        appendBondEvent_def flip: c_def j_def b_def,
        auto simp: moved_def bal_def l'_def db1_def)
qed

end
