(* ===== verification/LedgerSystem.thy ===== *)
theory LedgerSystem
  imports SettlementLedger
begin

text \<open>
  The ledger as a state machine: the operations of the rail, the pool funding and the bond funding
  in any order, on any inputs, whether they return or throw.  The invariant is that the books balance
  and no user holds more than a double can count; the records of transfers and locks only move
  forward.
\<close>

subsection \<open>Checks on inputs\<close>

lemma requireText_Inr [simp]:
  "requireSettlementText v l = Inr s \<longleftrightarrow> s = trim v \<and> s \<noteq> ''''"
  "requirePoolFundingText v l = Inr s \<longleftrightarrow> s = trim v \<and> s \<noteq> ''''"
  "requireBondText v l = Inr s \<longleftrightarrow> s = trim v \<and> s \<noteq> ''''"
  by (auto simp: requireSettlementText_def requirePoolFundingText_def requireBondText_def)

lemma assertAmount_Inr [simp]:
  "assertPositiveAmount v l = Inr x \<longleftrightarrow> safe_integer v = Some x \<and> 0 < x"
  "assertPositiveFunding v l = Inr x \<longleftrightarrow> safe_integer v = Some x \<and> 0 < x"
  "assertPositiveBond v l = Inr x \<longleftrightarrow> safe_integer v = Some x \<and> 0 < x"
  "assertNonNegativeAmount v l = Inr x \<longleftrightarrow> safe_integer v = Some x \<and> 0 \<le> x"
  "assertSettlementInteger v l = Inr x \<longleftrightarrow> safe_integer v = Some x \<and> 0 \<le> x"
  by (auto simp: assertPositiveAmount_def assertPositiveFunding_def assertPositiveBond_def
      assertNonNegativeAmount_def assertSettlementInteger_def Let_def split: option.splits if_splits)

subsection \<open>The invariant and progress\<close>

definition ledger_ok :: "settlement_db \<Rightarrow> bool" where
  "ledger_ok db \<longleftrightarrow> books db \<and> (\<forall>u. holdings db u \<le> max_safe_integer)"

definition transfer_forward :: "DotCastSettlementTransfer \<Rightarrow> DotCastSettlementTransfer \<Rightarrow> bool" where
  "transfer_forward t t' \<longleftrightarrow> t' = t \<or> same_transfer t t' \<and>
     (tf_status t = Observed \<and> tf_status t' = Credited \<or> tf_status t = Signed \<and> tf_status t' = Confirmed)"

definition bond_lock_forward :: "DotCastUsdcBondLock \<Rightarrow> DotCastUsdcBondLock \<Rightarrow> bool" where
  "bond_lock_forward l l' \<longleftrightarrow> l' = l \<or>
     bk_status l = BondLocked \<and> bk_status l' \<noteq> BondLocked \<and> bk_ownerId l' = bk_ownerId l \<and> bk_amount l' = bk_amount l"

definition forward :: "settlement_db \<Rightarrow> settlement_db \<Rightarrow> bool" where
  "forward db db' \<longleftrightarrow> table_forward transfer_forward (db_transfers db) (db_transfers db') \<and>
     table_forward pool_lock_forward (db_poolLocks db) (db_poolLocks db') \<and>
     table_forward bond_lock_forward (db_bondLocks db) (db_bondLocks db')"

lemma forward_refls [simp]: "transfer_forward t t" "bond_lock_forward m m"
  by (simp_all add: transfer_forward_def bond_lock_forward_def)

lemma forward_refl [simp]: "forward db db"
  by (simp add: forward_def)

lemma ledger_okD: "ledger_ok db \<Longrightarrow> books db" "ledger_ok db \<Longrightarrow> holdings db u \<le> max_safe_integer"
  by (simp_all add: ledger_ok_def)

text \<open>Both are kept by a step that posts to one user's accounts within the room there is.\<close>

lemma ledger_ok_moved:
  assumes "ledger_ok db" "books db'" "moved db u d db'"
    and "holdings db u + (d Available + d PendingDeposit + d PendingWithdrawal + d LockedPool + d LockedBond)
      \<le> max_safe_integer"
  shows "ledger_ok db'"
  using assms holdings_moved [OF assms(3)] by (simp add: ledger_ok_def)

definition kept :: "settlement_db \<Rightarrow> 'a res \<times> settlement_db \<Rightarrow> bool" where
  "kept db p \<longleftrightarrow> ledger_ok (snd p) \<and> forward db (snd p)"

lemma kept_same [simp]: "ledger_ok db \<Longrightarrow> kept db (r, db)"
  by (simp add: kept_def)

text \<open>An operation that begins with a check either throws with the store unchanged or goes on.\<close>

lemma kept_check:
  "ledger_ok db \<Longrightarrow> (\<And>a. m = Inr a \<Longrightarrow> kept db (k a db)) \<Longrightarrow> kept db (ebind (elift m) k db)"
  by (cases m) auto

lemma kept_control:
  "kept db (k (f db) db) \<Longrightarrow> kept db (ebind (eread f) k db)"
  "(x = None \<Longrightarrow> kept db (a db)) \<Longrightarrow> (\<And>t. x = Some t \<Longrightarrow> kept db (b t db)) \<Longrightarrow>
     kept db ((case x of None \<Rightarrow> a | Some t \<Rightarrow> b t) db)"
  "(c \<Longrightarrow> kept db (a db)) \<Longrightarrow> (\<not> c \<Longrightarrow> kept db (a' db)) \<Longrightarrow> kept db ((if c then a else a') db)"
  by (simp_all split: option.splits)

lemma kept_leaf:
  assumes "ledger_ok db"
  shows "kept db (ethrow e db)" "kept db (ereturn v db)" "kept db (eread f db)"
  using assms by simp_all

lemmas kept_intros = kept_check kept_control kept_leaf

lemma tables_of: "ledger_ok db \<Longrightarrow> table_ok transfer_ok (db_transfers db)"
    "ledger_ok db \<Longrightarrow> table_ok pool_lock_ok (db_poolLocks db)" "ledger_ok db \<Longrightarrow> table_ok bond_lock_ok (db_bondLocks db)"
  by (simp_all add: ledger_ok_def books_def rows_ok_def)

subsection \<open>Every operation keeps the ledger\<close>

lemma creditDevnetDeposit_kept:
  assumes ok: "ledger_ok db"
    and room: "\<And>x. safe_integer (di_amount input) = Some x \<Longrightarrow> holdings db (trim (di_userId input)) + x \<le> max_safe_integer"
  shows "kept db (creditDevnetDeposit clock env input db)"
proof -
  note tb = tables_of(1) [OF ok]
  have new: "kept db (recordNewDeposit rail (trim (di_userId input)) x r c now db)"
    if hyp: "safe_integer (di_amount input) = Some x" "0 < x" "r \<noteq> ''''" "getTransferByTxRef db r = None" for rail x r c now
  proof -
    note rm = room [OF hyp(1)]
    obtain res db' where run: "recordNewDeposit rail (trim (di_userId input)) x r c now db = (Inr res, db')" "books db'"
        "moved db (trim (di_userId input)) (\<lambda>a. post_transfer a (depositTransfer rail (trim (di_userId input)) x r c now)) db'"
        "db_transfers db' = db_transfers db @ [(depositTransferId r, depositTransfer rail (trim (di_userId input)) x r c now)]"
        "db_poolLocks db' = db_poolLocks db" "db_bondLocks db' = db_bondLocks db"
      using recordNewDeposit_ok [OF ledger_okD(1) [OF ok] rm hyp(2-4)] by blast
    have "ledger_ok db'"
      by (rule ledger_ok_moved [OF ok run(2,3)]) (use rm hyp(2) in \<open>auto simp: depositTransfer_def\<close>)
    then show ?thesis using run fresh_deposit [OF hyp(4) tb] by (simp add: kept_def forward_def)
  qed
  have old: "kept db (creditObservedDeposit rail t u (tf_amount t) c now db)"
    if hyp: "getTransferByTxRef db r = Some t" "tf_kind t = Deposit" "tf_status t \<noteq> Credited" and u: "tf_userId t = u"
    for rail t r c now u
  proof -
    note m = getTransferByTxRef_Some(1) [OF hyp(1) tb]
    have st: "tf_status t = Observed" using table_okD [OF tb m] hyp by (auto simp: transfer_ok_def)
    obtain res db' where run: "creditObservedDeposit rail t (tf_userId t) (tf_amount t) c now db = (Inr res, db')" "books db'"
        "moved db (tf_userId t) (\<lambda>a. case a of Available \<Rightarrow> tf_amount t | PendingDeposit \<Rightarrow> - tf_amount t | _ \<Rightarrow> 0) db'"
        "tf_status (ro_transfer res) = Credited" "same_transfer t (ro_transfer res)"
        "db_transfers db' = AList.update (tf_transferId t) (ro_transfer res) (db_transfers db)"
        "db_poolLocks db' = db_poolLocks db" "db_bondLocks db' = db_bondLocks db"
      using creditObservedDeposit_ok [OF ledger_okD [OF ok] m hyp(2,3)] ok by blast
    have "ledger_ok db'" by (rule ledger_ok_moved [OF ok run(2,3)]) (use ledger_okD(2) [OF ok] in simp)
    then show ?thesis using run st m u
      by (auto simp: kept_def forward_def transfer_forward_def intro!: table_forward_update)
  qed
  show ?thesis
    unfolding creditDevnetDeposit_def Let_def
    by (intro kept_intros ok) (use new old in auto)
qed

lemma requestDevnetWithdrawal_kept:
  assumes ok: "ledger_ok db"
  shows "kept db (requestDevnetWithdrawal clock env input db)"
proof -
  have sign: "kept db (signWithdrawal rail (withdrawalTransferId u i) u x d now db)"
    if hyp: "getTransfer db (withdrawalTransferId u i) = None" "0 < x" "d \<noteq> ''''" for rail u i x d now
  proof (cases "x \<le> bal Available db u")
    case True
    have fresh: "map_of (db_transfers db) (withdrawalTransferId u i) = None"
      using hyp(1) getTransfer_eq [OF tables_of(1) [OF ok]] by simp
    obtain res db' where run: "signWithdrawal rail (withdrawalTransferId u i) u x d now db = (Inr res, db')" "books db'"
        "moved db u (withdraw_post x) db'"
        "db_transfers db' = db_transfers db @ [(withdrawalTransferId u i, withdrawalTransfer rail (withdrawalTransferId u i) u x d now)]"
        "db_poolLocks db' = db_poolLocks db" "db_bondLocks db' = db_bondLocks db"
      using signWithdrawal_ok [OF ledger_okD [OF ok] hyp(2) True hyp(3) fresh] by blast
    have "ledger_ok db'"
      by (rule ledger_ok_moved [OF ok run(2,3)]) (use ledger_okD(2) [OF ok] in \<open>simp add: withdraw_post_def\<close>)
    then show ?thesis using run fresh by (simp add: kept_def forward_def)
  qed (use ok in \<open>simp add: signWithdrawal_def Let_def\<close>)
  show ?thesis
    unfolding requestDevnetWithdrawal_def Let_def by (intro kept_intros ok) (use sign in auto)
qed

lemma confirmMockWithdrawal_kept:
  assumes ok: "ledger_ok db"
  shows "kept db (confirmMockWithdrawal clock env input db)"
proof -
  note tb = tables_of(1) [OF ok]
  have conf: "kept db (confirmTransfer rail t r now db)"
    if hyp: "getTransfer db k = Some t" "tf_kind t = Withdrawal" "tf_status t = Signed \<or> tf_status t = Requested" for rail t r now k
  proof -
    have m: "map_of (db_transfers db) (tf_transferId t) = Some t" and st: "tf_status t = Signed"
      using hyp getTransfer_eq [OF tb] table_okD [OF tb, of k t] by (auto simp: transfer_ok_def)
    obtain res db' where run: "confirmTransfer rail t r now db = (Inr res, db')" "books db'"
        "moved db (tf_userId t) (\<lambda>a. if a = PendingWithdrawal then - tf_amount t else 0) db'"
        "tf_status (ro_transfer res) = Confirmed" "same_transfer t (ro_transfer res)"
        "db_transfers db' = AList.update (tf_transferId t) (ro_transfer res) (db_transfers db)"
        "db_poolLocks db' = db_poolLocks db" "db_bondLocks db' = db_bondLocks db"
      using confirmTransfer_ok [OF ledger_okD [OF ok] m hyp(2) st] by blast
    have "0 < tf_amount t" using table_okD [OF tb m] by (simp add: transfer_ok_def)
    then have "ledger_ok db'"
      by (intro ledger_ok_moved [OF ok run(2,3)]) (use ledger_okD(2) [OF ok, of "tf_userId t"] in simp)
    then show ?thesis using run st m
      by (auto simp: kept_def forward_def transfer_forward_def intro!: table_forward_update)
  qed
  show ?thesis
    unfolding confirmMockWithdrawal_def Let_def by (intro kept_intros ok) (use conf in auto)
qed

lemma books_ignore_events [simp]:
  "ledger_ok (db\<lparr>db_railEvents := re\<rparr>) = ledger_ok db" "forward db (db\<lparr>db_railEvents := re\<rparr>)"
  by (simp_all add: ledger_ok_def forward_def)

lemma reconcileDevnetSettlementRail_kept:
  "ledger_ok db \<Longrightarrow> kept db (reconcileDevnetSettlementRail rt clock env input db)"
  unfolding reconcileDevnetSettlementRail_def Let_def
  by (intro kept_intros) (auto simp: appendEvent_def kept_def)

lemma reserveUsdcPoolEntry_kept:
  assumes ok: "ledger_ok db"
  shows "kept db (reserveUsdcPoolEntry clock env input db)"
proof -
  note tb = tables_of(2) [OF ok]
  have lock: "kept db (lockPoolEntry fu pid eid u x now db)"
    if hyp: "getPoolFundingLock db (poolFundingLockId pid eid) = None" "0 < x" for fu pid eid u x now
  proof (cases "x \<le> bal Available db u")
    case True
    have fresh: "map_of (db_poolLocks db) (poolFundingLockId pid eid) = None" using hyp(1) by simp
    have "\<not> list_ex (\<lambda>l. pk_poolId l = pid \<and> pk_entryId l = eid) (map snd (db_poolLocks db))"
      using fresh tb by (force simp: list_ex_iff table_ok_def akeys_def pool_lock_ok_def)
    then obtain r db' where run: "lockPoolEntry fu pid eid u x now db = (Inr r, db')" "books db'"
        "moved db u (reserve_post x) db'" "db_poolLocks db' = db_poolLocks db @ [(poolFundingLockId pid eid, fo_lock r)]"
        "db_transfers db' = db_transfers db" "db_bondLocks db' = db_bondLocks db"
      using lockPoolEntry_ok [OF ledger_okD [OF ok] hyp(2) True fresh] by blast
    have "ledger_ok db'"
      by (rule ledger_ok_moved [OF ok run(2,3)]) (use ledger_okD(2) [OF ok] in \<open>simp add: reserve_post_def\<close>)
    then show ?thesis using run fresh by (simp add: kept_def forward_def)
  qed (use ok in \<open>simp add: lockPoolEntry_def read_balance_eqs Let_def\<close>)
  show ?thesis
    unfolding reserveUsdcPoolEntry_def Let_def by (intro kept_intros ok) (use lock in auto)
qed

lemma releaseUsdcPoolEntryReservation_kept:
  assumes ok: "ledger_ok db"
  shows "kept db (releaseUsdcPoolEntryReservation clock env input db)"
proof -
  note tb = tables_of(2) [OF ok]
  have rel: "kept db (releasePoolLock fu l u reason now db)"
    if hyp: "requirePoolFundingLock db pid eid = Inr l" "pk_userId l = u" "pk_status l = PoolLocked" for fu l u reason now pid eid
  proof -
    have l: "map_of (db_poolLocks db) (pk_lockId l) = Some l" "pk_payout l = None"
      using hyp table_okD [OF tb, of "poolFundingLockId pid eid" l]
      by (auto simp: requirePoolFundingLock_def pool_lock_ok_def split: option.splits)
    obtain r db' where run: "releasePoolLock fu l (pk_userId l) reason now db = (Inr r, db')" "books db'"
        "moved db (pk_userId l) (finish_post (pk_amount l) (pk_amount l)) db'" "finished_lock l (fo_lock r)"
        "db_poolLocks db' = AList.update (pk_lockId l) (fo_lock r) (db_poolLocks db)"
        "db_transfers db' = db_transfers db" "db_bondLocks db' = db_bondLocks db"
      using releasePoolLock_ok [OF ledger_okD [OF ok] l(1) hyp(3) l(2)] by blast
    have "ledger_ok db'"
      by (rule ledger_ok_moved [OF ok run(2,3)]) (use ledger_okD(2) [OF ok] in \<open>simp add: finish_post_def\<close>)
    then show ?thesis using run l(1) hyp(2,3)
      by (auto simp: kept_def forward_def pool_lock_forward_def intro!: table_forward_update)
  qed
  show ?thesis
    unfolding releaseUsdcPoolEntryReservation_def Let_def by (intro kept_intros ok) (use rel in auto)
qed

lemma reserveUsdcBond_kept:
  assumes ok: "ledger_ok db"
  shows "kept db (reserveUsdcBond clock env input db)"
proof -
  have lock: "kept db (lockBond input k u x now db)"
    if hyp: "getBondLock db k = None" "0 < x" for k u x now
  proof (cases "x \<le> bal Available db u")
    case True
    have fresh: "map_of (db_bondLocks db) k = None" using hyp(1) by (simp add: getBondLock_def)
    obtain r l db' where run: "lockBond input k u x now db = (Inr r, db')" "books db'"
        "moved db u (bond_post x) db'" "db_bondLocks db' = db_bondLocks db @ [(k, l)]"
        "db_transfers db' = db_transfers db" "db_poolLocks db' = db_poolLocks db"
      using lockBond_ok [OF ledger_okD [OF ok] hyp(2) True fresh, of input now] by blast
    have "ledger_ok db'"
      by (rule ledger_ok_moved [OF ok run(2,3)]) (use ledger_okD(2) [OF ok] in \<open>simp add: bond_post_def\<close>)
    then show ?thesis using run fresh by (simp add: kept_def forward_def)
  qed (use ok in \<open>simp add: lockBond_def read_balance_eqs Let_def\<close>)
  show ?thesis
    unfolding reserveUsdcBond_def Let_def by (intro kept_intros ok) (use lock in auto)
qed

definition bond_room :: "settlement_db \<Rightarrow> SettleUsdcBondInput \<Rightarrow> bool" where
  "bond_room db input \<longleftrightarrow>
     (\<forall>l x. map_of (db_bondLocks db) (trim (si_lockId input)) = Some l \<longrightarrow>
        safe_integer (orElse (si_creditMinorUnits input) (Fin 0)) = Some x \<longrightarrow>
        holdings db (bk_ownerId l) + x \<le> max_safe_integer)"

lemma settleUsdcBond_kept:
  assumes ok: "ledger_ok db" and room: "bond_room db input"
  shows "kept db (settleUsdcBond clock env input db)"
proof -
  note tb = tables_of(3) [OF ok]
  have fin: "kept db (finalizeBond input rl x now db)"
    if hyp: "getBondLock db (trim (si_lockId input)) = Some rl" "bk_status rl = BondLocked"
      "safe_integer (orElse (si_creditMinorUnits input) (Fin 0)) = Some x" "0 \<le> x" for rl x now
  proof -
    obtain l where l: "map_of (db_bondLocks db) (trim (si_lockId input)) = Some l" "rl = read_bond l"
      using hyp(1) by (auto simp: getBondLock_def simp del: bondLock_roundtrip)
    then have st: "bk_status l = BondLocked" using hyp(2) by simp
    have rm: "holdings db (bk_ownerId l) + x \<le> max_safe_integer" using room l(1) hyp(3) by (simp add: bond_room_def)
    have amt: "0 < bk_amount l" using table_okD [OF tb l(1)] by (simp add: bond_lock_ok_def)
    obtain l' r db' where run: "finalizeBond input rl x now db = (Inr r, db')" "books db'"
        "moved db (bk_ownerId l) (bond_end_post (bk_amount l) (bondCredit (si_action input) (bk_amount l) x)) db'"
        "bk_status l' = bondNextStatus (si_action input)" "bk_ownerId l' = bk_ownerId l" "bk_amount l' = bk_amount l"
        "db_bondLocks db' = AList.update (trim (si_lockId input)) l' (db_bondLocks db)"
        "db_transfers db' = db_transfers db" "db_poolLocks db' = db_poolLocks db"
      using finalizeBond_ok [OF ledger_okD(1) [OF ok] rm hyp(4) l(1) st] unfolding l(2) by blast
    have "bal LockedBond db (bk_ownerId l) \<le> holdings db (bk_ownerId l)"
      by (rule bal_le_holdings [OF books_rows [OF ledger_okD(1) [OF ok]]])
    then have "js_add (bk_amount l) x = bk_amount l + x"
      using rm amt hyp(4) held_bond [OF ledger_okD(1) [OF ok] l(1) st] by (intro js_add_safe) (simp add: is_safe_integer_def)
    then have "ledger_ok db'"
      by (intro ledger_ok_moved [OF ok run(2,3)]) (use rm amt hyp(4) in \<open>simp add: bond_end_post_def bondCredit_def\<close>)
    then show ?thesis using run l(1) st
      by (auto simp: kept_def forward_def bond_lock_forward_def bondNextStatus_def intro!: table_forward_update)
  qed
  show ?thesis
    unfolding settleUsdcBond_def Let_def by (intro kept_intros ok) (use fin in auto)
qed

text \<open>A snapshot whose user entries are those that were reserved, with room for the pay-outs.\<close>

definition snapshot_funded :: "settlement_db \<Rightarrow> DotCastPoolSnapshot \<Rightarrow> bool" where
  "snapshot_funded db snapshot \<longleftrightarrow>
     (\<forall>e \<in> set (s_entries snapshot). entry_funded db (s_pool snapshot) e) \<and>
     distinct (map e_id (filter (\<lambda>e. e_funding e = UserFunded) (s_entries snapshot))) \<and>
     (\<forall>u. holdings db u + user_returns (s_entries snapshot) u \<le> max_safe_integer)"

lemma holdings_settled:
  assumes "entries_settled db pool es db'" "books db" "\<forall>e \<in> set es. entry_funded db pool e"
  shows "holdings db' u \<le> holdings db u + user_returns es u"
proof -
  let ?f = "\<lambda>e. if entry_open db pool e \<and> e_userId e = u then entry_return e - e_amount e else 0"
  have "settled_amount db pool xs Available u + settled_amount db pool xs PendingDeposit u +
      settled_amount db pool xs PendingWithdrawal u + settled_amount db pool xs LockedPool u +
      settled_amount db pool xs LockedBond u = sum_list (map ?f xs)" for xs
    by (induction xs) (auto simp: settled_amount_def finish_post_def)
  from this [of es] have "holdings db' u = holdings db u + sum_list (map ?f es)"
    using assms(1) by (simp add: entries_settled_def holdings_def)
  moreover have "sum_list (map ?f es) \<le> user_returns es u"
    unfolding user_returns_def
  proof (rule sum_list_mono)
    fix e assume e: "e \<in> set es"
    have tb: "table_ok pool_lock_ok (db_poolLocks db)" using assms(2) by (simp add: books_def rows_ok_def)
    have "0 < e_amount e" if "entry_open db pool e"
      using that bspec [OF assms(3) e] table_okD [OF tb, of "entry_lock_id pool e"]
      by (auto simp: entry_open_def entry_funded_def pool_lock_ok_def)
    then show "?f e \<le> (if e_funding e = UserFunded \<and> e_userId e = u then entry_return e else 0)"
      using bspec [OF assms(3) e] by (auto simp: entry_open_def entry_funded_def)
  qed
  ultimately show ?thesis by simp
qed

lemma applyUsdcPoolTerminalSettlement_kept:
  assumes ok: "ledger_ok db" and funded: "snapshot_funded db (ti_snapshot input)"
  shows "kept db (applyUsdcPoolTerminalSettlement env input db)"
proof -
  let ?s = "ti_snapshot input"
  have loop: "kept db (ebind (settleEntryLocks (s_pool ?s) now 0 0 (s_entries ?s)) (\<lambda>(a, i). ereturn (f a i)) db)" for now f
  proof -
    obtain db' a i where run: "entries_settled db (s_pool ?s) (s_entries ?s) db'"
        "settleEntryLocks (s_pool ?s) now 0 0 (s_entries ?s) db = (Inr (a, i), db')"
      using settleEntryLocks_ok [OF ledger_okD(1) [OF ok], of "s_entries ?s" "s_pool ?s" now 0 0] funded
      by (auto simp: snapshot_funded_def)
    have "holdings db' u \<le> max_safe_integer" for u
      using holdings_settled [OF run(1) ledger_okD(1) [OF ok], of u] funded
      by (auto simp: snapshot_funded_def intro: order_trans)
    then have "ledger_ok db'" using run(1) by (simp add: ledger_ok_def entries_settled_def)
    then show ?thesis using run by (simp add: kept_def forward_def entries_settled_def)
  qed
  show ?thesis
    unfolding applyUsdcPoolTerminalSettlement_def Let_def by (intro kept_intros ok) (use loop in simp)
qed

subsection \<open>The state machine\<close>

inductive ledger_step :: "settlement_db \<Rightarrow> settlement_db \<Rightarrow> bool" where
  step_deposit: "(\<And>x. safe_integer (di_amount di) = Some x \<Longrightarrow> holdings db (trim (di_userId di)) + x \<le> max_safe_integer) \<Longrightarrow>
    ledger_step db (snd (creditDevnetDeposit clock (env :: DotCastUsdcPoolFundingEnv) di db))"
| step_withdraw: "ledger_step db (snd (requestDevnetWithdrawal clock (env :: DotCastUsdcPoolFundingEnv) wi db))"
| step_confirm: "ledger_step db (snd (confirmMockWithdrawal clock (env :: DotCastUsdcPoolFundingEnv) ki db))"
| step_reconcile: "ledger_step db (snd (reconcileDevnetSettlementRail rt clock (env :: DotCastUsdcPoolFundingEnv) ni db))"
| step_reserve: "ledger_step db (snd (reserveUsdcPoolEntry clock (env :: DotCastUsdcPoolFundingEnv) ui db))"
| step_release: "ledger_step db (snd (releaseUsdcPoolEntryReservation clock (env :: DotCastUsdcPoolFundingEnv) li db))"
| step_terminal: "snapshot_funded db (ti_snapshot ti) \<Longrightarrow>
    ledger_step db (snd (applyUsdcPoolTerminalSettlement (env :: DotCastUsdcPoolFundingEnv) ti db))"
| step_bond: "ledger_step db (snd (reserveUsdcBond clock (env :: DotCastUsdcPoolFundingEnv) gi db))"
| step_bond_end: "bond_room db si \<Longrightarrow> ledger_step db (snd (settleUsdcBond clock (env :: DotCastUsdcPoolFundingEnv) si db))"

lemma ledger_step_kept: "ledger_step db db' \<Longrightarrow> ledger_ok db \<Longrightarrow> ledger_ok db' \<and> forward db db'"
proof (induction rule: ledger_step.induct)
  case (step_deposit di db clock env)
  then show ?case using creditDevnetDeposit_kept [of db di clock env] by (auto simp: kept_def)
next
  case (step_withdraw db clock env wi)
  then show ?case using requestDevnetWithdrawal_kept [of db clock env wi] by (simp add: kept_def)
next
  case (step_confirm db clock env ki)
  then show ?case using confirmMockWithdrawal_kept [of db clock env ki] by (simp add: kept_def)
next
  case (step_reconcile db rt clock env ni)
  then show ?case using reconcileDevnetSettlementRail_kept [of db rt clock env ni] by (simp add: kept_def)
next
  case (step_reserve db clock env ui)
  then show ?case using reserveUsdcPoolEntry_kept [of db clock env ui] by (simp add: kept_def)
next
  case (step_release db clock env li)
  then show ?case using releaseUsdcPoolEntryReservation_kept [of db clock env li] by (simp add: kept_def)
next
  case (step_terminal db ti env)
  then show ?case using applyUsdcPoolTerminalSettlement_kept [of db ti env] by (simp add: kept_def)
next
  case (step_bond db clock env gi)
  then show ?case using reserveUsdcBond_kept [of db clock env gi] by (simp add: kept_def)
next
  case (step_bond_end db si clock env)
  then show ?case using settleUsdcBond_kept [of db si clock env] by (simp add: kept_def)
qed

lemma holdings_empty [simp]: "holdings empty_db u = 0"
  by (simp add: holdings_def bal_def empty_db_def)

interpretation ledger: step_system "\<lambda>db. db = empty_db" ledger_step ledger_ok
  by unfold_locales (auto simp: ledger_ok_def books_empty max_safe_integer_def dest: ledger_step_kept [unfolded ledger_ok_def])

lemma bond_lock_forward_trans: "bond_lock_forward l m \<Longrightarrow> bond_lock_forward m n \<Longrightarrow> bond_lock_forward l n"
  by (auto simp: bond_lock_forward_def)

lemma transfer_forward_trans: "transfer_forward t u \<Longrightarrow> transfer_forward u v \<Longrightarrow> transfer_forward t v"
  by (auto simp: transfer_forward_def same_transfer_def)

lemma forward_trans: "forward a b \<Longrightarrow> forward b c \<Longrightarrow> forward a c"
  unfolding forward_def table_forward_def
  using pool_lock_forward_trans bond_lock_forward_trans transfer_forward_trans by meson

lemma steps_forward: "ledger_step\<^sup>*\<^sup>* db db' \<Longrightarrow> ledger_ok db \<Longrightarrow> forward db db'"
proof (induction rule: rtranclp_induct)
  case (step y z)
  then show ?case using ledger.steps_inv [OF step.hyps(1) step.prems] ledger_step_kept forward_trans by blast
qed simp

subsection \<open>The books always balance\<close>

text \<open>
  C27: In every state the operations can reach from empty tables, in any order, with any inputs and
  whether they return or throw, each of the five accounts of each user is exactly what the transfers
  and locks on record post to it, and no account is negative.  The tables refine double-entry
  book-keeping.
\<close>

theorem ledger_books_balance:
  assumes "reach (\<lambda>db. db = empty_db) ledger_step db"
  shows "bal a db u = booked a db u \<and> 0 \<le> bal a db u"
  using ledger.reach_inv [OF assms] bal_nonneg [of db a u] by (auto simp: ledger_ok_def books_def)

definition example_rail_env :: DotCastUsdcPoolFundingEnv where
  "example_rail_env =
     \<lparr>re_mode = Some ''devnet'', re_cluster = Some ''devnet'', re_mint = None, re_signerMode = Some ''mock'',
      re_withdrawalsApproved = None, re_withdrawalMax = None, re_confirmations = None,
      re_usdcPoolsEnabled = Some ''true''\<rparr>"

definition example_deposit :: CreditDevnetDepositInput where
  "example_deposit =
     \<lparr>di_userId = ''u1'', di_amount = Fin 500, di_txRef = ''tx'', di_confirmations = Fin 1, di_now = Some ''t''\<rparr>"

definition example_rail :: DotCastSettlementRailStatus where
  "example_rail = readSolanaUsdcSettlementRailStatus example_rail_env"

lemma example_rail_ready: "assertDevnetMockRail example_rail_env = Inr example_rail"
  by (simp add: assertDevnetMockRail_def example_rail_def readSolanaUsdcSettlementRailStatus_def
      example_rail_env_def parseRailMode_def parseCluster_def parseSignerMode_def nullableText_def
      truthy_text_def orElse_def DOTCAST_SOLANA_DEVNET_USDC_MINT_def Let_def)

lemma example_confirmations: "rail_depositConfirmationsRequired example_rail = 1"
  by (simp add: example_rail_def readSolanaUsdcSettlementRailStatus_def example_rail_env_def
      parsePositiveEnvInt_def truthy_text_def Let_def)

definition example_db :: settlement_db where
  "example_db = snd (creditDevnetDeposit ''t'' example_rail_env example_deposit empty_db)"

lemma safe_500: "safe_integer (Fin 500) = Some 500" "safe_integer (Fin 1) = Some 1" "safe_integer (Fin 300) = Some 300"
  using safe_integer_of_int [of 500] safe_integer_of_int [of 1] safe_integer_of_int [of 300]
  by (simp_all add: is_safe_integer_def max_safe_integer_def)

lemma trim_u1: "trim ''u1'' = ''u1''" "trim ''tx'' = ''tx''"
  by (simp_all add: trim_def is_white_def)

lemma example_db_reach: "reach (\<lambda>db. db = empty_db) ledger_step example_db"
proof -
  have "ledger_step empty_db example_db" unfolding example_db_def
    by (rule step_deposit) (auto simp: example_deposit_def safe_500 max_safe_integer_def)
  moreover have "reach (\<lambda>db. db = empty_db) ledger_step empty_db" by (rule reach_init) simp
  ultimately show ?thesis by (rule reach_step [rotated])
qed

lemma example_db_facts:
  "bal Available example_db ''u1'' = 500"
  "db_transfers example_db = [(depositTransferId ''tx'', depositTransfer example_rail ''u1'' 500 ''tx'' 1 ''t'')]"
  "db_poolLocks example_db = []" "db_bondLocks example_db = []"
proof -
  have s: "requireSettlementText ''u1'' l = Inr ''u1''" "requireSettlementText ''tx'' l = Inr ''tx''"
    "assertPositiveAmount (Fin 500) l = Inr 500" "assertSettlementInteger (Fin 1) l = Inr 1" for l
    by (simp_all add: trim_u1 safe_500)
  have g: "getTransferByTxRef empty_db ''tx'' = None" by (simp add: getTransferByTxRef_None empty_db_def)
  obtain res db' where run: "recordNewDeposit example_rail ''u1'' 500 ''tx'' 1 ''t'' empty_db = (Inr res, db')"
      "moved empty_db ''u1'' (\<lambda>a. post_transfer a (depositTransfer example_rail ''u1'' 500 ''tx'' 1 ''t'')) db'"
      "db_transfers db' = db_transfers empty_db @ [(depositTransferId ''tx'', depositTransfer example_rail ''u1'' 500 ''tx'' 1 ''t'')]"
      "db_poolLocks db' = db_poolLocks empty_db" "db_bondLocks db' = db_bondLocks empty_db"
    using recordNewDeposit_ok [OF books_empty _ _ _ g, of "''u1''" 500 example_rail 1 "''t''"]
    by (auto simp: max_safe_integer_def)
  have "example_db = db'"
    using run(1) g by (simp add: example_db_def creditDevnetDeposit_def example_rail_ready example_deposit_def s orElse_def Let_def)
  then show "bal Available example_db ''u1'' = 500"
    "db_transfers example_db = [(depositTransferId ''tx'', depositTransfer example_rail ''u1'' 500 ''tx'' 1 ''t'')]"
    "db_poolLocks example_db = []" "db_bondLocks example_db = []"
    using run(2-5) by (simp_all add: moved_def bal_def empty_db_def depositTransfer_def example_confirmations)
qed

theorem ledger_books_balance_witness:
  "booked Available example_db ''u1'' = 500"
  using ledger_books_balance [OF example_db_reach, of Available "''u1''"] example_db_facts(1) by simp

text \<open>
  C28: What is final stays.  From any reachable state, a credited deposit, a confirmed withdrawal, a
  released, settled or refunded pool lock and a released or slashed bond are never changed by any later
  operation, and an open lock keeps its owner and its amount until it is ended: nothing is credited,
  confirmed, paid out or released twice.
\<close>

theorem ledger_records_final:
  assumes r: "reach (\<lambda>db. db = empty_db) ledger_step db" and steps: "ledger_step\<^sup>*\<^sup>* db db'"
  shows "(\<forall>k t. map_of (db_transfers db) k = Some t \<and> tf_status t \<in> {Credited, Confirmed} \<longrightarrow>
      map_of (db_transfers db') k = Some t) \<and>
    (\<forall>k l. map_of (db_poolLocks db) k = Some l \<longrightarrow> (\<exists>l'. map_of (db_poolLocks db') k = Some l' \<and>
      pk_userId l' = pk_userId l \<and> pk_amount l' = pk_amount l \<and> (pk_status l \<noteq> PoolLocked \<longrightarrow> l' = l))) \<and>
    (\<forall>k l. map_of (db_bondLocks db) k = Some l \<longrightarrow> (\<exists>l'. map_of (db_bondLocks db') k = Some l' \<and>
      bk_ownerId l' = bk_ownerId l \<and> bk_amount l' = bk_amount l \<and> (bk_status l \<noteq> BondLocked \<longrightarrow> l' = l)))"
proof (intro conjI allI impI)
  have f: "forward db db'" using steps_forward [OF steps] ledger.reach_inv [OF r] by simp
  fix k
  show "map_of (db_transfers db') k = Some t"
    if "map_of (db_transfers db) k = Some t \<and> tf_status t \<in> {Credited, Confirmed}" for t
    using f that by (fastforce simp: forward_def table_forward_def transfer_forward_def)
  show "\<exists>l'. map_of (db_poolLocks db') k = Some l' \<and> pk_userId l' = pk_userId l \<and> pk_amount l' = pk_amount l \<and>
      (pk_status l \<noteq> PoolLocked \<longrightarrow> l' = l)" if "map_of (db_poolLocks db) k = Some l" for l
    using f that by (fastforce simp: forward_def table_forward_def pool_lock_forward_def finished_lock_def)
  show "\<exists>l'. map_of (db_bondLocks db') k = Some l' \<and> bk_ownerId l' = bk_ownerId l \<and> bk_amount l' = bk_amount l \<and>
      (bk_status l \<noteq> BondLocked \<longrightarrow> l' = l)" if "map_of (db_bondLocks db) k = Some l" for l
    using f that by (fastforce simp: forward_def table_forward_def bond_lock_forward_def)
qed


definition example_withdrawal :: RequestDevnetWithdrawalInput where
  "example_withdrawal =
     \<lparr>wi_userId = ''u1'', wi_amount = Fin 300, wi_destination = ''4zMMC9srt5Ri5X14GAgXhaHii3GnPAEERYPJgZJDncDU'',
      wi_idempotencyKey = ''k'', wi_now = Some ''t2''\<rparr>"

theorem ledger_records_final_witness:
  "map_of (db_transfers (snd (requestDevnetWithdrawal ''t2'' example_rail_env example_withdrawal example_db)))
     (depositTransferId ''tx'') = Some (depositTransfer example_rail ''u1'' 500 ''tx'' 1 ''t'')"
proof -
  have "ledger_step\<^sup>*\<^sup>* example_db (snd (requestDevnetWithdrawal ''t2'' example_rail_env example_withdrawal example_db))"
    by (rule r_into_rtranclp) (rule step_withdraw)
  from ledger_records_final [OF example_db_reach this] example_db_facts(2) show ?thesis
    by (simp add: depositTransfer_def example_confirmations)
qed

end
