(* ===== verification/LedgerOperations.thy ===== *)
theory LedgerOperations
  imports LedgerSystem
begin

text \<open>
  What each operation of the ledger does: when it is available at all, what it moves between the
  accounts of a user, what a retry does, and what the reconciliation reports.
\<close>

subsection \<open>The rail is a devnet rail\<close>

definition rail_available :: "'e DotCastSettlementRailEnv_scheme \<Rightarrow> bool" where
  "rail_available env \<longleftrightarrow> re_mode env = Some ''devnet'' \<and> re_cluster env \<noteq> Some ''mainnet-beta'' \<and>
     re_signerMode env \<noteq> Some ''external''"

lemma rail_fields:
  "rail_mode (readSolanaUsdcSettlementRailStatus env) = parseRailMode (re_mode env)"
  "rail_cluster (readSolanaUsdcSettlementRailStatus env) = parseCluster (re_cluster env) (parseRailMode (re_mode env))"
  "rail_signerMode (readSolanaUsdcSettlementRailStatus env) = parseSignerMode (re_signerMode env) (parseRailMode (re_mode env))"
  "rail_depositConfirmationsRequired (readSolanaUsdcSettlementRailStatus env) = parsePositiveEnvInt (re_confirmations env) 1"
  "rail_withdrawalMaxMinorUnits (readSolanaUsdcSettlementRailStatus env) = parsePositiveEnvInt (re_withdrawalMax env) 1000000"
  by (simp_all add: readSolanaUsdcSettlementRailStatus_def Let_def)

lemma mint_configured: "rail_mint (readSolanaUsdcSettlementRailStatus env) \<noteq> ''''"
  by (auto simp: readSolanaUsdcSettlementRailStatus_def Let_def orElse_def nullableText_def truthy_text_def
      DOTCAST_SOLANA_DEVNET_USDC_MINT_def DOTCAST_SOLANA_MAINNET_USDC_MINT_def split: option.splits if_splits)

lemma rail_ready_iff: "rail_ready (readSolanaUsdcSettlementRailStatus env) \<longleftrightarrow> rail_available env"
proof -
  have "rail_ready (readSolanaUsdcSettlementRailStatus env) \<longleftrightarrow>
      parseRailMode (re_mode env) = RailDevnet \<and> parseCluster (re_cluster env) RailDevnet = Devnet \<and>
      parseSignerMode (re_signerMode env) RailDevnet = SignerMock"
    using mint_configured [of env] by (auto simp: readSolanaUsdcSettlementRailStatus_def Let_def)
  then show ?thesis by (auto simp: rail_available_def parseRailMode_def parseCluster_def parseSignerMode_def)
qed

lemma assertDevnetMockRail_cases:
  "if rail_available env then assertDevnetMockRail env = Inr (readSolanaUsdcSettlementRailStatus env)
   else \<exists>e. assertDevnetMockRail env = Inl e"
  using rail_ready_iff [of env]
  by (auto simp: assertDevnetMockRail_def rail_fields Let_def rail_available_def parseRailMode_def
      parseCluster_def parseSignerMode_def)

lemma assertUsdcPoolFundingReady_cases:
  "if rail_available env \<and> re_usdcPoolsEnabled env = Some ''true''
   then assertUsdcPoolFundingReady env = Inr (readUsdcPoolFundingStatus env) \<and> assertBondFundingReady env = Inr ()
   else (\<exists>e. assertUsdcPoolFundingReady env = Inl e) \<and> (\<exists>e. assertBondFundingReady env = Inl e)"
  using rail_ready_iff [of env]
  by (auto simp: assertUsdcPoolFundingReady_def assertBondFundingReady_def readUsdcPoolFundingStatus_def Let_def)

lemma parsePositiveEnvInt_pos: "0 < fallback \<Longrightarrow> 0 < parsePositiveEnvInt v fallback"
  by (auto simp: parsePositiveEnvInt_def split: option.splits)

text \<open>
  C35: No money moves outside the devnet mock rail.  Unless the mode is devnet, the cluster is not
  mainnet and the signer is not external, every operation on deposits, withdrawals, pool entries and
  bonds throws and leaves the tables as they are; where the rail is available, it is on devnet with the
  mock signer, asks for at least one confirmation and has a positive withdrawal limit.
\<close>

theorem settlement_rail_devnet_only:
  "if rail_available env
   then \<exists>rail. assertDevnetMockRail env = Inr rail \<and> rail_cluster rail = Devnet \<and> rail_signerMode rail = SignerMock \<and>
     0 < rail_depositConfirmationsRequired rail \<and> 0 < rail_withdrawalMaxMinorUnits rail
   else (\<exists>e. creditDevnetDeposit clock env di db = (Inl e, db)) \<and>
     (\<exists>e. requestDevnetWithdrawal clock env wi db = (Inl e, db)) \<and>
     (\<exists>e. confirmMockWithdrawal clock env ki db = (Inl e, db)) \<and>
     (\<exists>e. reconcileDevnetSettlementRail rt clock env ni db = (Inl e, db)) \<and>
     (\<exists>e. reserveUsdcPoolEntry clock env ui db = (Inl e, db)) \<and>
     (\<exists>e. releaseUsdcPoolEntryReservation clock env li db = (Inl e, db)) \<and>
     (\<exists>e. applyUsdcPoolTerminalSettlement env ti db = (Inl e, db)) \<and>
     (\<exists>e. reserveUsdcBond clock env gi db = (Inl e, db)) \<and>
     (\<exists>e. settleUsdcBond clock env si db = (Inl e, db))"
proof (cases "rail_available env")
  case True
  then show ?thesis
    using assertDevnetMockRail_cases [of env]
    by (auto simp: rail_fields rail_available_def parseRailMode_def parseCluster_def parseSignerMode_def
        parsePositiveEnvInt_pos)
next
  case False
  then obtain e1 e2 e3 where "assertDevnetMockRail env = Inl e1" "assertUsdcPoolFundingReady env = Inl e2"
      "assertBondFundingReady env = Inl e3"
    using assertDevnetMockRail_cases [of env] assertUsdcPoolFundingReady_cases [of env] by auto
  then show ?thesis using False
    by (simp add: creditDevnetDeposit_def requestDevnetWithdrawal_def confirmMockWithdrawal_def
        reconcileDevnetSettlementRail_def reserveUsdcPoolEntry_def releaseUsdcPoolEntryReservation_def
        applyUsdcPoolTerminalSettlement_def reserveUsdcBond_def settleUsdcBond_def)
qed

subsection \<open>Deposits\<close>

definition deposit_ref :: "settlement_db \<Rightarrow> string \<Rightarrow> bool" where
  "deposit_ref db r \<longleftrightarrow> (\<forall>k t. map_of (db_transfers db) k = Some t \<and> tf_txRef t = Some r \<longrightarrow> tf_kind t = Deposit)"

lemma deposit_by_txRef:
  assumes tb: "table_ok transfer_ok (db_transfers db)"
    and dep: "deposit_ref db r"
  shows "getTransferByTxRef db r = map_of (db_transfers db) (depositTransferId r)"
proof (cases "getTransferByTxRef db r")
  case None
  then show ?thesis using fresh_deposit [OF _ tb] by simp
next
  case (Some t)
  note t = getTransferByTxRef_Some [OF Some tb]
  have "tf_kind t = Deposit" using dep t by (auto simp: deposit_ref_def)
  then have "tf_transferId t = depositTransferId r" using table_okD [OF tb t(1)] t(2) by (simp add: transfer_ok_def)
  then show ?thesis using Some t(1) by simp
qed

definition deposit_ok :: "CreditDevnetDepositInput \<Rightarrow> int \<Rightarrow> int \<Rightarrow> bool" where
  "deposit_ok input x c \<longleftrightarrow> trim (di_userId input) \<noteq> '''' \<and> trim (di_txRef input) \<noteq> '''' \<and>
     safe_integer (di_amount input) = Some x \<and> 0 < x \<and> safe_integer (di_confirmations input) = Some c \<and> 0 \<le> c"

lemma creditDevnetDeposit_run:
  assumes "assertDevnetMockRail env = Inr rail" "deposit_ok input x c"
  shows "creditDevnetDeposit clock env input db =
    (case getTransferByTxRef db (trim (di_txRef input)) of
       None \<Rightarrow> recordNewDeposit rail (trim (di_userId input)) x (trim (di_txRef input)) c (orElse (di_now input) clock) db
     | Some t \<Rightarrow>
         if tf_kind t \<noteq> Deposit \<or> tf_userId t \<noteq> trim (di_userId input) \<or> tf_amount t \<noteq> x
         then (Inl (CodedError ''DEPOSIT_TX_REF_CONFLICT'' ''deposit txRef already belongs to a different transfer'' 409), db)
         else if tf_status t = Credited \<or> c < rail_depositConfirmationsRequired rail
         then (Inr \<lparr>ro_status = (if tf_status t = Credited then Credited else Observed), ro_idempotent = True,
                ro_transfer = t, ro_balance = readSettlementBalance db (trim (di_userId input)) (orElse (di_now input) clock),
                ro_rail = rail\<rparr>, db)
         else creditObservedDeposit rail t (trim (di_userId input)) x c (orElse (di_now input) clock) db)"
proof -
  have c: "requireSettlementText (di_userId input) l = Inr (trim (di_userId input))"
    "requireSettlementText (di_txRef input) l = Inr (trim (di_txRef input))"
    "assertPositiveAmount (di_amount input) l = Inr x" "assertSettlementInteger (di_confirmations input) l = Inr c" for l
    using assms(2) by (simp_all add: deposit_ok_def)
  show ?thesis
    by (cases "getTransferByTxRef db (trim (di_txRef input))") (auto simp: creditDevnetDeposit_def assms(1) c Let_def)
qed

lemma creditDevnetDeposit_again:
  assumes "assertDevnetMockRail env = Inr rail" "deposit_ok input x c" "books db" "deposit_ref db (trim (di_txRef input))"
    and t: "map_of (db_transfers db) (depositTransferId (trim (di_txRef input))) = Some t"
      "tf_userId t = trim (di_userId input)" "tf_amount t = x" "tf_status t = Credited"
  shows "\<exists>res. creditDevnetDeposit clock env input db = (Inr res, db) \<and> ro_status res = Credited \<and> ro_idempotent res"
proof -
  have tb: "table_ok transfer_ok (db_transfers db)" using assms(3) by (simp add: books_def rows_ok_def)
  have "tf_kind t = Deposit"
    using table_okD [OF tb t(1)] by (auto simp: transfer_ok_def split: DotCastSettlementTransferKind.splits)
  then show ?thesis
    using creditDevnetDeposit_run [OF assms(1,2), of clock db] deposit_by_txRef [OF tb assms(4)] t by auto
qed

text \<open>
  C30: A confirmed deposit is credited exactly once.  On a ledger in order, a report of a deposit with
  enough confirmations makes its amount available to the user, takes it out of the pending deposits
  if it had been observed before, changes no other account, and adds nothing if it had been credited
  already; a repeated report, with any confirmations, changes nothing.
\<close>

theorem creditDevnetDeposit_credits_once:
  fixes input db
  defines "u \<equiv> trim (di_userId input)" and "r \<equiv> trim (di_txRef input)"
  assumes ok: "ledger_ok db" and rail: "assertDevnetMockRail env = Inr rail" and input: "deposit_ok input x c"
    and conf: "rail_depositConfirmationsRequired rail \<le> c" and room: "holdings db u + x \<le> max_safe_integer"
    and dep: "deposit_ref db r"
    and same: "\<forall>t. map_of (db_transfers db) (depositTransferId r) = Some t \<longrightarrow> tf_userId t = u \<and> tf_amount t = x"
  shows "\<exists>res db'. creditDevnetDeposit clock env input db = (Inr res, db') \<and> ro_status res = Credited \<and> books db' \<and>
    (\<forall>a v. bal a db' v = bal a db v + (if v = u then (if a = Available then x else 0) -
      (case map_of (db_transfers db) (depositTransferId r) of None \<Rightarrow> 0 | Some t \<Rightarrow> post_transfer a t) else 0)) \<and>
    (\<forall>c' n. deposit_ok (input\<lparr>di_confirmations := n\<rparr>) x c' \<longrightarrow>
      (\<exists>res'. creditDevnetDeposit clock' env (input\<lparr>di_confirmations := n\<rparr>) db' = (Inr res', db') \<and>
        ro_status res' = Credited \<and> ro_idempotent res'))"
proof -
  note tb = tables_of(1) [OF ok] and books = ledger_okD(1) [OF ok]
  let ?k = "depositTransferId r" and ?now = "orElse (di_now input) clock"
  have again: "\<exists>res'. creditDevnetDeposit clock' env (input\<lparr>di_confirmations := n\<rparr>) db' = (Inr res', db') \<and>
      ro_status res' = Credited \<and> ro_idempotent res'"
    if "deposit_ok (input\<lparr>di_confirmations := n\<rparr>) x c'" "books db'" "deposit_ref db' r"
      "map_of (db_transfers db') ?k = Some t" "tf_userId t = u" "tf_amount t = x" "tf_status t = Credited" for c' n db' t
    using creditDevnetDeposit_again [OF rail that(1,2)] that(3-) by (simp add: u_def r_def)
  have find: "getTransferByTxRef db r = map_of (db_transfers db) ?k" by (rule deposit_by_txRef [OF tb dep])
  note run = creditDevnetDeposit_run [OF rail input, of clock db, folded u_def r_def, unfolded find]
  have x: "0 < x" "r \<noteq> ''''" using input by (auto simp: deposit_ok_def r_def)
  show ?thesis
  proof (cases "map_of (db_transfers db) ?k")
    case None
    let ?t = "depositTransfer rail u x r c ?now"
    obtain res db' where new: "recordNewDeposit rail u x r c ?now db = (Inr res, db')" "books db'"
        "moved db u (\<lambda>a. post_transfer a ?t) db'" "ro_status res = tf_status ?t"
        "db_transfers db' = db_transfers db @ [(?k, ?t)]"
      using recordNewDeposit_ok [OF books room x] find None by fastforce
    have t: "tf_status ?t = Credited" "tf_userId ?t = u" "tf_amount ?t = x" "tf_kind ?t = Deposit"
      using conf by (simp_all add: depositTransfer_def)
    have post: "post_transfer a ?t = (if a = Available then x else 0)" for a using t by (cases a) auto
    have d': "deposit_ref db' r" using dep None t by (auto simp: deposit_ref_def new(5) split: if_splits)
    show ?thesis
      using run None new(1-4) t(1) again [OF _ new(2) d', of _ _ ?t] t
      by (auto simp: moved_def post new(5))
  next
    case (Some t)
    have k: "tf_kind t = Deposit" "tf_transferId t = ?k"
      using table_okD [OF tb Some] by (auto simp: transfer_ok_def split: DotCastSettlementTransferKind.splits)
    note s = same [rule_format, OF Some]
    show ?thesis
    proof (cases "tf_status t = Credited")
      case True
      have "post_transfer a t = (if a = Available then x else 0)" for a using True k s by (cases a) auto
      then show ?thesis using run Some True k s conf again [OF _ books dep Some] books by auto
    next
      case False
      obtain res db' where new: "creditObservedDeposit rail t u x c ?now db = (Inr res, db')" "books db'"
          "moved db u (\<lambda>a. case a of Available \<Rightarrow> x | PendingDeposit \<Rightarrow> - x | _ \<Rightarrow> 0) db'" "ro_status res = Credited"
          "tf_status (ro_transfer res) = Credited" "same_transfer t (ro_transfer res)"
          "db_transfers db' = AList.update ?k (ro_transfer res) (db_transfers db)"
        using creditObservedDeposit_ok [OF books ledger_okD(2) [OF ok], of t rail c ?now] Some k s False by auto
      have st: "tf_status t = Observed" using table_okD [OF tb Some] k False by (auto simp: transfer_ok_def)
      have "(if a = Available then x else 0) - post_transfer a t =
          (case a of Available \<Rightarrow> x | PendingDeposit \<Rightarrow> - x | _ \<Rightarrow> 0)" for a using st k s by (cases a) auto
      then have mv: "\<forall>a v. bal a db' v = bal a db v +
          (if v = u then (if a = Available then x else 0) - post_transfer a t else 0)"
        using new(3) unfolding moved_def by presburger
      have d': "deposit_ref db' r" using dep k new(6) by (auto simp: deposit_ref_def new(7) same_transfer_def)
      show ?thesis
        using run Some False k s conf new(1,2,4) mv again [OF _ new(2) d', of _ _ "ro_transfer res"] new(5,6)
        by (simp add: new(7) same_transfer_def)
    qed
  qed
qed

lemma ledger_ok_empty: "ledger_ok empty_db"
  by (simp add: ledger_ok_def books_empty max_safe_integer_def)

lemma example_deposit_ok: "deposit_ok example_deposit 500 1"
  by (simp add: deposit_ok_def example_deposit_def trim_u1 safe_500)

theorem creditDevnetDeposit_credits_once_witness:
  "\<exists>res db'. creditDevnetDeposit ''t'' example_rail_env example_deposit empty_db = (Inr res, db') \<and>
     ro_status res = Credited \<and> bal Available db' ''u1'' = 500 \<and> bal Available db' ''u2'' = 0 \<and>
     (\<exists>res'. creditDevnetDeposit ''t'' example_rail_env (example_deposit\<lparr>di_confirmations := Fin 1\<rparr>) db' = (Inr res', db') \<and>
        ro_idempotent res')"
proof -
  have [simp]: "trim (di_userId example_deposit) = ''u1''" by (simp add: example_deposit_def trim_u1)
  have e: "db_transfers empty_db = []" "bal a empty_db v = 0" for a v by (simp_all add: empty_db_def bal_def)
  have ok: "deposit_ok (example_deposit\<lparr>di_confirmations := Fin 1\<rparr>) 500 1"
    by (simp add: deposit_ok_def example_deposit_def trim_u1 safe_500)
  show ?thesis
    using creditDevnetDeposit_credits_once [OF ledger_ok_empty example_rail_ready example_deposit_ok, of "''t''" "''t''"] ok
    by (fastforce simp: example_confirmations deposit_ref_def e max_safe_integer_def)
qed

subsection \<open>Withdrawals\<close>

definition withdrawal_ok :: "DotCastSettlementRailStatus \<Rightarrow> RequestDevnetWithdrawalInput \<Rightarrow> int \<Rightarrow> bool" where
  "withdrawal_ok rail input x \<longleftrightarrow> trim (wi_userId input) \<noteq> '''' \<and> trim (wi_destination input) \<noteq> '''' \<and>
     trim (wi_idempotencyKey input) \<noteq> '''' \<and> isLikelySolanaAddress (trim (wi_destination input)) \<and>
     safe_integer (wi_amount input) = Some x \<and> 0 < x \<and> x \<le> rail_withdrawalMaxMinorUnits rail"

abbreviation withdrawal_id :: "RequestDevnetWithdrawalInput \<Rightarrow> string" where
  "withdrawal_id input \<equiv> withdrawalTransferId (trim (wi_userId input)) (trim (wi_idempotencyKey input))"

lemma requestDevnetWithdrawal_run:
  assumes "assertDevnetMockRail env = Inr rail" "withdrawal_ok rail input x"
  shows "requestDevnetWithdrawal clock env input db =
    (case getTransfer db (withdrawal_id input) of
       Some t \<Rightarrow> (Inr \<lparr>ro_status = Signed, ro_idempotent = True, ro_transfer = t,
         ro_balance = readSettlementBalance db (trim (wi_userId input)) (orElse (wi_now input) clock),
         ro_rail = rail, ro_broadcast = False\<rparr>, db)
     | None \<Rightarrow> signWithdrawal rail (withdrawal_id input) (trim (wi_userId input)) x (trim (wi_destination input))
         (orElse (wi_now input) clock) db)"
proof -
  have c: "requireSettlementText (wi_userId input) l = Inr (trim (wi_userId input))"
    "requireSettlementText (wi_destination input) l = Inr (trim (wi_destination input))"
    "requireSettlementText (wi_idempotencyKey input) l = Inr (trim (wi_idempotencyKey input))"
    "assertPositiveAmount (wi_amount input) l = Inr x" for l
    using assms(2) by (simp_all add: withdrawal_ok_def)
  show ?thesis using assms(2)
    by (cases "getTransfer db (withdrawal_id input)")
      (auto simp: requestDevnetWithdrawal_def assms(1) c Let_def withdrawal_ok_def)
qed

lemma trim_fixed: "s \<noteq> '''' \<Longrightarrow> \<not> is_white (hd s) \<Longrightarrow> \<not> is_white (last s) \<Longrightarrow> trim s = s"
  by (simp add: trim_def dropWhile_eq_self_iff [THEN iffD2] hd_rev)

lemma last_trim: "trim s \<noteq> '''' \<Longrightarrow> \<not> is_white (last (trim s))"
  unfolding trim_def by (metis hd_dropWhile last_rev rev_is_Nil_conv)

lemma trim_withdrawal_id: "trim i \<noteq> '''' \<Longrightarrow> trim (withdrawalTransferId u (trim i)) = withdrawalTransferId u (trim i)"
  using last_trim [of i] by (intro trim_fixed) (auto simp: withdrawalTransferId_def is_white_def)

lemma confirmMockWithdrawal_run:
  assumes "assertDevnetMockRail env = Inr rail" "trim k = k" "k \<noteq> ''''" "getTransfer db k = Some t" "tf_kind t = Withdrawal"
  shows "confirmMockWithdrawal clock env \<lparr>ki_transferId = k, ki_txRef = ref, ki_now = now\<rparr> db =
    (if tf_status t = Confirmed
     then (Inr \<lparr>ro_status = Confirmed, ro_idempotent = True, ro_transfer = t,
       ro_balance = readSettlementBalance db (tf_userId t) (orElse now clock), ro_rail = rail\<rparr>, db)
     else if tf_status t \<noteq> Signed \<and> tf_status t \<noteq> Requested
     then (Inl (CodedError ''WITHDRAWAL_NOT_CONFIRMABLE'' ''withdrawal is not in a confirmable state'' 409), db)
     else confirmTransfer rail t ref (orElse now clock) db)"
proof -
  have "requireSettlementText k l = Inr k" for l using assms(2,3) by simp
  then show ?thesis using assms by (auto simp: confirmMockWithdrawal_def Let_def)
qed

text \<open>
  C31: A withdrawal is paid for exactly once.  A new request either finds too little available and is
  refused with the tables unchanged, or signs a transfer, never broadcast, and moves the amount from
  available to pending; a retry under the same key changes nothing.  Confirming the transfer takes the
  amount out of the pending withdrawals and a second confirmation changes nothing.
\<close>

theorem requestDevnetWithdrawal_pays_once:
  fixes input db
  defines "u \<equiv> trim (wi_userId input)" and "k \<equiv> withdrawal_id input"
  assumes ok: "ledger_ok db" and rail: "assertDevnetMockRail env = Inr rail" and input: "withdrawal_ok rail input x"
    and new: "map_of (db_transfers db) k = None"
  shows "if bal Available db u < x
    then \<exists>m. requestDevnetWithdrawal clock env input db = (Inl (CodedError ''INSUFFICIENT_USDC_BALANCE'' m 409), db)
    else \<exists>res db1 res2 db2. requestDevnetWithdrawal clock env input db = (Inr res, db1) \<and> \<not> ro_broadcast res \<and>
      moved db u (withdraw_post x) db1 \<and>
      (\<exists>res'. requestDevnetWithdrawal clock' env input db1 = (Inr res', db1) \<and> ro_idempotent res') \<and>
      confirmMockWithdrawal clock' env \<lparr>ki_transferId = k, ki_txRef = ref, ki_now = now\<rparr> db1 = (Inr res2, db2) \<and>
      moved db1 u (\<lambda>a. if a = PendingWithdrawal then - x else 0) db2 \<and>
      (\<exists>res'. confirmMockWithdrawal clock' env \<lparr>ki_transferId = k, ki_txRef = ref', ki_now = now'\<rparr> db2 =
        (Inr res', db2) \<and> ro_idempotent res')"
proof (cases "bal Available db u < x")
  case True
  then show ?thesis
    using requestDevnetWithdrawal_run [OF rail input, of clock db] new getTransfer_eq [OF tables_of(1) [OF ok]]
    by (simp add: signWithdrawal_def Let_def u_def k_def)
next
  case False
  note books = ledger_okD(1) [OF ok]
  let ?d = "trim (wi_destination input)" and ?now = "orElse (wi_now input) clock"
  let ?t = "withdrawalTransfer rail k u x ?d ?now"
  have x: "0 < x" "?d \<noteq> ''''" using input by (auto simp: withdrawal_ok_def)
  obtain res db1 where s: "signWithdrawal rail k u x ?d ?now db = (Inr res, db1)" "books db1"
      "moved db u (withdraw_post x) db1" "\<not> ro_broadcast res" "ro_transfer res = ?t"
      "db_transfers db1 = db_transfers db @ [(k, ?t)]"
    using signWithdrawal_ok [OF books ledger_okD(2) [OF ok] x(1) _ x(2) new [unfolded k_def], of u rail ?now] False
    by (auto simp: k_def)
  have ok1: "ledger_ok db1"
    by (rule ledger_ok_moved [OF ok s(2,3)]) (use ledger_okD(2) [OF ok] in \<open>simp add: withdraw_post_def\<close>)
  note get1 = getTransfer_eq [OF tables_of(1) [OF ok1]]
  have m1: "map_of (db_transfers db1) k = Some ?t" using new by (simp add: s(6))
  have t: "tf_transferId ?t = k" "tf_userId ?t = u" "tf_amount ?t = x" "tf_kind ?t = Withdrawal" "tf_status ?t = Signed"
    by (simp_all add: withdrawalTransfer_def)
  obtain res2 db2 where c: "confirmTransfer rail ?t ref (orElse now clock') db1 = (Inr res2, db2)" "books db2"
      "moved db1 u (\<lambda>a. if a = PendingWithdrawal then - x else 0) db2" "tf_status (ro_transfer res2) = Confirmed"
      "same_transfer ?t (ro_transfer res2)" "db_transfers db2 = AList.update k (ro_transfer res2) (db_transfers db1)"
    using confirmTransfer_ok [OF ledger_okD(1) [OF ok1] ledger_okD(2) [OF ok1], of ?t rail ref "orElse now clock'", unfolded t] m1 by auto
  have tb2: "table_ok transfer_ok (db_transfers db2)" using c(2) by (simp add: books_def rows_ok_def)
  have k: "trim k = k" "k \<noteq> ''''"
    using input trim_withdrawal_id by (simp_all add: k_def withdrawal_ok_def) (simp add: withdrawalTransferId_def)
  have conf: "confirmMockWithdrawal clock' env \<lparr>ki_transferId = k, ki_txRef = ref, ki_now = now\<rparr> db1 = (Inr res2, db2)"
    using confirmMockWithdrawal_run [OF rail k, of db1 ?t clock' ref now] get1 [of k] m1 t c(1) by simp
  have again: "\<exists>res'. confirmMockWithdrawal clock' env \<lparr>ki_transferId = k, ki_txRef = ref', ki_now = now'\<rparr> db2 =
      (Inr res', db2) \<and> ro_idempotent res'"
    using confirmMockWithdrawal_run [OF rail k, of db2 "ro_transfer res2" clock' ref' now'] c(4,5) t(4)
      getTransfer_eq [OF tb2, of k] by (simp add: c(6) same_transfer_def)
  have retry: "\<exists>res'. requestDevnetWithdrawal clock' env input db1 = (Inr res', db1) \<and> ro_idempotent res'"
    using requestDevnetWithdrawal_run [OF rail input, of clock' db1] get1 [of k] m1 by (simp add: k_def)
  have first: "requestDevnetWithdrawal clock env input db = (Inr res, db1)"
    using requestDevnetWithdrawal_run [OF rail input, of clock db] new getTransfer_eq [OF tables_of(1) [OF ok], of k] s(1)
    by (simp add: k_def u_def)
  show ?thesis using False first retry again conf s(3,4) c(3) by auto
qed

lemma example_limit: "rail_withdrawalMaxMinorUnits example_rail = 1000000"
  by (simp add: example_rail_def readSolanaUsdcSettlementRailStatus_def example_rail_env_def
      parsePositiveEnvInt_def truthy_text_def Let_def)

lemma example_withdrawal_ok: "withdrawal_ok example_rail example_withdrawal 300"
proof -
  have d: "trim ''4zMMC9srt5Ri5X14GAgXhaHii3GnPAEERYPJgZJDncDU'' = ''4zMMC9srt5Ri5X14GAgXhaHii3GnPAEERYPJgZJDncDU''"
    "trim ''k'' = ''k''" by (simp_all add: trim_fixed is_white_def)
  have "isLikelySolanaAddress ''4zMMC9srt5Ri5X14GAgXhaHii3GnPAEERYPJgZJDncDU''"
    by (simp add: isLikelySolanaAddress_def isBase58_def)
  then show ?thesis
    by (simp add: withdrawal_ok_def example_withdrawal_def d trim_u1 safe_500 example_limit)
qed

theorem requestDevnetWithdrawal_pays_once_witness:
  "\<exists>res db1. requestDevnetWithdrawal ''t'' example_rail_env example_withdrawal example_db = (Inr res, db1) \<and>
     \<not> ro_broadcast res \<and> bal Available db1 ''u1'' = 200"
proof -
  have ok: "ledger_ok example_db" by (rule ledger.reach_inv [OF example_db_reach])
  have u: "trim (wi_userId example_withdrawal) = ''u1''" by (simp add: example_withdrawal_def trim_u1)
  have new: "map_of (db_transfers example_db) (withdrawal_id example_withdrawal) = None"
    by (simp add: example_db_facts(2))
  show ?thesis
    using requestDevnetWithdrawal_pays_once [OF ok example_rail_ready example_withdrawal_ok new,
        of "''t''" "''t''" None None None None]
    by (auto simp: u example_db_facts(1) moved_def withdraw_post_def split: if_splits)
qed

subsection \<open>Pool entries\<close>

definition reserve_ok :: "ReserveUsdcPoolEntryInput \<Rightarrow> int \<Rightarrow> bool" where
  "reserve_ok input x \<longleftrightarrow> trim (ui_poolId input) \<noteq> '''' \<and> trim (ui_entryId input) \<noteq> '''' \<and>
     trim (ui_userId input) \<noteq> '''' \<and> safe_integer (ui_amount input) = Some x \<and> 0 < x"

abbreviation reserve_id :: "ReserveUsdcPoolEntryInput \<Rightarrow> string" where
  "reserve_id input \<equiv> poolFundingLockId (trim (ui_poolId input)) (trim (ui_entryId input))"

definition release_of :: "ReserveUsdcPoolEntryInput \<Rightarrow> string \<Rightarrow> ReleaseUsdcPoolEntryReservationInput" where
  "release_of input reason = \<lparr>li_poolId = ui_poolId input, li_entryId = ui_entryId input,
     li_userId = ui_userId input, li_reason = reason, li_now = None\<rparr>"

lemma reserveUsdcPoolEntry_run:
  assumes "assertUsdcPoolFundingReady env = Inr funding" "reserve_ok input x"
  shows "reserveUsdcPoolEntry clock env input db =
    (case map_of (db_poolLocks db) (reserve_id input) of
       Some l \<Rightarrow> if pk_userId l \<noteq> trim (ui_userId input) \<or> pk_amount l \<noteq> x
         then (Inl (CodedError ''USDC_POOL_LOCK_CONFLICT''
                ''USDC pool funding lock already belongs to a different entry'' 409), db)
         else (Inr \<lparr>fo_status = PoolLocked, fo_idempotent = True, fo_lock = l,
                fo_balance = readPoolFundingBalance db (trim (ui_userId input)) (orElse (ui_now input) clock),
                fo_funding = funding\<rparr>, db)
     | None \<Rightarrow> lockPoolEntry funding (trim (ui_poolId input)) (trim (ui_entryId input)) (trim (ui_userId input)) x
         (orElse (ui_now input) clock) db)"
proof -
  have c: "requirePoolFundingText (ui_poolId input) l = Inr (trim (ui_poolId input))"
    "requirePoolFundingText (ui_entryId input) l = Inr (trim (ui_entryId input))"
    "requirePoolFundingText (ui_userId input) l = Inr (trim (ui_userId input))"
    "assertPositiveFunding (ui_amount input) l = Inr x" for l
    using assms(2) by (simp_all add: reserve_ok_def)
  show ?thesis
    by (cases "map_of (db_poolLocks db) (reserve_id input)") (auto simp: reserveUsdcPoolEntry_def assms(1) c Let_def)
qed

lemma releaseUsdcPoolEntryReservation_run:
  assumes "assertUsdcPoolFundingReady env = Inr funding" "reserve_ok input x"
    and "map_of (db_poolLocks db) (reserve_id input) = Some l" "pk_userId l = trim (ui_userId input)"
  shows "releaseUsdcPoolEntryReservation clock env (release_of input reason) db =
    (if pk_status l \<noteq> PoolLocked
     then (Inr \<lparr>fo_status = PoolReleased, fo_idempotent = True, fo_lock = l,
            fo_balance = readPoolFundingBalance db (trim (ui_userId input)) clock, fo_funding = funding\<rparr>, db)
     else releasePoolLock funding l (trim (ui_userId input)) reason clock db)"
proof -
  have c: "requirePoolFundingText (ui_poolId input) l = Inr (trim (ui_poolId input))"
    "requirePoolFundingText (ui_entryId input) l = Inr (trim (ui_entryId input))"
    "requirePoolFundingText (ui_userId input) l = Inr (trim (ui_userId input))" for l
    using assms(2) by (simp_all add: reserve_ok_def)
  show ?thesis using assms(3,4)
    by (simp add: releaseUsdcPoolEntryReservation_def release_of_def assms(1) c Let_def requirePoolFundingLock_def orElse_def)
qed

text \<open>
  C32: Reserving the stake of a new entry either finds too little available and leaves the tables
  unchanged, or moves exactly the amount from available to locked.  A retry changes nothing, and a
  release gives every account of every user the balance it had before, once.
\<close>

theorem reserveUsdcPoolEntry_release:
  fixes input db
  defines "u \<equiv> trim (ui_userId input)"
  assumes ok: "ledger_ok db" and ready: "assertUsdcPoolFundingReady env = Inr funding" and input: "reserve_ok input x"
    and new: "map_of (db_poolLocks db) (reserve_id input) = None"
  shows "if bal Available db u < x
    then \<exists>m. reserveUsdcPoolEntry clock env input db = (Inl (CodedError ''INSUFFICIENT_USDC_BALANCE'' m 409), db)
    else \<exists>r db1 r2 db2. reserveUsdcPoolEntry clock env input db = (Inr r, db1) \<and> ledger_ok db1 \<and>
      moved db u (reserve_post x) db1 \<and>
      (\<exists>r'. reserveUsdcPoolEntry clock' env input db1 = (Inr r', db1) \<and> fo_idempotent r') \<and>
      releaseUsdcPoolEntryReservation clock' env (release_of input reason) db1 = (Inr r2, db2) \<and>
      (\<forall>a v. bal a db2 v = bal a db v) \<and>
      (\<exists>r'. releaseUsdcPoolEntryReservation clock' env (release_of input reason) db2 = (Inr r', db2) \<and> fo_idempotent r')"
proof (cases "bal Available db u < x")
  case True
  then show ?thesis using reserveUsdcPoolEntry_run [OF ready input, of clock db] new
    by (simp add: lockPoolEntry_def read_balance_eqs Let_def u_def)
next
  case False
  let ?p = "trim (ui_poolId input)" and ?e = "trim (ui_entryId input)" and ?now = "orElse (ui_now input) clock"
  have x: "0 < x" using input by (simp add: reserve_ok_def)
  have "\<not> list_ex (\<lambda>l. pk_poolId l = ?p \<and> pk_entryId l = ?e) (map snd (db_poolLocks db))"
    using new tables_of(2) [OF ok] by (force simp: list_ex_iff table_ok_def akeys_def pool_lock_ok_def)
  then obtain r db1 where s: "lockPoolEntry funding ?p ?e u x ?now db = (Inr r, db1)" "books db1" "moved db u (reserve_post x) db1"
      "pk_userId (fo_lock r) = u" "pk_amount (fo_lock r) = x" "pk_status (fo_lock r) = PoolLocked"
      "db_poolLocks db1 = db_poolLocks db @ [(reserve_id input, fo_lock r)]"
    using lockPoolEntry_ok [OF ledger_okD(1) [OF ok] ledger_okD(2) [OF ok] x _ new, of u funding ?now] False by auto
  have ok1: "ledger_ok db1"
    by (rule ledger_ok_moved [OF ok s(2,3)]) (use ledger_okD(2) [OF ok] in \<open>simp add: reserve_post_def\<close>)
  have m1: "map_of (db_poolLocks db1) (reserve_id input) = Some (fo_lock r)" using new by (simp add: s(7))
  have l: "pk_lockId (fo_lock r) = reserve_id input" "pk_payout (fo_lock r) = None"
    using table_okD [OF tables_of(2) [OF ok1] m1] s(6) by (auto simp: pool_lock_ok_def)
  obtain r2 db2 where c: "releasePoolLock funding (fo_lock r) u reason clock' db1 = (Inr r2, db2)"
      "moved db1 u (finish_post x x) db2" "finished_lock (fo_lock r) (fo_lock r2)" "pk_status (fo_lock r2) = PoolReleased"
      "db_poolLocks db2 = AList.update (reserve_id input) (fo_lock r2) (db_poolLocks db1)"
    using releasePoolLock_ok [OF ledger_okD(1) [OF ok1] ledger_okD(2) [OF ok1], of "fo_lock r" funding reason clock'] m1 l s(4-6) by auto
  have m2: "map_of (db_poolLocks db2) (reserve_id input) = Some (fo_lock r2)" by (simp add: c(5))
  have u2: "pk_userId (fo_lock r2) = u" using c(3) s(4) by (simp add: finished_lock_def)
  have undo: "reserve_post x a + finish_post x x a = 0" for a by (cases a) (simp_all add: reserve_post_def finish_post_def)
  have "bal a db2 v = bal a db v" for a v using s(3) c(2) undo [of a] by (simp add: moved_def)
  then show ?thesis
    using False s(1,3-6) c(1,4) ok1 new m1 m2 u2 reserveUsdcPoolEntry_run [OF ready input, of clock db]
      reserveUsdcPoolEntry_run [OF ready input, of clock' db1]
      releaseUsdcPoolEntryReservation_run [OF ready input m1, of clock' reason]
      releaseUsdcPoolEntryReservation_run [OF ready input m2, of clock' reason]
    by (simp add: u_def)
qed

lemma example_pools_ready: "assertUsdcPoolFundingReady example_rail_env = Inr (readUsdcPoolFundingStatus example_rail_env)"
  "assertBondFundingReady example_rail_env = Inr ()"
  using assertUsdcPoolFundingReady_cases [of example_rail_env] by (simp_all add: rail_available_def example_rail_env_def)

lemma example_db_ok: "ledger_ok example_db" and example_db_books: "books example_db"
  using ledger.reach_inv [OF example_db_reach] ledger_okD(1) by blast+

lemma example_db_bal: "bal a example_db u = (if u = ''u1'' \<and> a = Available then 500 else 0)"
proof -
  have "bal a example_db u = booked a example_db u" using example_db_books by (simp add: books_def)
  also have "\<dots> = (if u = ''u1'' \<and> a = Available then 500 else 0)"
    by (cases a) (simp_all add: booked_def example_db_facts usum_def asum_def depositTransfer_def example_confirmations)
  finally show ?thesis .
qed

lemma example_db_holdings: "holdings example_db u = (if u = ''u1'' then 500 else 0)"
  by (simp add: holdings_def example_db_bal)

definition example_entry :: DotCastEntry where
  "example_entry = \<lparr>e_id = ''e1'', e_poolId = ''p1'', e_userId = ''u1'', e_side = Yes, e_amount = 300,
     e_funding = UserFunded, e_placedAt = ''t'', e_payout = Some 450, e_refunded = False\<rparr>"

definition example_terminal :: DotCastPoolSnapshot where
  "example_terminal =
     \<lparr>s_pool = \<lparr>p_id = ''p1'', p_marketId = ''m1'', p_venue = Kalshi, p_unit = Usdc, p_question = ''q'',
        p_status = Settled, p_entryOpensAt = ''t'', p_entryClosesAt = ''t'', p_expectedResolveAt = None,
        p_rake = Fin 0, p_pools = \<lparr>yes = 300, no = 150\<rparr>, p_minLiquidity = 0, p_createdAt = ''t'',
        p_settledAt = Some ''t'', p_outcome = Some (Won Yes), p_resolutionRoute = None,
        p_originatingCreatorId = None, p_creatorBrand = None\<rparr>,
      s_entries = [example_entry], s_balances = [], s_houseLedger = [], s_settlement = None,
      s_voidReason = None, s_lastResolution = None, s_updatedAt = ''t''\<rparr>"

theorem applyUsdcPoolTerminalSettlement_pays_once_witness:
  "\<exists>r db db1 r1. lockPoolEntry (readUsdcPoolFundingStatus example_rail_env) ''p1'' ''e1'' ''u1'' 300 ''t'' example_db = (Inr r, db) \<and>
     applyUsdcPoolTerminalSettlement example_rail_env \<lparr>ti_snapshot = example_terminal, ti_now = None\<rparr> db = (Inr r1, db1) \<and>
     tr_applied r1 = 1 \<and> bal Available db1 ''u1'' = 650 \<and> bal LockedPool db1 ''u1'' = 0"
proof -
  obtain r db where
      lock: "lockPoolEntry (readUsdcPoolFundingStatus example_rail_env) ''p1'' ''e1'' ''u1'' 300 ''t'' example_db = (Inr r, db)" "books db"
      "moved example_db ''u1'' (reserve_post 300) db" "pk_userId (fo_lock r) = ''u1''" "pk_amount (fo_lock r) = 300"
      "pk_status (fo_lock r) = PoolLocked" "db_poolLocks db = [(poolFundingLockId ''p1'' ''e1'', fo_lock r)]"
    using lockPoolEntry_ok [OF example_db_books, of "''u1''" 300 "''p1''" "''e1''" "readUsdcPoolFundingStatus example_rail_env" "''t''"]
    by (auto simp: example_db_facts example_db_bal example_db_holdings max_safe_integer_def)
  have m: "map_of (db_poolLocks db) (entry_lock_id (s_pool example_terminal) example_entry) = Some (fo_lock r)"
    by (simp add: lock(7) example_terminal_def example_entry_def)
  have e: "entry_funded db (s_pool example_terminal) example_entry" "entry_open db (s_pool example_terminal) example_entry"
    using lock(4-6) m by (simp_all add: entry_funded_def entry_open_def entry_return_def) (simp_all add: example_entry_def)
  have h: "holdings db u = holdings example_db u" for u
    using holdings_moved [OF lock(3)] by (simp add: reserve_post_def)
  have bal: "bal Available db ''u1'' = 200" "bal LockedPool db ''u1'' = 300"
    using lock(3) by (simp_all add: moved_def reserve_post_def example_db_bal)
  show ?thesis
    using applyUsdcPoolTerminalSettlement_pays_once [OF lock(2) example_pools_ready(1), of example_terminal None None] lock(1) e bal
    by (fastforce simp: h example_db_holdings user_returns_def settled_amount_def max_safe_integer_def
        example_terminal_def example_entry_def entry_return_def terminal_def finish_post_def)
qed

definition example_reserve :: ReserveUsdcPoolEntryInput where
  "example_reserve = \<lparr>ui_poolId = ''p1'', ui_entryId = ''e1'', ui_userId = ''u1'', ui_amount = Fin 300, ui_now = None\<rparr>"

lemma trim_p1: "trim ''p1'' = ''p1''" "trim ''e1'' = ''e1''"
  by (simp_all add: trim_def is_white_def)

lemma example_reserve_ok: "reserve_ok example_reserve 300"
  by (simp add: reserve_ok_def example_reserve_def trim_u1 trim_p1 safe_500)

theorem reserveUsdcPoolEntry_release_witness:
  "\<exists>r db1. reserveUsdcPoolEntry ''t'' example_rail_env example_reserve example_db = (Inr r, db1) \<and>
     bal Available db1 ''u1'' = 200 \<and> bal LockedPool db1 ''u1'' = bal LockedPool example_db ''u1'' + 300"
proof -
  have ok: "ledger_ok example_db" by (rule ledger.reach_inv [OF example_db_reach])
  have u: "trim (ui_userId example_reserve) = ''u1''" by (simp add: example_reserve_def trim_u1)
  have new: "map_of (db_poolLocks example_db) (reserve_id example_reserve) = None" by (simp add: example_db_facts)
  show ?thesis
    using reserveUsdcPoolEntry_release [OF ok example_pools_ready(1) example_reserve_ok new, of "''t''" "''t''" "''r''"]
    by (auto simp: u example_db_facts(1) moved_def reserve_post_def split: if_splits)
qed

text \<open>
  A reservation that was released cannot be made again under the same entry, although the
  operation says it can: retried with the same user and amount, it answers that the entry is locked
  while the lock on record is closed and no money is locked.
\<close>

theorem reserveUsdcPoolEntry_retry_unfunded:
  assumes "assertUsdcPoolFundingReady env = Inr funding" "reserve_ok input x"
    and l: "map_of (db_poolLocks db) (reserve_id input) = Some l" "pk_userId l = trim (ui_userId input)"
      "pk_amount l = x" "pk_status l \<noteq> PoolLocked"
  shows "\<exists>r. reserveUsdcPoolEntry clock env input db = (Inr r, db) \<and> fo_status r = PoolLocked \<and>
    pk_status (fo_lock r) \<noteq> PoolLocked"
  using reserveUsdcPoolEntry_run [OF assms(1,2), of clock db] l by simp

theorem reserveUsdcPoolEntry_retry_unfunded_witness:
  "\<exists>db r. reserveUsdcPoolEntry ''t'' example_rail_env example_reserve db = (Inr r, db) \<and> fo_status r = PoolLocked \<and>
     pk_status (fo_lock r) \<noteq> PoolLocked"
proof -
  define l where "l = \<lparr>pk_lockId = reserve_id example_reserve, pk_poolId = ''p1'', pk_entryId = ''e1'',
    pk_userId = ''u1'', pk_amount = 300, pk_status = PoolReleased, pk_payout = None, pk_createdAt = ''t'',
    pk_updatedAt = ''t'', pk_eventJson = []\<rparr>"
  have "pk_userId l = trim (ui_userId example_reserve)" by (simp add: l_def example_reserve_def trim_u1)
  then show ?thesis
    using reserveUsdcPoolEntry_retry_unfunded [OF example_pools_ready(1) example_reserve_ok,
        of "empty_db\<lparr>db_poolLocks := [(reserve_id example_reserve, l)]\<rparr>" l "''t''"]
    by (fastforce simp: l_def)
qed

subsection \<open>Bonds\<close>

lemma settleUsdcBond_run:
  assumes "assertBondFundingReady env = Inr ()" "trim (si_lockId input) \<noteq> ''''"
    and "map_of (db_bondLocks db) (trim (si_lockId input)) = Some l"
    and "safe_integer (orElse (si_creditMinorUnits input) (Fin 0)) = Some x" "0 \<le> x"
  shows "settleUsdcBond clock env input db =
    (if bk_status l \<noteq> BondLocked
     then (Inr \<lparr>bo_status = Some (bk_status l), bo_idempotent = (bk_status l = bondNextStatus (si_action input)),
            bo_lock = Some (read_bond l), bo_balance = Some (readBondBalance db (bk_ownerId l) (orElse (si_now input) clock))\<rparr>, db)
     else finalizeBond input (read_bond l) x (orElse (si_now input) clock) db)"
proof -
  have c: "requireBondText (si_lockId input) n = Inr (trim (si_lockId input))"
    "assertNonNegativeAmount (orElse (si_creditMinorUnits input) (Fin 0)) n = Inr x" for n
    using assms(2,4,5) by simp_all
  show ?thesis by (simp add: settleUsdcBond_def assms(1,3) c Let_def getBondLock_def)
qed

text \<open>
  C33: A bond is ended exactly once.  Releasing a locked bond gives its owner the bond and the extra
  credit, slashing it gives nothing; in both cases the bond leaves the locked account and the books
  stay right.  A second settlement, whichever its action, changes nothing and reports how the bond
  was ended, and the bond cannot be locked again.
\<close>

theorem settleUsdcBond_ends_once:
  fixes input db l
  defines "k \<equiv> trim (si_lockId input)" and "u \<equiv> bk_ownerId l"
  assumes ok: "ledger_ok db" and ready: "assertBondFundingReady env = Inr ()" and k: "k \<noteq> ''''"
    and l: "map_of (db_bondLocks db) k = Some l" "bk_status l = BondLocked"
    and x: "safe_integer (orElse (si_creditMinorUnits input) (Fin 0)) = Some x" "0 \<le> x"
    and room: "holdings db u + x \<le> max_safe_integer"
  shows "\<exists>r db'. settleUsdcBond clock env input db = (Inr r, db') \<and> books db' \<and>
    bo_status r = Some (bondNextStatus (si_action input)) \<and>
    moved db u (bond_end_post (bk_amount l) (if si_action input = ReleaseBond then bk_amount l + x else 0)) db' \<and>
    (\<forall>action. \<exists>r'. settleUsdcBond clock' env (input\<lparr>si_action := action\<rparr>) db' = (Inr r', db') \<and>
      bo_status r' = Some (bondNextStatus (si_action input)) \<and> (bo_idempotent r' \<longleftrightarrow> action = si_action input)) \<and>
    (\<forall>req. trim (gi_lockId req) = k \<longrightarrow> (\<exists>e. reserveUsdcBond clock' env req db' = (Inl e, db')))"
proof -
  note books = ledger_okD(1) [OF ok] and tb = tables_of(3) [OF ok]
  have amt: "0 < bk_amount l" using table_okD [OF tb l(1)] by (simp add: bond_lock_ok_def)
  have "bal LockedBond db u \<le> holdings db u" by (rule bal_le_holdings [OF books_rows [OF books]])
  then have credit: "bondCredit (si_action input) (bk_amount l) x =
      (if si_action input = ReleaseBond then bk_amount l + x else 0)"
    using room amt x(2) held_bond [OF books l] by (auto simp: bondCredit_def u_def is_safe_integer_def intro!: js_add_safe)
  obtain l' r db' where f: "finalizeBond input (read_bond l) x (orElse (si_now input) clock) db = (Inr r, db')" "books db'"
      "moved db u (bond_end_post (bk_amount l) (if si_action input = ReleaseBond then bk_amount l + x else 0)) db'"
      "bo_status r = Some (bondNextStatus (si_action input))" "bk_status l' = bondNextStatus (si_action input)"
      "db_bondLocks db' = AList.update k l' (db_bondLocks db)"
    using finalizeBond_ok [OF books room [unfolded u_def] x(2) l, of input "orElse (si_now input) clock"]
    unfolding credit u_def by blast
  have m: "map_of (db_bondLocks db') k = Some l'" by (simp add: f(6))
  have ended: "bk_status l' \<noteq> BondLocked" by (simp add: f(5) bondNextStatus_def)
  have act: "bondNextStatus a = bondNextStatus b \<longleftrightarrow> a = b" for a b by (cases a; cases b) (simp_all add: bondNextStatus_def)
  have again: "\<exists>r'. settleUsdcBond clock' env (input\<lparr>si_action := action\<rparr>) db' = (Inr r', db') \<and>
      bo_status r' = Some (bondNextStatus (si_action input)) \<and> (bo_idempotent r' \<longleftrightarrow> action = si_action input)" for action
    using settleUsdcBond_run [OF ready, of "input\<lparr>si_action := action\<rparr>" db' l' x clock'] m k x ended f(5) act
    by (auto simp: k_def)
  have refuse: "\<exists>e. reserveUsdcBond clock' env req db' = (Inl e, db')" if "trim (gi_lockId req) = k" for req
  proof -
    have t: "requireBondText (gi_lockId req) n = Inr k" for n using that k by simp
    show ?thesis using m ended
      by (cases "requireBondText (gi_ownerId req) ''ownerId''"; cases "assertPositiveBond (gi_amount req) ''amount''")
        (auto simp: reserveUsdcBond_def ready t Let_def getBondLock_def)
  qed
  show ?thesis
    using settleUsdcBond_run [OF ready k [unfolded k_def] l(1) [unfolded k_def] x, of clock] l(2) f again refuse by auto
qed

definition example_bond :: ReserveUsdcBondInput where
  "example_bond = \<lparr>gi_lockId = ''b1'', gi_purpose = ResolutionChallenge, gi_ownerId = ''u1'', gi_amount = Fin 300,
     gi_routeId = None, gi_poolId = None, gi_panelId = None, gi_assignmentId = None, gi_challengeId = None,
     gi_metadata = None, gi_now = None\<rparr>"

definition example_bond_end :: SettleUsdcBondInput where
  "example_bond_end = \<lparr>si_lockId = ''b1'', si_action = ReleaseBond, si_reason = ''r'',
     si_creditMinorUnits = Some (Fin 1), si_metadata = None, si_now = None, si_allowMissing = None\<rparr>"

theorem settleUsdcBond_ends_once_witness:
  "\<exists>r db r1 db1. lockBond example_bond ''b1'' ''u1'' 300 ''t'' example_db = (Inr r, db) \<and>
     settleUsdcBond ''t'' example_rail_env example_bond_end db = (Inr r1, db1) \<and>
     bo_status r1 = Some BondReleased \<and> bal Available db1 ''u1'' = 501 \<and> bal LockedBond db1 ''u1'' = 0"
proof -
  obtain l r db where lock: "lockBond example_bond ''b1'' ''u1'' 300 ''t'' example_db = (Inr r, db)" "books db"
      "moved example_db ''u1'' (bond_post 300) db" "bk_ownerId l = ''u1''" "bk_amount l = 300"
      "bk_status l = BondLocked" "db_bondLocks db = [(''b1'', l)]"
    using lockBond_ok [OF example_db_books, of "''u1''" 300 "''b1''" example_bond "''t''"]
    by (auto simp: example_db_facts example_db_bal example_db_holdings max_safe_integer_def)
  have h: "holdings db u = holdings example_db u" for u
    using holdings_moved [OF lock(3)] by (simp add: bond_post_def)
  have ok: "ledger_ok db" using lock(2) h example_db_ok by (simp add: ledger_ok_def)
  have k: "trim (si_lockId example_bond_end) = ''b1''" by (simp add: example_bond_end_def trim_def is_white_def)
  have x: "safe_integer (orElse (si_creditMinorUnits example_bond_end) (Fin 0)) = Some 1"
    by (simp add: example_bond_end_def orElse_def safe_500)
  have bal: "bal Available db ''u1'' = 200" "bal LockedBond db ''u1'' = 300"
    using lock(3) by (simp_all add: moved_def bond_post_def example_db_bal)
  have act: "si_action example_bond_end = ReleaseBond" by (simp add: example_bond_end_def)
  show ?thesis
    using settleUsdcBond_ends_once [OF ok example_pools_ready(2), of example_bond_end l 1 "''t''" "''t''"] lock x bal
    by (auto simp: k h act example_db_holdings max_safe_integer_def bondNextStatus_def moved_def bond_end_post_def)
qed

end
