(* ===== verification/LedgerReconciliation.thy ===== *)
theory LedgerReconciliation
  imports LedgerOperations
begin

text \<open>
  The reconciliation of the rail (\<open>reconcileDevnetSettlementRail\<close> in \<open>SolanaUsdcSettlementRail.ts\<close>): the sum
  over all users of what the platform owes, compared with the amount in custody.  The books give each
  user's balance from the records; summed over the users they give the liability from the records
  alone, so a drift of zero says that the custody holds the deposits that were credited, less the
  withdrawals that were confirmed, corrected by the results of pools and bonds.
\<close>

subsection \<open>Sums over users\<close>

lemma table_ok_set: "table_ok P tbl \<Longrightarrow> kv \<in> set tbl \<Longrightarrow> P (fst kv) (snd kv)"
  by (cases kv) (auto simp: table_ok_def akeys_def simp del: map_of.simps)

lemma usum_users:
  assumes "finite U" "\<forall>kv \<in> set tbl. own (snd kv) \<in> U"
  shows "(\<Sum>u\<in>U. usum own f u tbl) = asum f tbl"
  using assms(2)
proof (induction tbl)
  case Nil
  then show ?case by (simp add: usum_def)
next
  case (Cons kv tbl)
  have "usum own f u (kv # tbl) = (if u = own (snd kv) then f (snd kv) else 0) + usum own f u tbl" for u
    by (simp add: usum_def asum_def)
  then show ?case using Cons assms(1) by (simp add: sum.distrib asum_def)
qed

lemma bal_usum:
  assumes "table_ok balance_ok (db_balances db)"
  shows "bal a db u = usum sb_userId (account_of a) u (db_balances db)"
proof -
  have "(case map_of tbl u of None \<Rightarrow> 0 | Some b \<Rightarrow> account_of a b) = usum sb_userId (account_of a) u tbl"
    if "akeys tbl" "\<forall>kv \<in> set tbl. sb_userId (snd kv) = fst kv" for tbl
    using that
  proof (induction tbl)
    case Nil
    then show ?case by (simp add: usum_def)
  next
    case (Cons kv tbl)
    have none: "map_of tbl (fst kv) = None" using Cons.prems(1) by (auto simp: akeys_def map_of_eq_None_iff)
    show ?case using Cons none by (auto simp: usum_def asum_def akeys_def)
  qed
  moreover have "sb_userId (snd kv) = fst kv" if "kv \<in> set (db_balances db)" for kv
    using table_ok_set [OF assms that] by (simp add: balance_ok_def)
  ultimately show ?thesis using assms by (simp add: bal_def table_ok_def)
qed

definition account_total :: "account \<Rightarrow> settlement_db \<Rightarrow> int" where
  "account_total a db = asum (account_of a) (db_balances db)"

lemma total_booked:
  assumes "books db"
  shows "account_total a db = asum (post_transfer a) (db_transfers db) + asum (post_pool a) (db_poolLocks db) +
    asum (post_bond a) (db_bondLocks db)"
proof -
  let ?U = "(sb_userId \<circ> snd) ` set (db_balances db) \<union> (tf_userId \<circ> snd) ` set (db_transfers db) \<union>
    (pk_userId \<circ> snd) ` set (db_poolLocks db) \<union> (bk_ownerId \<circ> snd) ` set (db_bondLocks db)"
  have "account_total a db = (\<Sum>u\<in>?U. bal a db u)"
    using books_rows [OF assms] usum_users [of ?U "db_balances db" sb_userId "account_of a"]
    by (simp add: account_total_def rows_ok_def bal_usum)
  also have "\<dots> = (\<Sum>u\<in>?U. booked a db u)" using assms by (simp add: books_def)
  also have "\<dots> = asum (post_transfer a) (db_transfers db) + asum (post_pool a) (db_poolLocks db) +
      asum (post_bond a) (db_bondLocks db)"
    by (simp add: booked_def sum.distrib usum_users)
  finally show ?thesis .
qed

subsection \<open>The totals of the code\<close>

lemma rows_nonneg:
  assumes "rows_ok db" "kv \<in> set (db_balances db)"
  shows "0 \<le> account_of a (snd kv)"
proof -
  have "balance_ok (fst kv) (snd kv)" using table_ok_set [OF _ assms(2), of balance_ok] assms(1) by (simp add: rows_ok_def)
  then show ?thesis by (cases a) (auto simp: balance_ok_def balance_check_def)
qed

definition acc_of :: "account \<Rightarrow> rail_totals \<Rightarrow> int" where
  "acc_of a t = (case a of Available \<Rightarrow> to_availableUsdc t | PendingDeposit \<Rightarrow> to_pendingDepositUsdc t
     | PendingWithdrawal \<Rightarrow> to_pendingWithdrawalUsdc t | LockedPool \<Rightarrow> to_lockedPoolUsdc t
     | LockedBond \<Rightarrow> to_lockedBondUsdc t)"

lemma acc_of_addBalance: "acc_of a (addBalance t b) = js_add (acc_of a t) (account_of a b)"
  by (cases a) (simp_all add: acc_of_def addBalance_def)

lemma railTotals_exact:
  assumes rows: "\<forall>kv \<in> set tbl. 0 \<le> account_of a (snd kv)"
    and t: "0 \<le> acc_of a t" "acc_of a t + asum (account_of a) tbl \<le> max_safe_integer"
  shows "acc_of a (foldl addBalance t (map snd tbl)) = acc_of a t + asum (account_of a) tbl"
  using rows t
proof (induction tbl arbitrary: t)
  case Nil
  then show ?case by simp
next
  case (Cons kv tbl)
  have s: "asum (account_of a) (kv # tbl) = account_of a (snd kv) + asum (account_of a) tbl" by (simp add: asum_def)
  have "0 \<le> asum (account_of a) tbl" using Cons.prems(1) by (auto intro: asum_nonneg)
  moreover have "0 \<le> account_of a (snd kv)" using Cons.prems(1) by simp
  ultimately have "acc_of a (addBalance t (snd kv)) = acc_of a t + account_of a (snd kv)"
    using Cons.prems(2,3) s by (auto simp: acc_of_addBalance is_safe_integer_def intro!: js_add_safe)
  then show ?case using Cons s by simp
qed

lemma railTotals_total:
  assumes "rows_ok db" "account_total a db \<le> max_safe_integer"
  shows "acc_of a (railTotals (map snd (db_balances db))) = account_total a db"
proof -
  let ?z = "\<lparr>to_availableUsdc = 0, to_pendingDepositUsdc = 0, to_pendingWithdrawalUsdc = 0,
       to_lockedPoolUsdc = 0, to_lockedBondUsdc = 0\<rparr>"
  have z: "acc_of a ?z = 0" by (cases a) (simp_all add: acc_of_def)
  show ?thesis
    using railTotals_exact [of "db_balances db" a ?z] rows_nonneg [OF assms(1)] assms(2) z
    by (simp add: railTotals_def account_total_def)
qed

lemma total_nonneg: "rows_ok db \<Longrightarrow> 0 \<le> account_total a db"
  by (auto simp: account_total_def intro!: asum_nonneg rows_nonneg)

subsection \<open>The drift\<close>

fun custody_of :: "DotCastSettlementTransfer \<Rightarrow> int" where
  "custody_of t =
     (case (tf_kind t, tf_status t) of
        (Deposit, Credited) \<Rightarrow> tf_amount t
      | (Withdrawal, Confirmed) \<Rightarrow> - tf_amount t
      | _ \<Rightarrow> 0)"

definition pool_net :: "DotCastUsdcPoolFundingLock \<Rightarrow> int" where
  "pool_net l = (if pk_status l \<in> {PoolSettled, PoolRefunded} then orElse (pk_payout l) 0 - pk_amount l else 0)"

definition bond_net :: "DotCastUsdcBondLock \<Rightarrow> int" where
  "bond_net l = (if bk_status l = BondLocked then 0 else bk_credit l - bk_amount l)"

definition liability :: "settlement_db \<Rightarrow> int" where
  "liability db = account_total Available db + account_total PendingWithdrawal db + account_total LockedPool db + account_total LockedBond db"

lemma liability_records:
  assumes "books db"
  shows "liability db = asum custody_of (db_transfers db) + asum pool_net (db_poolLocks db) +
    asum bond_net (db_bondLocks db)"
proof -
  let ?s = "\<lambda>f r. f Available r + f PendingWithdrawal r + f LockedPool r + f LockedBond r"
  note rows = books_rows [OF assms, unfolded rows_ok_def]
  have t: "asum (?s post_transfer) (db_transfers db) = asum custody_of (db_transfers db)"
  proof (rule asum_cong, rule ballI)
    fix kv assume "kv \<in> set (db_transfers db)"
    then have "transfer_ok (fst kv) (snd kv)" using rows table_ok_set by blast
    then show "?s post_transfer (snd kv) = custody_of (snd kv)"
      by (auto simp: transfer_ok_def split: DotCastSettlementTransferKind.splits)
  qed
  have p: "asum (?s post_pool) (db_poolLocks db) = asum pool_net (db_poolLocks db)"
    by (rule asum_cong) (auto simp: pool_net_def split: DotCastUsdcPoolFundingLockStatus.splits)
  have b: "asum (?s post_bond) (db_bondLocks db) = asum bond_net (db_bondLocks db)"
  proof (rule asum_cong, rule ballI)
    fix kv assume "kv \<in> set (db_bondLocks db)"
    then have "bond_lock_ok (fst kv) (snd kv)" using rows table_ok_set by blast
    then show "?s post_bond (snd kv) = bond_net (snd kv)" by (auto simp: bond_lock_ok_def bond_net_def)
  qed
  show ?thesis
    unfolding liability_def total_booked [OF assms] t [symmetric] p [symmetric] b [symmetric] asum_add
    by (simp only: algebra_simps)
qed

text \<open>
  C34: Reconciliation reports the truth.  On a rail that is available and on books that are right, with
  the platform's liability a safe integer, reconciling against a custody of \<open>c\<close> succeeds, writes
  nothing but its event, and reports as drift exactly \<open>c\<close> less what the records oblige the platform
  to: the credited deposits less the confirmed withdrawals, plus what pools and bonds paid out above
  or below what was locked in them.  Deposits that are only observed do not count.
\<close>

theorem reconcileDevnetSettlementRail_drift:
  assumes books: "books db" and ready: "assertDevnetMockRail env = Inr rail"
    and c: "safe_integer (ni_custodiedAmount input) = Some c" "0 \<le> c"
    and room: "account_total PendingDeposit db \<le> max_safe_integer" "liability db \<le> max_safe_integer"
  shows "\<exists>r event. reconcileDevnetSettlementRail rt clock env input db =
      (Inr r, db\<lparr>db_railEvents := insert_new (tv_eventId event) event (db_railEvents db)\<rparr>) \<and>
    rc_driftUsdc r = c - (asum custody_of (db_transfers db) + asum pool_net (db_poolLocks db) +
      asum bond_net (db_bondLocks db)) \<and>
    (tv_reason event = Some ''BALANCED'' \<longleftrightarrow> rc_driftUsdc r = 0)"
proof -
  have rows: "rows_ok db" using books by (rule books_rows)
  let ?t = "railTotals (map snd (db_balances db))"
  have le: "account_total a db \<le> max_safe_integer" for a
    using room total_nonneg [OF rows, of Available] total_nonneg [OF rows, of PendingWithdrawal]
      total_nonneg [OF rows, of LockedPool] total_nonneg [OF rows, of LockedBond]
    by (cases a) (auto simp: liability_def)
  have eq: "to_availableUsdc ?t = account_total Available db" "to_pendingWithdrawalUsdc ?t = account_total PendingWithdrawal db"
    "to_lockedPoolUsdc ?t = account_total LockedPool db" "to_lockedBondUsdc ?t = account_total LockedBond db"
    using railTotals_total [OF rows le, of Available] railTotals_total [OF rows le, of PendingWithdrawal]
      railTotals_total [OF rows le, of LockedPool] railTotals_total [OF rows le, of LockedBond]
    by (simp_all add: acc_of_def)
  have nn: "0 \<le> account_total a db" for a by (rule total_nonneg [OF rows])
  have sum: "js_add (js_add (js_add (to_availableUsdc ?t) (to_pendingWithdrawalUsdc ?t)) (to_lockedPoolUsdc ?t))
      (to_lockedBondUsdc ?t) = liability db"
    using room(2) nn [of Available] nn [of PendingWithdrawal] nn [of LockedPool] nn [of LockedBond]
    unfolding eq liability_def by (simp add: js_add_safe is_safe_integer_def)
  have "0 \<le> liability db" using nn by (simp add: liability_def)
  then have drift: "js_sub c (liability db) = c - liability db"
    using room(2) c c(1) [unfolded safe_integer_Some] by (auto simp: is_safe_integer_def intro!: js_sub_safe)
  have guard: "assertSettlementInteger (ni_custodiedAmount input) n = Inr c" for n using c by simp
  define event where "event =
    \<lparr>tv_eventId = ''dotcast:e5:reconciliation:'' @ show_date rt (orElse (ni_now input) clock) @ '':'' @ show_int c @ '':'' @
       show_int (liability db),
     tv_userId = ''system'', tv_eventType = RECONCILIATION, tv_network = rail_network rail,
     tv_cluster = rail_cluster rail, tv_mint = rail_mint rail, tv_amount = Some c, tv_txRef = None,
     tv_withdrawalId = None, tv_status = Some Reconciled,
     tv_reason = Some (if c - liability db = 0 then ''BALANCED'' else ''DRIFT''),
     tv_eventJson = totals_json ?t @
       [(''internalLiabilityUsdc'', jint (liability db)), (''driftUsdc'', jint (c - liability db))],
     tv_createdAt = orElse (ni_now input) clock\<rparr>"
  have "\<exists>r. reconcileDevnetSettlementRail rt clock env input db =
      (Inr r, db\<lparr>db_railEvents := insert_new (tv_eventId event) event (db_railEvents db)\<rparr>) \<and>
    rc_driftUsdc r = c - liability db"
    unfolding reconcileDevnetSettlementRail_def by (simp add: ready guard Let_def sum drift appendEvent_def event_def)
  moreover have "tv_reason event = Some ''BALANCED'' \<longleftrightarrow> c - liability db = 0" by (simp add: event_def)
  ultimately show ?thesis unfolding liability_records [OF books, symmetric] by auto
qed

definition example_reconciliation :: ReconcileDevnetRailInput where
  "example_reconciliation = \<lparr>ni_custodiedAmount = Fin 500, ni_now = None\<rparr>"

theorem reconcileDevnetSettlementRail_drift_witness:
  "\<exists>r event. reconcileDevnetSettlementRail ref_runtime ''t'' example_rail_env example_reconciliation example_db =
     (Inr r, example_db\<lparr>db_railEvents := insert_new (tv_eventId event) event (db_railEvents example_db)\<rparr>) \<and>
     rc_driftUsdc r = 0"
proof -
  have t: "account_total a example_db = (if a = Available then 500 else 0)" for a
    unfolding total_booked [OF example_db_books]
    by (cases a) (simp_all add: example_db_facts asum_def depositTransfer_def example_confirmations)
  have "safe_integer (ni_custodiedAmount example_reconciliation) = Some 500"
    by (simp add: example_reconciliation_def safe_500)
  then show ?thesis
    using reconcileDevnetSettlementRail_drift [OF example_db_books example_rail_ready, of example_reconciliation 500 ref_runtime "''t''"]
    by (auto simp: liability_def t max_safe_integer_def example_db_facts asum_def depositTransfer_def example_confirmations)
qed

end
