(* ===== verification/RouterResolution.thy ===== *)
theory RouterResolution
  imports PoolSettlement
begin

text \<open>
  \<open>src/engine/dotcast/RouterResolutionClient.ts\<close>: reading the resolution of a market from the router.
  The network is a parameter: for the configured URL template and a market it gives a failure, a
  response with an error status, or the JSON body.  \<open>buildResolutionUrl\<close> only names the address of
  that request and is part of the parameter.  A field of a JSON object that is absent is \<open>None\<close>.
\<close>

datatype router_answer = FetchFailed string | FetchStatus int | FetchJson json

datatype DotCastRouterResolutionFetchResult =
    RouterKnown DotCastRouterResolution
  | RouterPending DotCastRouterResolution
  | NotConfigured string

definition coalesce :: "json option \<Rightarrow> json option \<Rightarrow> json option" where  \<comment> \<open>\<open>a ?? b\<close>\<close>
  "coalesce a b = (if a = None \<or> a = Some JNull then b else a)"

definition parseRouterOutcome :: "json option \<Rightarrow> DotCastResolutionOutcome res" where
  "parseRouterOutcome value =
     (if value = Some (JStr ''yes'') then Inr (Resolved (Won Yes))
      else if value = Some (JStr ''no'') then Inr (Resolved (Won No))
      else if value = Some (JStr ''invalid'') then Inr (Resolved Invalid)
      else if value = Some (JStr ''pending'') then Inr Pending
      else Inl (Error ''router resolution outcome must be yes, no, invalid, or pending''))"

definition parse_venue :: "json option \<Rightarrow> DotCastVenue option" where
  "parse_venue value =
     (if value = Some (JStr ''kalshi'') then Some Kalshi
      else if value = Some (JStr ''polymarket'') then Some Polymarket
      else if value = Some (JStr ''dotcast'') then Some DotcastVenue
      else if value = Some (JStr ''unknown'') then Some UnknownVenue
      else None)"

definition parseRouterVenue :: "json option \<Rightarrow> DotCastVenue option res" where
  "parseRouterVenue value =
     (case parse_venue value of
        Some v \<Rightarrow> Inr (Some v)
      | None \<Rightarrow>
          if value = None \<or> value = Some JNull then Inr None
          else Inl (Error ''router resolution source must be a supported venue''))"

definition parseRouterString :: "json option \<Rightarrow> string \<Rightarrow> string res" where
  "parseRouterString value label =
     (case value of
        Some (JStr s) \<Rightarrow>
          if trim s \<noteq> '''' then Inr (trim s)
          else Inl (Error (''router resolution '' @ label @ '' must be a non-empty string''))
      | _ \<Rightarrow> Inl (Error (''router resolution '' @ label @ '' must be a non-empty string'')))"

definition parseRouterNullableString :: "json option \<Rightarrow> string \<Rightarrow> string option res" where
  "parseRouterNullableString value label =
     (if value = None \<or> value = Some JNull then Inr None
      else rbind (parseRouterString value label) (\<lambda>s. Inr (Some s)))"

definition parseRouterBoolean :: "json option \<Rightarrow> bool \<Rightarrow> bool res" where
  "parseRouterBoolean value fallback =
     (case value of
        None \<Rightarrow> Inr fallback
      | Some JNull \<Rightarrow> Inr fallback
      | Some (JBool b) \<Rightarrow> Inr b
      | _ \<Rightarrow> Inl (Error ''router resolution stale must be a boolean''))"

definition extractResolutionCandidate :: "json \<Rightarrow> json_object option res" where
  "extractResolutionCandidate payload =
     (case payload of
        JNull \<Rightarrow> Inr None
      | JObj obj \<Rightarrow>
          (case map_of obj ''resolution'' of
             Some JNull \<Rightarrow> Inr None
           | Some (JObj resolution) \<Rightarrow> Inr (Some resolution)
           | _ \<Rightarrow>
               (case map_of obj ''data'' of
                  Some (JObj inner) \<Rightarrow>
                    (case map_of inner ''resolution'' of
                       Some JNull \<Rightarrow> Inr None
                     | Some (JObj resolution) \<Rightarrow> Inr (Some resolution)
                     | _ \<Rightarrow> Inr (Some obj))
                | _ \<Rightarrow> Inr (Some obj)))
      | _ \<Rightarrow> Inl (Error ''router resolution response must be an object or null''))"

definition normalizeRouterResolution ::
  "json_object \<Rightarrow> string \<Rightarrow> string \<Rightarrow> DotCastRouterResolution res" where
  "normalizeRouterResolution candidate fallbackMarketId now =
     (let field = map_of candidate
      in rbind (parseRouterString (coalesce (coalesce (field ''marketId'') (field ''market_id''))
                  (Some (JStr fallbackMarketId))) ''marketId'') (\<lambda>marketId.
         rbind (parseRouterOutcome (field ''outcome'')) (\<lambda>outcome.
         rbind (parseRouterNullableString (coalesce (field ''resolvedAt'') (field ''resolved_at'')) ''resolvedAt'') (\<lambda>resolvedAt.
         rbind (parseRouterString (coalesce (coalesce (field ''fetchedAt'') (field ''fetched_at''))
                  (Some (JStr now))) ''fetchedAt'') (\<lambda>fetchedAt.
         rbind (parseRouterBoolean (field ''stale'') False) (\<lambda>stale.
         rbind (parseRouterVenue (coalesce (field ''source'') (field ''venue''))) (\<lambda>source.
           Inr \<lparr>rs_marketId = marketId, rs_outcome = outcome, rs_resolvedAt = resolvedAt,
                rs_fetchedAt = fetchedAt, rs_stale = stale, rs_source = source\<rparr>)))))))"

definition pendingResolution :: "string \<Rightarrow> string \<Rightarrow> DotCastRouterResolution" where
  "pendingResolution marketId now =
     \<lparr>rs_marketId = marketId, rs_outcome = Pending, rs_resolvedAt = None, rs_fetchedAt = now,
      rs_stale = False, rs_source = None\<rparr>"

definition fetchDotCastRouterResolution ::
  "string option \<Rightarrow> (string \<Rightarrow> string \<Rightarrow> router_answer) \<Rightarrow> string \<Rightarrow> string
    \<Rightarrow> DotCastRouterResolutionFetchResult res" where
  "fetchDotCastRouterResolution url fetcher marketId now =
     (let template = (case url of None \<Rightarrow> '''' | Some u \<Rightarrow> trim u)
      in if template = ''''
         then Inr (NotConfigured ''DOTCAST_ROUTER_RESOLUTION_URL is not configured'')
         else case fetcher template marketId of
             FetchFailed message \<Rightarrow> Inl (Error message)
           | FetchStatus status \<Rightarrow> Inl (Error (''router resolution fetch failed with '' @ show_int status))
           | FetchJson payload \<Rightarrow>
               rbind (extractResolutionCandidate payload) (\<lambda>candidate.
                 case candidate of
                   None \<Rightarrow> Inr (RouterPending (pendingResolution marketId now))
                 | Some obj \<Rightarrow>
                     rbind (normalizeRouterResolution obj marketId now) (\<lambda>resolution.
                       Inr (if rs_outcome resolution = Pending then RouterPending resolution
                            else RouterKnown resolution))))"

subsection \<open>What a fetch can yield\<close>

fun fetched_resolution :: "DotCastRouterResolutionFetchResult \<Rightarrow> DotCastRouterResolution option" where
  "fetched_resolution (RouterKnown r) = Some r"
| "fetched_resolution (RouterPending r) = Some r"
| "fetched_resolution (NotConfigured _) = None"

lemma fetch_kind:
  assumes "fetchDotCastRouterResolution url fetcher marketId now = Inr res"
  shows "case res of
      RouterKnown r \<Rightarrow> rs_outcome r \<noteq> Pending
    | RouterPending r \<Rightarrow> rs_outcome r = Pending
    | NotConfigured _ \<Rightarrow> True"
  using assms
  by (auto simp: fetchDotCastRouterResolution_def Let_def rbind_eq_Inr pendingResolution_def
      split: if_splits router_answer.splits option.splits)

end
