(* ===== verification/CreatorTables.thy ===== *)
theory CreatorTables
  imports SettlementRail
begin

text \<open>
  The data of the creator economy (\<open>src/engine/dotcast/CreatorEconomy.ts\<close>) and the D1 store behind it
  (\<open>D1DotCastCreatorStore\<close>; the schema is \<open>migrations/dotcast/005\<close>).  As in \<open>SettlementTables\<close> a table is
  an association list from its primary key to the record last written.  Unlike there, the \<open>...FromRow\<close>
  functions of this file check what they read and may throw.

  A \<open>batch\<close> is atomic: when one of its statements throws, none of them has happened.
  \<open>INSERT OR IGNORE\<close> skips a row that breaks any constraint of its table, \<open>CHECK\<close> included, and the
  batch goes on.
\<close>

subsection \<open>Records\<close>

datatype DotCastCreatorTier = TierCasual | TierVerified | TierPartner

datatype DotCastCreatorStatus = CreatorActive | CreatorSuspended | CreatorArchived

datatype DotCastCreatorKycStatus = KycUnverified | KycVerified | KycRejected

datatype DotCastCreatorPayoutSchedule = ScheduleManual | ScheduleWeekly | ScheduleOnDemand

datatype DotCastCreatorPayoutStatus =
  PayoutRequested | PayoutSigned | PayoutConfirmed | PayoutFailed | PayoutRejected

datatype DotCastCreatorEventType =
    CREATOR_ONBOARDED | CREATOR_UPDATED | CREATOR_RAKE_ACCRUED | CREATOR_PAYOUT_REQUESTED
  | CREATOR_PAYOUT_CONFIRMED | CREATOR_PAYOUT_REJECTED | CREATOR_SEED_RECORDED | CREATOR_NUDGE_SUPPRESSED

datatype DotCastCreatorSeedMode = BoostWinners | VoidInsurance | BonusPool

datatype DotCastResolutionBinding = OracleBound | BindingOptimistic | BindingJury | BindingUnknown

record DotCastCreatorProfile =
  cr_creatorId :: string
  cr_displayName :: string
  cr_tier :: DotCastCreatorTier
  cr_status :: DotCastCreatorStatus
  cr_kycStatus :: DotCastCreatorKycStatus
  cr_payoutDestination :: "string option"
  cr_accuracyBps :: int
  cr_retentionBps :: int
  cr_volumeScore :: int
  cr_manualReviewRequired :: bool
  cr_sponsorshipEligible :: bool
  cr_metadata :: json_object
  cr_createdAt :: string
  cr_updatedAt :: string

record DotCastCreatorEarningsBalance =
  eb_creatorId :: string
  eb_unit :: StakeUnit
  eb_available :: int
  eb_pendingPayout :: int
  eb_lifetimeAccrued :: int
  eb_lifetimePaid :: int
  eb_updatedAt :: string

record DotCastCreatorRakeAccrual =
  ac_accrualId :: string
  ac_poolId :: string
  ac_settlementId :: string
  ac_creatorId :: string
  ac_unit :: StakeUnit
  ac_totalRake :: int
  ac_creatorShare :: int
  ac_houseShare :: int
  ac_tier :: DotCastCreatorTier
  ac_tierShareBps :: int
  ac_effectiveShareBps :: int
  ac_accuracyBps :: int
  ac_retentionBps :: int
  ac_idempotencyKey :: string
  ac_eventJson :: json_object
  ac_createdAt :: string

text \<open>The field \<open>unit\<close> of a pay-out is the constant \<open>"usdc"\<close>.\<close>

record DotCastCreatorPayout =
  py_payoutId :: string
  py_creatorId :: string
  py_amount :: int
  py_status :: DotCastCreatorPayoutStatus
  py_destination :: string
  py_idempotencyKey :: string
  py_railTransferId :: "string option"
  py_railTxRef :: "string option"
  py_mockSignature :: "string option"
  py_requestedAt :: string
  py_updatedAt :: string
  py_eventJson :: json_object

record DotCastCreatorEvent =
  cv_eventId :: string
  cv_creatorId :: string
  cv_poolId :: "string option"
  cv_eventType :: DotCastCreatorEventType
  cv_unit :: "StakeUnit option"
  cv_amount :: "int option"
  cv_eventJson :: json_object
  cv_createdAt :: string

record DotCastCreatorPoolSeed =
  sd_seedId :: string
  sd_creatorId :: string
  sd_poolId :: string
  sd_unit :: StakeUnit
  sd_amount :: int
  sd_mode :: DotCastCreatorSeedMode
  sd_resolutionBinding :: DotCastResolutionBinding
  sd_status :: string
  sd_disclosureLabel :: string
  sd_creatorHoldsPosition :: bool
  sd_eventJson :: json_object
  sd_createdAt :: string

record creator_db =
  cd_creators :: "(string \<times> DotCastCreatorProfile) list"
  cd_balances :: "((string \<times> StakeUnit) \<times> DotCastCreatorEarningsBalance) list"
  cd_accruals :: "(string \<times> DotCastCreatorRakeAccrual) list"
  cd_payouts :: "(string \<times> DotCastCreatorPayout) list"
  cd_seeds :: "(string \<times> DotCastCreatorPoolSeed) list"
  cd_events :: "(string \<times> DotCastCreatorEvent) list"

definition empty_creators :: creator_db where
  "empty_creators = \<lparr>cd_creators = [], cd_balances = [], cd_accruals = [], cd_payouts = [], cd_seeds = [],
     cd_events = []\<rparr>"

subsection \<open>Parsing\<close>

text \<open>
  A value of type \<open>unknown\<close> is a \<open>json option\<close> (\<open>None\<close> is \<open>undefined\<close>).
\<close>

definition parseTier :: "json option \<Rightarrow> DotCastCreatorTier res" where
  "parseTier value =
     (if value = Some (JStr ''casual'') then Inr TierCasual
      else if value = Some (JStr ''verified'') then Inr TierVerified
      else if value = Some (JStr ''partner'') then Inr TierPartner
      else Inl (CodedError ''INVALID_CREATOR_TIER'' ''creator tier is invalid'' 400))"

definition parseCreatorStatus :: "json option \<Rightarrow> DotCastCreatorStatus res" where
  "parseCreatorStatus value =
     (if value = Some (JStr ''active'') then Inr CreatorActive
      else if value = Some (JStr ''suspended'') then Inr CreatorSuspended
      else if value = Some (JStr ''archived'') then Inr CreatorArchived
      else Inl (CodedError ''INVALID_CREATOR_STATUS'' ''creator status is invalid'' 400))"

definition parseKycStatus :: "json option \<Rightarrow> DotCastCreatorKycStatus res" where
  "parseKycStatus value =
     (if value = Some (JStr ''unverified'') then Inr KycUnverified
      else if value = Some (JStr ''verified'') then Inr KycVerified
      else if value = Some (JStr ''rejected'') then Inr KycRejected
      else Inl (CodedError ''INVALID_CREATOR_KYC'' ''creator KYC status is invalid'' 400))"

definition parsePayoutStatus :: "json option \<Rightarrow> DotCastCreatorPayoutStatus res" where
  "parsePayoutStatus value =
     (if value = Some (JStr ''requested'') then Inr PayoutRequested
      else if value = Some (JStr ''signed'') then Inr PayoutSigned
      else if value = Some (JStr ''confirmed'') then Inr PayoutConfirmed
      else if value = Some (JStr ''failed'') then Inr PayoutFailed
      else if value = Some (JStr ''rejected'') then Inr PayoutRejected
      else Inl (CodedError ''INVALID_CREATOR_PAYOUT_STATUS'' ''creator payout status is invalid'' 500))"

definition parsePayoutSchedule :: "string option \<Rightarrow> DotCastCreatorPayoutSchedule" where
  "parsePayoutSchedule value =
     (if value = Some ''weekly'' then ScheduleWeekly
      else if value = Some ''on_demand'' then ScheduleOnDemand else ScheduleManual)"

definition parseSeedMode :: "json option \<Rightarrow> DotCastCreatorSeedMode res" where
  "parseSeedMode value =
     (if value = Some (JStr ''boost_winners'') then Inr BoostWinners
      else if value = Some (JStr ''void_insurance'') then Inr VoidInsurance
      else if value = Some (JStr ''bonus_pool'') then Inr BonusPool
      else Inl (CodedError ''INVALID_CREATOR_SEED_MODE'' ''seed mode is invalid'' 400))"

definition parseResolutionBinding :: "json option \<Rightarrow> DotCastResolutionBinding res" where
  "parseResolutionBinding value =
     (if value = Some (JStr ''oracle_bound'') then Inr OracleBound
      else if value = Some (JStr ''optimistic'') then Inr BindingOptimistic
      else if value = Some (JStr ''jury'') then Inr BindingJury
      else if value = Some (JStr ''unknown'') then Inr BindingUnknown
      else Inl (CodedError ''INVALID_CREATOR_SEED_RESOLUTION_BINDING'' ''resolution binding is invalid'' 400))"

definition parseStakeUnit :: "json option \<Rightarrow> StakeUnit res" where
  "parseStakeUnit value =
     (if value = Some (JStr ''points'') then Inr Points
      else if value = Some (JStr ''usdc'') then Inr Usdc
      else Inl (CodedError ''INVALID_CREATOR_UNIT'' ''unit must be points or usdc'' 400))"

definition parseBpsNumber :: "json option \<Rightarrow> string \<Rightarrow> int res" where
  "parseBpsNumber value label =
     (let bad = Inl (CodedError ''INVALID_CREATOR_BPS'' (label @ '' must be an integer from 0 to 10000'') 400)
      in case Option.bind value json_safe_integer of
           Some v \<Rightarrow> if v < 0 \<or> v > 10000 then bad else Inr v
         | None \<Rightarrow> bad)"

definition parseBps :: "string option \<Rightarrow> int \<Rightarrow> string \<Rightarrow> int res" where
  "parseBps value fallback label =
     (case value of
        None \<Rightarrow> Inr fallback
      | Some s \<Rightarrow> if trim s = '''' then Inr fallback else parseBpsNumber (Some (JNum (js_number s))) label)"

definition parseOptionalInt :: "string option \<Rightarrow> int \<Rightarrow> string \<Rightarrow> int res" where
  "parseOptionalInt value fallback label =
     (case value of
        None \<Rightarrow> Inr fallback
      | Some s \<Rightarrow>
          if trim s = '''' then Inr fallback
          else case safe_integer (js_number s) of
              Some parsed \<Rightarrow> Inr parsed
            | None \<Rightarrow> Inl (CodedError ''INVALID_CREATOR_CONFIG'' (label @ '' must be a safe integer'') 500))"

definition parsePositiveInt :: "string option \<Rightarrow> int \<Rightarrow> string \<Rightarrow> int res" where
  "parsePositiveInt value fallback label =
     rbind (parseOptionalInt value fallback label) (\<lambda>parsed.
       if parsed \<le> 0 then Inl (CodedError ''INVALID_CREATOR_CONFIG'' (label @ '' must be positive'') 500)
       else Inr parsed)"

definition parseNonNegativeInt :: "string option \<Rightarrow> int \<Rightarrow> string \<Rightarrow> int res" where
  "parseNonNegativeInt value fallback label =
     rbind (parseOptionalInt value fallback label) (\<lambda>parsed.
       if parsed < 0 then Inl (CodedError ''INVALID_CREATOR_CONFIG'' (label @ '' must be non-negative'') 500)
       else Inr parsed)"

definition parseLimit :: "number \<Rightarrow> int" where
  "parseLimit value =
     (case safe_integer value of Some v \<Rightarrow> if v \<le> 0 then 25 else min 100 v | None \<Rightarrow> 25)"

definition parseCreatorMinorUnits :: "json option \<Rightarrow> string \<Rightarrow> int res" where
  "parseCreatorMinorUnits value label =
     (let bad = Inl (CodedError ''INVALID_CREATOR_AMOUNT'' (label @ '' must be a positive integer minor-unit amount'') 400)
      in case Option.bind value json_safe_integer of
           Some v \<Rightarrow> if v \<le> 0 then bad else Inr v
         | None \<Rightarrow> bad)"

definition parseNonNegativeNumber :: "json option \<Rightarrow> int res" where
  "parseNonNegativeNumber value =
     (let bad = Inl (CodedError ''INVALID_CREATOR_SCORE'' ''creator score must be a non-negative integer'' 400)
      in case Option.bind value json_safe_integer of
           Some v \<Rightarrow> if v < 0 then bad else Inr v
         | None \<Rightarrow> bad)"

definition requireText :: "json option \<Rightarrow> string \<Rightarrow> string res" where
  "requireText value label =
     (let bad = Inl (CodedError ''INVALID_CREATOR_INPUT'' (label @ '' is required'') 400)
      in case value of
           Some (JStr s) \<Rightarrow> if trim s \<noteq> '''' then Inr (trim s) else bad
         | _ \<Rightarrow> bad)"

definition parseNullableText :: "json option \<Rightarrow> string \<Rightarrow> string option res" where
  "parseNullableText value label =
     (if value = None \<or> value = Some JNull \<or> value = Some (JStr '''') then Inr None
      else rbind (requireText value label) (\<lambda>s. Inr (Some s)))"

definition requireRowText :: "json option \<Rightarrow> string \<Rightarrow> string res" where
  "requireRowText value label =
     (let bad = Inl (CodedError ''INVALID_CREATOR_ROW'' (label @ '' is required'') 500)
      in case value of
           Some (JStr s) \<Rightarrow> if s \<noteq> '''' then Inr s else bad
         | _ \<Rightarrow> bad)"

definition requireRowInt :: "json option \<Rightarrow> string \<Rightarrow> int res" where
  "requireRowInt value label =
     (case Option.bind value json_safe_integer of
        Some v \<Rightarrow> Inr v
      | None \<Rightarrow> Inl (CodedError ''INVALID_CREATOR_ROW'' (label @ '' must be a safe integer'') 500))"

definition clampCreatorBps :: "int \<Rightarrow> int" where
  "clampCreatorBps value = max 0 (min 10000 value)"

subsection \<open>Rows\<close>

fun show_creator_tier :: "DotCastCreatorTier \<Rightarrow> string" where
  "show_creator_tier TierCasual = ''casual''"
| "show_creator_tier TierVerified = ''verified''"
| "show_creator_tier TierPartner = ''partner''"

fun show_creator_status :: "DotCastCreatorStatus \<Rightarrow> string" where
  "show_creator_status CreatorActive = ''active''"
| "show_creator_status CreatorSuspended = ''suspended''"
| "show_creator_status CreatorArchived = ''archived''"

fun show_kyc :: "DotCastCreatorKycStatus \<Rightarrow> string" where
  "show_kyc KycUnverified = ''unverified''"
| "show_kyc KycVerified = ''verified''"
| "show_kyc KycRejected = ''rejected''"

fun show_payout_status :: "DotCastCreatorPayoutStatus \<Rightarrow> string" where
  "show_payout_status PayoutRequested = ''requested''"
| "show_payout_status PayoutSigned = ''signed''"
| "show_payout_status PayoutConfirmed = ''confirmed''"
| "show_payout_status PayoutFailed = ''failed''"
| "show_payout_status PayoutRejected = ''rejected''"

fun show_stake_unit :: "StakeUnit \<Rightarrow> string" where
  "show_stake_unit Points = ''points''"
| "show_stake_unit Usdc = ''usdc''"

fun show_schedule :: "DotCastCreatorPayoutSchedule \<Rightarrow> string" where
  "show_schedule ScheduleManual = ''manual''"
| "show_schedule ScheduleWeekly = ''weekly''"
| "show_schedule ScheduleOnDemand = ''on_demand''"

fun show_seed_mode :: "DotCastCreatorSeedMode \<Rightarrow> string" where
  "show_seed_mode BoostWinners = ''boost_winners''"
| "show_seed_mode VoidInsurance = ''void_insurance''"
| "show_seed_mode BonusPool = ''bonus_pool''"

fun show_binding :: "DotCastResolutionBinding \<Rightarrow> string" where
  "show_binding OracleBound = ''oracle_bound''"
| "show_binding BindingOptimistic = ''optimistic''"
| "show_binding BindingJury = ''jury''"
| "show_binding BindingUnknown = ''unknown''"

text \<open>A column as the value JavaScript sees; the columns of JSON text go through \<open>parseJsonObject\<close>.\<close>

definition column_json :: "row \<Rightarrow> string \<Rightarrow> json option" where
  "column_json row name =
     (case column_of row name of
        SqlNull \<Rightarrow> Some JNull
      | SqlInt i \<Rightarrow> Some (jint i)
      | SqlText s \<Rightarrow> Some (JStr s)
      | SqlJson obj \<Rightarrow> Some (JObj obj))"

definition sql_bool :: "bool \<Rightarrow> sql_value" where
  "sql_bool b = SqlInt (if b then 1 else 0)"

definition creatorParams :: "DotCastCreatorProfile \<Rightarrow> row" where
  "creatorParams creator =
     [(''creator_id'', SqlText (cr_creatorId creator)), (''display_name'', SqlText (cr_displayName creator)),
      (''tier'', SqlText (show_creator_tier (cr_tier creator))), (''status'', SqlText (show_creator_status (cr_status creator))),
      (''kyc_status'', SqlText (show_kyc (cr_kycStatus creator))),
      (''payout_destination'', sql_text_opt (cr_payoutDestination creator)),
      (''accuracy_bps'', SqlInt (cr_accuracyBps creator)), (''retention_bps'', SqlInt (cr_retentionBps creator)),
      (''volume_score'', SqlInt (cr_volumeScore creator)),
      (''manual_review_required'', sql_bool (cr_manualReviewRequired creator)),
      (''sponsorship_eligible'', sql_bool (cr_sponsorshipEligible creator)),
      (''metadata_json'', SqlJson (cr_metadata creator)), (''created_at'', SqlText (cr_createdAt creator)),
      (''updated_at'', SqlText (cr_updatedAt creator))]"

definition creatorFromRow :: "row \<Rightarrow> DotCastCreatorProfile res" where
  "creatorFromRow row =
     rbind (requireRowText (column_json row ''creator_id'') ''creator_id'') (\<lambda>creatorId.
     rbind (requireRowText (column_json row ''display_name'') ''display_name'') (\<lambda>displayName.
     rbind (parseTier (column_json row ''tier'')) (\<lambda>tier.
     rbind (parseCreatorStatus (column_json row ''status'')) (\<lambda>status.
     rbind (parseKycStatus (column_json row ''kyc_status'')) (\<lambda>kycStatus.
     rbind (parseNullableText (column_json row ''payout_destination'') ''payout_destination'') (\<lambda>payoutDestination.
     rbind (requireRowInt (column_json row ''accuracy_bps'') ''accuracy_bps'') (\<lambda>accuracyBps.
     rbind (requireRowInt (column_json row ''retention_bps'') ''retention_bps'') (\<lambda>retentionBps.
     rbind (requireRowInt (column_json row ''volume_score'') ''volume_score'') (\<lambda>volumeScore.
     rbind (requireRowText (column_json row ''created_at'') ''created_at'') (\<lambda>createdAt.
     rbind (requireRowText (column_json row ''updated_at'') ''updated_at'') (\<lambda>updatedAt.
       Inr \<lparr>cr_creatorId = creatorId, cr_displayName = displayName, cr_tier = tier, cr_status = status,
            cr_kycStatus = kycStatus, cr_payoutDestination = payoutDestination, cr_accuracyBps = accuracyBps,
            cr_retentionBps = retentionBps, cr_volumeScore = volumeScore,
            cr_manualReviewRequired = (sql_number (column_of row ''manual_review_required'') = 1),
            cr_sponsorshipEligible = (sql_number (column_of row ''sponsorship_eligible'') = 1),
            cr_metadata = parseJsonObject (column_of row ''metadata_json''),
            cr_createdAt = createdAt, cr_updatedAt = updatedAt\<rparr>)))))))))))"

definition creatorBalanceParams :: "DotCastCreatorEarningsBalance \<Rightarrow> row" where
  "creatorBalanceParams balance =
     [(''creator_id'', SqlText (eb_creatorId balance)), (''unit'', SqlText (show_stake_unit (eb_unit balance))),
      (''available'', SqlInt (eb_available balance)), (''pending_payout'', SqlInt (eb_pendingPayout balance)),
      (''lifetime_accrued'', SqlInt (eb_lifetimeAccrued balance)),
      (''lifetime_paid'', SqlInt (eb_lifetimePaid balance)), (''updated_at'', SqlText (eb_updatedAt balance))]"

definition creatorBalanceFromRow :: "row \<Rightarrow> DotCastCreatorEarningsBalance res" where
  "creatorBalanceFromRow row =
     rbind (requireRowText (column_json row ''creator_id'') ''creator_id'') (\<lambda>creatorId.
     rbind (parseStakeUnit (column_json row ''unit'')) (\<lambda>unit.
     rbind (requireRowInt (column_json row ''available'') ''available'') (\<lambda>available.
     rbind (requireRowInt (column_json row ''pending_payout'') ''pending_payout'') (\<lambda>pendingPayout.
     rbind (requireRowInt (column_json row ''lifetime_accrued'') ''lifetime_accrued'') (\<lambda>lifetimeAccrued.
     rbind (requireRowInt (column_json row ''lifetime_paid'') ''lifetime_paid'') (\<lambda>lifetimePaid.
     rbind (requireRowText (column_json row ''updated_at'') ''updated_at'') (\<lambda>updatedAt.
       Inr \<lparr>eb_creatorId = creatorId, eb_unit = unit, eb_available = available,
            eb_pendingPayout = pendingPayout, eb_lifetimeAccrued = lifetimeAccrued,
            eb_lifetimePaid = lifetimePaid, eb_updatedAt = updatedAt\<rparr>)))))))"

definition accrualParams :: "DotCastCreatorRakeAccrual \<Rightarrow> row" where
  "accrualParams accrual =
     [(''accrual_id'', SqlText (ac_accrualId accrual)), (''pool_id'', SqlText (ac_poolId accrual)),
      (''settlement_id'', SqlText (ac_settlementId accrual)), (''creator_id'', SqlText (ac_creatorId accrual)),
      (''unit'', SqlText (show_stake_unit (ac_unit accrual))), (''total_rake'', SqlInt (ac_totalRake accrual)),
      (''creator_share'', SqlInt (ac_creatorShare accrual)), (''house_share'', SqlInt (ac_houseShare accrual)),
      (''tier'', SqlText (show_creator_tier (ac_tier accrual))), (''tier_share_bps'', SqlInt (ac_tierShareBps accrual)),
      (''effective_share_bps'', SqlInt (ac_effectiveShareBps accrual)),
      (''accuracy_bps'', SqlInt (ac_accuracyBps accrual)), (''retention_bps'', SqlInt (ac_retentionBps accrual)),
      (''idempotency_key'', SqlText (ac_idempotencyKey accrual)), (''event_json'', SqlJson (ac_eventJson accrual)),
      (''created_at'', SqlText (ac_createdAt accrual))]"

definition accrualFromRow :: "row \<Rightarrow> DotCastCreatorRakeAccrual res" where
  "accrualFromRow row =
     rbind (requireRowText (column_json row ''accrual_id'') ''accrual_id'') (\<lambda>accrualId.
     rbind (requireRowText (column_json row ''pool_id'') ''pool_id'') (\<lambda>poolId.
     rbind (requireRowText (column_json row ''settlement_id'') ''settlement_id'') (\<lambda>settlementId.
     rbind (requireRowText (column_json row ''creator_id'') ''creator_id'') (\<lambda>creatorId.
     rbind (parseStakeUnit (column_json row ''unit'')) (\<lambda>unit.
     rbind (requireRowInt (column_json row ''total_rake'') ''total_rake'') (\<lambda>totalRake.
     rbind (requireRowInt (column_json row ''creator_share'') ''creator_share'') (\<lambda>creatorShare.
     rbind (requireRowInt (column_json row ''house_share'') ''house_share'') (\<lambda>houseShare.
     rbind (parseTier (column_json row ''tier'')) (\<lambda>tier.
     rbind (requireRowInt (column_json row ''tier_share_bps'') ''tier_share_bps'') (\<lambda>tierShareBps.
     rbind (requireRowInt (column_json row ''effective_share_bps'') ''effective_share_bps'') (\<lambda>effectiveShareBps.
     rbind (requireRowInt (column_json row ''accuracy_bps'') ''accuracy_bps'') (\<lambda>accuracyBps.
     rbind (requireRowInt (column_json row ''retention_bps'') ''retention_bps'') (\<lambda>retentionBps.
     rbind (requireRowText (column_json row ''idempotency_key'') ''idempotency_key'') (\<lambda>idempotencyKey.
     rbind (requireRowText (column_json row ''created_at'') ''created_at'') (\<lambda>createdAt.
       Inr \<lparr>ac_accrualId = accrualId, ac_poolId = poolId, ac_settlementId = settlementId,
            ac_creatorId = creatorId, ac_unit = unit, ac_totalRake = totalRake,
            ac_creatorShare = creatorShare, ac_houseShare = houseShare, ac_tier = tier,
            ac_tierShareBps = tierShareBps, ac_effectiveShareBps = effectiveShareBps,
            ac_accuracyBps = accuracyBps, ac_retentionBps = retentionBps,
            ac_idempotencyKey = idempotencyKey,
            ac_eventJson = parseJsonObject (column_of row ''event_json''),
            ac_createdAt = createdAt\<rparr>)))))))))))))))"

definition payoutParams :: "DotCastCreatorPayout \<Rightarrow> row" where
  "payoutParams payout =
     [(''payout_id'', SqlText (py_payoutId payout)), (''creator_id'', SqlText (py_creatorId payout)),
      (''unit'', SqlText ''usdc''), (''amount'', SqlInt (py_amount payout)),
      (''status'', SqlText (show_payout_status (py_status payout))),
      (''destination'', SqlText (py_destination payout)), (''idempotency_key'', SqlText (py_idempotencyKey payout)),
      (''rail_transfer_id'', sql_text_opt (py_railTransferId payout)),
      (''rail_tx_ref'', sql_text_opt (py_railTxRef payout)),
      (''mock_signature'', sql_text_opt (py_mockSignature payout)),
      (''requested_at'', SqlText (py_requestedAt payout)), (''updated_at'', SqlText (py_updatedAt payout)),
      (''event_json'', SqlJson (py_eventJson payout))]"

definition payoutFromRow :: "row \<Rightarrow> DotCastCreatorPayout res" where
  "payoutFromRow row =
     rbind (requireRowText (column_json row ''payout_id'') ''payout_id'') (\<lambda>payoutId.
     rbind (requireRowText (column_json row ''creator_id'') ''creator_id'') (\<lambda>creatorId.
     rbind (requireRowInt (column_json row ''amount'') ''amount'') (\<lambda>amount.
     rbind (parsePayoutStatus (column_json row ''status'')) (\<lambda>status.
     rbind (requireRowText (column_json row ''destination'') ''destination'') (\<lambda>destination.
     rbind (requireRowText (column_json row ''idempotency_key'') ''idempotency_key'') (\<lambda>idempotencyKey.
     rbind (parseNullableText (column_json row ''rail_transfer_id'') ''rail_transfer_id'') (\<lambda>railTransferId.
     rbind (parseNullableText (column_json row ''rail_tx_ref'') ''rail_tx_ref'') (\<lambda>railTxRef.
     rbind (parseNullableText (column_json row ''mock_signature'') ''mock_signature'') (\<lambda>mockSignature.
     rbind (requireRowText (column_json row ''requested_at'') ''requested_at'') (\<lambda>requestedAt.
     rbind (requireRowText (column_json row ''updated_at'') ''updated_at'') (\<lambda>updatedAt.
       Inr \<lparr>py_payoutId = payoutId, py_creatorId = creatorId, py_amount = amount, py_status = status,
            py_destination = destination, py_idempotencyKey = idempotencyKey,
            py_railTransferId = railTransferId, py_railTxRef = railTxRef, py_mockSignature = mockSignature,
            py_requestedAt = requestedAt, py_updatedAt = updatedAt,
            py_eventJson = parseJsonObject (column_of row ''event_json'')\<rparr>)))))))))))"

subsection \<open>Statements\<close>

fun run_all :: "('s, unit) eff list \<Rightarrow> ('s, unit) eff" where
  "run_all [] = ereturn ()"
| "run_all (m # ms) = ebind m (\<lambda>_. run_all ms)"

text \<open>\<open>D1Database.batch\<close>: one transaction.\<close>

definition batch :: "('s, unit) eff list \<Rightarrow> ('s, unit) eff" where
  "batch ms db = (case run_all ms db of (Inr _, db') \<Rightarrow> (Inr (), db') | (Inl e, _) \<Rightarrow> (Inl e, db))"

text \<open>A query that yields at most one row, read by a \<open>...FromRow\<close> function.\<close>

definition first_row :: "('r \<Rightarrow> 'a res) \<Rightarrow> 'r option \<Rightarrow> 'a option res" where
  "first_row from row = (case row of None \<Rightarrow> Inr None | Some r \<Rightarrow> rbind (from r) (\<lambda>a. Inr (Some a)))"

definition getCreator :: "creator_db \<Rightarrow> string \<Rightarrow> DotCastCreatorProfile option res" where
  "getCreator db creatorId = first_row (\<lambda>c. creatorFromRow (creatorParams c)) (map_of (cd_creators db) creatorId)"

definition creator_check :: "DotCastCreatorProfile \<Rightarrow> bool" where
  "creator_check c \<longleftrightarrow> 0 \<le> cr_accuracyBps c \<and> cr_accuracyBps c \<le> 10000 \<and>
     0 \<le> cr_retentionBps c \<and> cr_retentionBps c \<le> 10000 \<and> 0 \<le> cr_volumeScore c"

definition creatorUpsert :: "DotCastCreatorProfile \<Rightarrow> (creator_db, unit) eff" where
  "creatorUpsert creator =
     (\<lambda>db. if \<not> creator_check creator then (Inl constraint_error, db)
           else (Inr (), db\<lparr>cd_creators := AList.update (cr_creatorId creator)
                  (case map_of (cd_creators db) (cr_creatorId creator) of
                     None \<Rightarrow> creator
                   | Some old \<Rightarrow> creator\<lparr>cr_createdAt := cr_createdAt old\<rparr>) (cd_creators db)\<rparr>))"

definition event_check :: "DotCastCreatorEvent \<Rightarrow> bool" where
  "event_check v \<longleftrightarrow> (case cv_amount v of None \<Rightarrow> True | Some a \<Rightarrow> 0 \<le> a)"

definition eventInsert :: "DotCastCreatorEvent \<Rightarrow> (creator_db, unit) eff" where
  "eventInsert event =
     ewrite (\<lambda>db. if event_check event
                  then db\<lparr>cd_events := insert_new (cv_eventId event) event (cd_events db)\<rparr> else db)"

definition upsertCreator :: "DotCastCreatorProfile \<Rightarrow> DotCastCreatorEvent \<Rightarrow> (creator_db, unit) eff" where
  "upsertCreator creator event = batch [creatorUpsert creator, eventInsert event]"

definition getCreatorBalance :: "creator_db \<Rightarrow> string \<Rightarrow> StakeUnit \<Rightarrow> DotCastCreatorEarningsBalance option res" where
  "getCreatorBalance db creatorId unit =
     first_row (\<lambda>b. creatorBalanceFromRow (creatorBalanceParams b)) (map_of (cd_balances db) (creatorId, unit))"

definition listCreatorBalances :: "creator_db \<Rightarrow> string \<Rightarrow> DotCastCreatorEarningsBalance list res" where
  "listCreatorBalances db creatorId =
     mapM (\<lambda>b. creatorBalanceFromRow (creatorBalanceParams b))
       (sort_by (\<lambda>a b. code_unit_compare (show_stake_unit (eb_unit a)) (show_stake_unit (eb_unit b)))
         (filter (\<lambda>b. eb_creatorId b = creatorId) (map snd (cd_balances db))))"

definition earnings_check :: "DotCastCreatorEarningsBalance \<Rightarrow> bool" where
  "earnings_check b \<longleftrightarrow> 0 \<le> eb_available b \<and> 0 \<le> eb_pendingPayout b \<and> 0 \<le> eb_lifetimeAccrued b \<and>
     0 \<le> eb_lifetimePaid b"

definition balanceUpsert :: "DotCastCreatorEarningsBalance \<Rightarrow> (creator_db, unit) eff" where
  "balanceUpsert balance =
     (\<lambda>db. if \<not> earnings_check balance then (Inl constraint_error, db)
           else (Inr (), db\<lparr>cd_balances :=
                  AList.update (eb_creatorId balance, eb_unit balance) balance (cd_balances db)\<rparr>))"

text \<open>\<open>pool_id\<close> is unique, so a query by pool yields at most one row.\<close>

definition getAccrualByPool :: "creator_db \<Rightarrow> string \<Rightarrow> DotCastCreatorRakeAccrual option res" where
  "getAccrualByPool db poolId =
     first_row (\<lambda>a. accrualFromRow (accrualParams a)) (find (\<lambda>a. ac_poolId a = poolId) (map snd (cd_accruals db)))"

definition listAccruals :: "creator_db \<Rightarrow> string \<Rightarrow> int \<Rightarrow> DotCastCreatorRakeAccrual list res" where
  "listAccruals db creatorId limit =
     mapM (\<lambda>a. accrualFromRow (accrualParams a))
       (take (nat limit) (sort_by (\<lambda>a b. code_unit_compare (ac_createdAt b) (ac_createdAt a))
         (filter (\<lambda>a. ac_creatorId a = creatorId) (map snd (cd_accruals db)))))"

definition listPayouts :: "creator_db \<Rightarrow> string \<Rightarrow> int \<Rightarrow> DotCastCreatorPayout list res" where
  "listPayouts db creatorId limit =
     mapM (\<lambda>p. payoutFromRow (payoutParams p))
       (take (nat limit) (sort_by (\<lambda>a b. code_unit_compare (py_updatedAt b) (py_updatedAt a))
         (filter (\<lambda>p. py_creatorId p = creatorId) (map snd (cd_payouts db)))))"

definition bps_check :: "int \<Rightarrow> bool" where
  "bps_check v \<longleftrightarrow> 0 \<le> v \<and> v \<le> 10000"

definition accrual_check :: "DotCastCreatorRakeAccrual \<Rightarrow> bool" where
  "accrual_check a \<longleftrightarrow> 0 \<le> ac_totalRake a \<and> 0 \<le> ac_creatorShare a \<and> 0 \<le> ac_houseShare a \<and>
     bps_check (ac_tierShareBps a) \<and> bps_check (ac_effectiveShareBps a) \<and> bps_check (ac_accuracyBps a) \<and>
     bps_check (ac_retentionBps a) \<and> ac_creatorShare a + ac_houseShare a = ac_totalRake a"

definition accrualInsert :: "DotCastCreatorRakeAccrual \<Rightarrow> (creator_db, unit) eff" where
  "accrualInsert accrual =
     ewrite (\<lambda>db. if accrual_check accrual \<and>
                     \<not> list_ex (\<lambda>a. ac_poolId a = ac_poolId accrual \<or> ac_idempotencyKey a = ac_idempotencyKey accrual)
                         (map snd (cd_accruals db))
                  then db\<lparr>cd_accruals := insert_new (ac_accrualId accrual) accrual (cd_accruals db)\<rparr> else db)"

definition applyAccrual ::
  "DotCastCreatorRakeAccrual \<Rightarrow> DotCastCreatorEarningsBalance \<Rightarrow> DotCastCreatorEvent \<Rightarrow> (creator_db, unit) eff" where
  "applyAccrual accrual balance event = batch [accrualInsert accrual, balanceUpsert balance, eventInsert event]"

definition getPayout :: "creator_db \<Rightarrow> string \<Rightarrow> DotCastCreatorPayout option res" where
  "getPayout db payoutId = first_row (\<lambda>p. payoutFromRow (payoutParams p)) (map_of (cd_payouts db) payoutId)"

definition getPayoutByIdempotencyKey :: "creator_db \<Rightarrow> string \<Rightarrow> DotCastCreatorPayout option res" where
  "getPayoutByIdempotencyKey db idempotencyKey =
     first_row (\<lambda>p. payoutFromRow (payoutParams p))
       (find (\<lambda>p. py_idempotencyKey p = idempotencyKey) (map snd (cd_payouts db)))"

definition payoutInsert :: "DotCastCreatorPayout \<Rightarrow> (creator_db, unit) eff" where
  "payoutInsert payout =
     ewrite (\<lambda>db. if 0 < py_amount payout \<and>
                     \<not> list_ex (\<lambda>p. py_idempotencyKey p = py_idempotencyKey payout) (map snd (cd_payouts db))
                  then db\<lparr>cd_payouts := insert_new (py_payoutId payout) payout (cd_payouts db)\<rparr> else db)"

definition insertPayout ::
  "DotCastCreatorPayout \<Rightarrow> DotCastCreatorEarningsBalance \<Rightarrow> DotCastCreatorEvent \<Rightarrow> (creator_db, unit) eff" where
  "insertPayout payout balance event = batch [payoutInsert payout, balanceUpsert balance, eventInsert event]"

definition updatePayout ::
  "DotCastCreatorPayout \<Rightarrow> DotCastCreatorEarningsBalance \<Rightarrow> DotCastCreatorEvent \<Rightarrow> (creator_db, unit) eff" where
  "updatePayout payout balance event =
     batch [ewrite (\<lambda>db. db\<lparr>cd_payouts := update_row (py_payoutId payout)
              (\<lambda>p. p\<lparr>py_status := py_status payout, py_railTxRef := py_railTxRef payout,
                     py_mockSignature := py_mockSignature payout, py_updatedAt := py_updatedAt payout,
                     py_eventJson := py_eventJson payout\<rparr>) (cd_payouts db)\<rparr>),
            balanceUpsert balance, eventInsert event]"

definition seed_check :: "DotCastCreatorPoolSeed \<Rightarrow> bool" where
  "seed_check s \<longleftrightarrow> 0 < sd_amount s \<and> sd_disclosureLabel s = ''Creator seed'' \<and>
     sd_status s \<in> {''accepted'', ''rejected'', ''applied'', ''returned''}"

definition insertSeed :: "DotCastCreatorPoolSeed \<Rightarrow> DotCastCreatorEvent \<Rightarrow> (creator_db, unit) eff" where
  "insertSeed seed event =
     batch [ewrite (\<lambda>db. if seed_check seed
              then db\<lparr>cd_seeds := insert_new (sd_seedId seed) seed (cd_seeds db)\<rparr> else db), eventInsert event]"

end
