(* ===== verification/CreatorEconomy.thy ===== *)
theory CreatorEconomy
  imports CreatorTables
begin

text \<open>
  \<open>src/engine/dotcast/CreatorEconomy.ts\<close>: onboarding of creators, their share of the rake of settled
  pools, pay-outs over the USDC rail, nudges and seeds.

  The environment of a worker is one object; the settings of the creator economy are a record of their
  own here and the operations take them beside the settings of the rail.  The clock
  (\<open>new Date().toISOString()\<close>) is an argument.  A pay-out works on the tables of the creators and on those
  of the rail.
\<close>

subsection \<open>Settings\<close>

record DotCastCreatorEconomyEnv =
  ce_enabled :: "string option"
  ce_shareCasualBps :: "string option"
  ce_shareVerifiedBps :: "string option"
  ce_sharePartnerBps :: "string option"
  ce_payoutMin :: "string option"
  ce_payoutMax :: "string option"
  ce_payoutSchedule :: "string option"
  ce_minRetentionBps :: "string option"
  ce_seedHandlingFeeBps :: "string option"

record integrity_wall =
  iw_resolutionWriteAccess :: bool
  iw_oddsWriteAccess :: bool
  iw_userLimitBypass :: bool
  iw_urgencyTooling :: bool
  iw_separateCreatorLedger :: bool
  iw_payoutRail :: string

record tier_shares =
  ts_casual :: int
  ts_verified :: int
  ts_partner :: int

fun tier_share :: "tier_shares \<Rightarrow> DotCastCreatorTier \<Rightarrow> int" where
  "tier_share shares TierCasual = ts_casual shares"
| "tier_share shares TierVerified = ts_verified shares"
| "tier_share shares TierPartner = ts_partner shares"

record DotCastCreatorEconomyStatus =
  es_enabled :: bool
  es_ready :: bool
  es_tierSharesBps :: tier_shares
  es_payoutMinMinorUnits :: int
  es_payoutMaxMinorUnits :: int
  es_payoutSchedule :: DotCastCreatorPayoutSchedule
  es_minRetentionBps :: int
  es_seedHandlingFeeBps :: int
  es_guards :: "string list"
  es_integrityWall :: integrity_wall

definition creatorIntegrityWall :: integrity_wall where
  "creatorIntegrityWall =
     \<lparr>iw_resolutionWriteAccess = False, iw_oddsWriteAccess = False, iw_userLimitBypass = False,
      iw_urgencyTooling = False, iw_separateCreatorLedger = True, iw_payoutRail = ''p5-solana-usdc''\<rparr>"

definition readDotCastCreatorEconomyStatus ::
  "'e DotCastSettlementRailEnv_scheme \<Rightarrow> DotCastCreatorEconomyEnv \<Rightarrow> bool \<Rightarrow> DotCastCreatorEconomyStatus res" where
  "readDotCastCreatorEconomyStatus railEnv env hasDatabase =
     rbind (parseBps (ce_shareCasualBps env) 1000 ''DOTCAST_CREATOR_RAKE_SHARE_CASUAL_BPS'') (\<lambda>casual.
     rbind (parseBps (ce_shareVerifiedBps env) 2500 ''DOTCAST_CREATOR_RAKE_SHARE_VERIFIED_BPS'') (\<lambda>verified.
     rbind (parseBps (ce_sharePartnerBps env) 4000 ''DOTCAST_CREATOR_RAKE_SHARE_PARTNER_BPS'') (\<lambda>partner.
     rbind (parseNonNegativeInt (ce_payoutMin env) 500000 ''DOTCAST_CREATOR_PAYOUT_MIN_MINOR_UNITS'') (\<lambda>payoutMin.
     rbind (parsePositiveInt (ce_payoutMax env) 1000000 ''DOTCAST_CREATOR_PAYOUT_MAX_MINOR_UNITS'') (\<lambda>payoutMax.
     rbind (parseBps (ce_minRetentionBps env) 2500 ''DOTCAST_CREATOR_MIN_RETENTION_BPS'') (\<lambda>minRetention.
     rbind (parseBps (ce_seedHandlingFeeBps env) 0 ''DOTCAST_CREATOR_SEED_HANDLING_FEE_BPS'') (\<lambda>seedFee.
       let enabled = (ce_enabled env \<noteq> Some ''false'');
           rail = readSolanaUsdcSettlementRailStatus railEnv;
           guards =
             (if enabled then [] else [''creator economy disabled'']) @
             (if hasDatabase then [] else [''creator economy database not configured'']) @
             (if rail_ready rail then [] else [''creator payouts require the E5 devnet mock settlement rail'']) @
             (if payoutMin > payoutMax then [''creator payout minimum exceeds creator payout maximum''] else [])
       in Inr \<lparr>es_enabled = enabled,
               es_ready = (enabled \<and> hasDatabase \<and> rail_ready rail \<and> length guards = 0),
               es_tierSharesBps = \<lparr>ts_casual = casual, ts_verified = verified, ts_partner = partner\<rparr>,
               es_payoutMinMinorUnits = payoutMin, es_payoutMaxMinorUnits = payoutMax,
               es_payoutSchedule = parsePayoutSchedule (ce_payoutSchedule env),
               es_minRetentionBps = minRetention, es_seedHandlingFeeBps = seedFee, es_guards = guards,
               es_integrityWall = creatorIntegrityWall\<rparr>)))))))"

definition join_guards :: "string list \<Rightarrow> string" where  \<comment> \<open>\<open>guards.join("; ")\<close>\<close>
  "join_guards guards = (case guards of [] \<Rightarrow> '''' | g # gs \<Rightarrow> g @ concat (map (\<lambda>h. ''; '' @ h) gs))"

definition assertCreatorEconomyReady ::
  "'e DotCastSettlementRailEnv_scheme \<Rightarrow> DotCastCreatorEconomyEnv \<Rightarrow> bool \<Rightarrow> DotCastCreatorEconomyStatus res" where
  "assertCreatorEconomyReady railEnv env hasDatabase =
     rbind (readDotCastCreatorEconomyStatus railEnv env hasDatabase) (\<lambda>status.
       if \<not> es_ready status
       then Inl (CodedError ''CREATOR_ECONOMY_NOT_READY''
              (orElse (nullableText (Some (join_guards (es_guards status)))) ''E11 creator economy is not ready'') 503)
       else Inr status)"

subsection \<open>Shared helpers\<close>

definition equery :: "('s \<Rightarrow> 'a res) \<Rightarrow> ('s, 'a) eff" where
  "equery f s = (f s, s)"

lemma equery_apply [simp, res_simps]: "equery f s = (f s, s)"
  by (simp add: equery_def)

fun show_creator_event :: "DotCastCreatorEventType \<Rightarrow> string" where
  "show_creator_event CREATOR_ONBOARDED = ''CREATOR_ONBOARDED''"
| "show_creator_event CREATOR_UPDATED = ''CREATOR_UPDATED''"
| "show_creator_event CREATOR_RAKE_ACCRUED = ''CREATOR_RAKE_ACCRUED''"
| "show_creator_event CREATOR_PAYOUT_REQUESTED = ''CREATOR_PAYOUT_REQUESTED''"
| "show_creator_event CREATOR_PAYOUT_CONFIRMED = ''CREATOR_PAYOUT_CONFIRMED''"
| "show_creator_event CREATOR_PAYOUT_REJECTED = ''CREATOR_PAYOUT_REJECTED''"
| "show_creator_event CREATOR_SEED_RECORDED = ''CREATOR_SEED_RECORDED''"
| "show_creator_event CREATOR_NUDGE_SUPPRESSED = ''CREATOR_NUDGE_SUPPRESSED''"

definition creatorEvent ::
  "js_runtime \<Rightarrow> string \<Rightarrow> DotCastCreatorEventType \<Rightarrow> DotCastCreatorProfile \<Rightarrow> string option \<Rightarrow> StakeUnit option
    \<Rightarrow> int option \<Rightarrow> json_object \<Rightarrow> DotCastCreatorEvent" where
  "creatorEvent rt clock eventType creator poolId unit amount eventJson =
     (let createdAt = (case map_of eventJson ''createdAt'' of Some (JStr s) \<Rightarrow> s | _ \<Rightarrow> clock)
      in \<lparr>cv_eventId = ''dotcast:e11:event:'' @ cr_creatorId creator @ '':'' @ show_creator_event eventType @ '':'' @
            orElse poolId ''none'' @ '':'' @ show_date rt createdAt @ '':'' @ show_int (orElse amount 0),
          cv_creatorId = cr_creatorId creator, cv_poolId = poolId, cv_eventType = eventType, cv_unit = unit,
          cv_amount = amount, cv_eventJson = eventJson, cv_createdAt = createdAt\<rparr>)"

definition emptyEarnings :: "string \<Rightarrow> StakeUnit \<Rightarrow> string \<Rightarrow> DotCastCreatorEarningsBalance" where
  "emptyEarnings creatorId unit now =
     \<lparr>eb_creatorId = creatorId, eb_unit = unit, eb_available = 0, eb_pendingPayout = 0,
      eb_lifetimeAccrued = 0, eb_lifetimePaid = 0, eb_updatedAt = now\<rparr>"

definition requireActiveCreator :: "creator_db \<Rightarrow> string \<Rightarrow> DotCastCreatorProfile res" where
  "requireActiveCreator db creatorId =
     rbind (requireText (Some (JStr creatorId)) ''creatorId'') (\<lambda>c.
     rbind (getCreator db c) (\<lambda>found.
       let bad = Inl (CodedError ''CREATOR_NOT_ACTIVE'' ''creator is not active or has not been onboarded'' 409)
       in case found of
            None \<Rightarrow> bad
          | Some creator \<Rightarrow> if cr_status creator \<noteq> CreatorActive then bad else Inr creator))"

definition requireCreatorBalance :: "creator_db \<Rightarrow> string \<Rightarrow> StakeUnit \<Rightarrow> DotCastCreatorEarningsBalance res" where
  "requireCreatorBalance db creatorId unit =
     rbind (getCreatorBalance db creatorId unit) (\<lambda>found.
       case found of
         None \<Rightarrow> Inl (CodedError ''CREATOR_EARNINGS_BALANCE_NOT_FOUND'' ''creator earnings balance was not found'' 404)
       | Some balance \<Rightarrow> Inr balance)"

definition creatorRailUserId :: "string \<Rightarrow> string res" where
  "creatorRailUserId creatorId =
     rbind (requireText (Some (JStr creatorId)) ''creatorId'') (\<lambda>c. Inr (''creator:'' @ c))"

subsection \<open>Onboarding\<close>

record OnboardCreatorInput =
  oi_creatorId :: string
  oi_displayName :: string
  oi_tier :: "json option"
  oi_status :: "json option"
  oi_kycStatus :: "json option"
  oi_payoutDestination :: "json option"
  oi_accuracyBps :: "json option"
  oi_retentionBps :: "json option"
  oi_volumeScore :: "json option"
  oi_manualReviewRequired :: "bool option"
  oi_sponsorshipEligible :: "bool option"
  oi_metadata :: "json_object option"
  oi_now :: "string option"

text \<open>\<open>input ?? existing ?? fallback\<close>, where the input is of type \<open>unknown\<close>.\<close>

definition coalesce_input :: "json option \<Rightarrow> json option \<Rightarrow> json \<Rightarrow> json option" where
  "coalesce_input input existing fallback =
     (if input \<noteq> None \<and> input \<noteq> Some JNull then input
      else if existing \<noteq> None \<and> existing \<noteq> Some JNull then existing else Some fallback)"

definition onboardedCreator ::
  "DotCastCreatorEconomyStatus \<Rightarrow> OnboardCreatorInput \<Rightarrow> DotCastCreatorProfile option \<Rightarrow> string
    \<Rightarrow> DotCastCreatorProfile res" where
  "onboardedCreator status input existing now =
     rbind (requireText (Some (JStr (oi_creatorId input))) ''creatorId'') (\<lambda>creatorId.
     rbind (requireText (Some (JStr (oi_displayName input))) ''displayName'') (\<lambda>displayName.
     rbind (parseTier (coalesce_input (oi_tier input)
       (map_option (\<lambda>e. JStr (show_creator_tier (cr_tier e))) existing) (JStr ''casual''))) (\<lambda>tier.
     rbind (parseCreatorStatus (coalesce_input (oi_status input)
       (map_option (\<lambda>e. JStr (show_creator_status (cr_status e))) existing) (JStr ''active''))) (\<lambda>st.
     rbind (parseKycStatus (coalesce_input (oi_kycStatus input)
       (map_option (\<lambda>e. JStr (show_kyc (cr_kycStatus e))) existing) (JStr ''unverified''))) (\<lambda>kyc.
     rbind (parseNullableText (coalesce_input (oi_payoutDestination input)
       (map_option JStr (Option.bind existing cr_payoutDestination)) JNull) ''payoutDestination'') (\<lambda>destination.
     rbind (parseBpsNumber (coalesce_input (oi_accuracyBps input)
       (map_option (\<lambda>e. jint (cr_accuracyBps e)) existing) (jint 5000)) ''accuracyBps'') (\<lambda>accuracy.
     rbind (parseBpsNumber (coalesce_input (oi_retentionBps input)
       (map_option (\<lambda>e. jint (cr_retentionBps e)) existing) (jint (es_minRetentionBps status))) ''retentionBps'') (\<lambda>retention.
     rbind (parseNonNegativeNumber (coalesce_input (oi_volumeScore input)
       (map_option (\<lambda>e. jint (cr_volumeScore e)) existing) (jint 0))) (\<lambda>volume.
       Inr \<lparr>cr_creatorId = creatorId, cr_displayName = displayName, cr_tier = tier, cr_status = st,
            cr_kycStatus = kyc, cr_payoutDestination = destination, cr_accuracyBps = accuracy,
            cr_retentionBps = retention, cr_volumeScore = volume,
            cr_manualReviewRequired =
              orElse (oi_manualReviewRequired input) (orElse (map_option cr_manualReviewRequired existing) True),
            cr_sponsorshipEligible =
              orElse (oi_sponsorshipEligible input) (orElse (map_option cr_sponsorshipEligible existing)
                (oi_tier input = Some (JStr ''verified''))),
            cr_metadata = orElse (oi_metadata input) (orElse (map_option cr_metadata existing) []),
            cr_createdAt = orElse (map_option cr_createdAt existing) now, cr_updatedAt = now\<rparr>)))))))))"

definition onboardDotCastCreator ::
  "js_runtime \<Rightarrow> string \<Rightarrow> 'e DotCastSettlementRailEnv_scheme \<Rightarrow> DotCastCreatorEconomyEnv \<Rightarrow> OnboardCreatorInput \<Rightarrow> bool
    \<Rightarrow> (creator_db, DotCastCreatorProfile \<times> DotCastCreatorEconomyStatus) eff" where
  "onboardDotCastCreator rt clock railEnv env input hasDatabase =
     ebind (elift (assertCreatorEconomyReady railEnv env hasDatabase)) (\<lambda>status.
     let now = orElse (oi_now input) clock
     in ebind (equery (\<lambda>db. getCreator db (oi_creatorId input))) (\<lambda>existing.
        ebind (elift (onboardedCreator status input existing now)) (\<lambda>creator.
        ebind (upsertCreator creator
          (creatorEvent rt clock (if existing \<noteq> None then CREATOR_UPDATED else CREATOR_ONBOARDED) creator None None None
            [(''tier'', JStr (show_creator_tier (cr_tier creator))), (''kycStatus'', JStr (show_kyc (cr_kycStatus creator))),
             (''manualReviewRequired'', JBool (cr_manualReviewRequired creator))])) (\<lambda>_.
          ereturn (creator, status)))))"

record DotCastCreatorSummary =
  cs_creator :: DotCastCreatorProfile
  cs_balances :: "DotCastCreatorEarningsBalance list"
  cs_recentAccruals :: "DotCastCreatorRakeAccrual list"
  cs_recentPayouts :: "DotCastCreatorPayout list"

definition readDotCastCreatorSummary :: "creator_db \<Rightarrow> string \<Rightarrow> number \<Rightarrow> DotCastCreatorSummary res" where
  "readDotCastCreatorSummary db creatorId limit =
     rbind (requireText (Some (JStr creatorId)) ''creatorId'') (\<lambda>c.
     rbind (getCreator db c) (\<lambda>found.
       case found of
         None \<Rightarrow> Inl (CodedError ''CREATOR_NOT_FOUND'' ''dotCast creator was not found'' 404)
       | Some creator \<Rightarrow>
           let safeLimit = parseLimit limit
           in rbind (listCreatorBalances db (cr_creatorId creator)) (\<lambda>balances.
              rbind (listAccruals db (cr_creatorId creator) safeLimit) (\<lambda>recentAccruals.
              rbind (listPayouts db (cr_creatorId creator) safeLimit) (\<lambda>recentPayouts.
                Inr \<lparr>cs_creator = creator, cs_balances = balances, cs_recentAccruals = recentAccruals,
                     cs_recentPayouts = recentPayouts\<rparr>)))))"

subsection \<open>The share of the rake\<close>

definition calculateCreatorEffectiveShareBps :: "DotCastCreatorProfile \<Rightarrow> DotCastCreatorEconomyStatus \<Rightarrow> int" where
  "calculateCreatorEffectiveShareBps creator status =
     (let baseShare = tier_share (es_tierSharesBps status) (cr_tier creator)
      in if cr_manualReviewRequired creator then baseShare
         else
           let accuracyComponent = \<lfloor>fl (of_int (cr_accuracyBps creator) * fl (35 / 100))\<rfloor>;
               retentionComponent = \<lfloor>fl (of_int (cr_retentionBps creator) * fl (55 / 100))\<rfloor>;
               healthyFloorComponent = 1000;
               qualityBps = clampCreatorBps (js_add (js_add healthyFloorComponent accuracyComponent) retentionComponent)
           in \<lfloor>fl (of_int (num (baseShare * qualityBps)) / 10000)\<rfloor>)"

record ApplyCreatorRakeShareInput =
  aw_snapshot :: DotCastPoolSnapshot
  aw_now :: "string option"

record ApplyCreatorRakeShareResult =
  ar_applied :: bool
  ar_idempotent :: bool
  ar_creator :: "DotCastCreatorProfile option"
  ar_accrual :: "DotCastCreatorRakeAccrual option"
  ar_balance :: "DotCastCreatorEarningsBalance option"
  ar_status :: DotCastCreatorEconomyStatus

definition rakeShare :: "int \<Rightarrow> int \<Rightarrow> int" where
  "rakeShare rakeAmount effectiveShareBps = \<lfloor>fl (of_int (num (rakeAmount * effectiveShareBps)) / 10000)\<rfloor>"

definition rakeAccrual ::
  "DotCastCreatorEconomyStatus \<Rightarrow> DotCastCreatorProfile \<Rightarrow> DotCastPool \<Rightarrow> DotCastSettlementRecord \<Rightarrow> string
    \<Rightarrow> DotCastCreatorRakeAccrual" where
  "rakeAccrual status creator pool settlement now =
     (let effectiveShareBps = calculateCreatorEffectiveShareBps creator status;
          creatorShare = rakeShare (sr_rakeAmount settlement) effectiveShareBps;
          houseShare = js_sub (sr_rakeAmount settlement) creatorShare
      in \<lparr>ac_accrualId = ''dotcast:e11:accrual:'' @ p_id pool @ '':'' @ sr_id settlement,
          ac_poolId = p_id pool, ac_settlementId = sr_id settlement, ac_creatorId = cr_creatorId creator,
          ac_unit = p_unit pool, ac_totalRake = sr_rakeAmount settlement, ac_creatorShare = creatorShare,
          ac_houseShare = houseShare, ac_tier = cr_tier creator,
          ac_tierShareBps = tier_share (es_tierSharesBps status) (cr_tier creator),
          ac_effectiveShareBps = effectiveShareBps, ac_accuracyBps = cr_accuracyBps creator,
          ac_retentionBps = cr_retentionBps creator,
          ac_idempotencyKey = ''dotcast:e11:rake-share:'' @ p_id pool @ '':'' @ sr_id settlement,
          ac_eventJson =
            [(''source'', JStr ''pool_settlement''),
             (''conservation'', JBool (js_add creatorShare houseShare = sr_rakeAmount settlement)),
             (''manualReviewRequired'', JBool (cr_manualReviewRequired creator)),
             (''volumeScoreIgnoredAsSoleBasis'', JBool True)],
          ac_createdAt = now\<rparr>)"

definition creditRakeShare ::
  "js_runtime \<Rightarrow> string \<Rightarrow> DotCastCreatorEconomyStatus \<Rightarrow> DotCastCreatorProfile \<Rightarrow> DotCastPool
    \<Rightarrow> DotCastSettlementRecord \<Rightarrow> string \<Rightarrow> (creator_db, ApplyCreatorRakeShareResult) eff" where
  "creditRakeShare rt clock status creator pool settlement now =
     (let accrual = rakeAccrual status creator pool settlement now;
          creatorShare = ac_creatorShare accrual
      in ebind (equery (\<lambda>db. getCreatorBalance db (cr_creatorId creator) (p_unit pool))) (\<lambda>found.
         let previousBalance = orElse found (emptyEarnings (cr_creatorId creator) (p_unit pool) now);
             balance = previousBalance\<lparr>
               eb_available := js_add (eb_available previousBalance) creatorShare,
               eb_lifetimeAccrued := js_add (eb_lifetimeAccrued previousBalance) creatorShare,
               eb_updatedAt := now\<rparr>
         in ebind (applyAccrual accrual balance
              (creatorEvent rt clock CREATOR_RAKE_ACCRUED creator (Some (p_id pool)) (Some (p_unit pool)) (Some creatorShare)
                [(''accrualId'', JStr (ac_accrualId accrual)), (''settlementId'', JStr (ac_settlementId accrual)),
                 (''totalRake'', jint (ac_totalRake accrual)), (''creatorShare'', jint creatorShare),
                 (''houseShare'', jint (ac_houseShare accrual)),
                 (''effectiveShareBps'', jint (ac_effectiveShareBps accrual))])) (\<lambda>_.
              ereturn \<lparr>ar_applied = True, ar_idempotent = False, ar_creator = Some creator,
                ar_accrual = Some accrual, ar_balance = Some balance, ar_status = status\<rparr>)))"

definition applyDotCastCreatorRakeShareSettlement ::
  "js_runtime \<Rightarrow> string \<Rightarrow> 'e DotCastSettlementRailEnv_scheme \<Rightarrow> DotCastCreatorEconomyEnv \<Rightarrow> ApplyCreatorRakeShareInput
    \<Rightarrow> bool \<Rightarrow> (creator_db, ApplyCreatorRakeShareResult) eff" where
  "applyDotCastCreatorRakeShareSettlement rt clock railEnv env input hasDatabase =
     ebind (elift (assertCreatorEconomyReady railEnv env hasDatabase)) (\<lambda>status.
     let snapshot = aw_snapshot input;
         now = orElse (aw_now input) (s_updatedAt snapshot);
         creatorId = p_originatingCreatorId (s_pool snapshot)
     in if \<not> truthy_text creatorId
        then ereturn \<lparr>ar_applied = False, ar_idempotent = False, ar_creator = None, ar_accrual = None,
               ar_balance = None, ar_status = status\<rparr>
        else case (p_status (s_pool snapshot) = Settled, s_settlement snapshot) of
            (True, Some settlement) \<Rightarrow>
              ebind (equery (\<lambda>db. getAccrualByPool db (p_id (s_pool snapshot)))) (\<lambda>existing.
                case existing of
                  Some accrual \<Rightarrow>
                    ebind (equery (\<lambda>db. getCreatorBalance db (ac_creatorId accrual) (ac_unit accrual))) (\<lambda>balance.
                    ebind (equery (\<lambda>db. getCreator db (ac_creatorId accrual))) (\<lambda>creator.
                      ereturn \<lparr>ar_applied = True, ar_idempotent = True, ar_creator = creator,
                        ar_accrual = Some accrual, ar_balance = balance, ar_status = status\<rparr>))
                | None \<Rightarrow>
                    ebind (equery (\<lambda>db. getCreator db (orElse creatorId ''''))) (\<lambda>found.
                      let inactive = ethrow (CodedError ''CREATOR_NOT_ACTIVE''
                            ''creator rake-share requires an active onboarded creator'' 409)
                      in case found of
                           None \<Rightarrow> inactive
                         | Some creator \<Rightarrow>
                             if cr_status creator \<noteq> CreatorActive then inactive
                             else creditRakeShare rt clock status creator (s_pool snapshot) settlement now))
          | _ \<Rightarrow> ethrow (CodedError ''CREATOR_SETTLEMENT_REQUIRES_SETTLED_POOL''
                 ''creator rake-share accrual requires a settled pool snapshot'' 409))"

subsection \<open>Pay-outs\<close>

record creator_rail =
  cl_creators :: creator_db
  cl_rail :: settlement_db

definition on_creators :: "(creator_db, 'a) eff \<Rightarrow> (creator_rail, 'a) eff" where
  "on_creators f st = (case f (cl_creators st) of (r, db) \<Rightarrow> (r, st\<lparr>cl_creators := db\<rparr>))"

definition on_rail :: "(settlement_db, 'a) eff \<Rightarrow> (creator_rail, 'a) eff" where
  "on_rail f st = (case f (cl_rail st) of (r, db) \<Rightarrow> (r, st\<lparr>cl_rail := db\<rparr>))"

record RequestCreatorPayoutInput =
  pi_creatorId :: string
  pi_amount :: "json option"
  pi_destination :: "string option"
  pi_idempotencyKey :: string
  pi_operatorApproved :: "bool option"
  pi_now :: "string option"

record CreatorPayoutResult =
  pp_idempotent :: bool
  pp_payout :: DotCastCreatorPayout
  pp_balance :: DotCastCreatorEarningsBalance
  pp_status :: DotCastCreatorEconomyStatus

definition payoutId :: "string \<Rightarrow> string \<Rightarrow> string" where
  "payoutId creatorId idempotencyKey = ''dotcast:e11:payout:'' @ creatorId @ '':'' @ idempotencyKey"

text \<open>The checks of a new request, up to the destination.\<close>

definition checkPayout ::
  "DotCastCreatorEconomyStatus \<Rightarrow> RequestCreatorPayoutInput \<Rightarrow> creator_db
    \<Rightarrow> (DotCastCreatorProfile \<times> int \<times> DotCastCreatorEarningsBalance \<times> string) res" where
  "checkPayout status input db =
     rbind (requireActiveCreator db (pi_creatorId input)) (\<lambda>creator.
       if cr_kycStatus creator \<noteq> KycVerified
       then Inl (CodedError ''CREATOR_PAYOUT_REQUIRES_KYC'' ''creator payout requires a KYC-verified creator identity'' 403)
       else if es_payoutSchedule status = ScheduleManual \<and> pi_operatorApproved input \<noteq> Some True
       then Inl (CodedError ''CREATOR_PAYOUT_REQUIRES_OPERATOR_APPROVAL''
              ''manual creator payout schedule requires operator approval'' 403)
       else rbind (parseCreatorMinorUnits (pi_amount input) ''amount'') (\<lambda>amount.
         if amount < es_payoutMinMinorUnits status
         then Inl (CodedError ''CREATOR_PAYOUT_BELOW_MINIMUM''
                ''creator payout amount is below the configured minimum'' 400)
         else if amount > es_payoutMaxMinorUnits status
         then Inl (CodedError ''CREATOR_PAYOUT_EXCEEDS_MAXIMUM''
                ''creator payout amount exceeds the configured maximum'' 400)
         else rbind (requireCreatorBalance db (cr_creatorId creator) Usdc) (\<lambda>balance.
           if eb_available balance < amount
           then Inl (CodedError ''CREATOR_EARNINGS_BALANCE_INSUFFICIENT''
                  ''creator available USDC earnings are insufficient for payout'' 409)
           else case (pi_destination input, cr_payoutDestination creator) of
               (Some d, _) \<Rightarrow> Inr (creator, amount, balance, d)
             | (None, Some d) \<Rightarrow> Inr (creator, amount, balance, d)
             | (None, None) \<Rightarrow> Inl (CodedError ''INVALID_CREATOR_INPUT'' ''creator payout destination missing'' 400))))"

text \<open>The creator's account of the rail is raised to the earnings before the withdrawal.\<close>

definition topUpRail ::
  "string \<Rightarrow> DotCastCreatorEarningsBalance \<Rightarrow> string \<Rightarrow> (settlement_db, unit) eff" where
  "topUpRail railUserId balance now =
     (\<lambda>db. let railBalance = readSettlementBalance db railUserId now
           in if sb_availableUsdc railBalance < eb_available balance
              then saveBalance (railBalance\<lparr>sb_availableUsdc := eb_available balance, sb_updatedAt := now\<rparr>) db
              else (Inr (), db))"

definition signedPayout ::
  "DotCastCreatorEconomyStatus \<Rightarrow> string \<Rightarrow> int \<Rightarrow> string \<Rightarrow> string \<Rightarrow> withdrawal_result \<Rightarrow> string \<Rightarrow> DotCastCreatorPayout" where
  "signedPayout status creatorId amount destination idempotencyKey railResult now =
     \<lparr>py_payoutId = payoutId creatorId idempotencyKey, py_creatorId = creatorId, py_amount = amount,
      py_status = PayoutSigned, py_destination = destination, py_idempotencyKey = idempotencyKey,
      py_railTransferId = Some (tf_transferId (ro_transfer railResult)),
      py_railTxRef = tf_txRef (ro_transfer railResult),
      py_mockSignature = tf_mockSignature (ro_transfer railResult), py_requestedAt = now, py_updatedAt = now,
      py_eventJson =
        [(''rail'', JStr ''p5-solana-usdc''), (''signerMode'', JStr (show_signer (rail_signerMode (ro_rail railResult)))),
         (''broadcast'', JBool (ro_broadcast railResult)),
         (''schedule'', JStr (show_schedule (es_payoutSchedule status)))]\<rparr>"

definition requestDotCastCreatorPayout ::
  "js_runtime \<Rightarrow> string \<Rightarrow> 'e DotCastSettlementRailEnv_scheme \<Rightarrow> DotCastCreatorEconomyEnv \<Rightarrow> RequestCreatorPayoutInput
    \<Rightarrow> bool \<Rightarrow> (creator_rail, CreatorPayoutResult) eff" where
  "requestDotCastCreatorPayout rt clock railEnv env input hasDatabase =
     ebind (elift (assertCreatorEconomyReady railEnv env hasDatabase)) (\<lambda>status.
     let now = orElse (pi_now input) clock
     in ebind (elift (requireText (Some (JStr (pi_idempotencyKey input))) ''idempotencyKey'')) (\<lambda>idempotencyKey.
        ebind (on_creators (equery (\<lambda>db. getPayoutByIdempotencyKey db idempotencyKey))) (\<lambda>found.
          case found of
            Some existing \<Rightarrow>
              ebind (on_creators (equery (\<lambda>db. requireCreatorBalance db (py_creatorId existing) Usdc))) (\<lambda>balance.
                ereturn \<lparr>pp_idempotent = True, pp_payout = existing, pp_balance = balance, pp_status = status\<rparr>)
          | None \<Rightarrow>
              ebind (on_creators (equery (checkPayout status input))) (\<lambda>(creator, amount, balance, destination).
              ebind (elift (creatorRailUserId (cr_creatorId creator))) (\<lambda>railUserId.
              ebind (on_rail (topUpRail railUserId balance now)) (\<lambda>_.
              ebind (on_rail (requestDevnetWithdrawal clock railEnv
                \<lparr>wi_userId = railUserId, wi_amount = Fin (of_int amount), wi_destination = destination,
                 wi_idempotencyKey = ''creator:'' @ idempotencyKey, wi_now = Some now\<rparr>)) (\<lambda>railResult.
                let payout = signedPayout status (cr_creatorId creator) amount destination idempotencyKey railResult now;
                    nextBalance = balance\<lparr>
                      eb_available := js_sub (eb_available balance) amount,
                      eb_pendingPayout := js_add (eb_pendingPayout balance) amount, eb_updatedAt := now\<rparr>
                in ebind (on_creators (insertPayout payout nextBalance
                     (creatorEvent rt clock CREATOR_PAYOUT_REQUESTED creator None (Some Usdc) (Some amount)
                       [(''payoutId'', JStr (py_payoutId payout)),
                        (''railTransferId'', jopt JStr (py_railTransferId payout)),
                        (''status'', JStr (show_payout_status (py_status payout)))]))) (\<lambda>_.
                     ereturn \<lparr>pp_idempotent = False, pp_payout = payout, pp_balance = nextBalance,
                       pp_status = status\<rparr>))))))))"

record ConfirmCreatorPayoutInput =
  fi_payoutId :: string
  fi_txRef :: "string option"
  fi_now :: "string option"

definition confirmedPayout :: "DotCastCreatorPayout \<Rightarrow> rail_result \<Rightarrow> string \<Rightarrow> DotCastCreatorPayout" where
  "confirmedPayout payout railResult now =
     payout\<lparr>py_status := PayoutConfirmed, py_railTxRef := tf_txRef (ro_transfer railResult),
       py_mockSignature := tf_mockSignature (ro_transfer railResult), py_updatedAt := now,
       py_eventJson := spread (py_eventJson payout)
         [(''confirmedAt'', JStr now), (''railStatus'', JStr (show_transfer_status (ro_status railResult)))]\<rparr>"

definition confirmDotCastCreatorPayout ::
  "js_runtime \<Rightarrow> string \<Rightarrow> 'e DotCastSettlementRailEnv_scheme \<Rightarrow> DotCastCreatorEconomyEnv \<Rightarrow> ConfirmCreatorPayoutInput
    \<Rightarrow> bool \<Rightarrow> (creator_rail, CreatorPayoutResult) eff" where
  "confirmDotCastCreatorPayout rt clock railEnv env input hasDatabase =
     ebind (elift (assertCreatorEconomyReady railEnv env hasDatabase)) (\<lambda>status.
     let now = orElse (fi_now input) clock
     in ebind (elift (requireText (Some (JStr (fi_payoutId input))) ''payoutId'')) (\<lambda>pid.
        ebind (on_creators (equery (\<lambda>db. getPayout db pid))) (\<lambda>found.
          case found of
            None \<Rightarrow> ethrow (CodedError ''CREATOR_PAYOUT_NOT_FOUND'' ''creator payout was not found'' 404)
          | Some payout \<Rightarrow>
              if py_status payout = PayoutConfirmed
              then ebind (on_creators (equery (\<lambda>db. requireCreatorBalance db (py_creatorId payout) Usdc))) (\<lambda>balance.
                     ereturn \<lparr>pp_idempotent = True, pp_payout = payout, pp_balance = balance, pp_status = status\<rparr>)
              else if \<not> truthy_text (py_railTransferId payout)
              then ethrow (CodedError ''CREATOR_PAYOUT_MISSING_RAIL_TRANSFER''
                     ''creator payout is missing a settlement rail transfer'' 409)
              else
                ebind (on_creators (equery (\<lambda>db. requireActiveCreator db (py_creatorId payout)))) (\<lambda>creator.
                ebind (on_rail (confirmMockWithdrawal clock railEnv
                  \<lparr>ki_transferId = orElse (py_railTransferId payout) '''', ki_txRef = fi_txRef input, ki_now = Some now\<rparr>))
                  (\<lambda>railResult.
                ebind (on_creators (equery (\<lambda>db. requireCreatorBalance db (py_creatorId payout) Usdc))) (\<lambda>balance.
                  let nextBalance = balance\<lparr>
                        eb_pendingPayout := max 0 (js_sub (eb_pendingPayout balance) (py_amount payout)),
                        eb_lifetimePaid := js_add (eb_lifetimePaid balance) (py_amount payout), eb_updatedAt := now\<rparr>;
                      confirmed = confirmedPayout payout railResult now
                  in ebind (on_creators (updatePayout confirmed nextBalance
                       (creatorEvent rt clock CREATOR_PAYOUT_CONFIRMED creator None (Some Usdc) (Some (py_amount payout))
                         [(''payoutId'', JStr (py_payoutId payout)),
                          (''railTransferId'', jopt JStr (py_railTransferId payout)),
                          (''txRef'', jopt JStr (py_railTxRef confirmed))]))) (\<lambda>_.
                       ereturn \<lparr>pp_idempotent = False, pp_payout = confirmed, pp_balance = nextBalance,
                         pp_status = status\<rparr>)))))))"

subsection \<open>Nudges and seeds\<close>

record CreatorNudgeRecipient =
  nr_userId :: string
  nr_selfLimited :: bool
  nr_lossLimited :: bool
  nr_cooldownUntil :: "string option"
  nr_blockedByResponsiblePlay :: bool

record CreatorNudgePlan =
  np_creatorId :: string
  np_poolId :: string
  np_allowed :: "CreatorNudgeRecipient list"
  np_suppressed :: "(CreatorNudgeRecipient \<times> string) list"
  np_integrity :: integrity_wall

record CreatorNudgePlanInput =
  nu_creatorId :: string
  nu_poolId :: string
  nu_recipients :: "CreatorNudgeRecipient list"
  nu_now :: "string option"
  nu_metadata :: "json_object option"

definition PROHIBITED_URGENCY_FIELDS :: "string list" where
  "PROHIBITED_URGENCY_FIELDS =
     [''countdownSeconds'', ''expiresInSeconds'', ''fomoLabel'', ''urgencyLabel'', ''flashDeadline'']"

text \<open>A comparison with \<open>NaN\<close> is false.\<close>

definition nudgeSuppressionReason :: "js_runtime \<Rightarrow> CreatorNudgeRecipient \<Rightarrow> string \<Rightarrow> string option" where
  "nudgeSuppressionReason rt recipient now =
     (if nr_blockedByResponsiblePlay recipient then Some ''responsible_play_block''
      else if nr_selfLimited recipient then Some ''self_limit''
      else if nr_lossLimited recipient then Some ''loss_limit''
      else if truthy_text (nr_cooldownUntil recipient) \<and>
              (case (date_parse rt (orElse (nr_cooldownUntil recipient) ''''), date_parse rt now) of
                 (Some until, Some t) \<Rightarrow> until > t | _ \<Rightarrow> False)
      then Some ''cooldown''
      else None)"

definition assertNoUrgencyTooling :: "json_object \<Rightarrow> unit res" where
  "assertNoUrgencyTooling metadata =
     (case find (\<lambda>k. k \<in> set PROHIBITED_URGENCY_FIELDS) (map fst metadata) of
        Some k \<Rightarrow> Inl (CodedError ''CREATOR_URGENCY_TOOLING_BLOCKED'' (''creator tooling cannot set urgency field '' @ k) 400)
      | None \<Rightarrow> Inr ())"

definition nudgeStep ::
  "js_runtime \<Rightarrow> string \<Rightarrow> CreatorNudgeRecipient list \<times> (CreatorNudgeRecipient \<times> string) list \<Rightarrow> CreatorNudgeRecipient
    \<Rightarrow> CreatorNudgeRecipient list \<times> (CreatorNudgeRecipient \<times> string) list" where
  "nudgeStep rt now acc recipient =
     (case nudgeSuppressionReason rt recipient now of
        Some reason \<Rightarrow> (fst acc, snd acc @ [(recipient, reason)])
      | None \<Rightarrow> (fst acc @ [recipient], snd acc))"

definition planCreatorPoolNudges :: "js_runtime \<Rightarrow> string \<Rightarrow> CreatorNudgePlanInput \<Rightarrow> CreatorNudgePlan res" where
  "planCreatorPoolNudges rt clock input =
     (let now = orElse (nu_now input) clock
      in rbind (assertNoUrgencyTooling (orElse (nu_metadata input) [])) (\<lambda>_.
         let (allowed, suppressed) = foldl (nudgeStep rt now) ([], []) (nu_recipients input)
         in rbind (requireText (Some (JStr (nu_creatorId input))) ''creatorId'') (\<lambda>creatorId.
            rbind (requireText (Some (JStr (nu_poolId input))) ''poolId'') (\<lambda>poolId.
              Inr \<lparr>np_creatorId = creatorId, np_poolId = poolId, np_allowed = allowed,
                   np_suppressed = suppressed, np_integrity = creatorIntegrityWall\<rparr>))))"

record RecordCreatorSeedInput =
  si_seedId :: "string option"
  si_creatorId :: string
  si_poolId :: string
  si_unit :: "json option"
  si_amount :: "json option"
  si_mode :: "json option"
  si_resolutionBinding :: "json option"
  si_creatorHoldsPosition :: "bool option"
  si_now :: "string option"
  si_eventJson :: "json_object option"

definition recordDotCastCreatorPoolSeed ::
  "js_runtime \<Rightarrow> string \<Rightarrow> 'e DotCastSettlementRailEnv_scheme \<Rightarrow> DotCastCreatorEconomyEnv \<Rightarrow> RecordCreatorSeedInput
    \<Rightarrow> bool \<Rightarrow> (creator_db, DotCastCreatorPoolSeed \<times> DotCastCreatorEconomyStatus) eff" where
  "recordDotCastCreatorPoolSeed rt clock railEnv env input hasDatabase =
     ebind (elift (assertCreatorEconomyReady railEnv env hasDatabase)) (\<lambda>status.
     let now = orElse (si_now input) clock
     in ebind (equery (\<lambda>db. requireActiveCreator db (si_creatorId input))) (\<lambda>creator.
        ebind (elift (parseSeedMode (si_mode input))) (\<lambda>mode.
        ebind (elift (parseResolutionBinding (si_resolutionBinding input))) (\<lambda>resolutionBinding.
          if resolutionBinding \<noteq> OracleBound
          then ethrow (CodedError ''CREATOR_SEED_REQUIRES_ORACLE_BOUND_MARKET''
                 ''creator seed-as-boost is only accepted on oracle-bound markets'' 409)
          else
            ebind (elift (requireText (Some (JStr (si_poolId input))) ''poolId'')) (\<lambda>poolId.
            ebind (elift (parseStakeUnit (si_unit input))) (\<lambda>unit.
            ebind (elift (parseCreatorMinorUnits (si_amount input) ''amount'')) (\<lambda>amount.
              let seed =
                \<lparr>sd_seedId = orElse (si_seedId input) (''dotcast:e11:seed:'' @ si_creatorId input @ '':'' @
                   si_poolId input @ '':'' @ show_date rt now),
                 sd_creatorId = cr_creatorId creator, sd_poolId = poolId, sd_unit = unit, sd_amount = amount,
                 sd_mode = mode, sd_resolutionBinding = resolutionBinding, sd_status = ''accepted'',
                 sd_disclosureLabel = ''Creator seed'',
                 sd_creatorHoldsPosition = orElse (si_creatorHoldsPosition input) False,
                 sd_eventJson = spread (orElse (si_eventJson input) [])
                   [(''seedHandlingFeeBps'', jint (es_seedHandlingFeeBps status)),
                    (''seedAmountRaked'', JBool False), (''resolutionInfluence'', JBool False)],
                 sd_createdAt = now\<rparr>
              in ebind (insertSeed seed
                   (creatorEvent rt clock CREATOR_SEED_RECORDED creator (Some (sd_poolId seed)) (Some (sd_unit seed))
                     (Some (sd_amount seed))
                     [(''seedId'', JStr (sd_seedId seed)), (''mode'', JStr (show_seed_mode (sd_mode seed))),
                      (''disclosureLabel'', JStr (sd_disclosureLabel seed)),
                      (''resolutionBinding'', JStr (show_binding (sd_resolutionBinding seed)))])) (\<lambda>_.
                   ereturn (seed, status)))))))))"

end
