(* ===== verification/PoolReply.thy ===== *)
theory PoolReply
  imports PoolSettlement
begin

text \<open>
  What the pool object answers: the responses of \<open>src/engine/dotcast/DotCastPoolDO.ts\<close> with the odds and
  the previews that \<open>decorateSnapshot\<close> adds to a snapshot.  \<open>pool_reply\<close> is the JSON of a response; a field
  that a response does not have is \<open>None\<close>.  The object also hands these responses to its audit ledger.
\<close>

subsection \<open>What a response shows of a pool\<close>

type_synonym previews = "(string \<times> int) list"

record decorated =
  dc_snapshot :: DotCastPoolSnapshot
  dc_odds :: "rat \<times> rat"
  dc_yes :: previews
  dc_no :: previews

definition previewForSide :: "DotCastPoolSnapshot \<Rightarrow> Side \<Rightarrow> previews res" where
  "previewForSide snapshot side =
     (let preview = (\<lambda>amount. previewPayout (p_pools (s_pool snapshot)) side amount (p_rake (s_pool snapshot)))
      in rbind (preview 10) (\<lambda>a. rbind (preview 25) (\<lambda>b. rbind (preview 100) (\<lambda>c.
           Inr [(''10'', a), (''25'', b), (''100'', c)]))))"

definition decorateSnapshot :: "DotCastPoolSnapshot \<Rightarrow> decorated res" where
  "decorateSnapshot snapshot =
     rbind (impliedProb (p_pools (s_pool snapshot))) (\<lambda>odds.
     rbind (previewForSide snapshot Yes) (\<lambda>ys.
     rbind (previewForSide snapshot No) (\<lambda>ns.
       Inr \<lparr>dc_snapshot = snapshot, dc_odds = odds, dc_yes = ys, dc_no = ns\<rparr>)))"

record DotCastLiveOddsSnapshot =
  lo_poolId :: string
  lo_marketId :: string
  lo_status :: PoolStatus
  lo_unit :: StakeUnit
  lo_odds :: "rat \<times> rat"
  lo_pools :: SideTotals
  lo_totalStaked :: int
  lo_entryCount :: nat
  lo_updatedAt :: string
  lo_yes :: previews
  lo_no :: previews
  lo_hypothetical :: "(int \<times> int \<times> int) option"

definition buildLiveOdds :: "DotCastPoolSnapshot \<Rightarrow> int option \<Rightarrow> DotCastLiveOddsSnapshot res" where
  "buildLiveOdds snapshot hypotheticalAmount =
     (let pool = s_pool snapshot
      in rbind (impliedProb (p_pools pool)) (\<lambda>odds.
         rbind (previewForSide snapshot Yes) (\<lambda>ys.
         rbind (previewForSide snapshot No) (\<lambda>ns.
         rbind (case hypotheticalAmount of
                  None \<Rightarrow> Inr None
                | Some amount \<Rightarrow>
                    rbind (previewPayout (p_pools pool) Yes amount (p_rake pool)) (\<lambda>y.
                    rbind (previewPayout (p_pools pool) No amount (p_rake pool)) (\<lambda>n.
                      Inr (Some (amount, y, n))))) (\<lambda>hypothetical.
           Inr \<lparr>lo_poolId = p_id pool, lo_marketId = p_marketId pool, lo_status = p_status pool,
                lo_unit = p_unit pool, lo_odds = odds, lo_pools = p_pools pool,
                lo_totalStaked = js_add (yes (p_pools pool)) (no (p_pools pool)),
                lo_entryCount = length (s_entries snapshot), lo_updatedAt = s_updatedAt snapshot,
                lo_yes = ys, lo_no = ns, lo_hypothetical = hypothetical\<rparr>)))))"

subsection \<open>Responses\<close>

record settlement_funding =
  sf_rail :: string
  sf_lockId :: string
  sf_reservedAmount :: int

record pool_reply =
  rq_status :: int
  rq_ok :: bool
  rq_error :: "string option"
  rq_created :: "bool option"
  rq_duplicate :: "bool option"
  rq_entry :: "DotCastEntry option"
  rq_balance :: "StakeBalance option"
  rq_settlementFunding :: "settlement_funding option"
  rq_action :: "DotCastResolutionIntakeAction option"
  rq_reason :: "DotCastResolutionIntakeReason option"
  rq_poll :: "string option"
  rq_liveOdds :: "DotCastLiveOddsSnapshot option"
  rq_decorated :: "decorated option"

definition reply :: "int \<Rightarrow> bool \<Rightarrow> decorated option \<Rightarrow> pool_reply" where
  "reply status ok dec =
     \<lparr>rq_status = status, rq_ok = ok, rq_error = None, rq_created = None, rq_duplicate = None,
      rq_entry = None, rq_balance = None, rq_settlementFunding = None, rq_action = None,
      rq_reason = None, rq_poll = None, rq_liveOdds = None, rq_decorated = dec\<rparr>"

end
