(* ===== verification/AuditLedger.thy ===== *)
theory AuditLedger
  imports PoolReply SettlementTables
begin

text \<open>
  The audit ledger of the pools (\<open>src/engine/dotcast/DotCastAuditLedger.ts\<close>; the schema is
  \<open>migrations/015_dotcast_audit.sql\<close>).  A plan says which rows an action of a pool adds to the tables of
  events, of balance changes and of the house; it is computed from the response of the action alone, and
  written in one batch of \<open>INSERT OR IGNORE\<close> statements: a row whose identifier is taken, or that breaks
  a \<open>CHECK\<close> of its table, is skipped.  Triggers forbid any other change of the tables.

  A response is a \<open>pool_reply\<close>, so the tests of \<open>asSnapshot\<close>, \<open>asEntry\<close> and \<open>asBalance\<close> for the type of what they
  are given are tests for \<open>None\<close>.  The column \<open>event_json\<close> is kept as a value, before \<open>JSON.stringify\<close>.
\<close>

subsection \<open>Records\<close>

datatype DotCastAuditAction =
  AuditCreate | AuditEntry | AuditLock | AuditSettle | AuditResolution | AuditPoll | AuditVoid

datatype DotCastAuditEventType =
    POOL_CREATED | ENTRY_PLACED | POOL_LOCKED | POOL_VOIDED | POOL_SETTLED | RESOLUTION_APPLIED
  | ROUTER_POLL | RAKE_RECORDED

datatype DotCastBalanceLedgerReason =
  ENTRY_LOCK | SETTLEMENT_PAYOUT | VOID_REFUND | HOUSE_ENTRY_PAYOUT | ADJUSTMENT

datatype DotCastHouseLedgerReason = RAKE | HOUSE_REFUND | HOUSE_STAKE

text \<open>What goes into \<open>event_json\<close>.\<close>

datatype audit_json =
    ResponseJson DotCastAuditAction pool_reply
  | EntryJson DotCastAuditAction DotCastEntry StakeBalance
  | TerminalJson DotCastAuditAction "DotCastResolutionIntakeAction option" DotCastEntry
  | RakeJson HouseLedgerEntry
  | HouseJson HouseLedgerEntry

record DotCastAuditEventRecord =
  av_eventId :: string
  av_poolId :: string
  av_marketId :: "string option"
  av_eventType :: DotCastAuditEventType
  av_userId :: "string option"
  av_entryId :: "string option"
  av_unit :: "StakeUnit option"
  av_amount :: "int option"
  av_side :: "Side option"
  av_status :: "string option"
  av_reason :: "string option"
  av_correlationId :: "string option"
  av_eventJson :: audit_json
  av_createdAt :: string

record DotCastBalanceLedgerRecord =
  lr_ledgerId :: string
  lr_poolId :: string
  lr_entryId :: "string option"
  lr_userId :: string
  lr_unit :: StakeUnit
  lr_deltaAvailable :: int
  lr_deltaLocked :: int
  lr_availableAfter :: int
  lr_lockedAfter :: int
  lr_reason :: DotCastBalanceLedgerReason
  lr_eventJson :: audit_json
  lr_createdAt :: string

record DotCastHouseLedgerRecord =
  hr_ledgerId :: string
  hr_poolId :: string
  hr_unit :: StakeUnit
  hr_amount :: int
  hr_reason :: DotCastHouseLedgerReason
  hr_eventJson :: audit_json
  hr_createdAt :: string

record DotCastAuditWritePlan =
  wp_events :: "DotCastAuditEventRecord list"
  wp_balanceLedger :: "DotCastBalanceLedgerRecord list"
  wp_houseLedger :: "DotCastHouseLedgerRecord list"

record audit_db =
  at_events :: "(string \<times> DotCastAuditEventRecord) list"
  at_balances :: "(string \<times> DotCastBalanceLedgerRecord) list"
  at_house :: "(string \<times> DotCastHouseLedgerRecord) list"

definition empty_audit :: audit_db where
  "empty_audit = \<lparr>at_events = [], at_balances = [], at_house = []\<rparr>"

fun show_audit_event :: "DotCastAuditEventType \<Rightarrow> string" where
  "show_audit_event POOL_CREATED = ''POOL_CREATED''"
| "show_audit_event ENTRY_PLACED = ''ENTRY_PLACED''"
| "show_audit_event POOL_LOCKED = ''POOL_LOCKED''"
| "show_audit_event POOL_VOIDED = ''POOL_VOIDED''"
| "show_audit_event POOL_SETTLED = ''POOL_SETTLED''"
| "show_audit_event RESOLUTION_APPLIED = ''RESOLUTION_APPLIED''"
| "show_audit_event ROUTER_POLL = ''ROUTER_POLL''"
| "show_audit_event RAKE_RECORDED = ''RAKE_RECORDED''"

fun show_intake_action :: "DotCastResolutionIntakeAction \<Rightarrow> string" where
  "show_intake_action ActSettled = ''settled''"
| "show_intake_action ActVoided = ''voided''"
| "show_intake_action ActHeld = ''held''"
| "show_intake_action ActIgnored = ''ignored''"

fun show_intake_reason :: "DotCastResolutionIntakeReason \<Rightarrow> string" where
  "show_intake_reason DEFINITIVE_OUTCOME = ''DEFINITIVE_OUTCOME''"
| "show_intake_reason INVALID_RESOLUTION' = ''INVALID_RESOLUTION''"
| "show_intake_reason PENDING_RESOLUTION = ''PENDING_RESOLUTION''"
| "show_intake_reason STALE_RESOLUTION = ''STALE_RESOLUTION''"
| "show_intake_reason GRACE_TIMEOUT' = ''GRACE_TIMEOUT''"
| "show_intake_reason LOCK_VOID = ''LOCK_VOID''"
| "show_intake_reason POOL_NOT_LOCKED = ''POOL_NOT_LOCKED''"
| "show_intake_reason TERMINAL_POOL = ''TERMINAL_POOL''"

fun show_void_reason :: "DotCastVoidReason \<Rightarrow> string" where
  "show_void_reason UNDER_LIQUIDITY = ''UNDER_LIQUIDITY''"
| "show_void_reason ONE_SIDED_POOL = ''ONE_SIDED_POOL''"
| "show_void_reason NO_WINNING_ENTRIES = ''NO_WINNING_ENTRIES''"
| "show_void_reason INVALID_RESOLUTION = ''INVALID_RESOLUTION''"
| "show_void_reason GRACE_TIMEOUT = ''GRACE_TIMEOUT''"
| "show_void_reason SOURCE_CANCELLED = ''SOURCE_CANCELLED''"
| "show_void_reason ADMIN_VOID = ''ADMIN_VOID''"

subsection \<open>What is recorded of an action\<close>

text \<open>\<open>a ?? b\<close> where both may be absent.\<close>

fun orOption :: "'a option \<Rightarrow> 'a option \<Rightarrow> 'a option" where
  "orOption (Some a) b = Some a"
| "orOption None b = b"

definition textValue :: "string option \<Rightarrow> string option" where
  "textValue value = (case value of Some s \<Rightarrow> if s \<noteq> '''' then Some s else None | None \<Rightarrow> None)"

abbreviation body_action :: "pool_reply \<Rightarrow> string option" where
  "body_action body \<equiv> textValue (map_option show_intake_action (rq_action body))"

definition pollKind :: "pool_reply \<Rightarrow> string option" where
  "pollKind body = textValue (rq_poll body)"

definition primaryEventType :: "DotCastAuditAction \<Rightarrow> DotCastPoolSnapshot \<Rightarrow> DotCastAuditEventType" where
  "primaryEventType action snapshot =
     (case action of
        AuditCreate \<Rightarrow> POOL_CREATED
      | AuditEntry \<Rightarrow> ENTRY_PLACED
      | AuditLock \<Rightarrow> if p_status (s_pool snapshot) = Voided then POOL_VOIDED else POOL_LOCKED
      | AuditSettle \<Rightarrow> if p_status (s_pool snapshot) = Voided then POOL_VOIDED else POOL_SETTLED
      | AuditResolution \<Rightarrow> RESOLUTION_APPLIED
      | AuditPoll \<Rightarrow> ROUTER_POLL
      | AuditVoid \<Rightarrow> POOL_VOIDED)"

definition ended_at :: "DotCastPoolSnapshot \<Rightarrow> string" where
  "ended_at snapshot = orElse (p_settledAt (s_pool snapshot)) (s_updatedAt snapshot)"

definition primaryEventId ::
  "DotCastAuditAction \<Rightarrow> DotCastAuditEventType \<Rightarrow> pool_reply \<Rightarrow> DotCastPoolSnapshot \<Rightarrow> DotCastEntry option \<Rightarrow> string" where
  "primaryEventId action eventType body snapshot entry =
     (let poolId = p_id (s_pool snapshot);
          rest =
            (if action = AuditResolution
             then ''dotcast:audit:resolution:'' @ poolId @ '':'' @
               (case s_lastResolution snapshot of Some r \<Rightarrow> rs_fetchedAt r | None \<Rightarrow> s_updatedAt snapshot) @ '':'' @
               orElse (body_action body) (show_audit_event eventType)
             else if action = AuditPoll
             then ''dotcast:audit:poll:'' @ poolId @ '':'' @ s_updatedAt snapshot @ '':'' @
               orElse (pollKind body) ''unknown'' @ '':'' @ orElse (body_action body) ''none''
             else if eventType = POOL_VOIDED
             then ''dotcast:audit:void:'' @ poolId @ '':'' @
               orElse (map_option show_void_reason (s_voidReason snapshot)) ''unknown'' @ '':'' @ ended_at snapshot
             else ''dotcast:audit:'' @ show_audit_event eventType @ '':'' @ poolId @ '':'' @ s_updatedAt snapshot)
      in if action = AuditCreate then ''dotcast:audit:pool:'' @ poolId @ '':created''
         else case action of
             AuditEntry \<Rightarrow> (case entry of Some e \<Rightarrow> ''dotcast:audit:entry:'' @ e_id e | None \<Rightarrow> rest)
           | AuditSettle \<Rightarrow>
               (case s_settlement snapshot of Some st \<Rightarrow> ''dotcast:audit:settlement:'' @ sr_id st | None \<Rightarrow> rest)
           | _ \<Rightarrow> rest)"

text \<open>No response has a field \<open>now\<close>, so \<open>textValue(body.now)\<close> is absent.\<close>

definition primaryEventTime ::
  "DotCastAuditAction \<Rightarrow> DotCastPoolSnapshot \<Rightarrow> DotCastEntry option \<Rightarrow> string" where
  "primaryEventTime action snapshot entry =
     (if action = AuditCreate then p_createdAt (s_pool snapshot)
      else let rest = ended_at snapshot
        in case action of
          AuditEntry \<Rightarrow> (case entry of Some e \<Rightarrow> e_placedAt e | None \<Rightarrow> rest)
        | AuditSettle \<Rightarrow> (case s_settlement snapshot of Some st \<Rightarrow> sr_createdAt st | None \<Rightarrow> rest)
        | AuditResolution \<Rightarrow> (case s_lastResolution snapshot of Some r \<Rightarrow> rs_fetchedAt r | None \<Rightarrow> rest)
        | _ \<Rightarrow> rest)"

definition buildPrimaryEvent ::
  "DotCastAuditAction \<Rightarrow> DotCastAuditEventType \<Rightarrow> pool_reply \<Rightarrow> DotCastPoolSnapshot \<Rightarrow> string option \<Rightarrow> DotCastAuditEventRecord" where
  "buildPrimaryEvent action eventType body snapshot correlationId =
     (let entry = rq_entry body; pool = s_pool snapshot
      in \<lparr>av_eventId = primaryEventId action eventType body snapshot entry, av_poolId = p_id pool,
          av_marketId = Some (p_marketId pool), av_eventType = eventType,
          av_userId = map_option e_userId entry, av_entryId = map_option e_id entry, av_unit = Some (p_unit pool),
          av_amount = Some (orElse (map_option e_amount entry) (js_add (yes (p_pools pool)) (no (p_pools pool)))),
          av_side = orOption (map_option e_side entry) (case p_outcome pool of Some (Won side) \<Rightarrow> Some side | _ \<Rightarrow> None),
          av_status = Some (orElse (body_action body) (show_status (p_status pool))),
          av_reason = orOption (textValue (map_option show_intake_reason (rq_reason body)))
            (orOption (map_option show_void_reason (s_voidReason snapshot)) (pollKind body)),
          av_correlationId = correlationId, av_eventJson = ResponseJson action body,
          av_createdAt = primaryEventTime action snapshot entry\<rparr>)"

definition buildRakeEvent :: "HouseLedgerEntry \<Rightarrow> DotCastPoolSnapshot \<Rightarrow> string option \<Rightarrow> DotCastAuditEventRecord" where
  "buildRakeEvent entry snapshot correlationId =
     \<lparr>av_eventId = ''dotcast:audit:rake:'' @ hl_id entry, av_poolId = hl_poolId entry,
      av_marketId = Some (p_marketId (s_pool snapshot)), av_eventType = RAKE_RECORDED, av_userId = None,
      av_entryId = None, av_unit = Some (hl_unit entry), av_amount = Some (hl_amount entry), av_side = None,
      av_status = Some (show_status (p_status (s_pool snapshot))), av_reason = Some ''RAKE'',
      av_correlationId = correlationId, av_eventJson = RakeJson entry, av_createdAt = hl_createdAt entry\<rparr>"

definition shouldRecordTerminalBalances :: "DotCastAuditAction \<Rightarrow> pool_reply \<Rightarrow> DotCastPoolSnapshot \<Rightarrow> bool" where
  "shouldRecordTerminalBalances action body snapshot =
     (if p_status (s_pool snapshot) \<noteq> Settled \<and> p_status (s_pool snapshot) \<noteq> Voided then False
      else if action = AuditSettle \<or> action = AuditVoid then True
      else if action = AuditResolution then rq_action body = Some ActSettled \<or> rq_action body = Some ActVoided
      else if action = AuditPoll then rq_action body = Some ActSettled \<or> rq_action body = Some ActVoided
      else if action = AuditLock then p_status (s_pool snapshot) = Voided
      else False)"

text \<open>The row for one entry of a pool that has ended, if there is one.\<close>

definition terminalBalanceRow ::
  "DotCastPoolSnapshot \<Rightarrow> DotCastAuditAction \<Rightarrow> pool_reply \<Rightarrow> DotCastEntry \<Rightarrow> DotCastBalanceLedgerRecord list" where
  "terminalBalanceRow snapshot action body entry =
     (if e_funding entry \<noteq> UserFunded then []
      else case map_of (s_balances snapshot) (e_userId entry) of
        None \<Rightarrow> []
      | Some balance \<Rightarrow>
          if p_status (s_pool snapshot) = Settled \<and> e_payout entry \<noteq> None
          then [\<lparr>lr_ledgerId = ''dotcast:balance:settlement:'' @
                   (case s_settlement snapshot of Some st \<Rightarrow> sr_id st | None \<Rightarrow> p_id (s_pool snapshot)) @ '':'' @ e_id entry,
                 lr_poolId = p_id (s_pool snapshot), lr_entryId = Some (e_id entry), lr_userId = e_userId entry,
                 lr_unit = b_unit balance, lr_deltaAvailable = orElse (e_payout entry) 0, lr_deltaLocked = - e_amount entry,
                 lr_availableAfter = b_available balance, lr_lockedAfter = b_locked balance,
                 lr_reason = SETTLEMENT_PAYOUT, lr_eventJson = TerminalJson action (rq_action body) entry,
                 lr_createdAt = (case s_settlement snapshot of Some st \<Rightarrow> sr_createdAt st | None \<Rightarrow> ended_at snapshot)\<rparr>]
          else if p_status (s_pool snapshot) = Voided \<and> e_refunded entry
          then [\<lparr>lr_ledgerId = ''dotcast:balance:void:'' @ p_id (s_pool snapshot) @ '':'' @ e_id entry @ '':'' @ ended_at snapshot,
                 lr_poolId = p_id (s_pool snapshot), lr_entryId = Some (e_id entry), lr_userId = e_userId entry,
                 lr_unit = b_unit balance, lr_deltaAvailable = e_amount entry, lr_deltaLocked = - e_amount entry,
                 lr_availableAfter = b_available balance, lr_lockedAfter = b_locked balance,
                 lr_reason = VOID_REFUND, lr_eventJson = TerminalJson action (rq_action body) entry,
                 lr_createdAt = ended_at snapshot\<rparr>]
          else [])"

definition terminalBalanceLedger ::
  "DotCastPoolSnapshot \<Rightarrow> DotCastAuditAction \<Rightarrow> pool_reply \<Rightarrow> DotCastBalanceLedgerRecord list" where
  "terminalBalanceLedger snapshot action body = concat (map (terminalBalanceRow snapshot action body) (s_entries snapshot))"

definition toHouseLedgerRecord :: "HouseLedgerEntry \<Rightarrow> DotCastHouseLedgerRecord" where
  "toHouseLedgerRecord entry =
     \<lparr>hr_ledgerId = hl_id entry, hr_poolId = hl_poolId entry, hr_unit = hl_unit entry, hr_amount = hl_amount entry,
      hr_reason = RAKE, hr_eventJson = HouseJson entry, hr_createdAt = hl_createdAt entry\<rparr>"

definition emptyPlan :: DotCastAuditWritePlan where
  "emptyPlan = \<lparr>wp_events = [], wp_balanceLedger = [], wp_houseLedger = []\<rparr>"

text \<open>The row for a new entry, if there is one.\<close>

definition entryBalanceLedger ::
  "DotCastAuditAction \<Rightarrow> pool_reply \<Rightarrow> DotCastPoolSnapshot \<Rightarrow> DotCastBalanceLedgerRecord list" where
  "entryBalanceLedger action body snapshot =
     (case rq_entry body of
        None \<Rightarrow> []
      | Some entry \<Rightarrow>
          (case orOption (rq_balance body) (map_of (s_balances snapshot) (e_userId entry)) of
             None \<Rightarrow> []
           | Some balance \<Rightarrow>
               if e_funding entry = UserFunded
               then [\<lparr>lr_ledgerId = ''dotcast:balance:entry:'' @ e_id entry, lr_poolId = e_poolId entry,
                      lr_entryId = Some (e_id entry), lr_userId = e_userId entry, lr_unit = b_unit balance,
                      lr_deltaAvailable = - e_amount entry, lr_deltaLocked = e_amount entry,
                      lr_availableAfter = b_available balance, lr_lockedAfter = b_locked balance,
                      lr_reason = ENTRY_LOCK, lr_eventJson = EntryJson action entry balance,
                      lr_createdAt = e_placedAt entry\<rparr>]
               else []))"

definition buildDotCastAuditWritePlan ::
  "DotCastAuditAction \<Rightarrow> pool_reply \<Rightarrow> string option \<Rightarrow> DotCastAuditWritePlan" where
  "buildDotCastAuditWritePlan action body correlationId =
     (case map_option dc_snapshot (rq_decorated body) of
        None \<Rightarrow> emptyPlan
      | Some snapshot \<Rightarrow>
          if action = AuditCreate \<and> rq_created body = Some False \<or>
             action = AuditEntry \<and> rq_duplicate body = Some True
          then emptyPlan
          else
            \<lparr>wp_events = buildPrimaryEvent action (primaryEventType action snapshot) body snapshot correlationId #
               map (\<lambda>houseEntry. buildRakeEvent houseEntry snapshot correlationId) (s_houseLedger snapshot),
             wp_balanceLedger =
               (if action = AuditEntry then entryBalanceLedger action body snapshot else []) @
               (if shouldRecordTerminalBalances action body snapshot
                then terminalBalanceLedger snapshot action body else []),
             wp_houseLedger = map toHouseLedgerRecord (s_houseLedger snapshot)\<rparr>)"

subsection \<open>Writing a plan\<close>

definition insert_checked :: "('r \<Rightarrow> bool) \<Rightarrow> ('r \<Rightarrow> string) \<Rightarrow> 'r \<Rightarrow> (string \<times> 'r) list \<Rightarrow> (string \<times> 'r) list" where
  "insert_checked check key row tbl = (if check row then insert_new (key row) row tbl else tbl)"

definition audit_event_check :: "DotCastAuditEventRecord \<Rightarrow> bool" where
  "audit_event_check event = (case av_amount event of None \<Rightarrow> True | Some amount \<Rightarrow> 0 \<le> amount)"

definition balance_row_check :: "DotCastBalanceLedgerRecord \<Rightarrow> bool" where
  "balance_row_check row = (0 \<le> lr_availableAfter row \<and> 0 \<le> lr_lockedAfter row)"

definition house_row_check :: "DotCastHouseLedgerRecord \<Rightarrow> bool" where
  "house_row_check row = (0 \<le> hr_amount row)"

definition insertAuditEvent :: "DotCastAuditEventRecord \<Rightarrow> audit_db \<Rightarrow> audit_db" where
  "insertAuditEvent event db = db\<lparr>at_events := insert_checked audit_event_check av_eventId event (at_events db)\<rparr>"

definition insertBalanceRow :: "DotCastBalanceLedgerRecord \<Rightarrow> audit_db \<Rightarrow> audit_db" where
  "insertBalanceRow row db = db\<lparr>at_balances := insert_checked balance_row_check lr_ledgerId row (at_balances db)\<rparr>"

definition insertHouseRow :: "DotCastHouseLedgerRecord \<Rightarrow> audit_db \<Rightarrow> audit_db" where
  "insertHouseRow row db = db\<lparr>at_house := insert_checked house_row_check hr_ledgerId row (at_house db)\<rparr>"

definition dotCastAuditStatements :: "DotCastAuditWritePlan \<Rightarrow> (audit_db \<Rightarrow> audit_db) list" where
  "dotCastAuditStatements plan =
     map insertAuditEvent (wp_events plan) @ map insertBalanceRow (wp_balanceLedger plan) @
     map insertHouseRow (wp_houseLedger plan)"

text \<open>No statement of the batch throws, so the batch is their sequence.\<close>

definition writeDotCastAuditPlan :: "DotCastAuditWritePlan \<Rightarrow> audit_db \<Rightarrow> audit_db" where
  "writeDotCastAuditPlan plan = fold (\<lambda>statement db. statement db) (dotCastAuditStatements plan)"

subsection \<open>What a plan does to the tables\<close>

definition insert_all :: "('r \<Rightarrow> bool) \<Rightarrow> ('r \<Rightarrow> string) \<Rightarrow> 'r list \<Rightarrow> (string \<times> 'r) list \<Rightarrow> (string \<times> 'r) list" where
  "insert_all check key rows tbl = fold (insert_checked check key) rows tbl"

lemma insert_all_simps [simp]:
  "insert_all check key [] tbl = tbl"
  "insert_all check key (r # rs) tbl = insert_all check key rs (insert_checked check key r tbl)"
  by (simp_all add: insert_all_def)

lemma fold_events: "fold (\<lambda>st. st) (map insertAuditEvent rows) db =
    db\<lparr>at_events := insert_all audit_event_check av_eventId rows (at_events db)\<rparr>"
  by (induction rows arbitrary: db) (simp_all add: insertAuditEvent_def)

lemma fold_balances: "fold (\<lambda>st. st) (map insertBalanceRow rows) db =
    db\<lparr>at_balances := insert_all balance_row_check lr_ledgerId rows (at_balances db)\<rparr>"
  by (induction rows arbitrary: db) (simp_all add: insertBalanceRow_def)

lemma fold_house: "fold (\<lambda>st. st) (map insertHouseRow rows) db =
    db\<lparr>at_house := insert_all house_row_check hr_ledgerId rows (at_house db)\<rparr>"
  by (induction rows arbitrary: db) (simp_all add: insertHouseRow_def)

lemma writeDotCastAuditPlan_tables:
  "writeDotCastAuditPlan plan db =
     \<lparr>at_events = insert_all audit_event_check av_eventId (wp_events plan) (at_events db),
      at_balances = insert_all balance_row_check lr_ledgerId (wp_balanceLedger plan) (at_balances db),
      at_house = insert_all house_row_check hr_ledgerId (wp_houseLedger plan) (at_house db)\<rparr>"
  unfolding writeDotCastAuditPlan_def dotCastAuditStatements_def fold_append comp_apply
  by (simp add: fold_events fold_balances fold_house)

lemma insert_all_extends: "\<exists>more. insert_all check key rows tbl = tbl @ more"
proof (induction rows arbitrary: tbl)
  case (Cons r rs)
  obtain more where "insert_checked check key r tbl = tbl @ more"
    by (cases "check r \<and> map_of tbl (key r) = None") (auto simp: insert_checked_def insert_new_def)
  then show ?case using Cons [of "insert_checked check key r tbl"] by auto
qed simp

text \<open>Rows that are already there, or that break a constraint, change nothing.\<close>

lemma insert_all_known:
  "\<forall>r \<in> set rows. check r \<longrightarrow> map_of tbl (key r) \<noteq> None \<Longrightarrow> insert_all check key rows tbl = tbl"
  by (induction rows) (auto simp: insert_checked_def insert_new_def)

lemma insert_all_keys:
  "map_of (insert_all check key rows tbl) k \<noteq> None \<longleftrightarrow> map_of tbl k \<noteq> None \<or> (\<exists>r \<in> set rows. check r \<and> key r = k)"
proof (induction rows arbitrary: tbl)
  case (Cons r rs)
  then show ?case
    by (auto simp: insert_checked_def insert_new_def map_add_def split: option.splits if_splits)
qed simp

lemma insert_all_twice: "insert_all check key rows (insert_all check key rows tbl) = insert_all check key rows tbl"
  by (rule insert_all_known) (auto simp: insert_all_keys simp del: not_None_eq)

text \<open>New rows with different identifiers are all added, in their order.\<close>

lemma insert_all_new:
  assumes "\<forall>r \<in> set rows. check r \<and> map_of tbl (key r) = None" "distinct (map key rows)"
  shows "insert_all check key rows tbl = tbl @ map (\<lambda>r. (key r, r)) rows"
  using assms
proof (induction rows arbitrary: tbl)
  case (Cons r rs)
  have "key r' \<noteq> key r" if "r' \<in> set rs" for r' using Cons.prems(2) that by (metis distinct.simps(2) image_eqI list.simps(9) set_map)
  then show ?case
    using Cons.prems by (subst insert_all_simps, subst Cons.IH) (auto simp: insert_checked_def insert_new_def map_add_def)
qed simp

end
