(* ===== verification/PoolObject.thy ===== *)
theory PoolObject
  imports RouterResolution LedgerOperations CreatorEconomy AuditLedger
begin

text \<open>
  \<open>src/engine/dotcast/DotCastPoolDO.ts\<close>: the Durable Object that owns a pool.  Its state is the stored
  snapshot and the alarm; with it travel the settlement tables, the audit tables and the creator tables of
  the shared databases.  The errors of the audit ledger and of the creator economy are caught and logged;
  what they wrote before stays written.

  One request is one \<open>eff\<close>: it may throw, and what it wrote before stays written.  The handler of
  \<open>fetch\<close> turns an exception into a response with status 400.  A poll waits for the router between
  reading the pool and writing it; it is given in its two halves, \<open>pollStart\<close> and \<open>pollFinish\<close>.

  Every pool is a new object after \<open>normalizePoolSnapshot\<close>, so the test \<open>nextSnapshot === snapshot\<close> of
  \<open>lockIfNeeded\<close> is never true and the method always persists.
\<close>

subsection \<open>The object and its environment\<close>


record pool_object =
  po_snapshot :: "DotCastPoolSnapshot option"
  po_alarm :: "number option"
  po_ledger :: settlement_db
  po_audit :: audit_db
  po_creators :: creator_db

record DotCastPoolEnv = DotCastUsdcPoolFundingEnv +
  ev_tradingDb :: bool
  ev_dotcastDb :: bool
  ev_creator :: DotCastCreatorEconomyEnv
  ev_pollMs :: "string option"
  ev_maxGraceMs :: "string option"
  ev_resolutionUrl :: "string option"

subsection \<open>Reading payloads\<close>

definition parseUserId :: "json option \<Rightarrow> string res" where
  "parseUserId value =
     (case value of
        Some (JStr s) \<Rightarrow> if trim s \<noteq> '''' then Inr (trim s) else Inl (Error ''userId is required'')
      | _ \<Rightarrow> Inl (Error ''userId is required''))"

definition parseSide :: "json option \<Rightarrow> Side res" where
  "parseSide value =
     (if value = Some (JStr ''yes'') then Inr Yes
      else if value = Some (JStr ''no'') then Inr No
      else Inl (Error ''side must be yes or no''))"

definition parseAmount :: "json option \<Rightarrow> int res" where
  "parseAmount value =
     (let bad = Error ''amount must be a positive integer minor-unit amount''
      in case value of
           None \<Rightarrow> Inl bad
         | Some v \<Rightarrow>
             (case json_safe_integer v of
                Some i \<Rightarrow> if i \<le> 0 then Inl bad else Inr i
              | None \<Rightarrow> Inl bad))"

definition parseOptionalAmount :: "string option \<Rightarrow> int option res" where
  "parseOptionalAmount value =
     (let bad = Error ''amount must be a positive integer minor-unit amount''
      in case value of
           None \<Rightarrow> Inr None
         | Some s \<Rightarrow>
             (case safe_integer (js_number s) of
                Some i \<Rightarrow> if i \<le> 0 then Inl bad else Inr (Some i)
              | None \<Rightarrow> Inl bad))"

definition parseRequiredString :: "json option \<Rightarrow> string \<Rightarrow> string res" where
  "parseRequiredString value label =
     (case value of
        Some (JStr s) \<Rightarrow> if trim s \<noteq> '''' then Inr (trim s) else Inl (Error (label @ '' is required''))
      | _ \<Rightarrow> Inl (Error (label @ '' is required'')))"

definition parseOptionalString :: "json option \<Rightarrow> string \<Rightarrow> string option res" where
  "parseOptionalString value label =
     (if value = None \<or> value = Some JNull then Inr None
      else case value of
          Some (JStr s) \<Rightarrow>
            if trim s \<noteq> '''' then Inr (Some (trim s)) else Inl (Error (label @ '' must be a non-empty string''))
        | _ \<Rightarrow> Inl (Error (label @ '' must be a non-empty string'')))"

definition parseNullableString :: "json option \<Rightarrow> string \<Rightarrow> string option res" where
  "parseNullableString value label =
     (if value = None \<or> value = Some JNull then Inr None else parseOptionalString value label)"

definition parseOptionalVenue :: "json option \<Rightarrow> DotCastVenue option res" where
  "parseOptionalVenue value =
     (case parse_venue value of
        Some v \<Rightarrow> Inr (Some v)
      | None \<Rightarrow>
          if value = None \<or> value = Some JNull then Inr None
          else Inl (Error ''resolution.source must be a supported venue''))"

definition parseOptionalNonNegativeInteger :: "json option \<Rightarrow> string \<Rightarrow> int option res" where
  "parseOptionalNonNegativeInteger value label =
     (let bad = Error (label @ '' must be a non-negative integer'')
      in if value = None \<or> value = Some JNull then Inr None
         else case json_safe_integer (orElse value JNull) of
             Some i \<Rightarrow> if i < 0 then Inl bad else Inr (Some i)
           | None \<Rightarrow> Inl bad)"

definition parseEnvNonNegativeInteger :: "string option \<Rightarrow> string \<Rightarrow> int option res" where
  "parseEnvNonNegativeInteger value label =
     (let bad = Error (label @ '' must be a non-negative integer'')
      in case value of
           None \<Rightarrow> Inr None
         | Some s \<Rightarrow>
             if trim s = '''' then Inr None
             else case safe_integer (js_number s) of
                 Some i \<Rightarrow> if i < 0 then Inl bad else Inr (Some i)
               | None \<Rightarrow> Inl bad)"

definition resolvePollIntervalMs :: "string option \<Rightarrow> int res" where
  "resolvePollIntervalMs value =
     rbind (parseEnvNonNegativeInteger value ''DOTCAST_ROUTER_RESOLUTION_POLL_MS'') (\<lambda>parsed.
       Inr (orElse parsed 60000))"

definition parseOutcome :: "json option \<Rightarrow> Outcome res" where
  "parseOutcome value =
     (if value = Some (JStr ''yes'') then Inr (Won Yes)
      else if value = Some (JStr ''no'') then Inr (Won No)
      else if value = Some (JStr ''invalid'') then Inr Invalid
      else Inl (Error ''outcome must be yes, no, or invalid''))"

definition parseResolutionOutcome :: "json option \<Rightarrow> DotCastResolutionOutcome res" where
  "parseResolutionOutcome value =
     (if value = Some (JStr ''yes'') then Inr (Resolved (Won Yes))
      else if value = Some (JStr ''no'') then Inr (Resolved (Won No))
      else if value = Some (JStr ''invalid'') then Inr (Resolved Invalid)
      else if value = Some (JStr ''pending'') then Inr Pending
      else Inl (Error ''resolution outcome must be yes, no, invalid, or pending''))"

definition parseVoidReason :: "json option \<Rightarrow> DotCastVoidReason res" where
  "parseVoidReason value =
     (if value = Some (JStr ''UNDER_LIQUIDITY'') then Inr UNDER_LIQUIDITY
      else if value = Some (JStr ''ONE_SIDED_POOL'') then Inr ONE_SIDED_POOL
      else if value = Some (JStr ''NO_WINNING_ENTRIES'') then Inr NO_WINNING_ENTRIES
      else if value = Some (JStr ''INVALID_RESOLUTION'') then Inr INVALID_RESOLUTION
      else if value = Some (JStr ''GRACE_TIMEOUT'') then Inr GRACE_TIMEOUT
      else if value = Some (JStr ''SOURCE_CANCELLED'') then Inr SOURCE_CANCELLED
      else if value = Some (JStr ''ADMIN_VOID'') then Inr ADMIN_VOID
      else Inl (Error ''void reason is required''))"

record RouterResolutionPayload =
  rp_marketId :: "json option"
  rp_outcome :: "json option"
  rp_resolvedAt :: "json option"
  rp_fetchedAt :: "json option"
  rp_stale :: "json option"
  rp_source :: "json option"
  rp_now :: "string option"
  rp_maxGraceMs :: "json option"

definition parseRouterResolution :: "RouterResolutionPayload \<Rightarrow> string \<Rightarrow> DotCastRouterResolution res" where
  "parseRouterResolution payload fallbackFetchedAt =
     rbind (parseRequiredString (rp_marketId payload) ''resolution.marketId'') (\<lambda>marketId.
     rbind (parseResolutionOutcome (rp_outcome payload)) (\<lambda>outcome.
     rbind (parseNullableString (rp_resolvedAt payload) ''resolution.resolvedAt'') (\<lambda>resolvedAt.
     rbind (parseOptionalString (rp_fetchedAt payload) ''resolution.fetchedAt'') (\<lambda>fetchedAt.
     rbind (parseOptionalVenue (rp_source payload)) (\<lambda>source.
       Inr \<lparr>rs_marketId = marketId, rs_outcome = outcome, rs_resolvedAt = resolvedAt,
            rs_fetchedAt = orElse fetchedAt fallbackFetchedAt,
            rs_stale = (case rp_stale payload of Some (JBool b) \<Rightarrow> b | _ \<Rightarrow> False),
            rs_source = source\<rparr>)))))"

definition json_field :: "json \<Rightarrow> string \<Rightarrow> json option" where
  "json_field v name = (case v of JObj obj \<Rightarrow> map_of obj name | _ \<Rightarrow> None)"

definition parseSettlementFunding :: "json option \<Rightarrow> StakeUnit \<Rightarrow> int \<Rightarrow> settlement_funding option res" where
  "parseSettlementFunding value unit amount =
     (if unit \<noteq> Usdc then Inr None
      else
        let fail = Inl (Error ''usdc entries require an E6 settlement funding reservation'');
            read = (\<lambda>v.
              rbind (parseRequiredString (json_field v ''rail'') ''settlementFunding.rail'') (\<lambda>rail.
              rbind (parseRequiredString (json_field v ''lockId'') ''settlementFunding.lockId'') (\<lambda>lockId.
              rbind (parseAmount (json_field v ''reservedAmount'')) (\<lambda>reservedAmount.
                if rail \<noteq> ''solana-usdc-devnet''
                then Inl (Error ''usdc entries require a solana-usdc-devnet funding rail'')
                else if reservedAmount \<noteq> amount
                then Inl (Error ''settlement funding reservation must equal entry amount'')
                else Inr (Some \<lparr>sf_rail = rail, sf_lockId = lockId, sf_reservedAmount = reservedAmount\<rparr>)))))
        in case value of
             Some (JObj obj) \<Rightarrow> read (JObj obj)
           | Some (JArr vs) \<Rightarrow> read (JArr vs)
           | _ \<Rightarrow> fail)"

definition seedBalance :: "string \<Rightarrow> StakeUnit \<Rightarrow> StakeBalance" where
  "seedBalance userId unit =
     \<lparr>b_userId = userId, b_unit = unit, b_available = (if unit = Points then 10000 else 0), b_locked = 0\<rparr>"

subsection \<open>Storage\<close>

definition readSnapshot :: "(pool_object, DotCastPoolSnapshot option) eff" where
  "readSnapshot = eread po_snapshot"

definition requireSnapshot :: "(pool_object, DotCastPoolSnapshot) eff" where
  "requireSnapshot =
     ebind readSnapshot (\<lambda>snapshot.
       case snapshot of
         None \<Rightarrow> ethrow (Error ''pool has not been created'')
       | Some s \<Rightarrow> ereturn s)"

definition writeSnapshot :: "DotCastPoolSnapshot \<Rightarrow> (pool_object, unit) eff" where
  "writeSnapshot snapshot = ewrite (\<lambda>ob. ob\<lparr>po_snapshot := Some snapshot\<rparr>)"

text \<open>\<open>Date.parse(now) + interval\<close>\<close>

definition alarm_time :: "js_runtime \<Rightarrow> string \<Rightarrow> int \<Rightarrow> number" where
  "alarm_time rt now interval =
     (case date_parse rt now of None \<Rightarrow> NaN | Some ms \<Rightarrow> Fin (of_int (js_add ms interval)))"

definition reconcileResolutionAlarm ::
  "js_runtime \<Rightarrow> DotCastPoolEnv \<Rightarrow> DotCastPoolSnapshot \<Rightarrow> string \<Rightarrow> (pool_object, unit) eff" where
  "reconcileResolutionAlarm rt env snapshot now =
     (if p_status (s_pool snapshot) = Locked \<or> p_status (s_pool snapshot) = Resolving
      then ebind (elift (resolvePollIntervalMs (ev_pollMs env))) (\<lambda>interval.
             ewrite (\<lambda>ob. ob\<lparr>po_alarm := Some (alarm_time rt now interval)\<rparr>))
      else ewrite (\<lambda>ob. ob\<lparr>po_alarm := None\<rparr>))"

definition audit :: "DotCastPoolEnv \<Rightarrow> DotCastAuditAction \<Rightarrow> pool_reply \<Rightarrow> (pool_object, unit) eff" where
  "audit env action body =
     (if \<not> ev_tradingDb env then ereturn ()
      else let plan = buildDotCastAuditWritePlan action body None
        in if wp_events plan = [] \<and> wp_balanceLedger plan = [] \<and> wp_houseLedger plan = [] then ereturn ()
           else ewrite (\<lambda>ob. ob\<lparr>po_audit := writeDotCastAuditPlan plan (po_audit ob)\<rparr>))"

text \<open>An operation on the settlement tables, run on the tables of the object.\<close>

definition on_ledger :: "(settlement_db, 'a) eff \<Rightarrow> (pool_object, 'a) eff" where
  "on_ledger f ob = (case f (po_ledger ob) of (r, db) \<Rightarrow> (r, ob\<lparr>po_ledger := db\<rparr>))"

definition reconcileUsdcPoolFunding ::
  "DotCastPoolEnv \<Rightarrow> DotCastPoolSnapshot \<Rightarrow> string \<Rightarrow> (pool_object, unit) eff" where
  "reconcileUsdcPoolFunding env snapshot now =
     (if p_unit (s_pool snapshot) \<noteq> Usdc \<or> \<not> terminal (p_status (s_pool snapshot)) then ereturn ()
      else if \<not> ev_tradingDb env then ethrow (Error ''E6 USDC pool funding database is not configured'')
      else ebind (on_ledger (applyUsdcPoolTerminalSettlement env \<lparr>ti_snapshot = snapshot, ti_now = Some now\<rparr>))
             (\<lambda>_. ereturn ()))"

text \<open>
  The rake share of the creator of a settled pool.  The code reads the clock again to date the event of
  the accrual; here the event carries the time of the request.
\<close>

definition reconcileCreatorEconomy ::
  "js_runtime \<Rightarrow> DotCastPoolEnv \<Rightarrow> DotCastPoolSnapshot \<Rightarrow> string \<Rightarrow> (pool_object, unit) eff" where
  "reconcileCreatorEconomy rt env snapshot now =
     (if p_status (s_pool snapshot) \<noteq> Settled \<or> \<not> truthy_text (p_originatingCreatorId (s_pool snapshot))
      then ereturn ()
      else if \<not> ev_dotcastDb env \<and> \<not> ev_tradingDb env
      then ethrow (Error ''E11 creator economy database is not configured'')
      else ewrite (\<lambda>ob. ob\<lparr>po_creators := snd (applyDotCastCreatorRakeShareSettlement rt now env (ev_creator env)
             \<lparr>aw_snapshot = snapshot, aw_now = Some now\<rparr> True (po_creators ob))\<rparr>))"

definition persistSnapshot ::
  "js_runtime \<Rightarrow> DotCastPoolEnv \<Rightarrow> DotCastPoolSnapshot \<Rightarrow> string \<Rightarrow> (pool_object, unit) eff" where
  "persistSnapshot rt env snapshot now =
     ebind (writeSnapshot snapshot) (\<lambda>_.
     ebind (reconcileResolutionAlarm rt env snapshot now) (\<lambda>_.
     ebind (reconcileUsdcPoolFunding env snapshot now) (\<lambda>_.
       reconcileCreatorEconomy rt env snapshot now)))"

subsection \<open>Requests\<close>

record PlaceEntryPayload =
  ep_userId :: "json option"
  ep_side :: "json option"
  ep_amount :: "json option"
  ep_now :: "string option"
  ep_entryId :: "string option"
  ep_settlementFunding :: "json option"

definition create ::
  "js_runtime \<Rightarrow> DotCastPoolEnv \<Rightarrow> string \<Rightarrow> CreatePoolInput \<Rightarrow> string option \<Rightarrow> (pool_object, pool_reply) eff" where
  "create rt env clock payload payloadNow =
     ebind readSnapshot (\<lambda>existing.
       let now = orElse payloadNow clock
       in case existing of
            Some snapshot \<Rightarrow>
              if p_marketId (s_pool snapshot) \<noteq> mk_id (cp_market payload)
              then ereturn ((reply 409 False None)\<lparr>rq_error := Some ''pool object already initialized''\<rparr>)
              else ebind (elift (decorateSnapshot snapshot)) (\<lambda>dec.
                     ereturn ((reply 200 True (Some dec))\<lparr>rq_created := Some False\<rparr>))
          | None \<Rightarrow>
              ebind (elift (createPoolFromMarket rt (payload\<lparr>cp_now := now\<rparr>))) (\<lambda>pool.
                let snapshot = \<lparr>s_pool = pool, s_entries = [], s_balances = [], s_houseLedger = [],
                      s_settlement = None, s_voidReason = None, s_lastResolution = None, s_updatedAt = now\<rparr>
                in ebind (persistSnapshot rt env snapshot now) (\<lambda>_.
                   ebind (elift (decorateSnapshot snapshot)) (\<lambda>dec.
                   let responseBody = (reply 201 True (Some dec))\<lparr>rq_created := Some True\<rparr>
                   in ebind (audit env AuditCreate responseBody) (\<lambda>_.
                        ereturn responseBody)))))"

definition lockIfNeeded ::
  "js_runtime \<Rightarrow> DotCastPoolEnv \<Rightarrow> DotCastPoolSnapshot \<Rightarrow> string \<Rightarrow> (pool_object, DotCastPoolSnapshot) eff" where
  "lockIfNeeded rt env snapshot now =
     ebind (elift (lockSnapshotIfNeeded rt snapshot now)) (\<lambda>nextSnapshot.
     ebind (persistSnapshot rt env nextSnapshot now) (\<lambda>_.
     ebind (elift (decorateSnapshot nextSnapshot)) (\<lambda>dec.
     ebind (audit env AuditLock (reply 200 True (Some dec))) (\<lambda>_.
       ereturn nextSnapshot))))"

definition read :: "js_runtime \<Rightarrow> DotCastPoolEnv \<Rightarrow> string \<Rightarrow> (pool_object, pool_reply) eff" where
  "read rt env clock =
     ebind requireSnapshot (\<lambda>snapshot.
     ebind (lockIfNeeded rt env snapshot clock) (\<lambda>lockedSnapshot.
     ebind (elift (decorateSnapshot lockedSnapshot)) (\<lambda>dec.
       ereturn (reply 200 True (Some dec)))))"

definition readOdds ::
  "js_runtime \<Rightarrow> DotCastPoolEnv \<Rightarrow> string \<Rightarrow> string option \<Rightarrow> (pool_object, pool_reply) eff" where
  "readOdds rt env clock amountParam =
     ebind requireSnapshot (\<lambda>snapshot.
     ebind (lockIfNeeded rt env snapshot clock) (\<lambda>lockedSnapshot.
     ebind (elift (parseOptionalAmount amountParam)) (\<lambda>amount.
     ebind (elift (buildLiveOdds lockedSnapshot amount)) (\<lambda>liveOdds.
     ebind (elift (decorateSnapshot lockedSnapshot)) (\<lambda>dec.
       ereturn ((reply 200 True (Some dec))\<lparr>rq_liveOdds := Some liveOdds\<rparr>))))))"

definition entryBalance :: "DotCastPoolSnapshot \<Rightarrow> string \<Rightarrow> settlement_funding option \<Rightarrow> StakeBalance" where
  "entryBalance snapshot userId funding =
     (let current = orElse (map_of (s_balances snapshot) userId) (seedBalance userId (p_unit (s_pool snapshot)))
      in case funding of
           None \<Rightarrow> current
         | Some f \<Rightarrow> current\<lparr>b_available := js_add (b_available current) (sf_reservedAmount f)\<rparr>)"

definition placedSnapshot ::
  "DotCastPoolSnapshot \<Rightarrow> string \<Rightarrow> PlaceEntryResult \<Rightarrow> string \<Rightarrow> DotCastPoolSnapshot" where
  "placedSnapshot snapshot userId result now =
     snapshot\<lparr>s_pool := px_pool result, s_entries := s_entries snapshot @ [px_entry result],
       s_balances := AList.update userId (px_balance result) (s_balances snapshot), s_updatedAt := now\<rparr>"

definition placePoolEntry ::
  "js_runtime \<Rightarrow> DotCastPoolEnv \<Rightarrow> string \<Rightarrow> string \<Rightarrow> PlaceEntryPayload \<Rightarrow> (pool_object, pool_reply) eff" where
  "placePoolEntry rt env clock freshId payload =
     ebind requireSnapshot (\<lambda>snapshot.
     let now = orElse (ep_now payload) clock
     in ebind (elift (parseUserId (ep_userId payload))) (\<lambda>userId.
        ebind (elift (parseSide (ep_side payload))) (\<lambda>side.
        ebind (elift (parseAmount (ep_amount payload))) (\<lambda>amount.
        ebind (elift (parseSettlementFunding (ep_settlementFunding payload) (p_unit (s_pool snapshot)) amount)) (\<lambda>funding.
        case (if truthy_text (ep_entryId payload)
              then find (\<lambda>e. e_id e = orElse (ep_entryId payload) '''') (s_entries snapshot) else None) of
          Some existing \<Rightarrow>
            ebind (elift (decorateSnapshot snapshot)) (\<lambda>dec.
              ereturn ((reply 200 True (Some dec))\<lparr>rq_duplicate := Some True, rq_entry := Some existing,
                rq_balance := map_of (s_balances snapshot) userId\<rparr>))
        | None \<Rightarrow>
            ebind (elift (placeEntry rt
                \<lparr>pe_pool = s_pool snapshot, pe_balance = entryBalance snapshot userId funding, pe_userId = userId,
                 pe_side = side, pe_amount = Fin (of_int amount), pe_now = now,
                 pe_entryId = Some (orElse (ep_entryId payload) freshId)\<rparr>)) (\<lambda>result.
            ebind (elift (lockSnapshotIfNeeded rt (placedSnapshot snapshot userId result now) now)) (\<lambda>nextSnapshot.
            ebind (persistSnapshot rt env nextSnapshot now) (\<lambda>_.
            ebind (elift (decorateSnapshot nextSnapshot)) (\<lambda>dec.
            let responseBody = (reply 201 True (Some dec))\<lparr>rq_entry := Some (px_entry result),
                  rq_balance := Some (px_balance result), rq_settlementFunding := funding\<rparr>
            in ebind (audit env AuditEntry responseBody) (\<lambda>_.
               ebind (if p_status (s_pool nextSnapshot) \<noteq> p_status (px_pool result)
                      then audit env AuditLock (reply 200 True (Some dec)) else ereturn ()) (\<lambda>_.
                 ereturn responseBody)))))))))))"

definition lock ::
  "js_runtime \<Rightarrow> DotCastPoolEnv \<Rightarrow> string \<Rightarrow> string option \<Rightarrow> (pool_object, pool_reply) eff" where
  "lock rt env clock payloadNow =
     ebind requireSnapshot (\<lambda>snapshot.
     ebind (lockIfNeeded rt env snapshot (orElse payloadNow clock)) (\<lambda>nextSnapshot.
     ebind (elift (decorateSnapshot nextSnapshot)) (\<lambda>dec.
       if p_status (s_pool nextSnapshot) \<noteq> Locked \<and> p_status (s_pool nextSnapshot) \<noteq> Voided
       then ereturn ((reply 409 False (Some dec))\<lparr>rq_error := Some ''pool is not ready to lock''\<rparr>)
       else ereturn (reply 200 True (Some dec)))))"

definition settle ::
  "js_runtime \<Rightarrow> DotCastPoolEnv \<Rightarrow> string \<Rightarrow> json option \<Rightarrow> string option \<Rightarrow> (pool_object, pool_reply) eff" where
  "settle rt env clock outcomeField payloadNow =
     ebind requireSnapshot (\<lambda>snapshot.
     let now = orElse payloadNow clock
     in ebind (elift (parseOutcome outcomeField)) (\<lambda>outcome.
        ebind (elift (settlePoolSnapshot rt snapshot outcome now)) (\<lambda>nextSnapshot.
        ebind (persistSnapshot rt env nextSnapshot now) (\<lambda>_.
        ebind (elift (decorateSnapshot nextSnapshot)) (\<lambda>dec.
        ebind (audit env AuditSettle (reply 200 True (Some dec))) (\<lambda>_.
          ereturn (reply 200 True (Some dec))))))))"

definition applyResolution ::
  "js_runtime \<Rightarrow> DotCastPoolEnv \<Rightarrow> string \<Rightarrow> RouterResolutionPayload \<Rightarrow> (pool_object, pool_reply) eff" where
  "applyResolution rt env clock payload =
     ebind requireSnapshot (\<lambda>snapshot.
     let now = orElse (rp_now payload) clock
     in ebind (elift (parseRouterResolution payload now)) (\<lambda>resolution.
        ebind (elift (parseOptionalNonNegativeInteger (rp_maxGraceMs payload) ''maxGraceMs'')) (\<lambda>maxGraceMs.
        ebind (elift (applyRouterResolution rt
            \<lparr>in_snapshot = snapshot, in_resolution = resolution, in_now = now,
             in_maxGraceMs = map_option (\<lambda>i. Fin (of_int i)) maxGraceMs\<rparr>)) (\<lambda>result.
        ebind (persistSnapshot rt env (ir_snapshot result) now) (\<lambda>_.
        ebind (elift (decorateSnapshot (ir_snapshot result))) (\<lambda>dec.
        let responseBody = (reply 200 True (Some dec))\<lparr>rq_action := Some (ir_action result),
              rq_reason := Some (ir_reason result)\<rparr>
        in ebind (audit env AuditResolution responseBody) (\<lambda>_.
             ereturn responseBody)))))))"

definition void ::
  "js_runtime \<Rightarrow> DotCastPoolEnv \<Rightarrow> string \<Rightarrow> json option \<Rightarrow> string option \<Rightarrow> (pool_object, pool_reply) eff" where
  "void rt env clock reasonField payloadNow =
     ebind requireSnapshot (\<lambda>snapshot.
     let now = orElse payloadNow clock
     in ebind (elift (parseVoidReason reasonField)) (\<lambda>reason.
        ebind (elift (voidPoolSnapshot rt snapshot reason now (p_outcome (s_pool snapshot)))) (\<lambda>nextSnapshot.
        ebind (persistSnapshot rt env nextSnapshot now) (\<lambda>_.
        ebind (elift (decorateSnapshot nextSnapshot)) (\<lambda>dec.
        ebind (audit env AuditVoid (reply 200 True (Some dec))) (\<lambda>_.
          ereturn (reply 200 True (Some dec))))))))"

text \<open>
  The first half of a poll ends with a reply when the pool is not waiting for an outcome, and with the
  snapshot that was read when the router has to be asked; the second half works on that snapshot.
\<close>

definition pollReply ::
  "js_runtime \<Rightarrow> DotCastPoolEnv \<Rightarrow> DotCastPoolSnapshot \<Rightarrow> string \<Rightarrow> (decorated \<Rightarrow> pool_reply) \<Rightarrow> (pool_object, pool_reply) eff" where
  "pollReply rt env snapshot now build =
     ebind (reconcileResolutionAlarm rt env snapshot now) (\<lambda>_.
     ebind (elift (decorateSnapshot snapshot)) (\<lambda>dec.
     ebind (audit env AuditPoll (build dec)) (\<lambda>_.
       ereturn (build dec))))"

definition pollStart ::
  "js_runtime \<Rightarrow> DotCastPoolEnv \<Rightarrow> string \<Rightarrow> (pool_object, pool_reply + DotCastPoolSnapshot) eff" where
  "pollStart rt env now =
     ebind requireSnapshot (\<lambda>snapshot.
     ebind (lockIfNeeded rt env snapshot now) (\<lambda>lockedSnapshot.
       if terminal (p_status (s_pool lockedSnapshot))
       then ebind (pollReply rt env lockedSnapshot now (\<lambda>dec. (reply 200 True (Some dec))
              \<lparr>rq_poll := Some ''ignored'', rq_action := Some ActIgnored, rq_reason := Some TERMINAL_POOL\<rparr>))
              (\<lambda>r. ereturn (Inl r))
       else if p_status (s_pool lockedSnapshot) \<noteq> Locked \<and> p_status (s_pool lockedSnapshot) \<noteq> Resolving
       then ebind (pollReply rt env lockedSnapshot now (\<lambda>dec. (reply 200 True (Some dec))
              \<lparr>rq_poll := Some ''held'', rq_action := Some ActHeld, rq_reason := Some POOL_NOT_LOCKED\<rparr>))
              (\<lambda>r. ereturn (Inl r))
       else ereturn (Inr lockedSnapshot)))"

definition applyPoll ::
  "js_runtime \<Rightarrow> DotCastPoolEnv \<Rightarrow> DotCastPoolSnapshot \<Rightarrow> DotCastRouterResolution \<Rightarrow> string \<Rightarrow> string
    \<Rightarrow> (pool_object, pool_reply) eff" where
  "applyPoll rt env lockedSnapshot resolution kind now =
     ebind (elift (parseEnvNonNegativeInteger (ev_maxGraceMs env) ''DOTCAST_ROUTER_RESOLUTION_MAX_GRACE_MS'')) (\<lambda>maxGraceMs.
     ebind (elift (applyRouterResolution rt
         \<lparr>in_snapshot = lockedSnapshot, in_resolution = resolution, in_now = now,
          in_maxGraceMs = map_option (\<lambda>i. Fin (of_int i)) maxGraceMs\<rparr>)) (\<lambda>result.
     ebind (persistSnapshot rt env (ir_snapshot result) now) (\<lambda>_.
     ebind (elift (decorateSnapshot (ir_snapshot result))) (\<lambda>dec.
     let responseBody = (reply 200 True (Some dec))\<lparr>rq_poll := Some kind, rq_action := Some (ir_action result),
           rq_reason := Some (ir_reason result)\<rparr>
     in ebind (audit env AuditPoll responseBody) (\<lambda>_.
          ereturn responseBody)))))"

fun error_message :: "js_error \<Rightarrow> string" where
  "error_message (Error m) = m"
| "error_message (RangeError m) = m"
| "error_message (CodedError c m n) = m"

definition pollFinish ::
  "js_runtime \<Rightarrow> DotCastPoolEnv \<Rightarrow> (string \<Rightarrow> string \<Rightarrow> router_answer) \<Rightarrow> string \<Rightarrow> DotCastPoolSnapshot
    \<Rightarrow> (pool_object, pool_reply) eff" where
  "pollFinish rt env fetcher now lockedSnapshot =
     (case fetchDotCastRouterResolution (ev_resolutionUrl env) fetcher (p_marketId (s_pool lockedSnapshot)) now of
        Inl e \<Rightarrow> pollReply rt env lockedSnapshot now (\<lambda>dec. (reply 502 False (Some dec))
          \<lparr>rq_error := Some (error_message e), rq_poll := Some ''error''\<rparr>)
      | Inr (NotConfigured message) \<Rightarrow> pollReply rt env lockedSnapshot now (\<lambda>dec. (reply 503 False (Some dec))
          \<lparr>rq_error := Some message, rq_poll := Some ''not_configured''\<rparr>)
      | Inr (RouterKnown resolution) \<Rightarrow> applyPoll rt env lockedSnapshot resolution ''resolution'' now
      | Inr (RouterPending resolution) \<Rightarrow> applyPoll rt env lockedSnapshot resolution ''pending'' now)"

definition pollRouterResolution ::
  "js_runtime \<Rightarrow> DotCastPoolEnv \<Rightarrow> (string \<Rightarrow> string \<Rightarrow> router_answer) \<Rightarrow> string \<Rightarrow> (pool_object, pool_reply) eff" where
  "pollRouterResolution rt env fetcher now =
     ebind (pollStart rt env now) (\<lambda>start.
       case start of Inl r \<Rightarrow> ereturn r | Inr lockedSnapshot \<Rightarrow> pollFinish rt env fetcher now lockedSnapshot)"

datatype pool_request =
    PostCreate CreatePoolInput "string option"
  | GetPool
  | GetOdds "string option"
  | PostEntries PlaceEntryPayload
  | PostLock "string option"
  | PostSettle "json option" "string option"
  | PostResolution RouterResolutionPayload
  | PostPoll "string option"
  | PostVoid "json option" "string option"
  | UnknownPath

definition route_request ::
  "js_runtime \<Rightarrow> DotCastPoolEnv \<Rightarrow> (string \<Rightarrow> string \<Rightarrow> router_answer) \<Rightarrow> string \<Rightarrow> string \<Rightarrow> pool_request
    \<Rightarrow> (pool_object, pool_reply) eff" where
  "route_request rt env fetcher clock freshId request =
     (case request of
        PostCreate payload now \<Rightarrow> create rt env clock payload now
      | GetPool \<Rightarrow> read rt env clock
      | GetOdds amount \<Rightarrow> readOdds rt env clock amount
      | PostEntries payload \<Rightarrow> placePoolEntry rt env clock freshId payload
      | PostLock now \<Rightarrow> lock rt env clock now
      | PostSettle outcome now \<Rightarrow> settle rt env clock outcome now
      | PostResolution payload \<Rightarrow> applyResolution rt env clock payload
      | PostPoll now \<Rightarrow> pollRouterResolution rt env fetcher (orElse now clock)
      | PostVoid reason now \<Rightarrow> void rt env clock reason now
      | UnknownPath \<Rightarrow> ereturn ((reply 404 False None)\<lparr>rq_error := Some ''Not found''\<rparr>))"

definition fetch ::
  "js_runtime \<Rightarrow> DotCastPoolEnv \<Rightarrow> (string \<Rightarrow> string \<Rightarrow> router_answer) \<Rightarrow> string \<Rightarrow> string \<Rightarrow> pool_request
    \<Rightarrow> pool_object \<Rightarrow> pool_reply \<times> pool_object" where
  "fetch rt env fetcher clock freshId request ob =
     (case route_request rt env fetcher clock freshId request ob of
        (Inr r, ob') \<Rightarrow> (r, ob')
      | (Inl e, ob') \<Rightarrow> ((reply 400 False None)\<lparr>rq_error := Some (error_message e)\<rparr>, ob'))"

definition alarm ::
  "js_runtime \<Rightarrow> DotCastPoolEnv \<Rightarrow> (string \<Rightarrow> string \<Rightarrow> router_answer) \<Rightarrow> string \<Rightarrow> pool_object \<Rightarrow> pool_object" where
  "alarm rt env fetcher clock ob = snd (pollRouterResolution rt env fetcher clock ob)"

end
