(* ===== verification/PoolForward.thy ===== *)
theory PoolForward
  imports PoolSettlement SettlementLedger
begin

text \<open>
  How a snapshot may develop.  Every operation of \<open>PoolSettlement.ts\<close> that returns a snapshot returns one
  that is well formed and ahead of the one it was given: the status does not go back, no entry is
  dropped or reassigned, and a pool that has ended keeps its money and its outcome for good.
\<close>

definition entry_key :: "DotCastEntry \<Rightarrow> string \<times> string \<times> Side \<times> int \<times> Funding" where
  "entry_key e = (e_id e, e_userId e, e_side e, e_amount e, e_funding e)"

definition pool_key :: "DotCastPool \<Rightarrow> string \<times> string \<times> StakeUnit \<times> string option" where
  "pool_key p = (p_id p, p_marketId p, p_unit p, p_originatingCreatorId p)"

text \<open>What the pool gives back (\<open>entry_return\<close>: the pay-out of an entry, or its stake when refunded).\<close>

definition pays_ok :: "DotCastPoolSnapshot \<Rightarrow> bool" where
  "pays_ok s \<longleftrightarrow> (\<forall>e \<in> set (s_entries s). \<forall>p. e_payout e = Some p \<longrightarrow> 0 \<le> p) \<and>
     sum_list (map entry_return (s_entries s)) \<le> total_staked s"

text \<open>A settlement record belongs to a settled pool, is named after it and takes its rake from the stakes.\<close>

definition settlement_named :: "DotCastPoolSnapshot \<Rightarrow> bool" where
  "settlement_named s \<longleftrightarrow> (\<forall>se. s_settlement s = Some se \<longrightarrow> p_status (s_pool s) = Settled \<and>
     (\<exists>w. sr_id se = ''settlement:'' @ p_id (s_pool s) @ '':'' @ show_side w) \<and>
     0 \<le> sr_rakeAmount se \<and> sr_rakeAmount se \<le> total_staked s)"

definition good :: "js_runtime \<Rightarrow> DotCastPoolSnapshot \<Rightarrow> bool" where
  "good rt s \<longleftrightarrow> snap_ok rt s \<and> pays_ok s \<and> settlement_named s"

definition ahead :: "DotCastPoolSnapshot \<Rightarrow> DotCastPoolSnapshot \<Rightarrow> bool" where
  "ahead s s' \<longleftrightarrow>
     pool_key (s_pool s') = pool_key (s_pool s) \<and> p_status (s_pool s) \<le> p_status (s_pool s') \<and>
     (\<exists>more. map entry_key (s_entries s') = map entry_key (s_entries s) @ more) \<and>
     (terminal (p_status (s_pool s)) \<longrightarrow>
        s_pool s' = s_pool s \<and> same_money s s' \<and> s_settlement s' = s_settlement s \<and> s_voidReason s' = s_voidReason s)"

text \<open>
  The money of a pool without entries of the house: nothing moves until the pool ends, and then everyone
  is credited what the entries return, without a balance being added.
\<close>

definition paid_back :: "DotCastPoolSnapshot \<Rightarrow> bool" where
  "paid_back s \<longleftrightarrow> (p_status (s_pool s) = Settled \<longrightarrow> s_settlement s \<noteq> None) \<and>
     (\<forall>e \<in> set (s_entries s). if p_status (s_pool s) = Settled then e_payout e \<noteq> None \<and> \<not> e_refunded e else e_refunded e)"

definition pays_back :: "DotCastPoolSnapshot \<Rightarrow> DotCastPoolSnapshot \<Rightarrow> bool" where
  "pays_back s s' \<longleftrightarrow>
     (if terminal (p_status (s_pool s')) \<and> \<not> terminal (p_status (s_pool s))
      then (\<forall>e \<in> set (s_entries s). e_funding e = UserFunded) \<longrightarrow> paid_back s' \<and>
        (\<forall>u. avail (s_balances s') u = avail (s_balances s) u + user_credit entry_return (s_entries s') u \<and>
          (map_of (s_balances s') u = None \<longleftrightarrow> map_of (s_balances s) u = None))
      else s_entries s' = s_entries s \<and> s_balances s' = s_balances s)"

definition moves :: "js_runtime \<Rightarrow> DotCastPoolSnapshot \<Rightarrow> DotCastPoolSnapshot \<Rightarrow> bool" where
  "moves rt s s' \<longleftrightarrow> good rt s' \<and> ahead s s' \<and> map entry_key (s_entries s') = map entry_key (s_entries s) \<and> pays_back s s'"

lemma total_staked_keys:
  "map entry_key (s_entries t) = map entry_key (s_entries s) \<Longrightarrow> total_staked t = total_staked s"
proof -
  assume "map entry_key (s_entries t) = map entry_key (s_entries s)"
  from arg_cong [OF this, of "map (\<lambda>(_, _, _, x, _). x)"] show ?thesis by (simp add: entry_key_def comp_def)
qed

lemma total_staked_new:
  "map entry_key (s_entries t) = map entry_key (s_entries s) @ [entry_key e] \<Longrightarrow> total_staked t = total_staked s + e_amount e"
proof -
  assume "map entry_key (s_entries t) = map entry_key (s_entries s) @ [entry_key e]"
  from arg_cong [OF this, of "\<lambda>ks. sum_list (map (\<lambda>(_, _, _, x, _). x) ks)"] show ?thesis
    by (simp add: entry_key_def comp_def)
qed

lemma ahead_refl [simp]: "ahead s s"
  by (simp add: ahead_def same_money_def)

lemma ahead_trans:
  assumes "ahead s t" "ahead t u"
  shows "ahead s u"
proof -
  have "p_status (s_pool s) \<le> p_status (s_pool u)"
    using assms by (simp add: ahead_def) (blast intro: order_trans)
  moreover have "\<exists>more. map entry_key (s_entries u) = map entry_key (s_entries s) @ more"
    using assms by (auto simp: ahead_def)
  ultimately show ?thesis using assms by (simp add: ahead_def same_money_def)
qed

lemma pays_back_refl [simp]: "pays_back s s"
  by (simp add: pays_back_def)

lemma pays_back_same:
  "s_entries t = s_entries s \<Longrightarrow> s_balances t = s_balances s \<Longrightarrow> terminal (p_status (s_pool t)) = terminal (p_status (s_pool s)) \<Longrightarrow>
     pays_back s t"
  by (simp add: pays_back_def)

lemma pays_back_trans:
  assumes "pays_back s t" "pays_back t u" "ahead s t" "ahead t u"
  shows "pays_back s u"
proof (cases "terminal (p_status (s_pool t))")
  case True
  then have "s_pool u = s_pool t" "s_entries u = s_entries t" "s_balances u = s_balances t" "s_settlement u = s_settlement t"
    using assms(2,4) by (simp_all add: ahead_def pays_back_def)
  moreover from this have "paid_back u = paid_back t" by (simp add: paid_back_def)
  ultimately show ?thesis using assms(1) by (simp add: pays_back_def)
next
  case False
  then have "\<not> terminal (p_status (s_pool s))" "s_entries t = s_entries s" "s_balances t = s_balances s"
    using assms(1,3) by (auto simp: ahead_def pays_back_def)
  then show ?thesis using assms(2) False by (simp add: pays_back_def)
qed

lemma moves_refl: "good rt s \<Longrightarrow> moves rt s s"
  by (simp add: moves_def)

lemma moves_trans: "moves rt s t \<Longrightarrow> moves rt t u \<Longrightarrow> moves rt s u"
  by (auto simp: moves_def intro: ahead_trans pays_back_trans)

subsection \<open>Entries keep their owners\<close>

lemma mapAccumM_keys:
  assumes "\<And>s x s' y. f s x = Inr (s', y) \<Longrightarrow> g y = g x" "mapAccumM f s xs = Inr (s', ys)"
  shows "map g ys = map g xs"
  using assms(2)
proof (induction xs arbitrary: s ys)
  case (Cons x xs)
  then show ?case using assms(1) by (fastforce simp: rbind_eq_Inr)
qed simp

lemma voidEntry_key: "voidEntry b e = Inr (b', e') \<Longrightarrow> entry_key e' = entry_key e"
  by (auto simp: voidEntry_def Let_def rbind_eq_Inr entry_key_def split: if_splits)

lemma settleEntry_key: "settleEntry unit pm b e = Inr (b', e') \<Longrightarrow> entry_key e' = entry_key e"
  by (auto simp: settleEntry_def Let_def rbind_eq_Inr entry_key_def split: if_splits option.splits)

text \<open>No balance is added for an entry of a user.\<close>

lemma voidEntry_dom:
  "voidEntry b e = Inr (b', e') \<Longrightarrow> e_funding e = UserFunded \<Longrightarrow> map_of b' u = None \<longleftrightarrow> map_of b u = None"
  by (auto simp: voidEntry_def Let_def rbind_eq_Inr requireBalance_def split: if_splits option.splits)

lemma settleEntry_dom:
  "settleEntry unit pm b e = Inr (b', e') \<Longrightarrow> e_funding e = UserFunded \<Longrightarrow> map_of b' u = None \<longleftrightarrow> map_of b u = None"
  by (auto simp: settleEntry_def Let_def rbind_eq_Inr requireBalance_def split: if_splits option.splits)

lemma mapAccumM_dom:
  assumes "\<And>b e b' e'. f b e = Inr (b', e') \<Longrightarrow> e_funding e = UserFunded \<Longrightarrow> map_of b' u = None \<longleftrightarrow> map_of b u = None"
    "mapAccumM f b es = Inr (b', es')" "\<forall>e \<in> set es. e_funding e = UserFunded"
  shows "map_of b' u = None \<longleftrightarrow> map_of b u = None"
  using assms(2,3)
proof (induction es arbitrary: b es')
  case (Cons e es)
  then show ?case using assms(1) by (fastforce simp: rbind_eq_Inr)
qed simp

lemma transitionPool_key: "transitionPool rt p st now oc = Inr q \<Longrightarrow> pool_key q = pool_key p"
  by (auto simp: transitionPool_def rbind_eq_Inr pool_key_def split: if_splits)

lemma void_keys:
  assumes "voidPoolSnapshot rt s reason now oc = Inr s'"
  shows "map entry_key (s_entries s') = map entry_key (s_entries s)" "pool_key (s_pool s') = pool_key (s_pool s)"
  using assms mapAccumM_keys [of voidEntry entry_key, OF voidEntry_key] transitionPool_key
  by (auto simp: voidPoolSnapshot_def rbind_eq_Inr split: if_splits)

lemma settle_Won_cases:
  assumes run: "settlePoolSnapshot rt s (Won w) now = Inr s'" and nt: "\<not> terminal (p_status (s_pool s))"
  shows "(\<exists>q. pool_key q = pool_key (s_pool s) \<and> p_status q = Resolving \<and>
      voidPoolSnapshot rt (s\<lparr>s_pool := q\<rparr>) NO_WINNING_ENTRIES now (p_outcome q) = Inr s') \<or>
    (\<exists>q pm. pool_key q = pool_key (s_pool s) \<and>
      mapAccumM (settleEntry (p_unit (s_pool s)) pm) (s_balances s) (s_entries s) = Inr (s_balances s', s_entries s') \<and>
      transitionPool rt q Settled now (Some (Won w)) = Inr (s_pool s'))"
proof -
  let ?p = "s_pool s"
  let ?start = "if p_status ?p = Locked then transitionPool rt ?p Resolving now (p_outcome ?p) else Inr ?p"
  have st: "p_status ?p \<noteq> Settled" "p_status ?p \<noteq> Voided" using nt by (simp_all add: terminal_def)
  have st': "\<not> (p_status ?p \<noteq> Locked \<and> p_status ?p \<noteq> Resolving)"
    using run st by (cases "p_status ?p") (simp_all add: settlePoolSnapshot_def Let_def)
  obtain q where q: "?start = Inr q"
    using run st st' by (cases ?start) (simp_all add: settlePoolSnapshot_def Let_def)
  have qk: "pool_key q = pool_key ?p" using q transitionPool_key by (auto split: if_splits)
  have qs: "p_status q = Resolving"
    using q st' by (auto simp: transitionPool_def rbind_eq_Inr split: if_splits)
  obtain res where res: "settleParimutuel rt (settlement_entries s) w (p_rake q) = Inr res"
    using run st st' by (cases "settleParimutuel rt (settlement_entries s) w (p_rake q)")
      (simp_all add: settlePoolSnapshot_def Let_def q)
  show ?thesis
  proof (cases "pr_kind res = KindVoidRequired")
    case True
    then show ?thesis using run st st' qk qs by (intro disjI1 exI [of _ q]) (simp add: settlePoolSnapshot_def Let_def q res)
  next
    case False
    let ?m = "mapAccumM (settleEntry (p_unit ?p) (payoutMap (pr_payouts res))) (s_balances s) (s_entries s)"
    obtain b es where m: "?m = Inr (b, es)"
      using run st st' False by (cases ?m) (auto simp: settlePoolSnapshot_def Let_def q res)
    obtain q' where q': "transitionPool rt q Settled now (Some (Won w)) = Inr q'"
      using run st st' False by (cases "transitionPool rt q Settled now (Some (Won w))")
        (simp_all add: settlePoolSnapshot_def Let_def q res m)
    have "s_entries s' = es" "s_pool s' = q'" "s_balances s' = b"
      using run st st' False by (auto simp: settlePoolSnapshot_def Let_def q res m q')
    then show ?thesis using qk m q' by blast
  qed
qed

lemma settle_keys:
  assumes "settlePoolSnapshot rt s oc now = Inr s'"
  shows "map entry_key (s_entries s') = map entry_key (s_entries s) \<and> pool_key (s_pool s') = pool_key (s_pool s)"
proof (cases "terminal (p_status (s_pool s))")
  case True
  then show ?thesis using assms by (auto simp: settlePoolSnapshot_def Let_def terminal_def)
next
  case nt: False
  show ?thesis
  proof (cases oc)
    case Invalid
    then show ?thesis using assms void_keys by (auto simp: settlePoolSnapshot_def Let_def split: if_splits)
  next
    case (Won w)
    from settle_Won_cases [OF assms [unfolded Won] nt] show ?thesis
      using void_keys [of rt "s\<lparr>s_pool := _\<rparr>"] transitionPool_key
        mapAccumM_keys [of "settleEntry (p_unit (s_pool s)) _" entry_key, OF settleEntry_key] by fastforce
  qed
qed

lemma void_dom:
  assumes "voidPoolSnapshot rt s reason now oc = Inr s'" "\<forall>e \<in> set (s_entries s). e_funding e = UserFunded"
  shows "map_of (s_balances s') u = None \<longleftrightarrow> map_of (s_balances s) u = None"
  using assms mapAccumM_dom [of voidEntry u, OF voidEntry_dom]
  by (auto simp: voidPoolSnapshot_def rbind_eq_Inr split: if_splits simp del: not_None_eq)

lemma settle_dom:
  assumes "settlePoolSnapshot rt s oc now = Inr s'" "\<not> terminal (p_status (s_pool s))"
    "\<forall>e \<in> set (s_entries s). e_funding e = UserFunded"
  shows "map_of (s_balances s') u = None \<longleftrightarrow> map_of (s_balances s) u = None"
proof (cases oc)
  case Invalid
  then show ?thesis using assms void_dom by (auto simp: settlePoolSnapshot_def Let_def terminal_def simp del: not_None_eq)
next
  case (Won w)
  from settle_Won_cases [OF assms(1) [unfolded Won] assms(2)] show ?thesis
    using void_dom [of rt "s\<lparr>s_pool := _\<rparr>"] assms(3) mapAccumM_dom [of "settleEntry (p_unit (s_pool s)) _" u, OF settleEntry_dom]
    by fastforce
qed

subsection \<open>Every operation moves ahead\<close>

lemma status_le_terminal: "\<not> terminal st \<Longrightarrow> terminal st' \<Longrightarrow> st \<le> st'"
  by (cases st; cases st') (auto simp: terminal_def less_eq_PoolStatus_def)

lemma moves_to_end:
  assumes "snap_ok rt s'" "pays_ok s'" "settlement_named s'" "pays_back s s'" "\<not> terminal (p_status (s_pool s))" "terminal (p_status (s_pool s'))"
    and "map entry_key (s_entries s') = map entry_key (s_entries s)" "pool_key (s_pool s') = pool_key (s_pool s)"
  shows "moves rt s s'"
  using assms status_le_terminal by (simp add: moves_def good_def ahead_def)

lemma voided_pays: "voided_from rt s reason s' \<Longrightarrow> pays_ok s'"
  by (auto simp: voided_from_def pays_ok_def refund_def entry_return_def comp_def)

lemma refunded_credit:
  "\<forall>e \<in> set es. e_funding e = UserFunded \<Longrightarrow> user_credit entry_return (map refund es) u = user_amount es u"
  by (induction es) (auto simp: refund_def entry_return_def)

lemma voided_pays_back:
  assumes "voided_from rt s reason s'" "\<not> terminal (p_status (s_pool s))"
    "\<And>u. \<forall>e \<in> set (s_entries s). e_funding e = UserFunded \<Longrightarrow> map_of (s_balances s') u = None \<longleftrightarrow> map_of (s_balances s) u = None"
  shows "pays_back s s'"
  using assms unfolding pays_back_def voided_from_def paid_back_def
  by (auto simp: terminal_def refunded_credit, simp_all add: refund_def)

lemma settled_pays_back:
  assumes s': "settled_from rt s w res s'" and nt: "\<not> terminal (p_status (s_pool s))"
    and dom: "\<And>u. \<forall>e \<in> set (s_entries s). e_funding e = UserFunded \<Longrightarrow> map_of (s_balances s') u = None \<longleftrightarrow> map_of (s_balances s) u = None"
  shows "pays_back s s'"
proof -
  have "list_all2 (\<lambda>e e'. \<not> e_refunded e' \<and> e_payout e' \<noteq> None) (s_entries s) (s_entries s')"
    using s' unfolding settled_from_def by (elim conjE) (erule list.rel_mono_strong, auto)
  then have e: "\<not> e_refunded e' \<and> e_payout e' \<noteq> None" if "e' \<in> set (s_entries s')" for e'
    using that by (induction rule: list_all2_induct) auto
  have "map (\<lambda>e. if e_userId e = u then orElse (e_payout e) 0 else 0) (s_entries s') =
      map (\<lambda>e. if e_userId e = u then entry_return e else 0) (s_entries s')" for u
    by (rule map_cong [OF refl]) (simp add: entry_return_def e)
  then have "user_credit (\<lambda>e. orElse (e_payout e) 0) (s_entries s') u = user_credit entry_return (s_entries s') u" for u
    by (simp only: user_credit_def)
  moreover have "avail (s_balances s') u = avail (s_balances s) u + user_credit (\<lambda>e. orElse (e_payout e) 0) (s_entries s') u" for u
    using s' by (simp add: settled_from_def)
  moreover have st: "p_status (s_pool s') = Settled" using s' by (simp add: settled_from_def)
  moreover have "s_settlement s' \<noteq> None" using s' by (auto simp: settled_from_def)
  then have "paid_back s'" using e by (simp add: paid_back_def st)
  moreover have "terminal (p_status (s_pool s'))" by (simp add: st terminal_def)
  ultimately show ?thesis using dom nt by (simp add: pays_back_def)
qed

lemma voided_named: "voided_from rt s reason s' \<Longrightarrow> settlement_named s'"
  by (simp add: voided_from_def settlement_named_def)

lemma void_moves:
  assumes "good rt s" and run: "voidPoolSnapshot rt s reason now oc = Inr s'"
  shows "moves rt s s'"
proof (cases "terminal (p_status (s_pool s))")
  case True
  then have "s' = s" using run by (auto simp: voidPoolSnapshot_def terminal_def split: if_splits)
  then show ?thesis using assms(1) by (simp add: moves_refl)
next
  case False
  then have now: "date_parse rt now \<noteq> None"
    using run by (auto simp: voidPoolSnapshot_def terminal_def rbind_eq_Inr transitionPool_def split: if_splits)
  obtain t where "voidPoolSnapshot rt s reason now oc = Inr t" and t: "voided_from rt s reason t"
    using void_ok [of rt s now reason oc] assms(1) False now by (auto simp: good_def)
  then have t': "voided_from rt s reason s'" using run by simp
  then show ?thesis
    using voided_pays [OF t'] voided_named [OF t'] voided_pays_back [OF t' False void_dom [OF run]] False void_keys [OF run]
    by (intro moves_to_end) (auto simp: voided_from_def terminal_def)
qed

lemma paid_entries:
  assumes "list_all2 (\<lambda>e e'. e_amount e' = e_amount e \<and> \<not> e_refunded e' \<and> e_payout e' = Some (g e)) xs ys"
  shows "map e_amount ys = map e_amount xs \<and> map entry_return ys = map g xs \<and> (\<forall>e \<in> set ys. e_payout e \<in> Some ` g ` set xs)"
  using assms by (induction rule: list_all2_induct) (auto simp: entry_return_def orElse_def)

lemma settled_pays:
  assumes ok: "snap_ok rt s" and nt: "\<not> terminal (p_status (s_pool s))" and w: "staked w (settlement_entries s) \<noteq> 0"
    and res: "settleParimutuel rt (settlement_entries s) w (p_rake (s_pool s)) = Inr res"
    and s': "settled_from rt s w res s'"
  shows "pays_ok s'"
proof -
  obtain r where r: "p_rake (s_pool s) = Fin r" "settleable (settlement_entries s) w r"
    using snap_settleable [OF ok nt w] by blast
  let ?es = "settlement_entries s"
  have inj: "e = e'" if "e \<in> set ?es" "e' \<in> set ?es" "se_id e = se_id e'" for e e'
  proof -
    have "inj_on se_id (set ?es)" using r(2) unfolding settleable_def distinct_map [of se_id] by blast
    from inj_onD [OF this that(3) that(1,2)] show ?thesis .
  qed
  have one: "e_payout e' = Some (paid rt w r ?es (toSettlementEntry e))"
    if hyp: "e \<in> set (s_entries s)" "p \<in> set (pr_payouts res)" "sp_entryId p = e_id e" "e_payout e' = Some (sp_payout p)" for e e' p
  proof -
    obtain x where x: "x \<in> set ?es" "p = payout_of rt w r ?es x"
      using hyp(2) settle_payouts_set [OF r(2), of rt res] res r(1) by auto
    then have "x = toSettlementEntry e" using hyp by (intro inj) (auto simp: payout_of_def)
    then show ?thesis using hyp(4) x(2) by (simp add: payout_of_def)
  qed
  have "list_all2 (\<lambda>e e'. e_amount e' = e_amount e \<and> \<not> e_refunded e' \<and>
      e_payout e' = Some (paid rt w r ?es (toSettlementEntry e))) (s_entries s) (s_entries s')"
    using s' unfolding settled_from_def by (elim conjE) (erule list.rel_mono_strong, auto dest: one)
  from paid_entries [OF this] have eq: "map e_amount (s_entries s') = map e_amount (s_entries s)"
      "map entry_return (s_entries s') = map (paid rt w r ?es) ?es"
      "\<forall>e \<in> set (s_entries s'). e_payout e \<in> Some ` paid rt w r ?es ` set ?es"
    by (simp_all add: comp_def image_image)
  have "0 \<le> p" if "e \<in> set (s_entries s')" "e_payout e = Some p" for e p
    using bspec [OF eq(3) that(1)] that(2) paid_nonneg [OF r(2)] by auto
  moreover have "sum_list (map entry_return (s_entries s')) \<le> total_staked s'"
  proof -
    have "0 \<le> staked (other_side w) ?es * rake_bps r div 10000"
      using r(2) staked_nonneg [of ?es "other_side w"] rake_share_bounds(1) by (simp add: settleable_def)
    then show ?thesis unfolding eq(1,2) paid_sum [OF r(2)] using total_sides [of w ?es] by (simp add: prize_def Let_def comp_def)
  qed
  ultimately show ?thesis by (auto simp: pays_ok_def)
qed

lemma settled_named:
  assumes ok: "snap_ok rt s" and nt: "\<not> terminal (p_status (s_pool s))" and w: "staked w (settlement_entries s) \<noteq> 0"
    and res: "settleParimutuel rt (settlement_entries s) w (p_rake (s_pool s)) = Inr res"
    and s': "settled_from rt s w res s'"
  shows "settlement_named s'"
proof -
  obtain r where r: "p_rake (s_pool s) = Fin r" "settleable (settlement_entries s) w r"
    using snap_settleable [OF ok nt w] by blast
  let ?l = "staked (other_side w) (settlement_entries s)"
  have "pr_rakeAmount res = ?l - prize w r (settlement_entries s)"
    using settle_result [OF r(2), of rt] res r(1) by auto
  moreover have "0 \<le> ?l" "0 \<le> staked w (settlement_entries s)" "0 \<le> r" "r \<le> 1"
    using r(2) staked_nonneg by (auto simp: settleable_def)
  moreover note rake_share_bounds [OF this(1,3,4)]
  ultimately have "0 \<le> pr_rakeAmount res" "pr_rakeAmount res \<le> total_staked s"
    using total_sides [of w "settlement_entries s"] by (simp_all add: prize_def Let_def comp_def)
  moreover have "map e_amount (s_entries s') = map e_amount (s_entries s)"
    using s' unfolding settled_from_def by (elim conjE) (erule list_all2_induct; simp)
  ultimately show ?thesis using s' by (auto simp: settled_from_def settlement_named_def)
qed

lemma settle_moves:
  assumes good: "good rt s" and run: "settlePoolSnapshot rt s oc now = Inr s'"
  shows "moves rt s s'"
proof (cases "terminal (p_status (s_pool s))")
  case True
  then have "s' = s" using run by (auto simp: settlePoolSnapshot_def terminal_def Let_def)
  then show ?thesis using good by (simp add: moves_refl)
next
  case nt: False
  show ?thesis
  proof (cases oc)
    case Invalid
    then show ?thesis using run nt good void_moves by (auto simp: settlePoolSnapshot_def Let_def terminal_def split: if_splits)
  next
    case (Won w)
    have ok: "snap_ok rt s" using good by (simp add: good_def)
    have st: "p_status (s_pool s) = Locked \<or> p_status (s_pool s) = Resolving"
      using run nt Won by (auto simp: settlePoolSnapshot_def Let_def terminal_def split: if_splits)
    have now: "date_parse rt now \<noteq> None"
      using settle_Won_cases [OF run [unfolded Won] nt]
      by (auto simp: voidPoolSnapshot_def rbind_eq_Inr transitionPool_def split: if_splits)
    note keys = settle_keys [OF run] and dom = settle_dom [OF run nt]
    show ?thesis
    proof (cases "staked w (settlement_entries s) = 0")
      case True
      then have v: "voided_from rt s NO_WINNING_ENTRIES s'" using settle_void_ok [OF ok st now True] run Won by auto
      then show ?thesis using nt keys voided_pays [OF v] voided_named [OF v] voided_pays_back [OF v nt dom]
        by (intro moves_to_end) (auto simp: voided_from_def terminal_def)
    next
      case False
      then obtain res where "settleParimutuel rt (settlement_entries s) w (p_rake (s_pool s)) = Inr res" "settled_from rt s w res s'"
        using settle_ok [OF ok st now False] run Won by auto
      then show ?thesis
        using nt keys settled_pays [OF ok nt False, of res s'] settled_named [OF ok nt False, of res s']
          settled_pays_back [of rt s w res s', OF _ nt dom]
        by (intro moves_to_end) (auto simp: settled_from_def terminal_def)
    qed
  qed
qed

lemma lock_moves:
  assumes good: "good rt s" and run: "lockSnapshotIfNeeded rt s now = Inr s'"
  shows "moves rt s s'"
proof -
  have ok: "snap_ok rt s" using good by (simp add: good_def)
  have now: "date_parse rt now \<noteq> None"
    using run by (auto simp: lockSnapshotIfNeeded_def lockPoolIfNeeded_def rbind_eq_Inr)
  show ?thesis
  proof (cases "should_lock rt (s_pool s) now")
    case False
    then have "s' = s" using lockSnapshot_ok [OF ok now] run by auto
    then show ?thesis using good by (simp add: moves_refl)
  next
    case True
    then have o: "p_status (s_pool s) = Open" by (simp add: should_lock_def)
    show ?thesis
    proof (cases "lockVoidReason (s_pool s)")
      case None
      then have "s' = s\<lparr>s_pool := (s_pool s)\<lparr>p_status := Locked\<rparr>, s_updatedAt := now\<rparr>" "snap_ok rt s'"
        using lockSnapshot_ok [OF ok now] run True by auto
      then show ?thesis using good o
        by (auto simp: moves_def good_def ahead_def pays_ok_def settlement_named_def pool_key_def terminal_def less_eq_PoolStatus_def pays_back_def)
    next
      case (Some reason)
      have lv: "lockVoidReason (p\<lparr>p_status := Locked\<rparr>) = lockVoidReason p" for p by (simp add: lockVoidReason_def)
      have "voidPoolSnapshot rt s reason now (p_outcome (s_pool s)) = Inr s'"
        using run Some True o lockPool_eq [OF snap_okD(1) [OF ok] now] by (simp add: lockSnapshotIfNeeded_def lv)
      then show ?thesis by (rule void_moves [OF good])
    qed
  qed
qed

lemma grace_moves:
  assumes "good rt s" "graceOrHold rt s n g now hold = Inr res"
  shows "moves rt s (ir_snapshot res)"
  using assms void_moves [OF assms(1)] moves_refl [OF assms(1)]
  by (auto simp: graceOrHold_def rbind_eq_Inr split: if_splits)

text \<open>How a resolution gets to its result: it is ignored, or the pool is locked when it is due and the outcome applied.\<close>

definition decides ::
  "js_runtime \<Rightarrow> DotCastResolutionIntakeInput \<Rightarrow> DotCastPoolSnapshot \<Rightarrow> DotCastResolutionIntakeResult \<Rightarrow> bool" where
  "decides rt i t res \<longleftrightarrow>
     (p_status (s_pool t) = Voided \<and> ir_action res = ActVoided \<and> ir_snapshot res = t) \<or>
     (p_status (s_pool t) = Open \<and> ir_snapshot res = t) \<or>
     ((p_status (s_pool t) = Locked \<or> p_status (s_pool t) = Resolving) \<and>
      ((\<exists>n g h. graceOrHold rt t n g (in_now i) h = Inr res) \<or>
       (\<exists>oc. settlePoolSnapshot rt t oc (in_now i) = Inr (ir_snapshot res) \<and>
          (ir_action res = ActSettled \<or> ir_action res = ActVoided)))) \<or>
     (p_status (s_pool t) = Settled \<and> ir_snapshot res = t)"

lemma resolution_run:
  assumes run: "applyRouterResolution rt i = Inr res"
  defines "n \<equiv> withResolution (in_snapshot i) (in_resolution i) (in_now i)"
  shows "(terminal (p_status (s_pool n)) \<and> ir_snapshot res = n) \<or>
    (\<not> terminal (p_status (s_pool n)) \<and> (\<exists>t. lockSnapshotIfNeeded rt n (in_now i) = Inr t \<and> decides rt i t res))"
proof -
  let ?r = "in_resolution i" and ?now = "in_now i"
  let ?ra = "case rs_resolvedAt ?r of None \<Rightarrow> Inr 0 | Some t \<Rightarrow> assertIso rt t ''resolution.resolvedAt''"
  obtain ms where ms: "assertIso rt ?now ''now'' = Inr ms"
    using run by (cases "assertIso rt ?now ''now''") (simp_all add: applyRouterResolution_def Let_def)
  obtain f where f: "assertIso rt (rs_fetchedAt ?r) ''resolution.fetchedAt'' = Inr f"
    using run ms by (cases "assertIso rt (rs_fetchedAt ?r) ''resolution.fetchedAt''")
      (simp_all add: applyRouterResolution_def Let_def)
  obtain x where x: "?ra = Inr x"
    using run ms f by (cases ?ra) (simp_all add: applyRouterResolution_def Let_def)
  obtain g where g: "safe_integer (orElse (in_maxGraceMs i) (Fin 86400000)) = Some g" "\<not> g < 0"
      "p_marketId (s_pool n) = rs_marketId ?r"
    using run ms f x by (cases "safe_integer (orElse (in_maxGraceMs i) (Fin 86400000))")
      (auto simp: applyRouterResolution_def Let_def n_def split: if_splits)
  have pool: "s_pool n = s_pool (in_snapshot i)" by (simp add: n_def withResolution_def)
  note eq = applyRouterResolution_run [OF ms f x g(1,2) g(3) [unfolded pool], folded n_def]
  show ?thesis
  proof (cases "terminal (p_status (s_pool n))")
    case True
    then show ?thesis using run by (auto simp: eq pool)
  next
    case False
    then obtain t where t: "lockSnapshotIfNeeded rt n (in_now i) = Inr t" "decide_locked rt i ms g t = Inr res"
      using run by (auto simp: eq pool rbind_eq_Inr)
    then have "decides rt i t res"
      unfolding decides_def decide_locked_def
      by (cases "p_status (s_pool t)") (auto simp: rbind_eq_Inr split: if_splits DotCastResolutionOutcome.splits Outcome.splits)
    then show ?thesis using t(1) False by blast
  qed
qed

lemma resolution_moves:
  assumes good: "good rt (in_snapshot i)" and run: "applyRouterResolution rt i = Inr res"
  shows "moves rt (in_snapshot i) (ir_snapshot res)"
proof -
  let ?n = "withResolution (in_snapshot i) (in_resolution i) (in_now i)"
  have n: "good rt ?n" "moves rt (in_snapshot i) ?n"
    using good by (auto simp: good_def snap_ok_def pays_ok_def settlement_named_def withResolution_def moves_def ahead_def same_money_def
        intro: pays_back_same)
  have "moves rt t (ir_snapshot res) \<and> moves rt (in_snapshot i) t"
    if "lockSnapshotIfNeeded rt ?n (in_now i) = Inr t" "decides rt i t res" for t
  proof -
    have m: "moves rt (in_snapshot i) t" using moves_trans [OF n(2) lock_moves [OF n(1) that(1)]] .
    then have gt: "good rt t" by (simp add: moves_def)
    show ?thesis using m that(2) grace_moves [OF gt] settle_moves [OF gt] moves_refl [OF gt] by (auto simp: decides_def)
  qed
  then show ?thesis using resolution_run [OF run] n(2) moves_trans by fastforce
qed

subsection \<open>What ended the pool\<close>

lemma lock_ends:
  assumes good: "good rt s" and run: "lockSnapshotIfNeeded rt s now = Inr t"
    and ends: "\<not> terminal (p_status (s_pool s))" "terminal (p_status (s_pool t))"
  shows "p_status (s_pool t) = Voided"
proof -
  have ok: "snap_ok rt s" using good by (simp add: good_def)
  have now: "date_parse rt now \<noteq> None"
    using run by (auto simp: lockSnapshotIfNeeded_def lockPoolIfNeeded_def rbind_eq_Inr)
  have lk: "should_lock rt (s_pool s) now" "lockVoidReason (s_pool s) \<noteq> None"
    using lockSnapshot_ok [OF ok now] run ends by (auto simp: terminal_def split: if_splits option.splits)
  then obtain r where r: "lockVoidReason (s_pool s) = Some r" by blast
  have o: "p_status (s_pool s) = Open" using lk(1) by (simp add: should_lock_def)
  have lv: "lockVoidReason (p\<lparr>p_status := Locked\<rparr>) = lockVoidReason p" for p by (simp add: lockVoidReason_def)
  have "voidPoolSnapshot rt s r now (p_outcome (s_pool s)) = Inr t"
    using run r lk(1) o lockPool_eq [OF snap_okD(1) [OF ok] now] by (simp add: lockSnapshotIfNeeded_def lv)
  then show ?thesis using void_ok [OF ok ends(1) now, of r "p_outcome (s_pool s)"] by (auto simp: voided_from_def)
qed

lemma resolution_ends:
  assumes good: "good rt (in_snapshot i)" and run: "applyRouterResolution rt i = Inr res"
    and ends: "\<not> terminal (p_status (s_pool (in_snapshot i)))" "terminal (p_status (s_pool (ir_snapshot res)))"
  shows "ir_action res = ActSettled \<or> ir_action res = ActVoided"
proof -
  let ?n = "withResolution (in_snapshot i) (in_resolution i) (in_now i)"
  have n: "good rt ?n" "p_status (s_pool ?n) = p_status (s_pool (in_snapshot i))"
    using good by (auto simp: good_def snap_ok_def pays_ok_def settlement_named_def withResolution_def)
  obtain t where t: "lockSnapshotIfNeeded rt ?n (in_now i) = Inr t" "decides rt i t res"
    using resolution_run [OF run] n(2) ends(1) by auto
  have "p_status (s_pool t) \<noteq> Settled"
    using lock_ends [OF n(1) t(1)] n(2) ends(1) by (auto simp: terminal_def)
  then show ?thesis using t(2) ends(2) by (auto simp: decides_def graceOrHold_def rbind_eq_Inr terminal_def split: if_splits)
qed

end
