(* ===== verification/PoolObjectSystem.thy ===== *)
theory PoolObjectSystem
  imports PoolObject PoolForward
begin

text \<open>
  The pool object as a state machine over its requests and alarms.  The invariant: the stored snapshot
  is well formed, its money adds up, and an alarm is set exactly while the pool waits for an outcome.
  The object never loses an entry, never reopens a pool and never touches one that has ended.

  Two things the code takes for granted are guards of the step for an entry: the sums of the pool stay
  within the safe integers, and the identifier of a new entry is new and not empty.
\<close>

subsection \<open>A pool that can be shown\<close>

lemma previewPayout_ok:
  assumes t: "0 \<le> yes t" "0 \<le> no t" and x: "0 < x" "yes t + no t + x \<le> max_safe_integer" and r: "rake_ok rake"
  shows "\<exists>v. previewPayout t side x rake = Inr v"
proof -
  obtain q where q: "rake = Fin q" "0 \<le> q" "q \<le> 1" using rake_okD [OF r] by blast
  let ?l = "if side = Yes then no t else yes t" and ?w = "totals_of t side + x"
  have js: "js_add (yes t) (if side = Yes then x else 0) = yes t + (if side = Yes then x else 0)"
    "js_add (no t) (if side = No then x else 0) = no t + (if side = No then x else 0)"
    using t x by (cases side; simp add: js_add_safe is_safe_integer_def)+
  let ?k = "?l * rake_bps q div 10000"
  have k: "calculateRakeAmount ?l rake = Inr ?k"
    using t x q by (auto simp: calculateRakeAmount_Inr is_safe_integer_def)
  have b: "0 \<le> ?k" "?k \<le> ?l" using rake_share_bounds [OF _ q(2,3), of ?l] t by auto
  have sub: "js_sub ?l ?k = ?l - ?k" using b t x by (intro js_sub_safe) (auto simp: is_safe_integer_def)
  have w: "x \<le> ?w" "0 < ?w" using t x by (cases side; simp add: totals_of_def)+
  have "x * (?l - ?k) div ?w \<le> ?w * (?l - ?k) div ?w" using b w by (intro zdiv_mono1 mult_right_mono) auto
  then have "x * (?l - ?k) div ?w \<le> ?l" "0 \<le> x * (?l - ?k) div ?w"
    using w b x by (auto simp: pos_imp_zdiv_nonneg_iff)
  then have win: "is_safe_integer (x * (?l - ?k) div ?w)" "0 \<le> x * (?l - ?k) div ?w"
    using t x by (auto simp: is_safe_integer_def)
  have safe: "is_safe_integer x" "is_safe_integer (yes t)" "is_safe_integer (no t)"
    using t x by (auto simp: is_safe_integer_def)
  show ?thesis
    using win safe x t sub k js
    by (cases side) (auto simp: previewPayout_def Let_def totals_of_def assertSafe_ok assertPositiveMinorUnits_def num_safe)
qed

lemma decorate_ok:
  assumes good: "good rt s" and room: "total_staked s + 100 \<le> max_safe_integer"
  shows "\<exists>dec. decorateSnapshot s = Inr dec"
proof -
  let ?t = "p_pools (s_pool s)"
  have ok: "snap_ok rt s" using good by (simp add: good_def)
  have nn: "0 \<le> yes ?t" "0 \<le> no ?t" and rake: "rake_ok (p_rake (s_pool s))"
    using snap_okD(1) [OF ok] by (simp_all add: wf_pool_def)
  have sum: "yes ?t + no ?t = total_staked s"
    using snap_okD(5) [OF ok, of Yes] snap_okD(5) [OF ok, of No] staked_total [of "settlement_entries s"]
    by (simp add: totals_of_def comp_def)
  have "\<exists>v. previewPayout ?t side x (p_rake (s_pool s)) = Inr v" if "0 < x" "x \<le> 100" for side x
    using previewPayout_ok [OF nn that(1) _ rake] that room sum by simp
  from this [of 10 Yes] this [of 25 Yes] this [of 100 Yes] this [of 10 No] this [of 25 No] this [of 100 No]
  obtain a b c d e f where
    "previewPayout ?t Yes 10 (p_rake (s_pool s)) = Inr a" "previewPayout ?t Yes 25 (p_rake (s_pool s)) = Inr b"
    "previewPayout ?t Yes 100 (p_rake (s_pool s)) = Inr c" "previewPayout ?t No 10 (p_rake (s_pool s)) = Inr d"
    "previewPayout ?t No 25 (p_rake (s_pool s)) = Inr e" "previewPayout ?t No 100 (p_rake (s_pool s)) = Inr f"
    by auto
  moreover have "\<exists>o'. impliedProb ?t = Inr o'"
  proof (cases "impliedProb ?t")
    case (Inl e)
    then show ?thesis
      using nn sum room by (auto simp: impliedProb_def Let_def assertSafe_ok is_safe_integer_def split: if_splits)
  qed simp
  ultimately show ?thesis by (auto simp: decorateSnapshot_def previewForSide_def)
qed

lemma decorate_snapshot: "decorateSnapshot s = Inr dec \<Longrightarrow> dc_snapshot dec = s"
  by (auto simp: decorateSnapshot_def rbind_eq_Inr)

subsection \<open>A placed entry\<close>

lemma entryBalance_ok:
  fixes s u f
  defines "b \<equiv> entryBalance s u f" and "sbal \<equiv> s_balances s"
  assumes ok: "bal_ok (p_unit (s_pool s)) sbal" and f: "\<forall>x. f = Some x \<longrightarrow> sf_reservedAmount x = amount"
    and amount: "0 < amount" and room: "asum bal_total sbal + amount + 10000 \<le> max_safe_integer"
  shows "b_userId b = u" "b_unit b = p_unit (s_pool s)" "b_locked b = locked sbal u" "0 \<le> b_available b"
    "b_available b + b_locked b \<le> avail sbal u + locked sbal u + amount + 10000"
proof -
  let ?c = "orElse (map_of sbal u) (seedBalance u (p_unit (s_pool s)))"
  have c: "b_userId ?c = u \<and> b_unit ?c = p_unit (s_pool s) \<and> b_locked ?c = locked sbal u \<and> 0 \<le> b_available ?c \<and>
    b_available ?c \<le> avail sbal u + 10000"
    using bal_ok_lookup [OF ok] by (cases "map_of sbal u") (auto simp: seedBalance_def locked_def avail_def orElse_def)
  have "avail sbal u + locked sbal u \<le> asum bal_total sbal" "0 \<le> locked sbal u"
    using avail_locked_le [OF ok] locked_nonneg [OF ok] by auto
  then have "js_add (b_available ?c) amount = b_available ?c + amount"
    using c room amount by (intro js_add_safe) (auto simp: is_safe_integer_def)
  then show "b_userId b = u" "b_unit b = p_unit (s_pool s)" "b_locked b = locked sbal u" "0 \<le> b_available b"
    "b_available b + b_locked b \<le> avail sbal u + locked sbal u + amount + 10000"
    using c f amount unfolding b_def sbal_def by (cases f; simp add: entryBalance_def Let_def)+
qed

lemma place_good:
  fixes s u f side amount now eid r
  defines "i \<equiv> \<lparr>pe_pool = s_pool s, pe_balance = entryBalance s u f, pe_userId = u, pe_side = side,
    pe_amount = Fin (of_int amount), pe_now = now, pe_entryId = Some eid\<rparr>"
  assumes good: "good rt s" and run: "placeEntry rt i = Inr r" and fresh: "eid \<notin> e_id ` set (s_entries s)"
    and f: "\<forall>x. f = Some x \<longrightarrow> sf_reservedAmount x = amount"
    and room: "is_safe_integer (asum bal_total (s_balances s) + total_staked s + 2 * amount + 10000)"
  shows "good rt (placedSnapshot s u r now) \<and> ahead s (placedSnapshot s u r now) \<and>
    p_status (s_pool s) = Open \<and> p_status (s_pool (placedSnapshot s u r now)) = Open \<and>
    e_id (px_entry r) = eid \<and> e_userId (px_entry r) = u \<and> e_amount (px_entry r) = amount \<and>
    e_funding (px_entry r) = UserFunded \<and> e_poolId (px_entry r) = p_id (s_pool s) \<and>
    px_balance r = (entryBalance s u f)\<lparr>b_available := b_available (entryBalance s u f) - amount,
      b_locked := locked (s_balances s) u + amount\<rparr> \<and> amount \<le> b_available (entryBalance s u f)"
proof -
  have ok: "snap_ok rt s" and pays: "pays_ok s" using good by (simp_all add: good_def)
  note d = snap_okD [OF ok]
  note e = placeEntry_Inr [OF run]
  let ?b = "entryBalance s u f" and ?e = "px_entry r" and ?bal = "s_balances s" and ?t = "placedSnapshot s u r now"
  have ent: "?e = \<lparr>e_id = eid, e_poolId = p_id (s_pool s), e_userId = u, e_side = side, e_amount = amount,
      e_funding = UserFunded, e_placedAt = now, e_payout = None, e_refunded = False\<rparr>"
    and pl: "p_status (s_pool s) = Open" "is_safe_integer amount" "0 < amount" "amount \<le> b_available ?b"
    using e(1,4) by (auto simp: place_ok_def i_def orElse_def)
  have nt: "\<not> terminal (p_status (s_pool s))" using pl(1) by (simp add: terminal_def)
  have T: "0 \<le> total_staked s" using d(4) by (intro sum_list_nonneg) force
  have le: "asum bal_total ?bal + total_staked s + 2 * amount + 10000 \<le> max_safe_integer"
    using room by (simp add: is_safe_integer_def)
  note b = entryBalance_ok [OF d(2) f pl(3), of u]
  have b': "b_userId ?b = u" "b_unit ?b = p_unit (s_pool s)" "b_locked ?b = locked ?bal u"
    "b_available ?b + b_locked ?b \<le> avail ?bal u + locked ?bal u + amount + 10000"
    using b le T pl(3) by auto
  have lk: "0 \<le> locked ?bal u" "avail ?bal u + locked ?bal u \<le> asum bal_total ?bal"
    using locked_nonneg [OF d(2)] avail_locked_le [OF d(2)] by auto
  have js: "js_sub (b_available ?b) amount = b_available ?b - amount" "js_add (b_locked ?b) amount = b_locked ?b + amount"
    using b' lk le T pl(3,4) by (auto intro!: js_sub_safe js_add_safe simp: is_safe_integer_def)
  have nb: "px_balance r = ?b\<lparr>b_available := b_available ?b - amount, b_locked := locked ?bal u + amount\<rparr>"
    using e(3) ent js b'(3) by (simp add: i_def)
  have balok: "bal_ok (p_unit (s_pool s)) (AList.update u (px_balance r) ?bal)"
    using b'(1,2) pl lk by (intro bal_ok_update [OF d(2)]) (simp_all add: nb)
  have sum': "asum bal_total (AList.update u (px_balance r) ?bal) \<le> asum bal_total ?bal + amount + 10000"
    using asum_update_total [OF d(2), of u "px_balance r"] b'(3,4) by (simp add: nb bal_total_def)
  have side_le: "totals_of (p_pools (s_pool s)) side \<le> total_staked s" "0 \<le> totals_of (p_pools (s_pool s)) side"
    using d(1) d(5) [of Yes] d(5) [of No] staked_total [of "settlement_entries s"]
    by (cases side; auto simp: wf_pool_def totals_of_def comp_def)+
  have tot: "px_pool r = (s_pool s)\<lparr>p_pools := totals_set (p_pools (s_pool s)) side (totals_of (p_pools (s_pool s)) side + amount)\<rparr>"
    using e(2) ent side_le le d(9) pl(3) by (simp add: i_def) (subst js_add_safe; simp add: is_safe_integer_def)
  have wf: "wf_pool rt (px_pool r)"
    using d(1) side_le pl(3) by (cases side) (auto simp: tot wf_pool_def totals_set_def totals_of_def)
  have totals: "totals_of (p_pools (px_pool r)) sd = staked sd (settlement_entries s @ [toSettlementEntry ?e])" for sd
    using d(5) [of sd] by (auto simp: tot ent toSettlementEntry_def)
  have "0 \<le> asum bal_total (AList.update u (px_balance r) ?bal)"
    using bal_total_nonneg [OF balok] by (intro asum_nonneg) auto
  then have "is_safe_integer (asum bal_total (AList.update u (px_balance r) ?bal) + (total_staked s + amount))"
    using sum' le T pl(3) by (simp add: is_safe_integer_def)
  then have "snap_ok rt ?t"
    unfolding snap_ok_def using wf balok d(3,4) d(6,7) [OF nt] fresh pl totals nt
    by (auto simp: placedSnapshot_def tot ent nb b'(3) simp del: toSettlementEntry_sel)
  moreover have "pays_ok ?t" using pays pl(3) by (auto simp: pays_ok_def placedSnapshot_def ent entry_return_def)
  moreover have "settlement_named ?t"
    using good pl(1) by (auto simp: good_def settlement_named_def placedSnapshot_def)
  ultimately show ?thesis
    using pl(1,4) nb by (simp add: good_def ahead_def placedSnapshot_def tot ent pool_key_def entry_key_def terminal_def)
qed

subsection \<open>Running a request\<close>

definition active :: "DotCastPoolSnapshot \<Rightarrow> bool" where
  "active s \<longleftrightarrow> p_status (s_pool s) = Locked \<or> p_status (s_pool s) = Resolving"

definition leads ::
  "(DotCastPoolSnapshot \<Rightarrow> pool_object \<Rightarrow> bool) \<Rightarrow> DotCastPoolSnapshot \<Rightarrow> pool_object \<Rightarrow> bool" where
  "leads St s ob \<longleftrightarrow> (\<exists>t. ahead s t \<and> St t ob)"

text \<open>The weakest precondition of an effect for the result \<open>Q\<close>, where an effect that throws must end in \<open>E\<close>.\<close>

definition wpe ::
  "('s \<Rightarrow> bool) \<Rightarrow> ('s, 'a) eff \<Rightarrow> ('a \<Rightarrow> 's \<Rightarrow> bool) \<Rightarrow> 's \<Rightarrow> bool" where
  "wpe E m Q ob = (case m ob of (Inl e, ob') \<Rightarrow> E ob' | (Inr a, ob') \<Rightarrow> Q a ob')"

lemma wpe_ebind [simp]: "wpe E (ebind m k) Q = wpe E m (\<lambda>a. wpe E (k a) Q)"
  by (rule ext) (auto simp: wpe_def ebind_def split: prod.splits sum.splits)

lemma wpe_ereturn [simp]: "wpe E (ereturn x) Q = Q x"
  by (rule ext) (simp add: wpe_def)

lemma wpe_ethrow [simp]: "wpe E (ethrow e) Q ob = E ob"
  by (simp add: wpe_def)

lemma wpe_eread [simp]: "wpe E (eread g) Q ob = Q (g ob) ob"
  by (simp add: wpe_def)

lemma wpe_ewrite [simp]: "wpe E (ewrite h) Q ob = Q () (h ob)"
  by (simp add: wpe_def)

lemma wpe_elift [simp]: "wpe E (elift r) Q ob = (case r of Inl e \<Rightarrow> E ob | Inr a \<Rightarrow> Q a ob)"
  by (auto simp: wpe_def split: sum.splits)

lemma wpe_check: "E ob \<Longrightarrow> (\<And>a. r = Inr a \<Longrightarrow> Q a ob) \<Longrightarrow> wpe E (elift r) Q ob"
  by (cases r) auto

lemma wpe_snd: "wpe E m (\<lambda>_. E) ob \<Longrightarrow> E (snd (m ob))"
  by (auto simp: wpe_def split: prod.splits sum.splits)

lemma wpe_mono:
  assumes "wpe E m Q ob" "\<And>ob'. E ob' \<Longrightarrow> E' ob'" "\<And>a ob'. Q a ob' \<Longrightarrow> Q' a ob'"
  shows "wpe E' m Q' ob"
  using assms by (auto simp: wpe_def split: prod.splits sum.splits)

lemma wpe_state:
  assumes "St (snd (m ob))" "\<And>ob'. St ob' \<Longrightarrow> E ob'" "\<And>a ob'. St ob' \<Longrightarrow> Q a ob'"
  shows "wpe E m Q ob"
  using assms by (auto simp: wpe_def split: prod.splits sum.splits)

definition entry_guard :: "string \<Rightarrow> PlaceEntryPayload \<Rightarrow> DotCastPoolSnapshot \<Rightarrow> bool" where
  "entry_guard freshId payload s \<longleftrightarrow> ep_entryId payload \<noteq> Some '''' \<and>
     (ep_entryId payload = None \<longrightarrow> freshId \<notin> e_id ` set (s_entries s)) \<and>
     (\<forall>amount. parseAmount (ep_amount payload) = Inr amount \<longrightarrow>
        is_safe_integer (asum bal_total (s_balances s) + total_staked s + 2 * amount + 10000))"

lemma funding_amount:
  "parseSettlementFunding v unit amount = Inr f \<Longrightarrow> f = Some x \<Longrightarrow> sf_reservedAmount x = amount"
  by (auto simp: parseSettlementFunding_def Let_def rbind_eq_Inr split: if_splits option.splits json.splits)

text \<open>The entry that a payload places, if it places one.\<close>

definition payload_entry :: "PlaceEntryPayload \<Rightarrow> string \<Rightarrow> DotCastEntry \<Rightarrow> bool" where
  "payload_entry payload freshId e \<longleftrightarrow> e_id e = orElse (ep_entryId payload) freshId \<and>
     parseUserId (ep_userId payload) = Inr (e_userId e) \<and> parseAmount (ep_amount payload) = Inr (e_amount e) \<and>
     e_funding e = UserFunded"

text \<open>A new entry that the pool takes, and the lock that may come with it.\<close>

lemma placed_next:
  assumes good: "good rt s" and g: "entry_guard freshId payload s"
    and parse: "parseUserId (ep_userId payload) = Inr u" "parseAmount (ep_amount payload) = Inr amount"
      "parseSettlementFunding (ep_settlementFunding payload) (p_unit (s_pool s)) amount = Inr f"
    and fresh: "orElse (ep_entryId payload) freshId \<notin> e_id ` set (s_entries s)"
    and run: "placeEntry rt \<lparr>pe_pool = s_pool s, pe_balance = entryBalance s u f, pe_userId = u, pe_side = side,
      pe_amount = Fin (of_int amount), pe_now = now, pe_entryId = Some (orElse (ep_entryId payload) freshId)\<rparr> = Inr r"
    and lock: "lockSnapshotIfNeeded rt (placedSnapshot s u r now) now = Inr t"
  shows "good rt t" "ahead s t" "map entry_key (s_entries t) = map entry_key (s_entries s) @ [entry_key (px_entry r)]"
    "payload_entry payload freshId (px_entry r)" "\<not> terminal (p_status (s_pool s))"
proof -
  let ?p = "placedSnapshot s u r now"
  have p: "good rt ?p" "ahead s ?p" "p_status (s_pool s) = Open" "payload_entry payload freshId (px_entry r)"
    using place_good [OF good run fresh] g funding_amount [OF parse(3)] parse(1,2)
    by (auto simp: entry_guard_def payload_entry_def)
  have m: "moves rt ?p t" using lock_moves [OF p(1) lock] .
  then show "good rt t" "ahead s t" using p(2) ahead_trans by (auto simp: moves_def)
  show "map entry_key (s_entries t) = map entry_key (s_entries s) @ [entry_key (px_entry r)]"
    using m by (simp add: moves_def placedSnapshot_def)
  show "payload_entry payload freshId (px_entry r)" "\<not> terminal (p_status (s_pool s))"
    using p(3,4) by (simp_all add: terminal_def)
qed

fun request_time :: "string \<Rightarrow> pool_request \<Rightarrow> string" where
  "request_time clock (PostCreate payload now) = orElse now clock"
| "request_time clock (PostEntries payload) = orElse (ep_now payload) clock"
| "request_time clock (PostLock now) = orElse now clock"
| "request_time clock (PostSettle outcome now) = orElse now clock"
| "request_time clock (PostResolution payload) = orElse (rp_now payload) clock"
| "request_time clock (PostPoll now) = orElse now clock"
| "request_time clock (PostVoid reason now) = orElse now clock"
| "request_time clock request = clock"

lemma audit_run:
  "audit env act body ob = (Inr (), if ev_tradingDb env
     then ob\<lparr>po_audit := writeDotCastAuditPlan (buildDotCastAuditWritePlan act body None) (po_audit ob)\<rparr> else ob)"
  by (simp add: audit_def Let_def writeDotCastAuditPlan_tables)

text \<open>
  Storing a snapshot, building the response from it and auditing that; \<open>build\<close> makes the response.  An entry
  may lock the pool, which is audited in a second step.
\<close>

definition commit_pool ::
  "js_runtime \<Rightarrow> DotCastPoolEnv \<Rightarrow> DotCastPoolSnapshot \<Rightarrow> string \<Rightarrow> DotCastAuditAction \<Rightarrow> (decorated \<Rightarrow> pool_reply)
    \<Rightarrow> (pool_object, decorated) eff" where
  "commit_pool rt env t now act build =
     ebind (persistSnapshot rt env t now) (\<lambda>_. ebind (elift (decorateSnapshot t)) (\<lambda>dec.
     ebind (audit env act (build dec)) (\<lambda>_. ereturn dec)))"

definition commit_entry ::
  "js_runtime \<Rightarrow> DotCastPoolEnv \<Rightarrow> DotCastPoolSnapshot \<Rightarrow> string \<Rightarrow> PlaceEntryResult \<Rightarrow> settlement_funding option
    \<Rightarrow> (pool_object, decorated) eff" where
  "commit_entry rt env t now r f =
     ebind (commit_pool rt env t now AuditEntry (\<lambda>dec. (reply 201 True (Some dec))\<lparr>rq_entry := Some (px_entry r),
       rq_balance := Some (px_balance r), rq_settlementFunding := f\<rparr>)) (\<lambda>dec.
     ebind (if p_status (s_pool t) \<noteq> p_status (px_pool r) then audit env AuditLock (reply 200 True (Some dec)) else ereturn ())
       (\<lambda>_. ereturn dec))"

text \<open>The audit of a step that ends the pool records what it paid back.\<close>

definition tells :: "DotCastAuditAction \<Rightarrow> (decorated \<Rightarrow> pool_reply) \<Rightarrow> DotCastPoolSnapshot \<Rightarrow> DotCastPoolSnapshot \<Rightarrow> bool" where
  "tells act build s t \<longleftrightarrow> act \<noteq> AuditEntry \<and> (\<forall>dec. rq_decorated (build dec) = Some dec) \<and>
     (terminal (p_status (s_pool t)) \<and> \<not> terminal (p_status (s_pool s)) \<longrightarrow>
        (\<forall>dec. shouldRecordTerminalBalances act (build dec) t))"

lemma reply_decorated [simp]: "rq_decorated (reply status ok dec) = dec"
  by (simp add: reply_def)

text \<open>
  What the requests rely on when they store a snapshot: \<open>St s ob\<close> says that the object holds \<open>s\<close>, with
  whatever else has to hold of it; \<open>At now\<close> that a snapshot may be stored at the time \<open>now\<close>.  A commit leads
  to \<open>St\<close> for the new snapshot, and when it throws, to \<open>St\<close> for one that is ahead.
\<close>

locale request_store =
  fixes rt :: js_runtime and env :: DotCastPoolEnv
    and St :: "DotCastPoolSnapshot \<Rightarrow> pool_object \<Rightarrow> bool"
    and At :: "string \<Rightarrow> bool"
  assumes holds: "St s ob \<Longrightarrow> po_snapshot ob = Some s \<and> good rt s"
    and commit: "St s ob \<Longrightarrow> moves rt s t \<Longrightarrow> At now \<Longrightarrow> tells act build s t \<Longrightarrow>
      wpe (leads St s) (commit_pool rt env t now act build) (\<lambda>_. St t) ob"
    and replied: "St s ob \<Longrightarrow> (\<And>dec. rq_decorated (build dec) = Some dec) \<Longrightarrow>
      wpe (leads St s) (pollReply rt env s now build) (\<lambda>_. St s) ob"
begin

lemma leads_of: "ahead s t \<Longrightarrow> St t ob \<Longrightarrow> leads St s ob"
  by (auto simp: leads_def)

lemma leads_from: "ahead s0 s \<Longrightarrow> leads St s ob \<Longrightarrow> leads St s0 ob"
  by (auto simp: leads_def intro: ahead_trans)

lemma wpe_lift:
  assumes "St t ob" "ahead s0 t" "\<And>a. r = Inr a \<Longrightarrow> Q a ob"
  shows "wpe (leads St s0) (elift r) Q ob"
  using assms(3) leads_of [OF assms(2,1)] by (rule wpe_check [rotated])

lemma wpe_require:
  assumes "St s ob" "Q s ob"
  shows "wpe E requireSnapshot Q ob"
  using assms holds [OF assms(1)] by (simp add: requireSnapshot_def readSnapshot_def)

lemma wpe_commit:
  assumes "St s ob" "moves rt s t" "At now" "tells act build s t" "ahead s0 s" "\<And>dec ob'. St t ob' \<Longrightarrow> Q dec ob'"
  shows "wpe (leads St s0) (persistSnapshot rt env t now) (\<lambda>_. wpe (leads St s0) (elift (decorateSnapshot t))
    (\<lambda>dec. wpe (leads St s0) (audit env act (build dec)) (\<lambda>_. Q dec))) ob"
proof -
  have "wpe (leads St s0) (commit_pool rt env t now act build) Q ob"
    by (rule wpe_mono [OF commit [OF assms(1-4)]]) (auto intro: assms(6) leads_from [OF assms(5)])
  then show ?thesis by (simp add: commit_pool_def)
qed

lemma wpe_lockIfNeeded:
  assumes s: "St s ob" and now: "At now" and Q: "\<And>t ob'. St t ob' \<Longrightarrow> moves rt s t \<Longrightarrow> Q t ob'"
  shows "wpe (leads St s) (lockIfNeeded rt env s now) Q ob"
  unfolding lockIfNeeded_def wpe_ebind wpe_ereturn
proof (rule wpe_lift [OF s ahead_refl])
  fix t assume t: "lockSnapshotIfNeeded rt s now = Inr t"
  have good: "good rt s" using holds [OF s] by simp
  have m: "moves rt s t" using lock_moves [OF good t] .
  have "tells AuditLock (\<lambda>dec. reply 200 True (Some dec)) s t"
    using lock_ends [OF good t] by (simp add: tells_def shouldRecordTerminalBalances_def)
  then show "wpe (leads St s) (persistSnapshot rt env t now) (\<lambda>_. wpe (leads St s) (elift (decorateSnapshot t))
      (\<lambda>dec. wpe (leads St s) (audit env AuditLock (reply 200 True (Some dec))) (\<lambda>_. Q t))) ob"
    by (rule wpe_commit [OF s m now _ ahead_refl, where Q = "\<lambda>_. Q t"]) (rule Q [OF _ m])
qed

lemma settle_leads:
  assumes s: "St s ob" and now: "At (orElse pnow clock)"
  shows "wpe (leads St s) (settle rt env clock outcome pnow) (\<lambda>_. leads St s) ob"
  unfolding settle_def wpe_ebind Let_def wpe_ereturn
proof (rule wpe_require [OF s], rule wpe_lift [OF s ahead_refl], rule wpe_lift [OF s ahead_refl], goal_cases)
  case (1 oc t)
  then have m: "moves rt s t" using settle_moves holds [OF s] by blast
  have "tells AuditSettle (\<lambda>dec. reply 200 True (Some dec)) s t"
    by (auto simp: tells_def shouldRecordTerminalBalances_def terminal_def)
  then show ?case by (rule wpe_commit [OF s m now _ ahead_refl]) (use m in \<open>auto simp: moves_def intro: leads_of\<close>)
qed

lemma void_leads:
  assumes s: "St s ob" and now: "At (orElse pnow clock)"
  shows "wpe (leads St s) (void rt env clock reason pnow) (\<lambda>_. leads St s) ob"
  unfolding void_def wpe_ebind Let_def wpe_ereturn
proof (rule wpe_require [OF s], rule wpe_lift [OF s ahead_refl], rule wpe_lift [OF s ahead_refl], goal_cases)
  case (1 rs t)
  then have m: "moves rt s t" using void_moves holds [OF s] by blast
  have "tells AuditVoid (\<lambda>dec. reply 200 True (Some dec)) s t"
    by (auto simp: tells_def shouldRecordTerminalBalances_def terminal_def)
  then show ?case by (rule wpe_commit [OF s m now _ ahead_refl]) (use m in \<open>auto simp: moves_def intro: leads_of\<close>)
qed

lemma resolution_tells:
  assumes "good rt (in_snapshot i)" "applyRouterResolution rt i = Inr res" "act = AuditResolution \<or> act = AuditPoll"
    "\<And>dec. rq_decorated (build dec) = Some dec" "\<And>dec. rq_action (build dec) = Some (ir_action res)"
  shows "tells act build (in_snapshot i) (ir_snapshot res)"
  using resolution_ends [OF assms(1,2)] assms(3-5)
  by (auto simp: tells_def shouldRecordTerminalBalances_def terminal_def)

lemma applyResolution_leads:
  assumes s: "St s ob" and now: "At (orElse (rp_now payload) clock)"
  shows "wpe (leads St s) (applyResolution rt env clock payload) (\<lambda>_. leads St s) ob"
  unfolding applyResolution_def wpe_ebind Let_def wpe_ereturn
proof (rule wpe_require [OF s], rule wpe_lift [OF s ahead_refl], rule wpe_lift [OF s ahead_refl], rule wpe_lift [OF s ahead_refl],
    goal_cases)
  case (1 r g res)
  then have m: "moves rt s (ir_snapshot res)" using resolution_moves [OF _ 1(3)] holds [OF s] by simp
  show ?case
    by (rule wpe_commit [OF s m now _ ahead_refl])
      (use resolution_tells [OF _ 1(3)] holds [OF s] m in \<open>auto simp: moves_def intro: leads_of\<close>)
qed

lemma read_leads:
  assumes s: "St s ob"
  shows "At clock \<Longrightarrow> wpe (leads St s) (read rt env clock) (\<lambda>_. leads St s) ob"
    "At clock \<Longrightarrow> wpe (leads St s) (readOdds rt env clock amount) (\<lambda>_. leads St s) ob"
    "At (orElse pnow clock) \<Longrightarrow> wpe (leads St s) (lock rt env clock pnow) (\<lambda>_. leads St s) ob"
proof -
  have tail: "leads St s ob'" if "St t ob'" "moves rt s t" for t ob'
    using that leads_of by (auto simp: moves_def)
  show "wpe (leads St s) (read rt env clock) (\<lambda>_. leads St s) ob" if "At clock"
    unfolding read_def wpe_ebind wpe_ereturn
    by (rule wpe_require [OF s], rule wpe_lockIfNeeded [OF s that]) (auto intro: tail split: sum.split)
  show "wpe (leads St s) (readOdds rt env clock amount) (\<lambda>_. leads St s) ob" if "At clock"
    unfolding readOdds_def wpe_ebind wpe_ereturn
    by (rule wpe_require [OF s], rule wpe_lockIfNeeded [OF s that]) (auto intro: tail split: sum.split)
  show "wpe (leads St s) (lock rt env clock pnow) (\<lambda>_. leads St s) ob" if "At (orElse pnow clock)"
    unfolding lock_def wpe_ebind
    by (rule wpe_require [OF s], rule wpe_lockIfNeeded [OF s that]) (auto intro: tail split: sum.split)
qed

lemma poll_leads:
  assumes s: "St s ob" and now: "At now"
  shows "wpe (leads St s) (pollRouterResolution rt env fetcher now) (\<lambda>_. leads St s) ob"
proof -
  have shown: "wpe (leads St s) (pollReply rt env t now build) (\<lambda>_. leads St s) ob'"
    if "St t ob'" "ahead s t" "\<And>dec. rq_decorated (build dec) = Some dec" for t ob' build
    by (rule wpe_mono [OF replied [OF that(1,3)]]) (auto intro: leads_of [OF that(2)] leads_from [OF that(2)])
  have applied: "wpe (leads St s) (applyPoll rt env t r kind now) (\<lambda>_. leads St s) ob'"
    if st: "St t ob'" "ahead s t" for t ob' r kind
    unfolding applyPoll_def wpe_ebind wpe_ereturn Let_def
  proof (rule wpe_lift [OF st], rule wpe_lift [OF st], goal_cases)
    case (1 g res)
    then have m: "moves rt t (ir_snapshot res)" using resolution_moves [OF _ 1(2)] holds [OF st(1)] by simp
    then have "ahead s (ir_snapshot res)" using st(2) ahead_trans by (auto simp: moves_def)
    then show ?case
      by (intro wpe_commit [OF st(1) m now _ st(2)])
        (use resolution_tells [OF _ 1(2)] holds [OF st(1)] leads_of in simp_all)
  qed
  show ?thesis
    unfolding pollRouterResolution_def pollStart_def wpe_ebind wpe_ereturn
  proof (rule wpe_require [OF s], rule wpe_lockIfNeeded [OF s now], goal_cases)
    case (1 t ob')
    then have "ahead s t" by (simp add: moves_def)
    then show ?case
      using shown [OF 1(1)] applied [OF 1(1)]
      by (auto simp: pollFinish_def split: sum.split DotCastRouterResolutionFetchResult.split)
  qed
qed

lemma entry_leads:
  assumes s: "St s ob" and g: "entry_guard freshId payload s"
    and new: "\<And>u side amount f r t. parseUserId (ep_userId payload) = Inr u \<Longrightarrow> parseAmount (ep_amount payload) = Inr amount \<Longrightarrow>
      parseSettlementFunding (ep_settlementFunding payload) (p_unit (s_pool s)) amount = Inr f \<Longrightarrow>
      orElse (ep_entryId payload) freshId \<notin> e_id ` set (s_entries s) \<Longrightarrow>
      placeEntry rt \<lparr>pe_pool = s_pool s, pe_balance = entryBalance s u f, pe_userId = u, pe_side = side,
        pe_amount = Fin (of_int amount), pe_now = orElse (ep_now payload) clock,
        pe_entryId = Some (orElse (ep_entryId payload) freshId)\<rparr> = Inr r \<Longrightarrow>
      lockSnapshotIfNeeded rt (placedSnapshot s u r (orElse (ep_now payload) clock)) (orElse (ep_now payload) clock) = Inr t \<Longrightarrow>
      wpe (leads St s) (commit_entry rt env t (orElse (ep_now payload) clock) r f) (\<lambda>_. leads St s) ob"
  shows "wpe (leads St s) (placePoolEntry rt env clock freshId payload) (\<lambda>_. leads St s) ob"
  unfolding placePoolEntry_def wpe_ebind Let_def wpe_ereturn
proof (rule wpe_require [OF s], rule wpe_lift [OF s ahead_refl], rule wpe_lift [OF s ahead_refl],
    rule wpe_lift [OF s ahead_refl], rule wpe_lift [OF s ahead_refl], goal_cases)
  case (1 u side amount f)
  let ?found = "if truthy_text (ep_entryId payload)
      then find (\<lambda>e. e_id e = orElse (ep_entryId payload) '''') (s_entries s) else None"
  show ?case
  proof (cases ?found)
    case (Some e)
    then show ?thesis using leads_of [OF ahead_refl s] by (auto split: sum.split)
  next
    case None
    have fresh: "orElse (ep_entryId payload) freshId \<notin> e_id ` set (s_entries s)"
      using None g by (cases "ep_entryId payload") (auto simp: entry_guard_def truthy_text_def orElse_def find_None_iff)
    show ?thesis
      unfolding None option.case wpe_ebind
    proof (rule wpe_lift [OF s ahead_refl], rule wpe_lift [OF s ahead_refl], goal_cases)
      case (1 r t)
      from new [OF \<open>parseUserId _ = Inr u\<close> \<open>parseAmount _ = Inr amount\<close> \<open>parseSettlementFunding _ _ _ = Inr f\<close> fresh 1]
      show ?case by (simp add: commit_entry_def commit_pool_def)
    qed
  qed
qed

lemma create_leads:
  assumes s: "St s ob"
  shows "wpe (leads St s) (create rt env clock payload pnow) (\<lambda>_. leads St s) ob"
  using holds [OF s] leads_of [OF ahead_refl s] by (simp add: create_def readSnapshot_def Let_def split: sum.splits)

lemma request_leads:
  assumes s: "St s ob" and now: "At (request_time clock request)" and entry: "\<And>payload. request = PostEntries payload \<Longrightarrow>
      wpe (leads St s) (placePoolEntry rt env clock freshId payload) (\<lambda>_. leads St s) ob"
  shows "leads St s (snd (fetch rt env fetcher clock freshId request ob))"
proof -
  have "wpe (leads St s) (route_request rt env fetcher clock freshId request) (\<lambda>_. leads St s) ob"
    using now
    by (cases request) (simp_all add: route_request_def create_leads [OF s] read_leads [OF s] settle_leads [OF s]
        void_leads [OF s] applyResolution_leads [OF s] poll_leads [OF s] entry leads_of [OF ahead_refl s])
  from wpe_snd [OF this] show ?thesis by (auto simp: fetch_def split: prod.splits sum.splits)
qed

lemma alarm_leads: "St s ob \<Longrightarrow> At clock \<Longrightarrow> leads St s (alarm rt env fetcher clock ob)"
  using wpe_snd [OF poll_leads] by (simp add: alarm_def)

end

text \<open>
  A store that also survives the parts of a commit one by one: \<open>Cov t ob\<close> says that the object is prepared to
  hold the entries of \<open>t\<close>.  Storing, setting the alarm and auditing keep \<open>St\<close>, also when they throw.
\<close>

locale object_store =
  fixes rt :: js_runtime and env :: DotCastPoolEnv
    and St :: "DotCastPoolSnapshot \<Rightarrow> pool_object \<Rightarrow> bool"
    and Cov :: "DotCastPoolSnapshot \<Rightarrow> pool_object \<Rightarrow> bool"
    and At :: "string \<Rightarrow> bool"
  assumes holding: "St s ob \<Longrightarrow> po_snapshot ob = Some s \<and> good rt s"
    and covered: "St s ob \<Longrightarrow> ahead s t \<Longrightarrow> map entry_key (s_entries t) = map entry_key (s_entries s) \<Longrightarrow> Cov t ob"
    and persist: "St s ob \<Longrightarrow> good rt t \<Longrightarrow> ahead s t \<Longrightarrow> Cov t ob \<Longrightarrow> At now \<Longrightarrow> St t (snd (persistSnapshot rt env t now ob))"
    and alarmed: "St s ob \<Longrightarrow> St s (snd (reconcileResolutionAlarm rt env s now ob))"
    and audited: "St s ob \<Longrightarrow> St s (snd (audit env act x ob))"
begin

lemma leads_here: "ahead s t \<Longrightarrow> St t ob \<Longrightarrow> leads St s ob"
  by (auto simp: leads_def)

lemma wpe_persist:
  assumes "St s ob" "good rt t" "ahead s t" "Cov t ob" "At now" "\<And>ob'. St t ob' \<Longrightarrow> Q () ob'"
  shows "wpe (leads St s) (persistSnapshot rt env t now) Q ob"
  by (rule wpe_state [of "St t"]) (simp_all add: persist [OF assms(1-5)] leads_here [OF assms(3)] assms(6))

lemma wpe_audit:
  assumes "St t ob" "ahead s0 t" "\<And>ob'. St t ob' \<Longrightarrow> Q () ob'"
  shows "wpe (leads St s0) (audit env act x) Q ob"
  by (rule wpe_state [of "St t"]) (simp_all add: audited [OF assms(1)] leads_here [OF assms(2)] assms(3))

lemma wpe_commit_pool:
  assumes "St s ob" "good rt t" "ahead s t" "Cov t ob" "At now" "\<And>dec ob'. St t ob' \<Longrightarrow> Q dec ob'"
  shows "wpe (leads St s) (commit_pool rt env t now act build) Q ob"
  unfolding commit_pool_def wpe_ebind wpe_ereturn
  by (rule wpe_persist [OF assms(1-5)], rule wpe_check, erule leads_here [OF assms(3)],
      rule wpe_audit [OF _ assms(3)], assumption, rule assms(6))

end

sublocale object_store \<subseteq> request_store rt env St At
proof
  show "po_snapshot ob = Some s \<and> good rt s" if "St s ob" for s ob using holding [OF that] .
  show "wpe (leads St s) (commit_pool rt env t now act build) (\<lambda>_. St t) ob"
    if "St s ob" "moves rt s t" "At now" "tells act build s t" for s t now act build ob
    by (rule wpe_commit_pool [OF that(1) _ _ _ that(3)]) (use that(2) covered [OF that(1)] in \<open>auto simp: moves_def\<close>)
  show "wpe (leads St s) (pollReply rt env s now build) (\<lambda>_. St s) ob"
    if "St s ob" for s ob now build
    unfolding pollReply_def wpe_ebind wpe_ereturn
    by (rule wpe_state [of "St s"], rule alarmed [OF that], rule leads_here [OF ahead_refl], assumption,
        rule wpe_check, erule leads_here [OF ahead_refl], rule wpe_audit [OF _ ahead_refl])
qed

context object_store
begin

lemma place_leads:
  assumes s: "St s ob" and g: "entry_guard freshId payload s" and now: "At (orElse (ep_now payload) clock)"
    and new: "\<And>e t. payload_entry payload freshId e \<Longrightarrow> e_id e \<notin> e_id ` set (s_entries s) \<Longrightarrow> ahead s t \<Longrightarrow>
      \<not> terminal (p_status (s_pool s)) \<Longrightarrow>
      map entry_key (s_entries t) = map entry_key (s_entries s) @ [entry_key e] \<Longrightarrow> Cov t ob"
  shows "wpe (leads St s) (placePoolEntry rt env clock freshId payload) (\<lambda>_. leads St s) ob"
proof (rule entry_leads [OF s g], goal_cases)
  case (1 u side amount f r t)
  have "good rt s" using holding [OF s] by simp
  note t = placed_next [OF this g 1]
  have cov: "Cov t ob" using new [OF t(4) _ t(2,5,3)] t(4) 1(4) by (simp add: payload_entry_def)
  show ?case
    unfolding commit_entry_def wpe_ebind wpe_ereturn
    by (rule wpe_commit_pool [OF s t(1,2) cov now]) (auto intro!: wpe_audit [OF _ t(2)] leads_here [OF t(2)])
qed

end

subsection \<open>The store of the object alone\<close>

definition stored :: "js_runtime \<Rightarrow> DotCastPoolSnapshot \<Rightarrow> pool_object \<Rightarrow> bool" where
  "stored rt s ob \<longleftrightarrow> po_snapshot ob = Some s \<and> good rt s \<and> (po_alarm ob \<noteq> None \<longleftrightarrow> active s)"

definition interval_ok :: "DotCastPoolEnv \<Rightarrow> bool" where
  "interval_ok env \<longleftrightarrow> (\<exists>iv. resolvePollIntervalMs (ev_pollMs env) = Inr iv)"

lemma snd_ebind: "snd (ebind m k ob) = (case m ob of (Inl e, ob') \<Rightarrow> ob' | (Inr a, ob') \<Rightarrow> snd (k a ob'))"
  by (auto simp: ebind_def split: prod.splits sum.splits)

lemma snd_ebind_ereturn [simp]: "snd (ebind m (\<lambda>_. ereturn x) ob) = snd (m ob)"
  by (simp add: snd_ebind split: prod.splits sum.splits)

lemma reconcile_keeps:
  "po_snapshot (snd (reconcileUsdcPoolFunding env t now ob)) = po_snapshot ob"
  "po_alarm (snd (reconcileUsdcPoolFunding env t now ob)) = po_alarm ob"
  "po_creators (snd (reconcileUsdcPoolFunding env t now ob)) = po_creators ob"
  "po_snapshot (snd (reconcileCreatorEconomy rt env t now ob)) = po_snapshot ob"
  "po_alarm (snd (reconcileCreatorEconomy rt env t now ob)) = po_alarm ob"
  "po_ledger (snd (reconcileCreatorEconomy rt env t now ob)) = po_ledger ob"
  by (simp_all add: reconcileUsdcPoolFunding_def reconcileCreatorEconomy_def on_ledger_def snd_ebind split: prod.splits sum.splits)

lemma persist_object:
  assumes "interval_ok env"
  shows "po_snapshot (snd (persistSnapshot rt env t now ob)) = Some t"
    "po_alarm (snd (persistSnapshot rt env t now ob)) \<noteq> None \<longleftrightarrow> active t"
    "po_ledger (snd (persistSnapshot rt env t now ob)) =
       po_ledger (snd (reconcileUsdcPoolFunding env t now (snd (reconcileResolutionAlarm rt env t now (ob\<lparr>po_snapshot := Some t\<rparr>)))))"
proof -
  obtain iv where iv: "resolvePollIntervalMs (ev_pollMs env) = Inr iv" using assms by (auto simp: interval_ok_def)
  define a where "a = ob\<lparr>po_snapshot := Some t, po_alarm := if active t then Some (alarm_time rt now iv) else None\<rparr>"
  have a: "reconcileResolutionAlarm rt env t now (ob\<lparr>po_snapshot := Some t\<rparr>) = (Inr (), a)"
      "po_snapshot a = Some t" "po_alarm a \<noteq> None \<longleftrightarrow> active t"
    by (auto simp: reconcileResolutionAlarm_def iv active_def a_def)
  have "snd (persistSnapshot rt env t now ob) = snd (ebind (reconcileUsdcPoolFunding env t now) (\<lambda>_. reconcileCreatorEconomy rt env t now) a)"
    by (simp add: persistSnapshot_def writeSnapshot_def ebind_def a(1))
  moreover obtain r ob1 where r: "reconcileUsdcPoolFunding env t now a = (r, ob1)" by fastforce
  ultimately have "snd (persistSnapshot rt env t now ob) = (case r of Inl _ \<Rightarrow> ob1 | Inr _ \<Rightarrow> snd (reconcileCreatorEconomy rt env t now ob1))"
    by (simp add: snd_ebind)
  then show "po_snapshot (snd (persistSnapshot rt env t now ob)) = Some t"
    "po_alarm (snd (persistSnapshot rt env t now ob)) \<noteq> None \<longleftrightarrow> active t"
    "po_ledger (snd (persistSnapshot rt env t now ob)) =
       po_ledger (snd (reconcileUsdcPoolFunding env t now (snd (reconcileResolutionAlarm rt env t now (ob\<lparr>po_snapshot := Some t\<rparr>)))))"
    using a reconcile_keeps(1,2) [of env t now a] reconcile_keeps(4,5,6) [of rt env t now ob1] r by (auto split: sum.splits)
qed

lemma alarm_object:
  assumes "interval_ok env"
  shows "po_snapshot (snd (reconcileResolutionAlarm rt env t now ob)) = po_snapshot ob"
    "po_alarm (snd (reconcileResolutionAlarm rt env t now ob)) \<noteq> None \<longleftrightarrow> active t"
    "po_ledger (snd (reconcileResolutionAlarm rt env t now ob)) = po_ledger ob"
  using assms by (auto simp: reconcileResolutionAlarm_def interval_ok_def active_def)

lemma audit_object [simp]:
  "po_snapshot (snd (audit env act x ob)) = po_snapshot ob" "po_alarm (snd (audit env act x ob)) = po_alarm ob"
  "po_ledger (snd (audit env act x ob)) = po_ledger ob" "po_creators (snd (audit env act x ob)) = po_creators ob"
  by (simp_all add: audit_run)

interpretation plain_store: object_store rt env "\<lambda>s ob. interval_ok env \<and> stored rt s ob" "\<lambda>_ _. True" "\<lambda>_. True" for rt env
  by unfold_locales (auto simp: stored_def persist_object alarm_object simp del: not_None_eq)

definition obj_ok :: "js_runtime \<Rightarrow> pool_object \<Rightarrow> bool" where
  "obj_ok rt ob \<longleftrightarrow> (case po_snapshot ob of None \<Rightarrow> po_alarm ob = None | Some s \<Rightarrow> stored rt s ob)"

definition obj_next :: "js_runtime \<Rightarrow> pool_object \<Rightarrow> pool_object \<Rightarrow> bool" where
  "obj_next rt ob ob' \<longleftrightarrow> obj_ok rt ob' \<and>
     (\<forall>s. po_snapshot ob = Some s \<longrightarrow> (\<exists>s'. po_snapshot ob' = Some s' \<and> ahead s s'))"

lemma leads_next:
  "po_snapshot ob = Some s \<Longrightarrow> leads (\<lambda>s ob. interval_ok env \<and> stored rt s ob) s ob' \<Longrightarrow> obj_next rt ob ob'"
  by (auto simp: leads_def obj_next_def obj_ok_def stored_def)

text \<open>Creating the pool in a new object.\<close>

lemma create_cases:
  assumes "po_snapshot ob = None"
  obtains "snd (create rt env clock payload pnow ob) = ob"
  | t where "good rt t" "s_entries t = []" "\<not> terminal (p_status (s_pool t))" "p_status (s_pool t) = Open"
      "snd (create rt env clock payload pnow ob) = snd (persistSnapshot rt env t (orElse pnow clock) ob) \<or>
       (\<exists>body. snd (create rt env clock payload pnow ob) =
          snd (audit env AuditCreate body (snd (persistSnapshot rt env t (orElse pnow clock) ob))))"
      "createPoolFromMarket rt (payload\<lparr>cp_now := orElse pnow clock\<rparr>) = Inr (s_pool t)" "s_balances t = []"
proof (cases "createPoolFromMarket rt (payload\<lparr>cp_now := orElse pnow clock\<rparr>)")
  case (Inl e)
  then show thesis using that(1) assms by (simp add: create_def readSnapshot_def Let_def)
next
  case (Inr p)
  define t where "t = \<lparr>s_pool = p, s_entries = [], s_balances = [], s_houseLedger = [], s_settlement = None,
    s_voidReason = None, s_lastResolution = None, s_updatedAt = orElse pnow clock\<rparr>"
  note c = createPool_Inr [OF Inr]
  have t: "good rt t"
    using c by (auto simp: good_def snap_ok_def pays_ok_def settlement_named_def t_def bal_ok_def akeys_def terminal_def totals_of_def
        locked_def asum_def split: Side.splits)
  have "snd (create rt env clock payload pnow ob) =
      snd (ebind (persistSnapshot rt env t (orElse pnow clock)) (\<lambda>_. ebind (elift (decorateSnapshot t)) (\<lambda>dec.
        ebind (audit env AuditCreate ((reply 201 True (Some dec))\<lparr>rq_created := Some True\<rparr>)) (\<lambda>_.
          ereturn ((reply 201 True (Some dec))\<lparr>rq_created := Some True\<rparr>)))) ob)"
    by (simp add: create_def readSnapshot_def Let_def assms Inr t_def)
  moreover obtain r ob1 where p: "persistSnapshot rt env t (orElse pnow clock) ob = (r, ob1)" by fastforce
  ultimately have "snd (create rt env clock payload pnow ob) = ob1 \<or>
      (\<exists>body. snd (create rt env clock payload pnow ob) = snd (audit env AuditCreate body ob1))"
    by (cases r; cases "decorateSnapshot t") (auto simp: ebind_def [of "persistSnapshot rt env t (orElse pnow clock)"]
        ebind_def [of "elift (decorateSnapshot t)"] p)
  then have "snd (create rt env clock payload pnow ob) = snd (persistSnapshot rt env t (orElse pnow clock) ob) \<or>
      (\<exists>body. snd (create rt env clock payload pnow ob) =
         snd (audit env AuditCreate body (snd (persistSnapshot rt env t (orElse pnow clock) ob))))"
    by (simp add: p)
  then show thesis using that(2) [OF t] c(3) Inr by (simp add: t_def terminal_def)
qed

lemma uncreated_request:
  assumes "po_snapshot ob = None"
  shows "snd (fetch rt env fetcher clock freshId request ob) = ob \<or>
    (\<exists>payload pnow. request = PostCreate payload pnow \<and>
       snd (fetch rt env fetcher clock freshId request ob) = snd (create rt env clock payload pnow ob))"
  using assms
  by (cases request) (auto simp: fetch_def route_request_def read_def readOdds_def placePoolEntry_def lock_def settle_def
      applyResolution_def pollRouterResolution_def pollStart_def void_def requireSnapshot_def readSnapshot_def
      split: prod.splits sum.splits)

lemma uncreated_alarm: "po_snapshot ob = None \<Longrightarrow> alarm rt env fetcher clock ob = ob"
  by (simp add: alarm_def pollRouterResolution_def pollStart_def requireSnapshot_def readSnapshot_def)

subsection \<open>The state machine\<close>

lemma route_next:
  assumes iv: "interval_ok env" and ok: "obj_ok rt ob"
    and guard: "\<forall>payload s. request = PostEntries payload \<longrightarrow> po_snapshot ob = Some s \<longrightarrow> entry_guard freshId payload s"
  shows "obj_next rt ob (snd (fetch rt env fetcher clock freshId request ob))"
proof (cases "po_snapshot ob")
  case (Some s)
  then have st: "interval_ok env \<and> stored rt s ob" using iv ok by (simp add: obj_ok_def)
  show ?thesis
    using guard Some
    by (intro leads_next [OF Some, of env] plain_store.request_leads [OF st] plain_store.place_leads [OF st]) auto
next
  case None
  have same: "obj_next rt ob ob" using ok None by (simp add: obj_next_def)
  show ?thesis
    using uncreated_request [OF None, of rt env fetcher clock freshId request]
  proof (elim disjE exE conjE)
    fix payload pnow
    assume f: "snd (fetch rt env fetcher clock freshId request ob) = snd (create rt env clock payload pnow ob)"
    show ?thesis
      by (rule create_cases [OF None, of rt env clock payload pnow])
        (use f same None iv in \<open>auto simp: obj_next_def obj_ok_def stored_def persist_object simp del: not_None_eq\<close>)
  qed (use same in simp)
qed

inductive object_step :: "js_runtime \<Rightarrow> pool_object \<Rightarrow> pool_object \<Rightarrow> bool" for rt where
  step_request: "interval_ok env \<Longrightarrow>
    \<forall>payload s. request = PostEntries payload \<longrightarrow> po_snapshot ob = Some s \<longrightarrow> entry_guard freshId payload s \<Longrightarrow>
    object_step rt ob (snd (fetch rt env fetcher clock freshId request ob))"
| step_alarm: "interval_ok env \<Longrightarrow> object_step rt ob (alarm rt env fetcher clock ob)"
| step_others: "object_step rt ob (ob\<lparr>po_ledger := db\<rparr>)"

lemma object_step_next: "object_step rt ob ob' \<Longrightarrow> obj_ok rt ob \<Longrightarrow> obj_next rt ob ob'"
proof (induction rule: object_step.induct)
  case (step_request env request ob freshId fetcher clock)
  then show ?case by (intro route_next)
next
  case (step_alarm env ob fetcher clock)
  show ?case
  proof (cases "po_snapshot ob")
    case None
    then show ?thesis using step_alarm uncreated_alarm by (simp add: obj_next_def)
  next
    case (Some s)
    then show ?thesis
      using step_alarm plain_store.alarm_leads by (intro leads_next [OF Some, of env]) (simp add: obj_ok_def)
  qed
next
  case (step_others ob db)
  then show ?case by (auto simp: obj_next_def obj_ok_def stored_def split: option.splits)
qed

definition fresh_object :: "pool_object \<Rightarrow> bool" where
  "fresh_object ob \<longleftrightarrow> po_snapshot ob = None \<and> po_alarm ob = None"

interpretation pool_objects: step_system fresh_object "object_step rt" "obj_ok rt" for rt
  by unfold_locales (auto simp: fresh_object_def obj_ok_def dest: object_step_next simp: obj_next_def)


definition example_env :: DotCastPoolEnv where
  "example_env =
     \<lparr>re_mode = Some ''devnet'', re_cluster = Some ''devnet'', re_mint = None, re_signerMode = Some ''mock'',
      re_withdrawalsApproved = None, re_withdrawalMax = None, re_confirmations = None,
      re_usdcPoolsEnabled = Some ''true'', ev_tradingDb = True, ev_dotcastDb = False,
      ev_creator = \<lparr>ce_enabled = None, ce_shareCasualBps = None, ce_shareVerifiedBps = None, ce_sharePartnerBps = None,
        ce_payoutMin = None, ce_payoutMax = None, ce_payoutSchedule = None, ce_minRetentionBps = None,
        ce_seedHandlingFeeBps = None\<rparr>,
      ev_pollMs = None,
      ev_maxGraceMs = None, ev_resolutionUrl = None\<rparr>"

definition new_object :: pool_object where
  "new_object = \<lparr>po_snapshot = None, po_alarm = None, po_ledger = empty_db, po_audit = empty_audit, po_creators = empty_creators\<rparr>"

definition created_object :: pool_object where
  "created_object = snd (fetch ref_runtime example_env (\<lambda>_ _. FetchStatus 500) ''2026-01-01T00:00:00.000Z'' ''x''
     (PostCreate example_create None) new_object)"

lemma example_interval: "interval_ok example_env"
  by (simp add: interval_ok_def resolvePollIntervalMs_def parseEnvNonNegativeInteger_def example_env_def orElse_def)

lemma created_object_snapshot: "\<exists>s. po_snapshot created_object = Some s \<and> s_pool s = example_pool"
proof -
  have c: "createPoolFromMarket ref_runtime (example_create\<lparr>cp_now := ''2026-01-01T00:00:00.000Z''\<rparr>) = Inr example_pool"
    using create_example by (simp add: example_create_def)
  have o: "p_status example_pool = Open" "p_unit example_pool = Points" by (simp_all add: example_pool_def)
  show ?thesis
    by (simp add: created_object_def fetch_def route_request_def create_def readSnapshot_def new_object_def c Let_def
        persistSnapshot_def writeSnapshot_def reconcileResolutionAlarm_def reconcileUsdcPoolFunding_def
        reconcileCreatorEconomy_def o orElse_def audit_def ebind_def split: sum.split prod.split)
qed

lemma created_object_reach: "reach fresh_object (object_step ref_runtime) created_object"
proof -
  have "object_step ref_runtime new_object created_object"
    unfolding created_object_def by (rule step_request [OF example_interval]) simp
  moreover have "reach fresh_object (object_step ref_runtime) new_object"
    by (rule reach_init) (simp add: fresh_object_def new_object_def)
  ultimately show ?thesis by (rule reach_step [rotated])
qed


lemma object_steps_ahead:
  assumes "(object_step rt)\<^sup>*\<^sup>* ob ob'" "obj_ok rt ob" "po_snapshot ob = Some s"
  shows "\<exists>s'. po_snapshot ob' = Some s' \<and> ahead s s'"
  using assms
proof (induction rule: rtranclp_induct)
  case base
  then show ?case by simp
next
  case (step ob1 ob2)
  then obtain s1 where s1: "po_snapshot ob1 = Some s1" "ahead s s1" by blast
  have "obj_ok rt ob1" by (rule pool_objects.steps_inv [OF step(1,4)])
  then obtain s2 where "po_snapshot ob2 = Some s2" "ahead s1 s2"
    using object_step_next [OF step(2)] s1(1) by (auto simp: obj_next_def)
  then show ?case using s1(2) ahead_trans by blast
qed



end
