(* ===== verification/PoolGateway.thy ===== *)
theory PoolGateway
  imports PoolObjectSystem LedgerOperations
begin

text \<open>
  Entries into USDC pools, from the gateway (\<open>src/gateway/DotCastGateway.ts\<close>) through the ledger and the
  pool object back to the ledger.  The gateway reserves the stake in the ledger, asks the pool object to
  take the entry, and releases the reservation when the pool refuses; the pool object pays the locks out
  when the pool has ended.  The theorems say that the two sides stay together: every entry of a USDC pool
  has its own lock, open until the pool ends and then closed with what the pool gives back.

  A gateway call is one step.  Its three parts are separate requests in the program; calls that overlap
  work on different locks, except for two calls with the same entry identifier at the same time, which
  are outside the model.
\<close>

subsection \<open>The gateway\<close>

record ParsedDotCastPlaceEntry =
  ge_userId :: string
  ge_side :: Side
  ge_amount :: int
  ge_now :: "string option"
  ge_entryId :: string

record gateway_reply =
  gw_response :: pool_reply
  gw_reservation :: "pool_funding_result option"

definition response_ok :: "pool_reply \<Rightarrow> bool" where
  "response_ok r \<longleftrightarrow> 200 \<le> rq_status r \<and> rq_status r < 300"

text \<open>
  \<open>hasPool\<close> says whether the binding \<open>DOTCAST_POOL\<close> is configured.
\<close>

definition proxyDotCastPoolRequest ::
  "js_runtime \<Rightarrow> DotCastPoolEnv \<Rightarrow> bool \<Rightarrow> (string \<Rightarrow> string \<Rightarrow> router_answer) \<Rightarrow> string \<Rightarrow> string \<Rightarrow> pool_request
    \<Rightarrow> (pool_object, pool_reply) eff" where
  "proxyDotCastPoolRequest rt env hasPool fetcher clock freshId request =
     (\<lambda>ob. if \<not> hasPool
       then (Inr ((reply 503 False None)\<lparr>rq_error := Some ''dotCast pool storage is not configured''\<rparr>), ob)
       else case fetch rt env fetcher clock freshId request ob of (r, ob') \<Rightarrow> (Inr r, ob'))"

definition reserveInput :: "string \<Rightarrow> ParsedDotCastPlaceEntry \<Rightarrow> string \<Rightarrow> ReserveUsdcPoolEntryInput" where
  "reserveInput poolId payload now =
     \<lparr>ui_poolId = poolId, ui_entryId = ge_entryId payload, ui_userId = ge_userId payload,
      ui_amount = Fin (of_int (ge_amount payload)), ui_now = Some now\<rparr>"

definition releaseInput :: "string \<Rightarrow> ParsedDotCastPlaceEntry \<Rightarrow> int \<Rightarrow> string \<Rightarrow> ReleaseUsdcPoolEntryReservationInput" where
  "releaseInput poolId payload status now =
     \<lparr>li_poolId = poolId, li_entryId = ge_entryId payload, li_userId = ge_userId payload,
      li_reason = ''pool_entry_rejected:'' @ show_int status, li_now = Some now\<rparr>"

definition entryPayload :: "ParsedDotCastPlaceEntry \<Rightarrow> string option \<Rightarrow> json option \<Rightarrow> PlaceEntryPayload" where
  "entryPayload payload now funding =
     \<lparr>ep_userId = Some (JStr (ge_userId payload)), ep_side = Some (JStr (show_side (ge_side payload))),
      ep_amount = Some (jint (ge_amount payload)), ep_now = now, ep_entryId = Some (ge_entryId payload),
      ep_settlementFunding = funding\<rparr>"

definition placeDotCastUsdcPoolEntry ::
  "js_runtime \<Rightarrow> DotCastPoolEnv \<Rightarrow> bool \<Rightarrow> (string \<Rightarrow> string \<Rightarrow> router_answer) \<Rightarrow> string \<Rightarrow> string \<Rightarrow> string
    \<Rightarrow> ParsedDotCastPlaceEntry \<Rightarrow> (pool_object, gateway_reply) eff" where
  "placeDotCastUsdcPoolEntry rt env hasPool fetcher clock freshId poolId payload =
     (if \<not> ev_tradingDb env
      then ethrow (CodedError ''SETTLEMENT_DB_NOT_CONFIGURED'' ''E6 USDC pool funding database is not configured'' 503)
      else
        let now = orElse (ge_now payload) clock
        in ebind (on_ledger (reserveUsdcPoolEntry clock env (reserveInput poolId payload now))) (\<lambda>reservation.
           ebind (proxyDotCastPoolRequest rt env hasPool fetcher clock freshId (PostEntries (entryPayload payload (Some now)
               (Some (JObj [(''rail'', JStr ''solana-usdc-devnet''), (''lockId'', JStr (pk_lockId (fo_lock reservation))),
                            (''reservedAmount'', jint (ge_amount payload))]))))) (\<lambda>response.
             if \<not> response_ok response
             then ebind (on_ledger (releaseUsdcPoolEntryReservation clock env
                      (releaseInput poolId payload (rq_status response) now))) (\<lambda>_.
                    ereturn \<lparr>gw_response = response, gw_reservation = None\<rparr>)
             else ereturn \<lparr>gw_response = response, gw_reservation = Some reservation\<rparr>)))"

record DotCastPlaceEntryRequest =
  gb_userId :: "json option"
  gb_side :: "json option"
  gb_amount :: "json option"
  gb_now :: "json option"
  gb_entryId :: "json option"
  gb_streamId :: "json option"

definition parseMinorUnits :: "json option \<Rightarrow> string \<Rightarrow> int res" where
  "parseMinorUnits value label =
     (let bad = Error (label @ '' must be a positive integer minor-unit amount'')
      in case value of
           None \<Rightarrow> Inl bad
         | Some v \<Rightarrow>
             (case json_safe_integer v of
                Some i \<Rightarrow> if i \<le> 0 then Inl bad else Inr i
              | None \<Rightarrow> Inl bad))"

definition parseGatewaySide :: "json option \<Rightarrow> Side res" where
  "parseGatewaySide value =
     (if value = Some (JStr ''yes'') then Inr Yes
      else if value = Some (JStr ''no'') then Inr No
      else Inl (Error ''side/outcome must be yes or no''))"

definition parsePlaceEntry :: "string \<Rightarrow> DotCastPlaceEntryRequest \<Rightarrow> ParsedDotCastPlaceEntry res" where
  "parsePlaceEntry randomId body =
     rbind (parseRequiredString (gb_userId body) ''userId'') (\<lambda>userId.
     rbind (parseGatewaySide (gb_side body)) (\<lambda>side.
     rbind (parseMinorUnits (gb_amount body) ''amount'') (\<lambda>amount.
     rbind (parseOptionalString (gb_now body) ''now'') (\<lambda>now.
     rbind (parseOptionalString (gb_entryId body) ''entryId'') (\<lambda>entryId.
       Inr \<lparr>ge_userId = userId, ge_side = side, ge_amount = amount, ge_now = now,
            ge_entryId = orElse entryId randomId\<rparr>)))))"

definition readDotCastPoolUnit ::
  "js_runtime \<Rightarrow> DotCastPoolEnv \<Rightarrow> bool \<Rightarrow> (string \<Rightarrow> string \<Rightarrow> router_answer) \<Rightarrow> string \<Rightarrow> string
    \<Rightarrow> (pool_object, StakeUnit) eff" where
  "readDotCastPoolUnit rt env hasPool fetcher clock freshId =
     ebind (proxyDotCastPoolRequest rt env hasPool fetcher clock freshId GetPool) (\<lambda>response.
       if \<not> response_ok response
       then ethrow (Error (''pool read failed before entry placement: '' @ show_int (rq_status response)))
       else case rq_decorated response of
           None \<Rightarrow> ethrow (Error ''pool snapshot is missing stake unit'')
         | Some dec \<Rightarrow> ereturn (p_unit (s_pool (dc_snapshot dec))))"

text \<open>
  The handler of the route.  Its last act, telling a livestream about the new odds, concerns another
  object and is left out.
\<close>

definition placeDotCastPoolEntry ::
  "js_runtime \<Rightarrow> DotCastPoolEnv \<Rightarrow> bool \<Rightarrow> (string \<Rightarrow> string \<Rightarrow> router_answer) \<Rightarrow> string \<Rightarrow> string \<Rightarrow> string
    \<Rightarrow> DotCastPlaceEntryRequest \<Rightarrow> (pool_object, gateway_reply) eff" where
  "placeDotCastPoolEntry rt env hasPool fetcher clock randomId poolId body =
     ebind (elift (parsePlaceEntry randomId body)) (\<lambda>payload.
     ebind (elift (parseOptionalString (gb_streamId body) ''streamId'')) (\<lambda>_.
     ebind (readDotCastPoolUnit rt env hasPool fetcher clock randomId) (\<lambda>poolUnit.
       if poolUnit = Usdc
       then placeDotCastUsdcPoolEntry rt env hasPool fetcher clock randomId poolId payload
       else ebind (proxyDotCastPoolRequest rt env hasPool fetcher clock randomId
                     (PostEntries (entryPayload payload (ge_now payload) None))) (\<lambda>response.
              ereturn \<lparr>gw_response = response, gw_reservation = None\<rparr>))))"

subsection \<open>Entries with money behind them\<close>

definition lock_holds :: "settlement_db \<Rightarrow> DotCastPool \<Rightarrow> DotCastEntry \<Rightarrow> bool" where
  "lock_holds db pool e \<longleftrightarrow>
     (\<exists>l. map_of (db_poolLocks db) (entry_lock_id pool e) = Some l \<and> pk_userId l = e_userId e \<and>
        pk_amount l = e_amount e \<and> pk_status l = PoolLocked)"

definition backed :: "settlement_db \<Rightarrow> DotCastPoolSnapshot \<Rightarrow> DotCastEntry \<Rightarrow> bool" where
  "backed db s e \<longleftrightarrow> e_funding e = UserFunded \<and>
     (lock_holds db (s_pool s) e \<or> terminal (p_status (s_pool s)) \<and> entry_closed db (s_pool s) e)"

definition room_for :: "settlement_db \<Rightarrow> int \<Rightarrow> bool" where
  "room_for db x \<longleftrightarrow> (\<forall>u. holdings db u + x \<le> max_safe_integer)"

definition backed_pool :: "DotCastPoolSnapshot \<Rightarrow> settlement_db \<Rightarrow> bool" where
  "backed_pool s db \<longleftrightarrow> ledger_ok db \<and>
     (p_unit (s_pool s) = Usdc \<longrightarrow> (\<forall>e \<in> set (s_entries s). backed db s e) \<and>
        ((\<exists>e \<in> set (s_entries s). lock_holds db (s_pool s) e) \<longrightarrow> room_for db (total_staked s)))"

lemma backed_poolD:
  assumes "backed_pool s db"
  shows "ledger_ok db" "p_unit (s_pool s) = Usdc \<Longrightarrow> e \<in> set (s_entries s) \<Longrightarrow> backed db s e"
    "p_unit (s_pool s) = Usdc \<Longrightarrow> e \<in> set (s_entries s) \<Longrightarrow> lock_holds db (s_pool s) e \<Longrightarrow> room_for db (total_staked s)"
  using assms by (auto simp: backed_pool_def)

lemma closed_not_open:
  "entry_closed db pool e \<Longrightarrow> \<not> entry_open db pool e" "entry_closed db pool e \<Longrightarrow> \<not> lock_holds db pool e"
  by (auto simp: entry_closed_def entry_open_def lock_holds_def split: if_splits)

lemma backed_open: "backed db s e \<Longrightarrow> entry_open db (s_pool s) e \<longleftrightarrow> lock_holds db (s_pool s) e"
  using closed_not_open by (auto simp: backed_def entry_open_def lock_holds_def)

lemma good_return:
  assumes "good rt s" "e \<in> set (s_entries s)"
  shows "0 \<le> entry_return e"
proof -
  have "0 < e_amount e" "\<forall>p. e_payout e = Some p \<longrightarrow> 0 \<le> p"
    using assms snap_okD(4) [of rt s] by (auto simp: good_def pays_ok_def)
  then show ?thesis by (cases "e_payout e") (auto simp: entry_return_def)
qed

lemma backed_funded: "backed db s e \<Longrightarrow> 0 \<le> entry_return e \<Longrightarrow> entry_funded db (s_pool s) e"
  by (auto simp: backed_def entry_funded_def lock_holds_def entry_closed_def)

text \<open>Locks see only the key of an entry and the identifier of its pool.\<close>

lemma lock_holds_key:
  "entry_key e' = entry_key e \<Longrightarrow> p_id pool' = p_id pool \<Longrightarrow> lock_holds db pool' e' = lock_holds db pool e"
  by (simp add: lock_holds_def entry_key_def)

lemma same_keys_entry:
  assumes "map entry_key (s_entries t) = map entry_key (s_entries s)" "e' \<in> set (s_entries t)"
  shows "\<exists>e \<in> set (s_entries s). entry_key e' = entry_key e"
proof -
  have "entry_key e' \<in> entry_key ` set (s_entries s)" using assms by (metis image_eqI image_set)
  then show ?thesis by auto
qed

lemma backed_ahead:
  assumes b: "backed_pool s db" and a: "ahead s t" and keys: "map entry_key (s_entries t) = map entry_key (s_entries s)"
  shows "backed_pool t db"
proof (cases "terminal (p_status (s_pool s))")
  case True
  then show ?thesis using a b by (simp add: ahead_def same_money_def backed_pool_def backed_def)
next
  case False
  have pool: "p_id (s_pool t) = p_id (s_pool s)" "p_unit (s_pool t) = p_unit (s_pool s)"
    using a by (auto simp: ahead_def pool_key_def)
  have "backed db t e'" "lock_holds db (s_pool t) e' \<Longrightarrow> room_for db (total_staked t)"
    if u: "p_unit (s_pool t) = Usdc" and e': "e' \<in> set (s_entries t)" for e'
  proof -
    obtain e where e: "e \<in> set (s_entries s)" "entry_key e' = entry_key e" using same_keys_entry [OF keys e'] by blast
    then have "lock_holds db (s_pool s) e" "e_funding e = UserFunded"
      using backed_poolD(2) [OF b] u pool False by (auto simp: backed_def)
    then show "backed db t e'" using lock_holds_key [OF e(2) pool(1)] e(2) by (simp add: backed_def entry_key_def)
    show "room_for db (total_staked t)"
      using backed_poolD(3) [OF b _ e(1)] u pool \<open>lock_holds db (s_pool s) e\<close> total_staked_keys [OF keys] by simp
  qed
  then show ?thesis using backed_poolD(1) [OF b] by (auto simp: backed_pool_def)
qed

lemma user_returns_le:
  assumes "good rt s"
  shows "user_returns (s_entries s) u \<le> total_staked s"
proof -
  have "user_returns (s_entries s) u \<le> sum_list (map entry_return (s_entries s))"
    unfolding user_returns_def using good_return [OF assms] by (intro sum_list_mono) auto
  then show ?thesis using assms by (simp add: good_def pays_ok_def)
qed


subsection \<open>The end of a pool reaches the ledger\<close>

definition all_closed :: "settlement_db \<Rightarrow> DotCastPoolSnapshot \<Rightarrow> bool" where
  "all_closed db s \<longleftrightarrow> (\<forall>e \<in> set (s_entries s). entry_closed db (s_pool s) e)"

lemma settle_locks_backed:
  assumes b: "backed_pool s db" and good: "good rt s" and fin: "p_unit (s_pool s) = Usdc" "terminal (p_status (s_pool s))"
  shows "\<exists>r db'. settleEntryLocks (s_pool s) now 0 0 (s_entries s) db = (Inr r, db') \<and> backed_pool s db' \<and> all_closed db' s"
proof (cases "\<exists>e \<in> set (s_entries s). lock_holds db (s_pool s) e")
  case False
  then have closed: "\<forall>e \<in> set (s_entries s). entry_closed db (s_pool s) e" using backed_poolD(2) [OF b fin(1)] by (auto simp: backed_def)
  then have "settleEntryLocks (s_pool s) now 0 0 (s_entries s) db =
      (Inr (0, 0 + length (filter (\<lambda>e. e_funding e = UserFunded) (s_entries s))), db)"
    using backed_funded [OF backed_poolD(2) [OF b fin(1)] good_return [OF good]] closed_not_open(1)
    by (intro settle_closed) auto
  then show ?thesis using b closed by (auto simp: all_closed_def)
next
  case True
  have books: "books db" using backed_poolD(1) [OF b] by (rule ledger_okD)
  have funded: "\<forall>e \<in> set (s_entries s). entry_funded db (s_pool s) e"
    using backed_funded [OF backed_poolD(2) [OF b fin(1)] good_return [OF good]] by blast
  have free: "holdings db u + total_staked s \<le> max_safe_integer" for u
    using True backed_poolD(3) [OF b fin(1)] by (auto simp: room_for_def)
  have room: "holdings db u + user_returns (s_entries s) u \<le> max_safe_integer" for u
    using user_returns_le [OF good, of u] free [of u] by linarith
  have "distinct (map e_id (filter (\<lambda>e. e_funding e = UserFunded) (s_entries s)))"
    using good by (simp add: good_def snap_ok_def distinct_map_filter)
  from settleEntryLocks_ok [OF books room funded this, of now 0 0]
  obtain r db' where run: "settleEntryLocks (s_pool s) now 0 0 (s_entries s) db = (Inr r, db')"
    and settled: "entries_settled db (s_pool s) (s_entries s) db'" by blast
  have "entry_closed db' (s_pool s) e" if e: "e \<in> set (s_entries s)" for e
  proof -
    have "entry_done db (s_pool s) e db'" using settled e by (simp add: entries_settled_def)
    moreover have "backed db s e" using backed_poolD(2) [OF b fin(1) e] .
    ultimately show ?thesis
      using backed_open [of db s e] by (auto simp: entry_done_def backed_def entry_closed_def split: if_splits)
  qed
  then have closed: "all_closed db' s" by (simp add: all_closed_def)
  have "ledger_ok db'"
    unfolding ledger_ok_def using settled holdings_settled [OF settled books funded] room
    by (auto simp: entries_settled_def intro: order_trans)
  moreover have "backed db' s e" if "e \<in> set (s_entries s)" for e
    using closed backed_poolD(2) [OF b fin(1) that] fin(2) that by (simp add: backed_def all_closed_def)
  ultimately have "backed_pool s db'"
    using closed closed_not_open(2) by (auto simp: backed_pool_def all_closed_def)
  then show ?thesis using run closed by blast
qed

lemma reconcile_backed:
  assumes b: "backed_pool s (po_ledger ob)" and good: "good rt s"
  shows "backed_pool s (po_ledger (snd (reconcileUsdcPoolFunding env s now ob)))"
    "p_unit (s_pool s) = Usdc \<Longrightarrow> terminal (p_status (s_pool s)) \<Longrightarrow>
       fst (reconcileUsdcPoolFunding env s now ob) = Inr () \<Longrightarrow>
       all_closed (po_ledger (snd (reconcileUsdcPoolFunding env s now ob))) s"
    "ev_tradingDb env \<Longrightarrow> assertUsdcPoolFundingReady env = Inr fu \<Longrightarrow> fst (reconcileUsdcPoolFunding env s now ob) = Inr ()"
proof -
  have run: "(\<exists>fu. assertUsdcPoolFundingReady env = Inr fu \<and>
      (\<exists>r db'. applyUsdcPoolTerminalSettlement env \<lparr>ti_snapshot = s, ti_now = Some now\<rparr> (po_ledger ob) = (Inr r, db') \<and>
         backed_pool s db' \<and> all_closed db' s)) \<or>
     (\<exists>e. assertUsdcPoolFundingReady env = Inl e \<and>
        applyUsdcPoolTerminalSettlement env \<lparr>ti_snapshot = s, ti_now = Some now\<rparr> (po_ledger ob) = (Inl e, po_ledger ob))"
    if fin: "p_unit (s_pool s) = Usdc" "terminal (p_status (s_pool s))"
  proof (cases "assertUsdcPoolFundingReady env")
    case (Inr fu)
    obtain r db' where "settleEntryLocks (s_pool s) now 0 0 (s_entries s) (po_ledger ob) = (Inr r, db')" "backed_pool s db'"
        "all_closed db' s" using settle_locks_backed [OF b good fin] by blast
    then show ?thesis using Inr fin by (cases r) (auto simp: applyUsdcPoolTerminalSettlement_def ebind_def)
  qed (simp add: applyUsdcPoolTerminalSettlement_def)
  show "backed_pool s (po_ledger (snd (reconcileUsdcPoolFunding env s now ob)))"
    using run b by (auto simp: reconcileUsdcPoolFunding_def on_ledger_def snd_ebind)
  show "all_closed (po_ledger (snd (reconcileUsdcPoolFunding env s now ob))) s"
    if "p_unit (s_pool s) = Usdc" "terminal (p_status (s_pool s))" "fst (reconcileUsdcPoolFunding env s now ob) = Inr ()"
    using that(3) run [OF that(1,2)]
    by (auto simp: reconcileUsdcPoolFunding_def on_ledger_def ebind_def that(1,2) split: if_splits)
  show "fst (reconcileUsdcPoolFunding env s now ob) = Inr ()"
    if "ev_tradingDb env" "assertUsdcPoolFundingReady env = Inr fu"
    using that run by (auto simp: reconcileUsdcPoolFunding_def on_ledger_def ebind_def)
qed


lemma persist_backed:
  assumes iv: "interval_ok env" and b: "backed_pool t (po_ledger ob)" and good: "good rt t"
  shows "backed_pool t (po_ledger (snd (persistSnapshot rt env t now ob)))"
    "p_unit (s_pool t) = Usdc \<Longrightarrow> terminal (p_status (s_pool t)) \<Longrightarrow>
       fst (persistSnapshot rt env t now ob) = Inr () \<Longrightarrow> all_closed (po_ledger (snd (persistSnapshot rt env t now ob))) t"
    "ev_tradingDb env \<Longrightarrow> assertUsdcPoolFundingReady env = Inr fu \<Longrightarrow> fst (persistSnapshot rt env t now ob) = Inr ()"
proof -
  define a where "a = snd (reconcileResolutionAlarm rt env t now (ob\<lparr>po_snapshot := Some t\<rparr>))"
  have a: "reconcileResolutionAlarm rt env t now (ob\<lparr>po_snapshot := Some t\<rparr>) = (Inr (), a)"
    using iv by (auto simp: a_def reconcileResolutionAlarm_def interval_ok_def)
  have "backed_pool t (po_ledger a)" using b alarm_object(3) [OF iv] by (simp add: a_def)
  note r = reconcile_backed [OF this good, where env = env and now = now]
  have l: "po_ledger (snd (persistSnapshot rt env t now ob)) = po_ledger (snd (reconcileUsdcPoolFunding env t now a))"
    using persist_object(3) [OF iv] by (simp add: a_def)
  have fst: "fst (persistSnapshot rt env t now ob) =
      (case reconcileUsdcPoolFunding env t now a of (Inl e, _) \<Rightarrow> Inl e | (Inr _, ob') \<Rightarrow> fst (reconcileCreatorEconomy rt env t now ob'))"
    by (auto simp: persistSnapshot_def writeSnapshot_def ebind_def a split: prod.split sum.split)
  show "backed_pool t (po_ledger (snd (persistSnapshot rt env t now ob)))" using r(1) by (simp add: l)
  show "all_closed (po_ledger (snd (persistSnapshot rt env t now ob))) t"
    if "p_unit (s_pool t) = Usdc" "terminal (p_status (s_pool t))" "fst (persistSnapshot rt env t now ob) = Inr ()"
    unfolding l using r(2) that fst by (auto split: prod.splits sum.splits)
  show "fst (persistSnapshot rt env t now ob) = Inr ()"
    if "ev_tradingDb env" "assertUsdcPoolFundingReady env = Inr fu"
    using r(3) [OF that] that(1) fst by (auto simp: reconcileCreatorEconomy_def split: prod.splits sum.splits)
qed

definition funded :: "js_runtime \<Rightarrow> DotCastPoolEnv \<Rightarrow> DotCastPoolSnapshot \<Rightarrow> pool_object \<Rightarrow> bool" where
  "funded rt env s ob \<longleftrightarrow> interval_ok env \<and> stored rt s ob \<and> backed_pool s (po_ledger ob)"

interpretation funded_store: object_store rt env "funded rt env" "\<lambda>t ob. backed_pool t (po_ledger ob)" "\<lambda>_. True" for rt env
proof unfold_locales
  fix s t :: DotCastPoolSnapshot and ob :: pool_object and now :: string
  assume st: "funded rt env s ob"
  show "po_snapshot ob = Some s \<and> good rt s" using st by (simp add: funded_def stored_def)
  show "backed_pool t (po_ledger ob)" if "ahead s t" "map entry_key (s_entries t) = map entry_key (s_entries s)"
    using backed_ahead [OF _ that] st by (simp add: funded_def)
  show "funded rt env t (snd (persistSnapshot rt env t now ob))"
    if "good rt t" "ahead s t" "backed_pool t (po_ledger ob)"
    using persist_backed(1) [OF _ that(3,1)] st that(1)
    by (simp add: funded_def stored_def persist_object del: not_None_eq)
  show "funded rt env s (snd (reconcileResolutionAlarm rt env s now ob))"
    using st by (simp add: funded_def stored_def alarm_object del: not_None_eq)
  show "funded rt env s (snd (audit env act x ob))" for act x
    using st by (simp add: funded_def stored_def)
qed


subsection \<open>What the pool answers to a gateway call\<close>

definition parsed_ok :: "ParsedDotCastPlaceEntry \<Rightarrow> bool" where
  "parsed_ok p \<longleftrightarrow> ge_userId p \<noteq> '''' \<and> trim (ge_userId p) = ge_userId p \<and> ge_entryId p \<noteq> '''' \<and>
     trim (ge_entryId p) = ge_entryId p \<and> is_safe_integer (ge_amount p) \<and> 0 < ge_amount p"

text \<open>
  What a gateway call for a USDC entry takes for granted: the pool is the one named; an identifier is not
  used again after a reservation under it was refused; the sums of the pool and of the ledger have room
  for the entry.
\<close>

definition submission_ok :: "string \<Rightarrow> ParsedDotCastPlaceEntry \<Rightarrow> DotCastPoolSnapshot \<Rightarrow> settlement_db \<Rightarrow> bool" where
  "submission_ok poolId p s db \<longleftrightarrow> parsed_ok p \<and> p_unit (s_pool s) = Usdc \<and>
     p_id (s_pool s) = poolId \<and> poolId \<noteq> '''' \<and> trim poolId = poolId \<and>
     (map_of (db_poolLocks db) (poolFundingLockId poolId (ge_entryId p)) \<noteq> None \<longrightarrow>
        ge_entryId p \<in> e_id ` set (s_entries s)) \<and>
     is_safe_integer (asum bal_total (s_balances s) + total_staked s + 2 * ge_amount p + 10000) \<and>
     room_for db (total_staked s + ge_amount p)"

definition usdc_payload :: "ParsedDotCastPlaceEntry \<Rightarrow> string \<Rightarrow> string \<Rightarrow> PlaceEntryPayload" where
  "usdc_payload p now lockId = entryPayload p (Some now)
     (Some (JObj [(''rail'', JStr ''solana-usdc-devnet''), (''lockId'', JStr lockId), (''reservedAmount'', jint (ge_amount p))]))"

definition usdc_funding :: "ParsedDotCastPlaceEntry \<Rightarrow> string \<Rightarrow> settlement_funding" where
  "usdc_funding p lockId = \<lparr>sf_rail = ''solana-usdc-devnet'', sf_lockId = trim lockId, sf_reservedAmount = ge_amount p\<rparr>"

definition usdc_place :: "DotCastPoolSnapshot \<Rightarrow> ParsedDotCastPlaceEntry \<Rightarrow> string \<Rightarrow> string \<Rightarrow> PlaceEntryInput" where
  "usdc_place s p lockId now =
     \<lparr>pe_pool = s_pool s, pe_balance = entryBalance s (ge_userId p) (Some (usdc_funding p lockId)), pe_userId = ge_userId p,
      pe_side = ge_side p, pe_amount = Fin (of_int (ge_amount p)), pe_now = now, pe_entryId = Some (ge_entryId p)\<rparr>"

lemma usdc_payload_parse:
  assumes p: "parsed_ok p" and l: "trim lockId \<noteq> ''''"
  shows "parseUserId (ep_userId (usdc_payload p now lockId)) = Inr (ge_userId p)"
    "parseSide (ep_side (usdc_payload p now lockId)) = Inr (ge_side p)"
    "parseAmount (ep_amount (usdc_payload p now lockId)) = Inr (ge_amount p)"
    "parseSettlementFunding (ep_settlementFunding (usdc_payload p now lockId)) Usdc (ge_amount p) =
       Inr (Some (usdc_funding p lockId))"
proof -
  show "parseUserId (ep_userId (usdc_payload p now lockId)) = Inr (ge_userId p)"
    "parseAmount (ep_amount (usdc_payload p now lockId)) = Inr (ge_amount p)"
    using p by (simp_all add: usdc_payload_def entryPayload_def parseUserId_def parseAmount_def parsed_ok_def)
  show "parseSide (ep_side (usdc_payload p now lockId)) = Inr (ge_side p)"
    by (cases "ge_side p") (simp_all add: usdc_payload_def entryPayload_def parseSide_def)
  have "trim ''solana-usdc-devnet'' = ''solana-usdc-devnet''" by (rule trim_fixed) (simp_all add: is_white_def)
  then show "parseSettlementFunding (ep_settlementFunding (usdc_payload p now lockId)) Usdc (ge_amount p) =
      Inr (Some (usdc_funding p lockId))"
    using p l by (simp add: usdc_payload_def entryPayload_def parseSettlementFunding_def parseRequiredString_def
        json_field_def parseAmount_def parsed_ok_def usdc_funding_def)
qed

lemma backed_new:
  assumes b: "backed_pool s db" and nt: "\<not> terminal (p_status (s_pool s))" and a: "ahead s t"
    and keys: "map entry_key (s_entries t) = map entry_key (s_entries s) @ [entry_key e]"
    and e: "e_funding e = UserFunded" "lock_holds db (s_pool s) e" and room: "room_for db (total_staked s + e_amount e)"
  shows "backed_pool t db"
proof -
  have pool: "p_id (s_pool t) = p_id (s_pool s)" "p_unit (s_pool t) = p_unit (s_pool s)"
    using a by (auto simp: ahead_def pool_key_def)
  have total: "total_staked t = total_staked s + e_amount e"
    using arg_cong [OF keys, of "\<lambda>ks. sum_list (map (\<lambda>(_, _, _, x, _). x) ks)"] by (simp add: entry_key_def comp_def)
  have "backed db t e'" if u: "p_unit (s_pool t) = Usdc" and e': "e' \<in> set (s_entries t)" for e'
  proof -
    have "entry_key e' \<in> set (map entry_key (s_entries s) @ [entry_key e])" using e' keys by (metis image_eqI image_set)
    then obtain e1 where e1: "entry_key e' = entry_key e1" "e1 \<in> set (s_entries s) \<or> e1 = e" by auto
    have "lock_holds db (s_pool s) e1 \<and> e_funding e1 = UserFunded"
      using e1(2) e backed_poolD(2) [OF b] u pool nt by (auto simp: backed_def)
    then show ?thesis using lock_holds_key [OF e1(1) pool(1)] e1(1) by (simp add: backed_def entry_key_def)
  qed
  then show ?thesis using backed_poolD(1) [OF b] room total by (simp add: backed_pool_def)
qed

text \<open>
  A pool object that holds a USDC pool, and a gateway call with a reservation for it.
\<close>

definition reserved ::
  "js_runtime \<Rightarrow> DotCastPoolEnv \<Rightarrow> DotCastPoolSnapshot \<Rightarrow> pool_object \<Rightarrow> ParsedDotCastPlaceEntry \<Rightarrow> bool" where
  "reserved rt env s ob p \<longleftrightarrow> funded rt env s ob \<and> p_unit (s_pool s) = Usdc \<and> parsed_ok p \<and>
     is_safe_integer (asum bal_total (s_balances s) + total_staked s + 2 * ge_amount p + 10000) \<and>
     room_for (po_ledger ob) (total_staked s + ge_amount p) \<and>
     ev_tradingDb env \<and> (\<exists>fu. assertUsdcPoolFundingReady env = Inr fu) \<and>
     (\<exists>l. map_of (db_poolLocks (po_ledger ob)) (poolFundingLockId (p_id (s_pool s)) (ge_entryId p)) = Some l \<and>
        pk_userId l = ge_userId p \<and> pk_amount l = ge_amount p \<and>
        (ge_entryId p \<notin> e_id ` set (s_entries s) \<longrightarrow> pk_status l = PoolLocked))"

definition holds_entry :: "ParsedDotCastPlaceEntry \<Rightarrow> DotCastPoolSnapshot \<Rightarrow> bool" where
  "holds_entry p t \<longleftrightarrow> (\<exists>e \<in> set (s_entries t). e_id e = ge_entryId p \<and> e_userId e = ge_userId p \<and> e_amount e = ge_amount p)"

lemma reservedD:
  assumes "reserved rt env s ob p"
  shows "po_snapshot ob = Some s" "good rt s" "backed_pool s (po_ledger ob)" "interval_ok env" "funded rt env s ob"
    "p_unit (s_pool s) = Usdc" "parsed_ok p" "0 < ge_amount p" "ge_entryId p \<noteq> ''''"
    "total_staked s + ge_amount p + 100 \<le> max_safe_integer" "entry_guard freshId (usdc_payload p now lockId) s"
proof -
  show s: "po_snapshot ob = Some s" "good rt s" "backed_pool s (po_ledger ob)" "interval_ok env" "funded rt env s ob"
    and p: "p_unit (s_pool s) = Usdc" "parsed_ok p" "0 < ge_amount p" "ge_entryId p \<noteq> ''''"
    using assms by (auto simp: reserved_def funded_def stored_def parsed_ok_def)
  have safe: "is_safe_integer (asum bal_total (s_balances s) + total_staked s + 2 * ge_amount p + 10000)"
    using assms by (simp add: reserved_def)
  have "0 \<le> asum bal_total (s_balances s)"
    using bal_total_nonneg [OF snap_okD(2)] s(2) by (intro asum_nonneg) (auto simp: good_def)
  then show "total_staked s + ge_amount p + 100 \<le> max_safe_integer" using safe p(3) by (simp add: is_safe_integer_def)
  show "entry_guard freshId (usdc_payload p now lockId) s"
    using safe p(3,4) by (simp add: entry_guard_def usdc_payload_def entryPayload_def parseAmount_def)
qed

lemma place_run:
  assumes r: "reserved rt env s ob p" and l: "trim lockId \<noteq> ''''" and new: "ge_entryId p \<notin> e_id ` set (s_entries s)"
  shows "placePoolEntry rt env clock freshId (usdc_payload p now lockId) ob =
    ebind (elift (placeEntry rt (usdc_place s p lockId now))) (\<lambda>r.
    ebind (elift (lockSnapshotIfNeeded rt (placedSnapshot s (ge_userId p) r now) now)) (\<lambda>t.
    ebind (persistSnapshot rt env t now) (\<lambda>_. ebind (elift (decorateSnapshot t)) (\<lambda>dec.
    let body = (reply 201 True (Some dec))\<lparr>rq_entry := Some (px_entry r), rq_balance := Some (px_balance r),
      rq_settlementFunding := Some (usdc_funding p lockId)\<rparr>
    in ebind (audit env AuditEntry body) (\<lambda>_. ebind (if p_status (s_pool t) \<noteq> p_status (px_pool r)
      then audit env AuditLock (reply 200 True (Some dec)) else ereturn ()) (\<lambda>_. ereturn body)))))) ob"
proof -
  have none: "find (\<lambda>e. e_id e = ge_entryId p) (s_entries s) = None" using new by (auto simp: find_None_iff image_iff)
  have ep: "ep_entryId (usdc_payload p now lockId) = Some (ge_entryId p)" "ep_now (usdc_payload p now lockId) = Some now"
    by (simp_all add: usdc_payload_def entryPayload_def)
  show ?thesis
    using reservedD(1) [OF r] usdc_payload_parse [OF reservedD(7) [OF r] l] none reservedD(9) [OF r] reservedD(6) [OF r]
    by (simp add: placePoolEntry_def requireSnapshot_def readSnapshot_def Let_def ep truthy_text_def orElse_def usdc_place_def)
qed

lemma place_accepted:
  assumes r: "reserved rt env s ob p" and l: "trim lockId \<noteq> ''''" and new: "ge_entryId p \<notin> e_id ` set (s_entries s)"
    and run: "placeEntry rt (usdc_place s p lockId now) = Inr res"
      "lockSnapshotIfNeeded rt (placedSnapshot s (ge_userId p) res now) now = Inr t"
  shows "\<exists>rep ob'. placePoolEntry rt env clock freshId (usdc_payload p now lockId) ob = (Inr rep, ob') \<and> response_ok rep \<and>
    ahead s t \<and> funded rt env t ob' \<and> holds_entry p t"
proof -
  note d = reservedD [OF r]
  have id: "orElse (ep_entryId (usdc_payload p now lockId)) x = ge_entryId p" for x
    by (simp add: usdc_payload_def entryPayload_def)
  note parse = usdc_payload_parse [OF d(7) l, of now]
  note t = placed_next [OF d(2,11) parse(1,3,4) [folded d(6)], unfolded id, OF new run(1) [unfolded usdc_place_def] run(2)]
  have e: "e_id (px_entry res) = ge_entryId p" "e_userId (px_entry res) = ge_userId p" "e_amount (px_entry res) = ge_amount p"
      "e_funding (px_entry res) = UserFunded"
    using t(4) parse(1,3) id by (simp_all add: payload_entry_def)
  have "lock_holds (po_ledger ob) (s_pool s) (px_entry res)" using r new e by (simp add: lock_holds_def reserved_def)
  then have b: "backed_pool t (po_ledger ob)"
    by (rule backed_new [OF d(3) t(5,2,3) e(4)]) (use r in \<open>simp add: e(3) reserved_def\<close>)
  obtain ob1 where ob1: "persistSnapshot rt env t now ob = (Inr (), ob1)"
    using persist_backed(3) [OF d(4) b t(1), of _ now] r by (metis prod.collapse reserved_def)
  have f1: "funded rt env t ob1" using funded_store.persist [OF d(5) t(1,2) b TrueI, of now] ob1 by simp
  obtain dec where dec: "decorateSnapshot t = Inr dec"
    using decorate_ok [OF t(1)] total_staked_new [OF t(3)] d(10) e(3) by auto
  let ?body = "(reply 201 True (Some dec))\<lparr>rq_entry := Some (px_entry res),
        rq_balance := Some (px_balance res), rq_settlementFunding := Some (usdc_funding p lockId)\<rparr>"
  let ?ob2 = "snd (audit env AuditEntry ?body ob1)"
  let ?ob3 = "snd ((if p_status (s_pool t) \<noteq> p_status (px_pool res) then audit env AuditLock (reply 200 True (Some dec))
      else ereturn ()) ?ob2)"
  have "funded rt env t ?ob3" using funded_store.audited [OF f1] funded_store.audited [of rt env t ?ob2] by simp
  moreover have "placePoolEntry rt env clock freshId (usdc_payload p now lockId) ob = (Inr ?body, ?ob3)"
    by (simp add: place_run [OF r l new] run ebind_def ob1 dec audit_run Let_def)
  moreover have "entry_key (px_entry res) \<in> set (map entry_key (s_entries t))" using t(3) by simp
  then have "holds_entry p t" using e(1-3) by (auto simp: entry_key_def holds_entry_def)
  ultimately show ?thesis using t(2) by (simp add: response_ok_def reply_def)
qed

lemma place_duplicate:
  assumes r: "reserved rt env s ob p" and l: "trim lockId \<noteq> ''''" and old: "ge_entryId p \<in> e_id ` set (s_entries s)"
  shows "\<exists>rep. placePoolEntry rt env clock freshId (usdc_payload p now lockId) ob = (Inr rep, ob) \<and> response_ok rep \<and>
    holds_entry p s"
proof -
  note d = reservedD [OF r]
  obtain e where e: "find (\<lambda>e. e_id e = ge_entryId p) (s_entries s) = Some e"
    using old by (cases "find (\<lambda>e. e_id e = ge_entryId p) (s_entries s)") (auto simp: find_None_iff)
  obtain dec where dec: "decorateSnapshot s = Inr dec" using decorate_ok [OF d(2)] d(8,10) by force
  have ep: "ep_entryId (usdc_payload p now lockId) = Some (ge_entryId p)" "ep_now (usdc_payload p now lockId) = Some now"
    by (simp_all add: usdc_payload_def entryPayload_def)
  have i: "e \<in> set (s_entries s)" "e_id e = ge_entryId p" using e by (auto simp: find_Some_iff)
  then have "backed (po_ledger ob) s e" using backed_poolD(2) [OF d(3,6)] by blast
  then have "holds_entry p s" using r i by (auto simp: reserved_def backed_def lock_holds_def entry_closed_def holds_entry_def)
  then show ?thesis
    using d(1,6,9) usdc_payload_parse [OF d(7) l] e dec
    by (simp add: placePoolEntry_def requireSnapshot_def readSnapshot_def Let_def ep truthy_text_def orElse_def response_ok_def reply_def)
qed

lemma place_outcome:
  assumes r: "reserved rt env s ob p" and l: "trim lockId \<noteq> ''''"
  shows "(\<exists>rep ob'. placePoolEntry rt env clock freshId (usdc_payload p now lockId) ob = (Inr rep, ob') \<and> response_ok rep \<and>
      (\<exists>t. ahead s t \<and> funded rt env t ob' \<and> holds_entry p t)) \<or>
    ge_entryId p \<notin> e_id ` set (s_entries s) \<and>
      (\<exists>e. placePoolEntry rt env clock freshId (usdc_payload p now lockId) ob = (Inl e, ob))"
proof (cases "ge_entryId p \<in> e_id ` set (s_entries s)")
  case True
  then show ?thesis
    using place_duplicate [OF r l True] ahead_refl reservedD(5) [OF r] by blast
next
  case new: False
  show ?thesis
  proof (cases "placeEntry rt (usdc_place s p lockId now)")
    case (Inl e)
    then show ?thesis using new by (simp add: place_run [OF r l new])
  next
    case (Inr res)
    then show ?thesis
      using new place_accepted [OF r l new Inr]
      by (cases "lockSnapshotIfNeeded rt (placedSnapshot s (ge_userId p) res now) now")
        (simp add: place_run [OF r l new], blast)
  qed
qed

subsection \<open>What the ledger answers\<close>

declare map_of_append [simp del]

lemma backed_same_locks:
  assumes b: "backed_pool s db" and ok: "ledger_ok db'"
    and locks: "\<And>e. e \<in> set (s_entries s) \<Longrightarrow>
      map_of (db_poolLocks db') (entry_lock_id (s_pool s) e) = map_of (db_poolLocks db) (entry_lock_id (s_pool s) e)"
    and room: "room_for db (total_staked s) \<Longrightarrow> room_for db' (total_staked s)"
  shows "backed_pool s db'"
proof -
  have "lock_holds db' (s_pool s) e = lock_holds db (s_pool s) e" "entry_closed db' (s_pool s) e = entry_closed db (s_pool s) e"
    if "e \<in> set (s_entries s)" for e using locks [OF that] by (simp_all add: lock_holds_def entry_closed_def)
  then show ?thesis using b ok room by (auto simp: backed_pool_def backed_def)
qed

lemma room_same: "(\<And>u. holdings db' u = holdings db u) \<Longrightarrow> room_for db' x = room_for db x"
  by (simp add: room_for_def)

lemma lockPoolEntry_new:
  assumes ok: "ledger_ok db" and x: "0 < x" "x \<le> bal Available db u"
    and fresh: "map_of (db_poolLocks db) (poolFundingLockId pid eid) = None"
  shows "\<exists>r db'. lockPoolEntry fu pid eid u x now db = (Inr r, db') \<and> ledger_ok db' \<and> (\<forall>v. holdings db' v = holdings db v) \<and>
    db_poolLocks db' = db_poolLocks db @ [(poolFundingLockId pid eid, fo_lock r)] \<and>
    pk_lockId (fo_lock r) = poolFundingLockId pid eid \<and> pk_userId (fo_lock r) = u \<and> pk_amount (fo_lock r) = x \<and>
    pk_status (fo_lock r) = PoolLocked \<and> moved db u (reserve_post x) db'"
proof -
  have "\<not> list_ex (\<lambda>l. pk_poolId l = pid \<and> pk_entryId l = eid) (map snd (db_poolLocks db))"
    using fresh tables_of(2) [OF ok] by (force simp: list_ex_iff table_ok_def akeys_def pool_lock_ok_def)
  then obtain r db' where run: "lockPoolEntry fu pid eid u x now db = (Inr r, db')" "books db'"
      "moved db u (reserve_post x) db'" "db_poolLocks db' = db_poolLocks db @ [(poolFundingLockId pid eid, fo_lock r)]"
      "pk_userId (fo_lock r) = u" "pk_amount (fo_lock r) = x" "pk_status (fo_lock r) = PoolLocked"
    using lockPoolEntry_ok [OF ledger_okD [OF ok] x fresh] by blast
  have "holdings db' v = holdings db v" for v using holdings_moved [OF run(3)] by (simp add: reserve_post_def)
  moreover have "ledger_ok db'" using run(2) ledger_okD(2) [OF ok] calculation by (simp add: ledger_ok_def)
  moreover have "pk_lockId (fo_lock r) = poolFundingLockId pid eid"
    using tables_of(2) [OF \<open>ledger_ok db'\<close>] fresh unfolding table_ok_def run(4) by (auto simp: pool_lock_ok_def)
  ultimately show ?thesis using run by blast
qed

lemma reserve_outcome:
  assumes ok: "ledger_ok db" and input: "reserve_ok input x"
  shows "(\<exists>e. reserveUsdcPoolEntry clock env input db = (Inl e, db)) \<or>
    (\<exists>fu r db'. assertUsdcPoolFundingReady env = Inr fu \<and> reserveUsdcPoolEntry clock env input db = (Inr r, db') \<and>
       pk_userId (fo_lock r) = trim (ui_userId input) \<and> pk_amount (fo_lock r) = x \<and> pk_lockId (fo_lock r) = reserve_id input \<and>
       map_of (db_poolLocks db') (reserve_id input) = Some (fo_lock r) \<and> ledger_ok db' \<and> (\<forall>v. holdings db' v = holdings db v) \<and>
       (\<forall>k l. map_of (db_poolLocks db) k = Some l \<longrightarrow> map_of (db_poolLocks db') k = Some l) \<and>
       (map_of (db_poolLocks db) (reserve_id input) = None \<longrightarrow> pk_status (fo_lock r) = PoolLocked \<and>
          moved db (trim (ui_userId input)) (reserve_post x) db'))"
proof (cases "assertUsdcPoolFundingReady env")
  case (Inl e)
  then show ?thesis by (simp add: reserveUsdcPoolEntry_def)
next
  case (Inr fu)
  note run = reserveUsdcPoolEntry_run [OF Inr input, of clock db]
  show ?thesis
  proof (cases "map_of (db_poolLocks db) (reserve_id input)")
    case (Some l)
    have "pk_lockId l = reserve_id input" using table_okD [OF tables_of(2) [OF ok] Some] by (simp add: pool_lock_ok_def)
    then show ?thesis using Some Inr ok by (auto simp: run)
  next
    case None
    show ?thesis
    proof (cases "x \<le> bal Available db (trim (ui_userId input))")
      case True
      have "0 < x" using input by (simp add: reserve_ok_def)
      from lockPoolEntry_new [OF ok this True None, of fu "orElse (ui_now input) clock"] show ?thesis
        using None Inr by (auto simp: run)
    next
      case False
      then show ?thesis by (simp add: run None lockPoolEntry_def read_balance_eqs Let_def)
    qed
  qed
qed

lemma release_outcome:
  assumes ok: "ledger_ok db" and ready: "assertUsdcPoolFundingReady env = Inr fu"
    and ids: "trim pid = pid" "pid \<noteq> ''''" "trim eid = eid" "eid \<noteq> ''''" "trim u = u" "u \<noteq> ''''"
    and l: "map_of (db_poolLocks db) (poolFundingLockId pid eid) = Some l" "pk_userId l = u" "pk_status l = PoolLocked"
  shows "\<exists>r db' l'. releaseUsdcPoolEntryReservation clock env
      \<lparr>li_poolId = pid, li_entryId = eid, li_userId = u, li_reason = reason, li_now = now\<rparr> db = (Inr r, db') \<and>
    ledger_ok db' \<and> (\<forall>v. holdings db' v = holdings db v) \<and>
    db_poolLocks db' = AList.update (poolFundingLockId pid eid) l' (db_poolLocks db) \<and>
    moved db u (finish_post (pk_amount l) (pk_amount l)) db'"
proof -
  have k: "pk_lockId l = poolFundingLockId pid eid" "pk_payout l = None"
    using table_okD [OF tables_of(2) [OF ok] l(1)] l(3) by (simp_all add: pool_lock_ok_def)
  from releasePoolLock_ok [OF ledger_okD [OF ok], of l fu reason "orElse now clock"] k l
  obtain r db' where run: "releasePoolLock fu l u reason (orElse now clock) db = (Inr r, db')" "books db'"
      "moved db u (finish_post (pk_amount l) (pk_amount l)) db'"
      "db_poolLocks db' = AList.update (poolFundingLockId pid eid) (fo_lock r) (db_poolLocks db)"
    by auto
  have "holdings db' v = holdings db v" for v using holdings_moved [OF run(3)] by (simp add: finish_post_def)
  moreover have "ledger_ok db'" using run(2) ledger_okD(2) [OF ok] calculation by (simp add: ledger_ok_def)
  ultimately show ?thesis
    using run ids l ready
    by (auto simp: releaseUsdcPoolEntryReservation_def Let_def requirePoolFundingLock_def requirePoolFundingText_def)
qed


subsection \<open>The whole call\<close>

lemma funded_ledger:
  assumes st: "funded rt env s ob" and ok: "ledger_ok db'"
    and locks: "\<And>e. e \<in> set (s_entries s) \<Longrightarrow>
      map_of (db_poolLocks db') (entry_lock_id (s_pool s) e) = map_of (db_poolLocks (po_ledger ob)) (entry_lock_id (s_pool s) e)"
    and room: "room_for (po_ledger ob) (total_staked s) \<Longrightarrow> room_for db' (total_staked s)"
  shows "funded rt env s (ob\<lparr>po_ledger := db'\<rparr>)"
  using st backed_same_locks [OF _ ok locks room] by (simp add: funded_def stored_def)

lemma backed_lock:
  "backed db s e \<Longrightarrow> \<exists>l. map_of (db_poolLocks db) (entry_lock_id (s_pool s) e) = Some l"
  by (auto simp: backed_def lock_holds_def entry_closed_def)

lemma trim_Nil: "trim s = '''' \<Longrightarrow> c \<in> set s \<Longrightarrow> is_white c"
proof -
  assume "trim s = ''''" "c \<in> set s"
  then have all: "\<forall>x \<in> set (dropWhile is_white s). is_white x" by (simp add: trim_def)
  then have "dropWhile is_white s = []" by (metis hd_dropWhile list.set_sel(1))
  then show "is_white c" using \<open>c \<in> set s\<close> by simp
qed

lemma lock_id_text: "trim (poolFundingLockId pid eid) \<noteq> ''''"
proof
  assume "trim (poolFundingLockId pid eid) = ''''"
  then have "is_white (CHR ''d'')" by (rule trim_Nil) (simp add: poolFundingLockId_def)
  then show False by (simp add: is_white_def)
qed

text \<open>A gateway call after its reservation.\<close>

definition after_reservation ::
  "js_runtime \<Rightarrow> DotCastPoolEnv \<Rightarrow> (string \<Rightarrow> string \<Rightarrow> router_answer) \<Rightarrow> string \<Rightarrow> string \<Rightarrow> string
    \<Rightarrow> ParsedDotCastPlaceEntry \<Rightarrow> string \<Rightarrow> pool_funding_result \<Rightarrow> (pool_object, gateway_reply) eff" where
  "after_reservation rt env fetcher clock freshId poolId p now r =
     ebind (proxyDotCastPoolRequest rt env True fetcher clock freshId
         (PostEntries (usdc_payload p now (poolFundingLockId poolId (ge_entryId p))))) (\<lambda>response.
       if \<not> response_ok response
       then ebind (on_ledger (releaseUsdcPoolEntryReservation clock env (releaseInput poolId p (rq_status response) now)))
              (\<lambda>_. ereturn \<lparr>gw_response = response, gw_reservation = None\<rparr>)
       else ereturn \<lparr>gw_response = response, gw_reservation = Some r\<rparr>)"

lemma usdc_entry_reserves:
  assumes st: "funded rt env s ob" and g: "submission_ok poolId p s (po_ledger ob)" and db: "ev_tradingDb env"
  shows "(\<exists>e. placeDotCastUsdcPoolEntry rt env True fetcher clock freshId poolId p ob = (Inl e, ob) \<and>
       reserveUsdcPoolEntry clock env (reserveInput poolId p (orElse (ge_now p) clock)) (po_ledger ob) = (Inl e, po_ledger ob)) \<or>
    (\<exists>r db1. reserved rt env s (ob\<lparr>po_ledger := db1\<rparr>) p \<and>
       (ge_entryId p \<notin> e_id ` set (s_entries s) \<longrightarrow> moved (po_ledger ob) (ge_userId p) (reserve_post (ge_amount p)) db1) \<and>
       placeDotCastUsdcPoolEntry rt env True fetcher clock freshId poolId p ob =
         after_reservation rt env fetcher clock freshId poolId p (orElse (ge_now p) clock) r (ob\<lparr>po_ledger := db1\<rparr>))"
proof -
  define now where "now = orElse (ge_now p) clock"
  let ?in = "reserveInput poolId p now" and ?k = "poolFundingLockId poolId (ge_entryId p)"
  have p: "parsed_ok p" and usdc: "p_unit (s_pool s) = Usdc" and pid: "p_id (s_pool s) = poolId" "poolId \<noteq> ''''" "trim poolId = poolId"
    and new: "ge_entryId p \<notin> e_id ` set (s_entries s) \<Longrightarrow> map_of (db_poolLocks (po_ledger ob)) ?k = None"
    using g by (auto simp: submission_ok_def)
  have input: "reserve_ok ?in (ge_amount p)" "reserve_id ?in = ?k" "trim (ui_userId ?in) = ge_userId p"
    using p pid by (simp_all add: reserve_ok_def reserveInput_def parsed_ok_def safe_integer_of_int)
  have b: "backed_pool s (po_ledger ob)" using st by (simp add: funded_def)
  from reserve_outcome [OF backed_poolD(1) [OF b] input(1), of clock env, unfolded input(2,3)]
  show ?thesis
  proof (elim disjE exE conjE)
    fix e assume "reserveUsdcPoolEntry clock env ?in (po_ledger ob) = (Inl e, po_ledger ob)"
    then show ?thesis using db by (simp add: placeDotCastUsdcPoolEntry_def Let_def on_ledger_def ebind_def now_def)
  next
    fix fu r db1
    assume ready: "assertUsdcPoolFundingReady env = Inr fu"
      and run: "reserveUsdcPoolEntry clock env ?in (po_ledger ob) = (Inr r, db1)"
      and l: "pk_userId (fo_lock r) = ge_userId p" "pk_amount (fo_lock r) = ge_amount p" "pk_lockId (fo_lock r) = ?k"
        "map_of (db_poolLocks db1) ?k = Some (fo_lock r)"
      and ok: "ledger_ok db1" and hold: "\<forall>v. holdings db1 v = holdings (po_ledger ob) v"
      and keep: "\<forall>k l. map_of (db_poolLocks (po_ledger ob)) k = Some l \<longrightarrow> map_of (db_poolLocks db1) k = Some l"
      and opened: "map_of (db_poolLocks (po_ledger ob)) ?k = None \<longrightarrow> pk_status (fo_lock r) = PoolLocked \<and>
        moved (po_ledger ob) (ge_userId p) (reserve_post (ge_amount p)) db1"
    have "funded rt env s (ob\<lparr>po_ledger := db1\<rparr>)"
      using backed_lock [OF backed_poolD(2) [OF b usdc]] keep room_same [of db1 "po_ledger ob"] hold
      by (intro funded_ledger [OF st ok]) fastforce+
    then have "reserved rt env s (ob\<lparr>po_ledger := db1\<rparr>) p"
      using g ready db hold l opened new by (simp add: reserved_def submission_ok_def room_for_def)
    moreover have "placeDotCastUsdcPoolEntry rt env True fetcher clock freshId poolId p ob =
        after_reservation rt env fetcher clock freshId poolId p now r (ob\<lparr>po_ledger := db1\<rparr>)"
      using run db l(3)
      by (simp add: placeDotCastUsdcPoolEntry_def after_reservation_def Let_def on_ledger_def ebind_def usdc_payload_def flip: now_def)
    moreover have "ge_entryId p \<notin> e_id ` set (s_entries s) \<longrightarrow> moved (po_ledger ob) (ge_userId p) (reserve_post (ge_amount p)) db1"
      using opened new by (intro impI) simp
    ultimately show ?thesis unfolding now_def by blast
  qed
qed

lemma refused_released:
  assumes r: "reserved rt env s ob p" and pid: "p_id (s_pool s) = poolId" "poolId \<noteq> ''''" "trim poolId = poolId"
    and new: "ge_entryId p \<notin> e_id ` set (s_entries s)"
  shows "\<exists>r2 db2. releaseUsdcPoolEntryReservation clock env (releaseInput poolId p status now) (po_ledger ob) = (Inr r2, db2) \<and>
    funded rt env s (ob\<lparr>po_ledger := db2\<rparr>) \<and> moved (po_ledger ob) (ge_userId p) (finish_post (ge_amount p) (ge_amount p)) db2"
proof -
  let ?k = "poolFundingLockId poolId (ge_entryId p)"
  have ids: "trim (ge_userId p) = ge_userId p" "ge_userId p \<noteq> ''''" "trim (ge_entryId p) = ge_entryId p" "ge_entryId p \<noteq> ''''"
    using r by (simp_all add: reserved_def parsed_ok_def)
  obtain fu l where ready: "assertUsdcPoolFundingReady env = Inr fu"
    and l: "map_of (db_poolLocks (po_ledger ob)) ?k = Some l" "pk_userId l = ge_userId p" "pk_status l = PoolLocked"
      "pk_amount l = ge_amount p"
    using r new pid(1) by (auto simp: reserved_def)
  have ok: "ledger_ok (po_ledger ob)" using backed_poolD(1) [OF reservedD(3) [OF r]] .
  obtain r2 db2 l' where rel: "releaseUsdcPoolEntryReservation clock env (releaseInput poolId p status now) (po_ledger ob) = (Inr r2, db2)"
      "ledger_ok db2" "\<forall>v. holdings db2 v = holdings (po_ledger ob) v"
      "db_poolLocks db2 = AList.update ?k l' (db_poolLocks (po_ledger ob))"
      "moved (po_ledger ob) (ge_userId p) (finish_post (ge_amount p) (ge_amount p)) db2"
    using l(4) release_outcome [OF ok ready pid(3,2) ids(3,4,1,2) l(1-3), of clock "''pool_entry_rejected:'' @ show_int status" "Some now"]
    by (auto simp: releaseInput_def)
  have "funded rt env s (ob\<lparr>po_ledger := db2\<rparr>)"
    using rel(3,4) new pid(1) by (intro funded_ledger [OF reservedD(5) [OF r] rel(2)]) (auto simp: room_for_def image_iff)
  then show ?thesis using rel(1,5) by blast
qed

text \<open>A call takes the entry, or leaves the pool and every balance as they were.\<close>

definition entry_taken ::
  "js_runtime \<Rightarrow> DotCastPoolEnv \<Rightarrow> DotCastPoolSnapshot \<Rightarrow> ParsedDotCastPlaceEntry \<Rightarrow> gateway_reply res \<Rightarrow> pool_object \<Rightarrow> bool" where
  "entry_taken rt env s p res ob' \<longleftrightarrow> (\<exists>rep t. res = Inr rep \<and> response_ok (gw_response rep) \<and> gw_reservation rep \<noteq> None \<and>
     ahead s t \<and> funded rt env t ob' \<and> holds_entry p t)"

definition entry_refused ::
  "js_runtime \<Rightarrow> DotCastPoolEnv \<Rightarrow> DotCastPoolSnapshot \<Rightarrow> pool_object \<Rightarrow> gateway_reply res \<Rightarrow> pool_object \<Rightarrow> bool" where
  "entry_refused rt env s ob res ob' \<longleftrightarrow> (\<forall>rep. res = Inr rep \<longrightarrow> \<not> response_ok (gw_response rep)) \<and> funded rt env s ob' \<and>
     (\<forall>a u. bal a (po_ledger ob') u = bal a (po_ledger ob) u)"

lemma after_accepted:
  assumes "placePoolEntry rt env clock freshId (usdc_payload p now (poolFundingLockId poolId (ge_entryId p))) ob = (Inr rep, ob2)"
    "response_ok rep"
  shows "after_reservation rt env fetcher clock freshId poolId p now r ob = (Inr \<lparr>gw_response = rep, gw_reservation = Some r\<rparr>, ob2)"
  using assms by (simp add: after_reservation_def proxyDotCastPoolRequest_def fetch_def route_request_def ebind_def)

lemma usdc_entry_outcome:
  assumes st: "funded rt env s ob" and g: "submission_ok poolId p s (po_ledger ob)"
  shows "\<exists>res ob'. placeDotCastUsdcPoolEntry rt env True fetcher clock freshId poolId p ob = (res, ob') \<and>
    (entry_taken rt env s p res ob' \<or> entry_refused rt env s ob res ob')"
proof (cases "ev_tradingDb env")
  case False
  then show ?thesis using st by (simp add: placeDotCastUsdcPoolEntry_def entry_refused_def)
next
  case True
  have pid: "p_id (s_pool s) = poolId" "poolId \<noteq> ''''" "trim poolId = poolId" using g by (auto simp: submission_ok_def)
  let ?now = "orElse (ge_now p) clock" and ?k = "poolFundingLockId poolId (ge_entryId p)"
  from usdc_entry_reserves [OF st g True, of fetcher clock freshId] show ?thesis
  proof (elim disjE exE conjE)
    fix e assume "placeDotCastUsdcPoolEntry rt env True fetcher clock freshId poolId p ob = (Inl e, ob)"
    then show ?thesis using st by (simp add: entry_refused_def)
  next
    fix r db1
    let ?ob1 = "ob\<lparr>po_ledger := db1\<rparr>" and ?place = "placePoolEntry rt env clock freshId (usdc_payload p ?now ?k)"
    assume r: "reserved rt env s ?ob1 p"
      and taken: "ge_entryId p \<notin> e_id ` set (s_entries s) \<longrightarrow> moved (po_ledger ob) (ge_userId p) (reserve_post (ge_amount p)) db1"
      and step: "placeDotCastUsdcPoolEntry rt env True fetcher clock freshId poolId p ob =
        after_reservation rt env fetcher clock freshId poolId p ?now r ?ob1"
    from place_outcome [OF r lock_id_text, of clock freshId ?now poolId "ge_entryId p"] show ?thesis
    proof (elim disjE exE conjE)
      fix rep ob2 t assume "?place ?ob1 = (Inr rep, ob2)" "response_ok rep" "ahead s t" "funded rt env t ob2"
        "holds_entry p t"
      then show ?thesis using step after_accepted by (auto simp: entry_taken_def)
    next
      fix e
      assume new: "ge_entryId p \<notin> e_id ` set (s_entries s)" and "?place ?ob1 = (Inl e, ?ob1)"
      then have resp: "proxyDotCastPoolRequest rt env True fetcher clock freshId (PostEntries (usdc_payload p ?now ?k)) ?ob1 =
          (Inr ((reply 400 False None)\<lparr>rq_error := Some (error_message e)\<rparr>), ?ob1)"
        by (simp add: proxyDotCastPoolRequest_def fetch_def route_request_def)
      obtain r2 db2 where rel: "releaseUsdcPoolEntryReservation clock env (releaseInput poolId p 400 ?now) db1 = (Inr r2, db2)"
          "funded rt env s (?ob1\<lparr>po_ledger := db2\<rparr>)" "moved db1 (ge_userId p) (finish_post (ge_amount p) (ge_amount p)) db2"
        using refused_released [OF r pid new, of clock 400 ?now] by auto
      have "bal a db2 u = bal a (po_ledger ob) u" for a u
        using taken new rel(3) by (cases a) (auto simp: moved_def reserve_post_def finish_post_def)
      then show ?thesis
        using rel(1,2) by (simp add: step after_reservation_def resp ebind_def response_ok_def reply_def on_ledger_def entry_refused_def)
    qed
  qed
qed

lemma usdc_entry_leads:
  assumes "funded rt env s ob" "submission_ok poolId p s (po_ledger ob)"
  shows "leads (funded rt env) s (snd (placeDotCastUsdcPoolEntry rt env True fetcher clock freshId poolId p ob))"
  using usdc_entry_outcome [OF assms, of fetcher clock freshId] funded_store.leads_of ahead_refl
  by (fastforce simp: entry_taken_def entry_refused_def)

subsection \<open>The pool and the ledger together\<close>

lemma sum_le_asum:
  assumes keys: "akeys tbl" "distinct (map key es)" and nonneg: "\<And>k r. map_of tbl k = Some r \<Longrightarrow> 0 \<le> f r"
    and rows: "\<And>e. e \<in> set es \<Longrightarrow> \<exists>r. map_of tbl (key e) = Some r \<and> h e \<le> f r"
  shows "sum_list (map h es) \<le> asum f tbl"
proof -
  let ?F = "\<lambda>k. f (the (map_of tbl k))"
  have "sum_list (map h es) \<le> sum_list (map (\<lambda>e. ?F (key e)) es)" using rows by (intro sum_list_mono) fastforce
  also have "\<dots> = sum ?F (set (map key es))"
    using sum_list_distinct_conv_sum_set [OF keys(2), of ?F] by (simp add: comp_def)
  also have "\<dots> \<le> sum ?F (fst ` set tbl)"
  proof (rule sum_mono2)
    show "set (map key es) \<subseteq> fst ` set tbl" using rows map_of_SomeD by force
    show "0 \<le> ?F k" if "k \<in> fst ` set tbl - set (map key es)" for k
      using that nonneg by (metis DiffD1 domD dom_map_of_conv_image_fst option.sel)
  qed simp
  also have "\<dots> = asum f tbl"
  proof -
    have "asum f tbl = sum_list (map ?F (map fst tbl))"
      using keys(1) by (auto simp: asum_def akeys_def intro!: arg_cong [where f = sum_list])
    then show ?thesis using sum_list_distinct_conv_sum_set [of "map fst tbl" ?F] keys(1) by (simp add: akeys_def)
  qed
  finally show ?thesis .
qed

lemma locked_covered:
  assumes b: "backed_pool s db" and good: "good rt s" and usdc: "p_unit (s_pool s) = Usdc"
  shows "locked (s_balances s) u \<le> bal LockedPool db u"
proof (cases "terminal (p_status (s_pool s))")
  case True
  then have "locked (s_balances s) u = 0" using good by (simp add: good_def snap_ok_def)
  then show ?thesis using bal_nonneg books_rows ledger_okD(1) [OF backed_poolD(1) [OF b]] by simp
next
  case False
  let ?tbl = "db_poolLocks db" and ?f = "\<lambda>l. if pk_userId l = u then post_pool LockedPool l else 0"
  have tb: "table_ok pool_lock_ok ?tbl" using tables_of(2) [OF backed_poolD(1) [OF b]] .
  have "sum_list (map (\<lambda>e. if e_funding e = UserFunded \<and> e_userId e = u then e_amount e else 0) (s_entries s)) \<le> asum ?f ?tbl"
  proof (rule sum_le_asum [where key = "entry_lock_id (s_pool s)"])
    show "akeys ?tbl" using tb by (rule table_ok_akeys)
    show "distinct (map (entry_lock_id (s_pool s)) (s_entries s))"
      using good by (auto simp: good_def snap_ok_def distinct_map inj_on_def)
    show "0 \<le> ?f r" if "map_of ?tbl k = Some r" for k r using table_okD [OF tb that] by (simp add: pool_lock_ok_def)
    show "\<exists>l. map_of ?tbl (entry_lock_id (s_pool s) e) = Some l \<and>
        (if e_funding e = UserFunded \<and> e_userId e = u then e_amount e else 0) \<le> ?f l" if "e \<in> set (s_entries s)" for e
      using backed_poolD(2) [OF b usdc that] False by (auto simp: backed_def lock_holds_def)
  qed
  moreover have "locked (s_balances s) u = user_amount (s_entries s) u" using good False by (simp add: good_def snap_ok_def)
  moreover have "bal LockedPool db u = asum ?f ?tbl"
    using ledger_okD(1) [OF backed_poolD(1) [OF b]] by (simp add: books_def booked_locked usum_def)
  ultimately show ?thesis by (simp add: user_amount_def)
qed


definition elsewhere :: "pool_object \<Rightarrow> settlement_db \<Rightarrow> bool" where
  "elsewhere ob db \<longleftrightarrow> (\<forall>s. po_snapshot ob = Some s \<longrightarrow>
     (\<forall>i. map_of (db_poolLocks db) (poolFundingLockId (p_id (s_pool s)) i) =
        map_of (db_poolLocks (po_ledger ob)) (poolFundingLockId (p_id (s_pool s)) i)) \<and>
     (room_for (po_ledger ob) (total_staked s) \<longrightarrow> room_for db (total_staked s)))"

text \<open>
  The steps of one pool and the ledger: requests and alarms of the pool object (an entry into a USDC pool
  comes through the gateway), gateway calls for USDC entries, and whatever else happens in the ledger that
  leaves the locks of this pool alone and the room for its stakes free.
\<close>

inductive usdc_step :: "js_runtime \<Rightarrow> pool_object \<Rightarrow> pool_object \<Rightarrow> bool" for rt where
  us_request: "interval_ok env \<Longrightarrow>
    \<forall>payload s. request = PostEntries payload \<longrightarrow> po_snapshot ob = Some s \<longrightarrow>
      p_unit (s_pool s) \<noteq> Usdc \<and> entry_guard freshId payload s \<Longrightarrow>
    usdc_step rt ob (snd (fetch rt env fetcher clock freshId request ob))"
| us_entry: "interval_ok env \<Longrightarrow> po_snapshot ob = Some s \<Longrightarrow> submission_ok poolId p s (po_ledger ob) \<Longrightarrow>
    usdc_step rt ob (snd (placeDotCastUsdcPoolEntry rt env True fetcher clock freshId poolId p ob))"
| us_alarm: "interval_ok env \<Longrightarrow> usdc_step rt ob (alarm rt env fetcher clock ob)"
| us_ledger: "ledger_step (po_ledger ob) db \<Longrightarrow> elsewhere ob db \<Longrightarrow> usdc_step rt ob (ob\<lparr>po_ledger := db\<rparr>)"

definition gateway_ok :: "js_runtime \<Rightarrow> pool_object \<Rightarrow> bool" where
  "gateway_ok rt ob \<longleftrightarrow> ledger_ok (po_ledger ob) \<and>
     (case po_snapshot ob of None \<Rightarrow> po_alarm ob = None | Some s \<Rightarrow> stored rt s ob \<and> backed_pool s (po_ledger ob))"

definition fresh_gateway :: "pool_object \<Rightarrow> bool" where
  "fresh_gateway ob \<longleftrightarrow> fresh_object ob \<and> reach (\<lambda>db. db = empty_db) ledger_step (po_ledger ob)"

lemma leads_gateway_ok: "leads (funded rt env) s ob \<Longrightarrow> gateway_ok rt ob"
  by (auto simp: leads_def funded_def gateway_ok_def stored_def dest: backed_poolD(1))

lemma request_gateway_ok:
  assumes iv: "interval_ok env" and ok: "gateway_ok rt ob"
    and guard: "\<forall>payload s. request = PostEntries payload \<longrightarrow> po_snapshot ob = Some s \<longrightarrow>
      p_unit (s_pool s) \<noteq> Usdc \<and> entry_guard freshId payload s"
  shows "gateway_ok rt (snd (fetch rt env fetcher clock freshId request ob))"
proof (cases "po_snapshot ob")
  case (Some s)
  then have st: "funded rt env s ob" using iv ok by (simp add: gateway_ok_def funded_def)
  then have "backed_pool t (po_ledger ob)" if "ahead s t" "p_unit (s_pool s) \<noteq> Usdc" for t
    using that by (auto simp: funded_def backed_pool_def ahead_def pool_key_def)
  then show ?thesis
    using guard Some
    by (intro leads_gateway_ok [of rt env s] funded_store.request_leads [OF st] funded_store.place_leads [OF st]) auto
next
  case None
  show ?thesis
    using uncreated_request [OF None, of rt env fetcher clock freshId request]
  proof (elim disjE exE conjE)
    fix payload pnow
    assume f: "snd (fetch rt env fetcher clock freshId request ob) = snd (create rt env clock payload pnow ob)"
    show ?thesis
    proof (rule create_cases [OF None, of rt env clock payload pnow])
      fix t
      assume t: "good rt t" "s_entries t = []" "\<not> terminal (p_status (s_pool t))"
        "snd (create rt env clock payload pnow ob) = snd (persistSnapshot rt env t (orElse pnow clock) ob) \<or>
         (\<exists>body. snd (create rt env clock payload pnow ob) =
           snd (audit env AuditCreate body (snd (persistSnapshot rt env t (orElse pnow clock) ob))))"
      have "backed_pool t (po_ledger ob)" using ok t(2) by (simp add: backed_pool_def gateway_ok_def)
      from persist_backed(1) [OF iv this t(1)]
      have "backed_pool t (po_ledger (snd (persistSnapshot rt env t (orElse pnow clock) ob)))" .
      then show ?thesis
        using t(1,4) f iv backed_poolD(1)
        by (auto simp: gateway_ok_def stored_def persist_object simp del: not_None_eq)
    qed (use f ok in simp)
  qed (use ok in simp)
qed

lemma usdc_step_ok: "usdc_step rt ob ob' \<Longrightarrow> gateway_ok rt ob \<Longrightarrow> gateway_ok rt ob'"
proof (induction rule: usdc_step.induct)
  case (us_request env request ob freshId fetcher clock)
  then show ?case by (intro request_gateway_ok)
next
  case (us_entry env ob s poolId p fetcher clock freshId)
  then have "funded rt env s ob" by (simp add: gateway_ok_def funded_def)
  from usdc_entry_leads [OF this us_entry(3)] show ?case by (rule leads_gateway_ok)
next
  case (us_alarm env ob fetcher clock)
  show ?case
  proof (cases "po_snapshot ob")
    case None
    then show ?thesis using us_alarm uncreated_alarm by simp
  next
    case (Some s)
    then have "funded rt env s ob" using us_alarm by (simp add: gateway_ok_def funded_def)
    from funded_store.alarm_leads [OF this TrueI] show ?thesis by (rule leads_gateway_ok)
  qed
next
  case (us_ledger ob db)
  then have "ledger_ok db" using ledger_step_kept by (auto simp: gateway_ok_def)
  then show ?case
    using us_ledger backed_same_locks [of _ "po_ledger ob" db]
    by (auto simp: gateway_ok_def stored_def elsewhere_def split: option.splits)
qed

interpretation usdc_pools: step_system fresh_gateway "usdc_step rt" "gateway_ok rt" for rt
  by unfold_locales
    (simp add: fresh_gateway_def fresh_object_def gateway_ok_def ledger.reach_inv, rule usdc_step_ok)


text \<open>The handler of the gateway route is a sequence of these steps: a read of the pool, then the entry.\<close>

lemma read_unit:
  assumes iv: "interval_ok env" and run: "fetch rt env fetcher clock freshId GetPool ob = (r, ob')" "response_ok r"
    and dec: "rq_decorated r = Some dec"
  shows "po_snapshot ob' = Some (dc_snapshot dec)"
proof (cases "po_snapshot ob")
  case None
  then show ?thesis using run
    by (auto simp: fetch_def route_request_def read_def requireSnapshot_def readSnapshot_def response_ok_def reply_def)
next
  case (Some s)
  have "\<exists>t. po_snapshot ob' = Some t \<and> decorateSnapshot t = Inr dec"
  proof (cases "lockSnapshotIfNeeded rt s clock")
    case (Inl e)
    then show ?thesis using run Some
      by (auto simp: fetch_def route_request_def read_def requireSnapshot_def readSnapshot_def lockIfNeeded_def response_ok_def reply_def)
  next
    case (Inr t)
    then show ?thesis
      using run dec Some persist_object(1) [OF iv, of rt t clock ob]
      by (auto simp: fetch_def route_request_def read_def requireSnapshot_def readSnapshot_def lockIfNeeded_def ebind_def
          audit_run response_ok_def reply_def split: prod.splits sum.splits if_splits)
  qed
  then show ?thesis using decorate_snapshot by auto
qed

lemma placeDotCastPoolEntry_steps:
  fixes rt env fetcher clock rid ob
  defines "ob1 \<equiv> snd (fetch rt env fetcher clock rid GetPool ob)"
  assumes iv: "interval_ok env" and guard: "\<And>p s. parsePlaceEntry rid body = Inr p \<Longrightarrow> po_snapshot ob1 = Some s \<Longrightarrow>
      if p_unit (s_pool s) = Usdc then submission_ok poolId p s (po_ledger ob1)
      else entry_guard rid (entryPayload p (ge_now p) None) s"
  shows "(usdc_step rt)\<^sup>*\<^sup>* ob (snd (placeDotCastPoolEntry rt env True fetcher clock rid poolId body ob))"
proof -
  have one: "usdc_step rt ob ob1" unfolding ob1_def by (rule us_request [OF iv]) simp
  obtain r where r: "fetch rt env fetcher clock rid GetPool ob = (r, ob1)" by (cases "fetch rt env fetcher clock rid GetPool ob") (simp add: ob1_def)
  show ?thesis
  proof (cases "parsePlaceEntry rid body")
    case (Inl e)
    then show ?thesis by (simp add: placeDotCastPoolEntry_def)
  next
    case (Inr p)
    have unit: "readDotCastPoolUnit rt env True fetcher clock rid ob =
        (if \<not> response_ok r
         then (Inl (Error (''pool read failed before entry placement: '' @ show_int (rq_status r))), ob1)
         else case rq_decorated r of None \<Rightarrow> (Inl (Error ''pool snapshot is missing stake unit''), ob1)
           | Some dec \<Rightarrow> (Inr (p_unit (s_pool (dc_snapshot dec))), ob1))"
      by (simp add: readDotCastPoolUnit_def proxyDotCastPoolRequest_def r ebind_def split: option.split)
    define enter where "enter u = (if u = Usdc then placeDotCastUsdcPoolEntry rt env True fetcher clock rid poolId p
      else ebind (proxyDotCastPoolRequest rt env True fetcher clock rid (PostEntries (entryPayload p (ge_now p) None)))
        (\<lambda>response. ereturn \<lparr>gw_response = response, gw_reservation = None\<rparr>))" for u
    have two: "usdc_step rt ob1 (snd (enter (p_unit (s_pool s)) ob1))" if s: "po_snapshot ob1 = Some s" for s
    proof (cases "p_unit (s_pool s) = Usdc")
      case True
      then show ?thesis using us_entry [OF iv s] guard [OF Inr s] by (simp add: enter_def)
    next
      case False
      then have "usdc_step rt ob1 (snd (fetch rt env fetcher clock rid (PostEntries (entryPayload p (ge_now p) None)) ob1))"
        using guard [OF Inr s] s by (intro us_request [OF iv]) auto
      then show ?thesis using False by (auto simp: enter_def proxyDotCastPoolRequest_def ebind_def split: prod.splits)
    qed
    have "snd (placeDotCastPoolEntry rt env True fetcher clock rid poolId body ob) \<in> {ob, ob1} \<or>
        (\<exists>dec. response_ok r \<and> rq_decorated r = Some dec \<and> snd (placeDotCastPoolEntry rt env True fetcher clock rid poolId body ob) =
          snd (enter (p_unit (s_pool (dc_snapshot dec))) ob1))"
      by (auto simp: placeDotCastPoolEntry_def Inr snd_ebind unit enter_def split: sum.split option.split)
    then show ?thesis
    proof (elim disjE exE conjE)
      fix dec
      assume "response_ok r" "rq_decorated r = Some dec"
        and eq: "snd (placeDotCastPoolEntry rt env True fetcher clock rid poolId body ob) = snd (enter (p_unit (s_pool (dc_snapshot dec))) ob1)"
      then have "usdc_step rt ob1 (snd (placeDotCastPoolEntry rt env True fetcher clock rid poolId body ob))"
        using two read_unit [OF iv r] by simp
      moreover have "(usdc_step rt)\<^sup>*\<^sup>* ob ob1" using one by blast
      ultimately show ?thesis by (rule rtranclp.rtrancl_into_rtrancl [rotated])
    qed (use one in auto)
  qed
qed

text \<open>
  C6: A gateway call for a USDC entry is all or nothing.  Either the call succeeds and the pool holds an
  entry under the given identifier, for the given user and amount; or it fails, the pool is as it was,
  and every account of every user in the ledger has the balance it had before.
\<close>

theorem usdc_entry_all_or_nothing:
  assumes r: "reach fresh_gateway (usdc_step rt) ob" and s: "po_snapshot ob = Some s" and iv: "interval_ok env"
    and g: "submission_ok poolId p s (po_ledger ob)"
  shows "\<exists>res ob'. placeDotCastUsdcPoolEntry rt env True fetcher clock freshId poolId p ob = (res, ob') \<and>
    (if \<exists>rep. res = Inr rep \<and> response_ok (gw_response rep)
     then \<exists>t. po_snapshot ob' = Some t \<and>
       (\<exists>e \<in> set (s_entries t). e_id e = ge_entryId p \<and> e_userId e = ge_userId p \<and> e_amount e = ge_amount p)
     else po_snapshot ob' = Some s \<and> (\<forall>a u. bal a (po_ledger ob') u = bal a (po_ledger ob) u))"
proof -
  have "funded rt env s ob" using usdc_pools.reach_inv [OF r] s iv by (simp add: gateway_ok_def funded_def)
  from usdc_entry_outcome [OF this g, of fetcher clock freshId]
  obtain res ob' where run: "placeDotCastUsdcPoolEntry rt env True fetcher clock freshId poolId p ob = (res, ob')"
    and out: "entry_taken rt env s p res ob' \<or> entry_refused rt env s ob res ob'" by blast
  from out show ?thesis
  proof
    assume "entry_taken rt env s p res ob'"
    then show ?thesis using run by (auto simp: entry_taken_def holds_entry_def funded_def stored_def)
  next
    assume "entry_refused rt env s ob res ob'"
    then show ?thesis using run by (auto simp: entry_refused_def funded_def stored_def)
  qed
qed


text \<open>
  C40: A finished USDC pool is paid out.  When the pool has ended and any of its locks is still open
  (because the funding was not configured at that time, say), the next read of the pool with the funding
  configured closes every lock with what the pool gives back and leaves the pool as it is.
\<close>

theorem usdc_pool_paid_out:
  fixes ob rt env fetcher clock freshId
  defines "ob' \<equiv> snd (fetch rt env fetcher clock freshId GetPool ob)"
  assumes r: "reach fresh_gateway (usdc_step rt) ob" and s: "po_snapshot ob = Some s" "p_unit (s_pool s) = Usdc"
    and fin: "terminal (p_status (s_pool s))"
    and env: "interval_ok env" "ev_tradingDb env" "assertUsdcPoolFundingReady env = Inr fu" "date_parse rt clock \<noteq> None"
  shows "po_snapshot ob' = Some s \<and> (\<forall>e \<in> set (s_entries s). \<exists>l.
    map_of (db_poolLocks (po_ledger ob')) (poolFundingLockId (p_id (s_pool s)) (e_id e)) = Some l \<and>
    pk_userId l = e_userId e \<and> pk_amount l = e_amount e \<and>
    pk_status l = (if e_refunded e then PoolRefunded else PoolSettled) \<and>
    pk_payout l = Some (if e_refunded e then e_amount e else orElse (e_payout e) 0))"
proof -
  have st: "good rt s" "backed_pool s (po_ledger ob)"
    using usdc_pools.reach_inv [OF r] s(1) by (simp_all add: gateway_ok_def stored_def)
  have "p_status (s_pool s) \<noteq> Open" using fin by (auto simp: terminal_def)
  moreover have "wf_pool rt (s_pool s)" using snap_okD(1) st(1) by (simp add: good_def)
  ultimately have lock: "lockSnapshotIfNeeded rt s clock = Inr s"
    using env(4) by (auto simp: lockSnapshotIfNeeded_def lockPoolIfNeeded_def assertIso_def wf_pool_def split: option.splits)
  obtain ob1 where ob1: "persistSnapshot rt env s clock ob = (Inr (), ob1)"
    using persist_backed(3) [OF env(1) st(2,1) env(2,3), of clock] by (metis prod.collapse)
  have "all_closed (po_ledger ob1) s"
    using persist_backed(2) [OF env(1) st(2,1) s(2) fin, of clock] ob1 by simp
  moreover have "po_snapshot ob1 = Some s" using persist_object(1) [OF env(1), of rt s clock ob] ob1 by simp
  moreover have "po_ledger ob' = po_ledger ob1" "po_snapshot ob' = po_snapshot ob1"
    using s(1) by (auto simp: ob'_def fetch_def route_request_def read_def requireSnapshot_def readSnapshot_def lockIfNeeded_def
        lock ob1 ebind_def audit_run split: prod.splits sum.splits)
  ultimately show ?thesis by (auto simp: all_closed_def entry_closed_def entry_return_def)
qed


subsection \<open>An example\<close>

definition usdc_pool :: DotCastPool where
  "usdc_pool = example_pool\<lparr>p_unit := Usdc, p_resolutionRoute := Some (example_route\<lparr>rr_status := RouteLocked\<rparr>)\<rparr>"

definition usdc_object :: pool_object where
  "usdc_object = snd (fetch ref_runtime example_env (\<lambda>_ _. FetchStatus 500) ''2026-01-01T00:00:00.000Z'' ''x''
     (PostCreate (example_create\<lparr>cp_unit := Usdc, cp_resolutionRoute := Some (example_route\<lparr>rr_status := RouteLocked\<rparr>)\<rparr>) None)
     (new_object\<lparr>po_ledger := example_db\<rparr>))"

definition usdc_entry :: ParsedDotCastPlaceEntry where
  "usdc_entry = \<lparr>ge_userId = ''u1'', ge_side = Yes, ge_amount = 300, ge_now = Some ''2026-01-02T00:00:00.000Z'',
     ge_entryId = ''e1''\<rparr>"

lemma usdc_create_example:
  "createPoolFromMarket ref_runtime (example_create\<lparr>cp_unit := Usdc,
     cp_resolutionRoute := Some (example_route\<lparr>rr_status := RouteLocked\<rparr>)\<rparr>) = Inr usdc_pool"
proof -
  have n: "assertNonNegativeInteger (Fin 100) l = Inr 100" for l
    using safe_integer_of_int [of 100] by (simp add: assertNonNegativeInteger_def small_safe)
  show ?thesis
    by (simp add: n Let_def createPoolFromMarket_def example_create_def example_market_def example_pool_def usdc_pool_def
        assertIso_def example_dates assertLockedRealMoneyResolutionRoute_def assertRake_def truthy_text_def)
qed

lemma usdc_object_state:
  "po_ledger usdc_object = example_db"
  "\<exists>s. po_snapshot usdc_object = Some s \<and> s_pool s = usdc_pool \<and> s_entries s = [] \<and> s_balances s = []"
proof -
  have now: "example_create\<lparr>cp_unit := Usdc, cp_resolutionRoute := Some (example_route\<lparr>rr_status := RouteLocked\<rparr>),
      cp_now := ''2026-01-01T00:00:00.000Z''\<rparr> =
    example_create\<lparr>cp_unit := Usdc, cp_resolutionRoute := Some (example_route\<lparr>rr_status := RouteLocked\<rparr>)\<rparr>"
    by (simp add: example_create_def)
  have o: "p_status usdc_pool = Open" "p_unit usdc_pool = Usdc" by (simp_all add: usdc_pool_def example_pool_def)
  show "po_ledger usdc_object = example_db"
    "\<exists>s. po_snapshot usdc_object = Some s \<and> s_pool s = usdc_pool \<and> s_entries s = [] \<and> s_balances s = []"
    by (simp_all add: usdc_object_def fetch_def route_request_def create_def readSnapshot_def new_object_def now usdc_create_example
        Let_def persistSnapshot_def writeSnapshot_def reconcileResolutionAlarm_def reconcileUsdcPoolFunding_def
        reconcileCreatorEconomy_def o terminal_def orElse_def audit_run ebind_def split: sum.split prod.split)
qed


lemma usdc_object_reach: "reach fresh_gateway (usdc_step ref_runtime) usdc_object"
proof -
  have "usdc_step ref_runtime (new_object\<lparr>po_ledger := example_db\<rparr>) usdc_object"
    unfolding usdc_object_def by (rule us_request [OF example_interval]) simp
  moreover have "reach fresh_gateway (usdc_step ref_runtime) (new_object\<lparr>po_ledger := example_db\<rparr>)"
    by (rule reach_init) (simp add: fresh_gateway_def fresh_object_def new_object_def example_db_reach)
  ultimately show ?thesis by (rule reach_step [rotated])
qed

lemma usdc_submission:
  assumes "s_pool s = usdc_pool" "s_entries s = []" "s_balances s = []"
  shows "submission_ok ''p1'' usdc_entry s example_db"
proof -
  have "parsed_ok usdc_entry"
    by (simp add: parsed_ok_def usdc_entry_def trim_u1 trim_p1 is_safe_integer_def max_safe_integer_def)
  moreover have "p_unit usdc_pool = Usdc" "p_id usdc_pool = ''p1''" by (simp_all add: usdc_pool_def example_pool_def)
  moreover have "room_for example_db 300" by (simp add: room_for_def example_db_holdings max_safe_integer_def)
  ultimately show ?thesis
    using assms by (simp add: submission_ok_def usdc_entry_def trim_p1 example_db_facts is_safe_integer_def max_safe_integer_def)
qed

lemma example_ready: "\<exists>fu. assertUsdcPoolFundingReady example_env = Inr fu"
  using assertUsdcPoolFundingReady_cases [of example_env] by (simp add: rail_available_def example_env_def)

lemma usdc_entry_example:
  assumes s: "po_snapshot usdc_object = Some s" "s_pool s = usdc_pool" "s_entries s = []" "s_balances s = []"
  shows "\<exists>rep ob'. placeDotCastUsdcPoolEntry ref_runtime example_env True (\<lambda>_ _. FetchStatus 500) ''t'' ''x'' ''p1'' usdc_entry usdc_object =
    (Inr rep, ob') \<and> response_ok (gw_response rep) \<and>
    (\<exists>t. po_snapshot ob' = Some t \<and> p_status (s_pool t) = Open \<and> ahead s t \<and> holds_entry usdc_entry t)"
proof -
  have st: "funded ref_runtime example_env s usdc_object"
    using usdc_pools.reach_inv [OF usdc_object_reach] s(1) example_interval by (simp add: gateway_ok_def funded_def)
  have g: "submission_ok ''p1'' usdc_entry s (po_ledger usdc_object)"
    using usdc_submission [OF s(2-4)] usdc_object_state(1) by simp
  have db: "ev_tradingDb example_env" by (simp add: example_env_def)
  obtain fu where ready: "assertUsdcPoolFundingReady example_env = Inr fu" using example_ready by blast
  let ?in = "reserveInput ''p1'' usdc_entry ''2026-01-02T00:00:00.000Z''"
  have input: "reserve_ok ?in 300" "map_of (db_poolLocks (po_ledger usdc_object)) (reserve_id ?in) = None"
    using safe_500 by (simp_all add: reserve_ok_def reserveInput_def usdc_entry_def trim_p1 trim_u1 usdc_object_state(1) example_db_facts)
  have "\<exists>r db. reserveUsdcPoolEntry ''t'' example_env ?in (po_ledger usdc_object) = (Inr r, db)"
    using lockPoolEntry_new [OF example_db_ok, of 300 "''u1''" "''p1''" "''e1''"] input
    by (simp add: reserveUsdcPoolEntry_run [OF ready input(1)] usdc_object_state(1) example_db_facts example_db_bal)
      (simp add: reserveInput_def usdc_entry_def trim_p1 trim_u1, blast)
  then obtain r db1 where r: "reserved ref_runtime example_env s (usdc_object\<lparr>po_ledger := db1\<rparr>) usdc_entry"
    and step: "placeDotCastUsdcPoolEntry ref_runtime example_env True (\<lambda>_ _. FetchStatus 500) ''t'' ''x'' ''p1'' usdc_entry usdc_object =
      after_reservation ref_runtime example_env (\<lambda>_ _. FetchStatus 500) ''t'' ''x'' ''p1'' usdc_entry ''2026-01-02T00:00:00.000Z''
        r (usdc_object\<lparr>po_ledger := db1\<rparr>)"
    using usdc_entry_reserves [OF st g db, of "\<lambda>_ _. FetchStatus 500" "''t''" "''x''"] by (auto simp: usdc_entry_def)
  let ?k = "poolFundingLockId ''p1'' (ge_entryId usdc_entry)" and ?now = "''2026-01-02T00:00:00.000Z''"
  have "\<exists>res t. placeEntry ref_runtime (usdc_place s usdc_entry ?k ?now) = Inr res \<and>
      lockSnapshotIfNeeded ref_runtime (placedSnapshot s (ge_userId usdc_entry) res ?now) ?now = Inr t \<and> p_status (s_pool t) = Open"
  proof -
    have pool: "p_status usdc_pool = Open" "p_entryOpensAt usdc_pool = ''2026-01-01T00:00:00.000Z''"
        "p_entryClosesAt usdc_pool = ''2026-01-31T00:00:00.000Z''" "p_unit usdc_pool = Usdc"
      by (simp_all add: usdc_pool_def example_pool_def)
    have "js_add 0 300 = 300" by (simp add: js_add_safe is_safe_integer_def max_safe_integer_def)
    then have "place_ok ref_runtime (usdc_place s usdc_entry ?k ?now) 300"
      by (simp add: place_ok_def usdc_place_def s(2,4) pool example_dates usdc_entry_def entryBalance_def seedBalance_def
          usdc_funding_def small_safe)
    then obtain res where res: "placeEntry ref_runtime (usdc_place s usdc_entry ?k ?now) = Inr res"
      using placeEntry_ok by blast
    have st: "p_status (px_pool res) = Open" "p_entryClosesAt (px_pool res) = ''2026-01-31T00:00:00.000Z''"
      using placeEntry_Inr(2) [OF res] by (simp_all add: usdc_place_def s(2) pool)
    then have "lockSnapshotIfNeeded ref_runtime (placedSnapshot s (ge_userId usdc_entry) res ?now) ?now =
        Inr (placedSnapshot s (ge_userId usdc_entry) res ?now)"
      by (simp add: lockSnapshotIfNeeded_def lockPoolIfNeeded_def placedSnapshot_def assertIso_def example_dates)
    then show ?thesis using res st(1) by (auto simp: placedSnapshot_def)
  qed
  then obtain rep ob2 t where "placePoolEntry ref_runtime example_env ''t'' ''x'' (usdc_payload usdc_entry ?now ?k)
      (usdc_object\<lparr>po_ledger := db1\<rparr>) = (Inr rep, ob2)" "response_ok rep" "p_status (s_pool t) = Open" "ahead s t"
      "funded ref_runtime example_env t ob2" "holds_entry usdc_entry t"
    using place_accepted [OF r lock_id_text] s(3) by (metis empty_iff image_empty list.set(1))
  then show ?thesis using after_accepted step by (auto simp: funded_def stored_def)
qed


definition usdc_object_entered :: pool_object where
  "usdc_object_entered = snd (placeDotCastUsdcPoolEntry ref_runtime example_env True (\<lambda>_ _. FetchStatus 500) ''t'' ''x'' ''p1''
     usdc_entry usdc_object)"

theorem usdc_entry_all_or_nothing_witness:
  "\<exists>t. po_snapshot usdc_object_entered = Some t \<and>
     (\<exists>e \<in> set (s_entries t). e_id e = ''e1'' \<and> e_userId e = ''u1'' \<and> e_amount e = 300)"
proof -
  obtain s where s: "po_snapshot usdc_object = Some s" "s_pool s = usdc_pool" "s_entries s = []" "s_balances s = []"
    using usdc_object_state(2) by blast
  have g: "submission_ok ''p1'' usdc_entry s (po_ledger usdc_object)"
    using usdc_submission [OF s(2-4)] usdc_object_state(1) by simp
  obtain rep ob' where "placeDotCastUsdcPoolEntry ref_runtime example_env True (\<lambda>_ _. FetchStatus 500) ''t'' ''x'' ''p1''
      usdc_entry usdc_object = (Inr rep, ob')" "response_ok (gw_response rep)" using usdc_entry_example [OF s] by blast
  then show ?thesis
    using usdc_entry_all_or_nothing [OF usdc_object_reach s(1) example_interval g, of "\<lambda>_ _. FetchStatus 500" "''t''" "''x''"]
    by (auto simp: usdc_object_entered_def usdc_entry_def)
qed

lemma usdc_object_entered_state:
  "reach fresh_gateway (usdc_step ref_runtime) usdc_object_entered"
  "\<exists>t. po_snapshot usdc_object_entered = Some t \<and> p_unit (s_pool t) = Usdc \<and> p_id (s_pool t) = ''p1'' \<and>
     p_status (s_pool t) = Open \<and> holds_entry usdc_entry t"
proof -
  obtain s where s: "po_snapshot usdc_object = Some s" "s_pool s = usdc_pool" "s_entries s = []" "s_balances s = []"
    using usdc_object_state(2) by blast
  have g: "submission_ok ''p1'' usdc_entry s (po_ledger usdc_object)"
    using usdc_submission [OF s(2-4)] usdc_object_state(1) by simp
  show "reach fresh_gateway (usdc_step ref_runtime) usdc_object_entered"
    unfolding usdc_object_entered_def
    by (rule reach_step [OF usdc_object_reach]) (rule us_entry [OF example_interval s(1) g])
  show "\<exists>t. po_snapshot usdc_object_entered = Some t \<and> p_unit (s_pool t) = Usdc \<and> p_id (s_pool t) = ''p1'' \<and>
      p_status (s_pool t) = Open \<and> holds_entry usdc_entry t"
    using usdc_entry_example [OF s] s(2)
    by (auto simp: usdc_object_entered_def ahead_def pool_key_def usdc_pool_def example_pool_def)
qed



lemma void_object:
  assumes "interval_ok env" "po_snapshot ob = Some s" "voidPoolSnapshot rt s ADMIN_VOID clock (p_outcome (s_pool s)) = Inr t"
  shows "po_snapshot (snd (fetch rt env fetcher clock freshId (PostVoid (Some (JStr ''ADMIN_VOID'')) None) ob)) = Some t"
  using assms(2,3) persist_object(1) [OF assms(1), of rt t clock ob]
  by (auto simp: fetch_def route_request_def void_def requireSnapshot_def readSnapshot_def parseVoidReason_def Let_def orElse_def
      ebind_def audit_run split: prod.splits sum.splits)

text \<open>The pool voided while the database was not configured, so that its lock is still open.\<close>

definition usdc_object_voided :: pool_object where
  "usdc_object_voided = snd (fetch ref_runtime (example_env\<lparr>ev_tradingDb := False\<rparr>) (\<lambda>_ _. FetchStatus 500)
     ''2026-01-02T00:00:00.000Z'' ''x'' (PostVoid (Some (JStr ''ADMIN_VOID'')) None) usdc_object_entered)"

lemma usdc_object_voided_state:
  "reach fresh_gateway (usdc_step ref_runtime) usdc_object_voided"
  "\<exists>t. po_snapshot usdc_object_voided = Some t \<and> p_unit (s_pool t) = Usdc \<and> p_id (s_pool t) = ''p1'' \<and>
     terminal (p_status (s_pool t)) \<and> e_id ` set (s_entries t) \<noteq> {}"
proof -
  have iv: "interval_ok (example_env\<lparr>ev_tradingDb := False\<rparr>)" using example_interval by (simp add: interval_ok_def)
  show "reach fresh_gateway (usdc_step ref_runtime) usdc_object_voided"
    unfolding usdc_object_voided_def by (rule reach_step [OF usdc_object_entered_state(1)]) (rule us_request [OF iv], simp)
  obtain s where s: "po_snapshot usdc_object_entered = Some s" "p_unit (s_pool s) = Usdc" "p_id (s_pool s) = ''p1''"
      "p_status (s_pool s) = Open" "holds_entry usdc_entry s" using usdc_object_entered_state(2) by blast
  have good: "good ref_runtime s" using usdc_pools.reach_inv [OF usdc_object_entered_state(1)] s(1) by (simp add: gateway_ok_def stored_def)
  obtain t where t: "voidPoolSnapshot ref_runtime s ADMIN_VOID ''2026-01-02T00:00:00.000Z'' (p_outcome (s_pool s)) = Inr t"
      "terminal (p_status (s_pool t))"
    using void_ok [of ref_runtime s "''2026-01-02T00:00:00.000Z''" ADMIN_VOID "p_outcome (s_pool s)"] good s(4)
    by (auto simp: good_def example_dates voided_from_def terminal_def)
  have m: "moves ref_runtime s t" by (rule void_moves [OF good t(1)])
  have "entry_key ` set (s_entries t) = entry_key ` set (s_entries s)" using m by (metis image_set moves_def)
  moreover have "set (s_entries s) \<noteq> {}" using s(5) by (auto simp: holds_entry_def)
  ultimately show "\<exists>t. po_snapshot usdc_object_voided = Some t \<and> p_unit (s_pool t) = Usdc \<and> p_id (s_pool t) = ''p1'' \<and>
      terminal (p_status (s_pool t)) \<and> e_id ` set (s_entries t) \<noteq> {}"
    using void_object [OF iv s(1) t(1)] t(2) m s(2,3)
    by (auto simp: usdc_object_voided_def moves_def ahead_def pool_key_def)
qed


theorem usdc_pool_paid_out_witness:
  "\<exists>t e l. po_snapshot usdc_object_voided = Some t \<and> e \<in> set (s_entries t) \<and>
     map_of (db_poolLocks (po_ledger (snd (fetch ref_runtime example_env (\<lambda>_ _. FetchStatus 500)
       ''2026-01-02T00:00:00.000Z'' ''x'' GetPool usdc_object_voided)))) (poolFundingLockId ''p1'' (e_id e)) = Some l \<and>
     pk_status l \<noteq> PoolLocked"
proof -
  obtain t e where t: "po_snapshot usdc_object_voided = Some t" "p_unit (s_pool t) = Usdc" "p_id (s_pool t) = ''p1''"
      "terminal (p_status (s_pool t))" and e: "e \<in> set (s_entries t)"
    using usdc_object_voided_state(2) by (metis ex_in_conv image_empty)
  obtain fu where fu: "assertUsdcPoolFundingReady example_env = Inr fu" using example_ready by blast
  have "ev_tradingDb example_env" "date_parse ref_runtime ''2026-01-02T00:00:00.000Z'' \<noteq> None"
    by (simp_all add: example_env_def example_dates)
  from usdc_pool_paid_out [OF usdc_object_voided_state(1) t(1,2,4) example_interval this(1) fu this(2), of "\<lambda>_ _. FetchStatus 500" "''x''"]
  obtain l where "map_of (db_poolLocks (po_ledger (snd (fetch ref_runtime example_env (\<lambda>_ _. FetchStatus 500)
       ''2026-01-02T00:00:00.000Z'' ''x'' GetPool usdc_object_voided)))) (poolFundingLockId ''p1'' (e_id e)) = Some l"
      "pk_status l = (if e_refunded e then PoolRefunded else PoolSettled)" using e t(3) by auto
  then show ?thesis using t(1) e by (intro exI [of _ t] exI [of _ e] exI [of _ l]) simp
qed

end
