(* ===== verification/CreatorLedger.thy ===== *)
theory CreatorLedger
  imports CreatorEconomy LedgerSystem
begin

text \<open>
  The books of the creators.  A balance row of a creator is what its accruals and pay-outs say: the
  lifetime accruals are the sum of the shares of the rake, pending and paid are the sums of the signed and
  confirmed pay-outs, and what is available is the rest.  Every operation of \<open>CreatorEconomy.ts\<close> keeps
  that, and every pay-out has its own withdrawal on the rail, of the same amount.
\<close>

declare map_of_append [simp del]

subsection \<open>Rows that read back\<close>

lemma trim_dropWhile: "dropWhile P (rev (dropWhile P (rev (dropWhile P s)))) = rev (dropWhile P (rev (dropWhile P s)))"
proof -
  let ?t = "dropWhile P s"
  have t: "?t = [] \<or> \<not> P (hd ?t)" using hd_dropWhile by blast
  obtain u v where uv: "?t = u @ v" "rev (dropWhile P (rev ?t)) = u"
  proof -
    have "rev ?t = takeWhile P (rev ?t) @ dropWhile P (rev ?t)" by simp
    then have "?t = rev (dropWhile P (rev ?t)) @ rev (takeWhile P (rev ?t))" by (metis rev_append rev_rev_ident)
    then show ?thesis using that by blast
  qed
  show ?thesis
  proof (cases "u = []")
    case False
    then have "hd u = hd ?t" using uv(1) by simp
    then have "\<not> P (hd u)" using t False uv(1) by auto
    then show ?thesis unfolding uv(2) using False by (cases u) auto
  qed (simp add: uv(2))
qed

lemma trim_trim [simp]: "trim (trim s) = trim s"
  unfolding trim_def by (simp add: trim_dropWhile dropWhile_idem)

definition creator_wf :: "string \<Rightarrow> DotCastCreatorProfile \<Rightarrow> bool" where
  "creator_wf k c \<longleftrightarrow> cr_creatorId c = k \<and> k \<noteq> '''' \<and> trim k = k \<and> cr_displayName c \<noteq> '''' \<and>
     (\<forall>d. cr_payoutDestination c = Some d \<longrightarrow> d \<noteq> '''' \<and> trim d = d) \<and> creator_check c \<and>
     is_safe_integer (cr_volumeScore c) \<and> cr_createdAt c \<noteq> '''' \<and> cr_updatedAt c \<noteq> ''''"

definition balance_wf :: "string \<times> StakeUnit \<Rightarrow> DotCastCreatorEarningsBalance \<Rightarrow> bool" where
  "balance_wf k b \<longleftrightarrow> (eb_creatorId b, eb_unit b) = k \<and> fst k \<noteq> '''' \<and> eb_updatedAt b \<noteq> '''' \<and>
     0 \<le> eb_available b \<and> 0 \<le> eb_pendingPayout b \<and> 0 \<le> eb_lifetimePaid b \<and>
     eb_available b + eb_pendingPayout b + eb_lifetimePaid b = eb_lifetimeAccrued b \<and>
     is_safe_integer (eb_lifetimeAccrued b)"

definition accrual_wf :: "string \<Rightarrow> DotCastCreatorRakeAccrual \<Rightarrow> bool" where
  "accrual_wf k a \<longleftrightarrow> ac_accrualId a = k \<and> ac_poolId a \<noteq> '''' \<and>
     (\<exists>s. ac_settlementId a = ''settlement:'' @ ac_poolId a @ '':'' @ show_side s) \<and>
     k = ''dotcast:e11:accrual:'' @ ac_poolId a @ '':'' @ ac_settlementId a \<and>
     ac_idempotencyKey a = ''dotcast:e11:rake-share:'' @ ac_poolId a @ '':'' @ ac_settlementId a \<and>
     ac_creatorId a \<noteq> '''' \<and> accrual_check a \<and> is_safe_integer (ac_totalRake a) \<and> ac_createdAt a \<noteq> ''''"

definition payout_wf :: "string \<Rightarrow> DotCastCreatorPayout \<Rightarrow> bool" where
  "payout_wf k p \<longleftrightarrow> py_payoutId p = k \<and> k = payoutId (py_creatorId p) (py_idempotencyKey p) \<and>
     py_creatorId p \<noteq> '''' \<and> py_idempotencyKey p \<noteq> '''' \<and> 0 < py_amount p \<and> is_safe_integer (py_amount p) \<and>
     py_destination p \<noteq> '''' \<and> (\<exists>t. py_railTransferId p = Some t \<and> t \<noteq> '''' \<and> trim t = t) \<and>
     (\<forall>t. py_railTxRef p = Some t \<longrightarrow> t \<noteq> '''' \<and> trim t = t) \<and>
     (\<forall>t. py_mockSignature p = Some t \<longrightarrow> t \<noteq> '''' \<and> trim t = t) \<and>
     py_requestedAt p \<noteq> '''' \<and> py_updatedAt p \<noteq> '''' \<and> py_status p \<in> {PayoutSigned, PayoutConfirmed}"

lemma parse_shown_creator [simp]:
  "parseTier (Some (JStr (show_creator_tier t))) = Inr t"
  "parseCreatorStatus (Some (JStr (show_creator_status s))) = Inr s"
  "parseKycStatus (Some (JStr (show_kyc k))) = Inr k"
  "parsePayoutStatus (Some (JStr (show_payout_status p))) = Inr p"
  "parseStakeUnit (Some (JStr (show_stake_unit u))) = Inr u"
  by ((cases t; simp add: parseTier_def), (cases s; simp add: parseCreatorStatus_def),
      (cases k; simp add: parseKycStatus_def), (cases p; simp add: parsePayoutStatus_def),
      (cases u; simp add: parseStakeUnit_def))

lemma require_row [simp]:
  "requireRowText (Some (JStr s)) l = (if s = '''' then Inl (CodedError ''INVALID_CREATOR_ROW'' (l @ '' is required'') 500) else Inr s)"
  "is_safe_integer i \<Longrightarrow> requireRowInt (Some (jint i)) l = Inr i"
  by (simp_all add: requireRowText_def requireRowInt_def)

lemma nullable_text [simp]:
  "(\<And>d. v = Some d \<Longrightarrow> d \<noteq> '''' \<and> trim d = d) \<Longrightarrow>
     parseNullableText (case sql_text_opt v of SqlNull \<Rightarrow> Some JNull | SqlInt i \<Rightarrow> Some (jint i)
       | SqlText s \<Rightarrow> Some (JStr s) | SqlJson obj \<Rightarrow> Some (JObj obj)) l = Inr v"
  by (cases v) (auto simp: parseNullableText_def sql_text_opt_def requireText_def)

lemma safe_small: "0 \<le> i \<Longrightarrow> i \<le> 10000 \<Longrightarrow> is_safe_integer i"
  by (simp add: is_safe_integer_def max_safe_integer_def)

lemma sql_bool_number [simp]: "(sql_number (sql_bool b) = 1) = b"
  by (simp add: sql_bool_def)

lemma creator_roundtrip: "creator_wf k c \<Longrightarrow> creatorFromRow (creatorParams c) = Inr c"
  by (simp add: creator_wf_def creatorFromRow_def creatorParams_def column_json_def column_of_def
      creator_check_def safe_small)

lemma balance_parts_safe:
  "balance_wf k b \<Longrightarrow> is_safe_integer (eb_available b) \<and> is_safe_integer (eb_pendingPayout b) \<and> is_safe_integer (eb_lifetimePaid b)"
  by (auto simp: balance_wf_def is_safe_integer_def)

lemma creator_balance_roundtrip: "balance_wf k b \<Longrightarrow> creatorBalanceFromRow (creatorBalanceParams b) = Inr b"
  using balance_parts_safe [of k b]
  by (auto simp: balance_wf_def creatorBalanceFromRow_def creatorBalanceParams_def column_json_def column_of_def)

lemma accrual_roundtrip: "accrual_wf k a \<Longrightarrow> accrualFromRow (accrualParams a) = Inr a"
proof -
  assume wf: "accrual_wf k a"
  have "is_safe_integer (ac_creatorShare a)" "is_safe_integer (ac_houseShare a)"
    using wf by (auto simp: accrual_wf_def accrual_check_def is_safe_integer_def)
  then show ?thesis using wf
    by (auto simp: accrual_wf_def accrualFromRow_def accrualParams_def column_json_def column_of_def
        accrual_check_def bps_check_def safe_small)
qed

lemma payout_roundtrip: "payout_wf k p \<Longrightarrow> payoutFromRow (payoutParams p) = Inr p"
proof -
  assume wf: "payout_wf k p"
  have "py_payoutId p \<noteq> ''''" using wf by (simp add: payout_wf_def payoutId_def)
  moreover have "\<forall>d. py_railTransferId p = Some d \<longrightarrow> d \<noteq> '''' \<and> trim d = d" using wf by (auto simp: payout_wf_def)
  ultimately show ?thesis using wf
    by (simp add: payout_wf_def payoutFromRow_def payoutParams_def column_json_def column_of_def)
qed

subsection \<open>The share of the rake\<close>

definition settings_ok :: "DotCastCreatorEconomyStatus \<Rightarrow> bool" where
  "settings_ok st \<longleftrightarrow> (\<forall>t. bps_check (tier_share (es_tierSharesBps st) t))"

lemma parseBpsNumber_Inr [simp]:
  "parseBpsNumber v l = Inr x \<longleftrightarrow> Option.bind v json_safe_integer = Some x \<and> 0 \<le> x \<and> x \<le> 10000"
  by (auto simp: parseBpsNumber_def Let_def split: option.splits)

lemma parseBps_Inr: "parseBps v d l = Inr x \<Longrightarrow> 0 \<le> d \<Longrightarrow> d \<le> 10000 \<Longrightarrow> bps_check x"
  by (auto simp: parseBps_def bps_check_def split: option.splits if_splits)

lemma tier_share_cases: "(\<forall>t. P (tier_share s t)) \<longleftrightarrow> P (ts_casual s) \<and> P (ts_verified s) \<and> P (ts_partner s)"
  by (metis DotCastCreatorTier.exhaust tier_share.simps)

lemma ready_status_ok: "assertCreatorEconomyReady re env hasDb = Inr st \<Longrightarrow> settings_ok st"
proof -
  assume "assertCreatorEconomyReady re env hasDb = Inr st"
  then have read: "readDotCastCreatorEconomyStatus re env hasDb = Inr st"
    by (cases "readDotCastCreatorEconomyStatus re env hasDb") (simp_all add: assertCreatorEconomyReady_def split: if_splits)
  then obtain c v p where "parseBps (ce_shareCasualBps env) 1000 ''DOTCAST_CREATOR_RAKE_SHARE_CASUAL_BPS'' = Inr c"
      "parseBps (ce_shareVerifiedBps env) 2500 ''DOTCAST_CREATOR_RAKE_SHARE_VERIFIED_BPS'' = Inr v"
      "parseBps (ce_sharePartnerBps env) 4000 ''DOTCAST_CREATOR_RAKE_SHARE_PARTNER_BPS'' = Inr p"
      "es_tierSharesBps st = \<lparr>ts_casual = c, ts_verified = v, ts_partner = p\<rparr>"
    unfolding readDotCastCreatorEconomyStatus_def rbind_eq_Inr Let_def by (elim exE conjE) auto
  then show ?thesis
    by (simp add: settings_ok_def tier_share_cases parseBps_Inr)
qed

lemma quotient_exact:
  assumes "0 \<le> a" "a \<le> max_safe_integer"
  shows "\<lfloor>fl (of_int (num a) / 10000)\<rfloor> = a div 10000"
  using assms floor_fl_div [of a 10000]
  by (simp add: num_safe is_safe_integer_def max_safe_integer_def)

lemma share_bounds:
  fixes base q :: int
  assumes "0 \<le> base" "0 \<le> q" "q \<le> 10000"
  shows "0 \<le> base * q div 10000" "base * q div 10000 \<le> base"
proof -
  have "base * q \<le> base * 10000" using assms by (intro mult_left_mono) simp_all
  then have "base * q div 10000 \<le> base * 10000 div 10000" by (rule zdiv_mono1) simp
  then show "base * q div 10000 \<le> base" by simp
  show "0 \<le> base * q div 10000" using assms by (simp add: pos_imp_zdiv_nonneg_iff)
qed

lemma effective_share_bounds:
  assumes "settings_ok st"
  shows "0 \<le> calculateCreatorEffectiveShareBps c st \<and>
    calculateCreatorEffectiveShareBps c st \<le> tier_share (es_tierSharesBps st) (cr_tier c) \<and>
    bps_check (calculateCreatorEffectiveShareBps c st)"
proof -
  let ?base = "tier_share (es_tierSharesBps st) (cr_tier c)"
  have base: "0 \<le> ?base" "?base \<le> 10000" using assms by (auto simp: settings_ok_def bps_check_def)
  have "\<lfloor>fl (of_int (num (?base * clampCreatorBps q)) / 10000)\<rfloor> = ?base * clampCreatorBps q div 10000" for q
  proof (rule quotient_exact)
    show "0 \<le> ?base * clampCreatorBps q" using base by (simp add: clampCreatorBps_def)
    have "?base * clampCreatorBps q \<le> 10000 * 10000" using base by (intro mult_mono) (simp_all add: clampCreatorBps_def)
    then show "?base * clampCreatorBps q \<le> max_safe_integer" by (simp add: max_safe_integer_def)
  qed
  then show ?thesis
    using base share_bounds [of ?base "clampCreatorBps q" for q]
    by (auto simp: calculateCreatorEffectiveShareBps_def Let_def bps_check_def clampCreatorBps_def intro: order_trans)
qed

lemma rakeShare_exact:
  assumes "0 \<le> r" "is_safe_integer (r * 10000)" "0 \<le> b" "b \<le> 10000"
  shows "rakeShare r b = r * b div 10000" "0 \<le> rakeShare r b" "rakeShare r b \<le> r"
proof -
  have "r * b \<le> r * 10000" using assms by (intro mult_left_mono) simp_all
  then show e: "rakeShare r b = r * b div 10000"
    using assms by (auto simp: rakeShare_def is_safe_integer_def intro!: quotient_exact)
  show "0 \<le> rakeShare r b" "rakeShare r b \<le> r" unfolding e using share_bounds assms by auto
qed

subsection \<open>The books\<close>

definition ksum :: "('r \<Rightarrow> 'o) \<Rightarrow> ('r \<Rightarrow> int) \<Rightarrow> 'o \<Rightarrow> ('k \<times> 'r) list \<Rightarrow> int" where
  "ksum own f o' tbl = asum (\<lambda>r. if own r = o' then f r else 0) tbl"

lemma ksum_insert [simp]:
  "ksum own f u (tbl @ [(k, r)]) = ksum own f u tbl + (if own r = u then f r else 0)"
  by (simp add: ksum_def asum_def)

lemma ksum_update:
  assumes "akeys tbl" "map_of tbl k = Some r" "own r' = own r"
  shows "ksum own f u (AList.update k r' tbl) = ksum own f u tbl + (if own r = u then f r' - f r else 0)"
  using assms by (simp add: ksum_def asum_update)

lemma ksum_ge:
  assumes "map_of tbl k = Some r" "akeys tbl" and "\<And>k r. map_of tbl k = Some r \<Longrightarrow> 0 \<le> f r"
  shows "f r \<le> ksum own f (own r) tbl"
proof -
  have "\<forall>kv \<in> set tbl. 0 \<le> (if own (snd kv) = own r then f (snd kv) else 0)"
    using assms(2,3) by (auto simp: akeys_def)
  then show ?thesis using asum_ge [OF assms(1)] by (fastforce simp: ksum_def)
qed

definition earned :: "(DotCastCreatorEarningsBalance \<Rightarrow> int) \<Rightarrow> creator_db \<Rightarrow> string \<Rightarrow> StakeUnit \<Rightarrow> int" where
  "earned f db c u = (case map_of (cd_balances db) (c, u) of None \<Rightarrow> 0 | Some b \<Rightarrow> f b)"

definition accrued_shares :: "creator_db \<Rightarrow> string \<Rightarrow> StakeUnit \<Rightarrow> int" where
  "accrued_shares db c u = ksum (\<lambda>a. (ac_creatorId a, ac_unit a)) ac_creatorShare (c, u) (cd_accruals db)"

definition payouts_at :: "DotCastCreatorPayoutStatus \<Rightarrow> creator_db \<Rightarrow> string \<Rightarrow> StakeUnit \<Rightarrow> int" where
  "payouts_at st db c u =
     ksum (\<lambda>p. (py_creatorId p, Usdc)) (\<lambda>p. if py_status p = st then py_amount p else 0) (c, u) (cd_payouts db)"

definition creator_rows :: "creator_db \<Rightarrow> bool" where
  "creator_rows db \<longleftrightarrow> table_ok creator_wf (cd_creators db) \<and> table_ok balance_wf (cd_balances db) \<and>
     table_ok accrual_wf (cd_accruals db) \<and> table_ok payout_wf (cd_payouts db) \<and>
     distinct (map (ac_poolId \<circ> snd) (cd_accruals db)) \<and> distinct (map (py_idempotencyKey \<circ> snd) (cd_payouts db))"

definition creator_books :: "creator_db \<Rightarrow> bool" where
  "creator_books db \<longleftrightarrow> creator_rows db \<and>
     (\<forall>c u. earned eb_lifetimeAccrued db c u = accrued_shares db c u \<and>
            earned eb_pendingPayout db c u = payouts_at PayoutSigned db c u \<and>
            earned eb_lifetimePaid db c u = payouts_at PayoutConfirmed db c u)"

lemma creator_books_empty: "creator_books empty_creators"
  by (simp add: creator_books_def creator_rows_def empty_creators_def table_ok_def earned_def accrued_shares_def
      payouts_at_def ksum_def)

lemma creator_books_tables:
  assumes "creator_books db"
  shows "table_ok creator_wf (cd_creators db)" "table_ok balance_wf (cd_balances db)"
    "table_ok accrual_wf (cd_accruals db)" "table_ok payout_wf (cd_payouts db)"
  using assms by (simp_all add: creator_books_def creator_rows_def)

lemma creator_books_events [simp]:
  "creator_books (db\<lparr>cd_events := ev\<rparr>) = creator_books db" "creator_books (db\<lparr>cd_seeds := sd\<rparr>) = creator_books db"
  by (auto simp: creator_books_def creator_rows_def earned_def accrued_shares_def payouts_at_def)

text \<open>Under the invariant every query reads what is stored.\<close>

lemma find_table: "find P (map snd tbl) = Some r \<Longrightarrow> akeys tbl \<Longrightarrow> \<exists>k. map_of tbl k = Some r \<and> P r"
  by (auto simp: find_Some_iff akeys_def in_set_conv_nth) (metis in_set_conv_nth map_of_is_SomeI prod.collapse)

lemma first_row_table:
  assumes "table_ok P tbl" "\<And>k r. P k r \<Longrightarrow> from' r = Inr r"
  shows "first_row from' (map_of tbl k) = Inr (map_of tbl k)"
    "first_row from' (find Q (map snd tbl)) = Inr (find Q (map snd tbl))"
proof -
  show "first_row from' (map_of tbl k) = Inr (map_of tbl k)"
    using assms(2) [OF table_okD [OF assms(1)]] by (cases "map_of tbl k") (simp_all add: first_row_def)
  show "first_row from' (find Q (map snd tbl)) = Inr (find Q (map snd tbl))"
  proof (cases "find Q (map snd tbl)")
    case (Some r)
    obtain k where "map_of tbl k = Some r" using find_table [OF Some table_ok_akeys [OF assms(1)]] by blast
    then have "from' r = Inr r" by (rule assms(2) [OF table_okD [OF assms(1)]])
    then show ?thesis unfolding Some by (simp add: first_row_def)
  qed (simp add: first_row_def)
qed

lemma creator_reads:
  assumes "creator_books db"
  shows "getCreator db k = Inr (map_of (cd_creators db) k)"
    "getCreatorBalance db c u = Inr (map_of (cd_balances db) (c, u))"
    "getAccrualByPool db pid = Inr (find (\<lambda>a. ac_poolId a = pid) (map snd (cd_accruals db)))"
    "getPayout db k = Inr (map_of (cd_payouts db) k)"
    "getPayoutByIdempotencyKey db key = Inr (find (\<lambda>p. py_idempotencyKey p = key) (map snd (cd_payouts db)))"
  unfolding getCreator_def getCreatorBalance_def getAccrualByPool_def getPayout_def getPayoutByIdempotencyKey_def
  using creator_books_tables [OF assms]
  by (simp_all add: first_row_table creator_roundtrip creator_balance_roundtrip accrual_roundtrip payout_roundtrip)

text \<open>
  The accounting step: the records change so that the sums of one creator and unit move by given amounts,
  and that balance row is saved with its fields changed by the same amounts.
\<close>

lemma creator_books_post:
  assumes "creator_books db" "creator_rows db'"
    and saved: "cd_balances db' = AList.update (c, u) b (cd_balances db)"
    and sums: "\<And>c' u'. accrued_shares db' c' u' = accrued_shares db c' u' + (if (c', u') = (c, u) then x else 0)"
      "\<And>c' u'. payouts_at PayoutSigned db' c' u' = payouts_at PayoutSigned db c' u' + (if (c', u') = (c, u) then y else 0)"
      "\<And>c' u'. payouts_at PayoutConfirmed db' c' u' = payouts_at PayoutConfirmed db c' u' + (if (c', u') = (c, u) then z else 0)"
    and fields: "eb_lifetimeAccrued b = earned eb_lifetimeAccrued db c u + x"
      "eb_pendingPayout b = earned eb_pendingPayout db c u + y" "eb_lifetimePaid b = earned eb_lifetimePaid db c u + z"
  shows "creator_books db'"
  using assms by (auto simp: creator_books_def earned_def)

lemma eventInsert_books [simp]: "creator_books db \<Longrightarrow> creator_books (snd (eventInsert e db))"
  by (simp add: eventInsert_def)

lemma batch_books:
  "(\<And>db'. run_all ms db = (Inr (), db') \<Longrightarrow> creator_books db') \<Longrightarrow> creator_books db \<Longrightarrow> creator_books (snd (batch ms db))"
  by (auto simp: batch_def split: prod.splits sum.splits)

definition with_event :: "DotCastCreatorEvent \<Rightarrow> creator_db \<Rightarrow> creator_db" where
  "with_event v db = snd (eventInsert v db)"

lemma with_event_simps [simp]:
  "creator_books (with_event v db) = creator_books db" "cd_creators (with_event v db) = cd_creators db"
  "cd_balances (with_event v db) = cd_balances db" "cd_accruals (with_event v db) = cd_accruals db"
  "cd_payouts (with_event v db) = cd_payouts db" "cd_seeds (with_event v db) = cd_seeds db"
  "eventInsert v db = (Inr (), with_event v db)"
  by (simp_all add: with_event_def eventInsert_def)

subsection \<open>A settled pool\<close>

lemma accrual_ids_inject:
  assumes "p @ '':'' @ (''settlement:'' @ p @ '':'' @ show_side s) = q @ '':'' @ (''settlement:'' @ q @ '':'' @ show_side t)"
  shows "p = q"
proof -
  have parity: "x = y" if "2 * x + a = 2 * y + b" "a \<in> {2, 3}" "b \<in> {2, 3}" for x y a b :: nat
    using that by (auto; presburger)
  have side: "length (show_side r) \<in> {2, 3}" for r by (cases r) simp_all
  have "2 * length p + length (show_side s) = 2 * length q + length (show_side t)"
    using arg_cong [OF assms, of length] by simp
  then have "length p = length q" by (rule parity [OF _ side side])
  then show ?thesis using assms by simp
qed

text \<open>
  What \<open>PoolSettlement.ts\<close> promises of a settled snapshot, a rake small enough to be multiplied by basis
  points exactly, and room in the balance of the creator.
\<close>

definition settlement_fits :: "DotCastPool \<Rightarrow> DotCastSettlementRecord \<Rightarrow> bool" where
  "settlement_fits pool settlement \<longleftrightarrow> p_id pool \<noteq> '''' \<and>
     (\<exists>s. sr_id settlement = ''settlement:'' @ p_id pool @ '':'' @ show_side s) \<and>
     0 \<le> sr_rakeAmount settlement \<and> is_safe_integer (sr_rakeAmount settlement * 10000)"

definition share_room :: "creator_db \<Rightarrow> string \<Rightarrow> StakeUnit \<Rightarrow> int \<Rightarrow> bool" where
  "share_room db c u x \<longleftrightarrow> is_safe_integer (earned eb_lifetimeAccrued db c u + x)"

lemma rakeAccrual_wf:
  assumes st: "settings_ok st" and c: "creator_wf k c" and fits: "settlement_fits pool settlement" and now: "now \<noteq> ''''"
  defines "a \<equiv> rakeAccrual st c pool settlement now"
  shows "accrual_wf (ac_accrualId a) a" "ac_creatorShare a = sr_rakeAmount settlement * ac_effectiveShareBps a div 10000"
    "0 \<le> ac_creatorShare a" "ac_creatorShare a \<le> sr_rakeAmount settlement"
    "ac_houseShare a = sr_rakeAmount settlement - ac_creatorShare a"
    "ac_effectiveShareBps a = calculateCreatorEffectiveShareBps c st" "ac_poolId a = p_id pool"
    "ac_creatorId a = k" "ac_unit a = p_unit pool" "ac_totalRake a = sr_rakeAmount settlement"
    "ac_accrualId a = ''dotcast:e11:accrual:'' @ p_id pool @ '':'' @ sr_id settlement"
    "ac_idempotencyKey a = ''dotcast:e11:rake-share:'' @ p_id pool @ '':'' @ sr_id settlement"
proof -
  let ?b = "calculateCreatorEffectiveShareBps c st" and ?r = "sr_rakeAmount settlement"
  have r: "0 \<le> ?r" "is_safe_integer (?r * 10000)" using fits by (auto simp: settlement_fits_def)
  have b: "0 \<le> ?b" "?b \<le> 10000" using effective_share_bounds [OF st, of c] by (auto simp: bps_check_def)
  note ex = rakeShare_exact [OF r b]
  have safe: "is_safe_integer ?r" using r by (auto simp: is_safe_integer_def)
  show sh: "ac_creatorShare a = ?r * ac_effectiveShareBps a div 10000" "0 \<le> ac_creatorShare a" "ac_creatorShare a \<le> ?r"
    using ex by (simp_all add: a_def rakeAccrual_def Let_def)
  have sub: "js_sub ?r (rakeShare ?r ?b) = ?r - rakeShare ?r ?b" using ex safe by (intro js_sub_nonneg_safe) auto
  then show h: "ac_houseShare a = ?r - ac_creatorShare a" by (simp add: a_def rakeAccrual_def Let_def)
  show id: "ac_effectiveShareBps a = ?b" "ac_poolId a = p_id pool" "ac_creatorId a = k" "ac_unit a = p_unit pool" "ac_totalRake a = ?r"
    "ac_accrualId a = ''dotcast:e11:accrual:'' @ p_id pool @ '':'' @ sr_id settlement"
    "ac_idempotencyKey a = ''dotcast:e11:rake-share:'' @ p_id pool @ '':'' @ sr_id settlement"
    using c by (simp_all add: a_def rakeAccrual_def Let_def creator_wf_def)
  have more: "ac_settlementId a = sr_id settlement" "ac_createdAt a = now"
      "ac_tierShareBps a = tier_share (es_tierSharesBps st) (cr_tier c)" "ac_accuracyBps a = cr_accuracyBps c"
      "ac_retentionBps a = cr_retentionBps c"
    by (simp_all add: a_def rakeAccrual_def Let_def)
  show "accrual_wf (ac_accrualId a) a"
    unfolding accrual_wf_def accrual_check_def
    using sh h id more c fits now st safe b r
    by (auto simp: creator_wf_def settlement_fits_def creator_check_def bps_check_def settings_ok_def)
qed

definition credited_db ::
  "creator_db \<Rightarrow> DotCastCreatorRakeAccrual \<Rightarrow> DotCastCreatorEarningsBalance \<Rightarrow> creator_db" where
  "credited_db db a b = db\<lparr>cd_accruals := cd_accruals db @ [(ac_accrualId a, a)],
     cd_balances := AList.update (eb_creatorId b, eb_unit b) b (cd_balances db)\<rparr>"

lemma list_ex_table: "akeys tbl \<Longrightarrow> list_ex P (map snd tbl) \<longleftrightarrow> (\<exists>k r. map_of tbl k = Some r \<and> P r)"
  by (force simp: list_ex_iff akeys_def)

lemma fresh_accrual:
  assumes "creator_books db" "find (\<lambda>a. ac_poolId a = p_id pool) (map snd (cd_accruals db)) = None"
    and "\<exists>s. sr_id settlement = ''settlement:'' @ p_id pool @ '':'' @ show_side s"
  shows "map_of (cd_accruals db) (''dotcast:e11:accrual:'' @ p_id pool @ '':'' @ sr_id settlement) = None"
    "\<not> list_ex (\<lambda>a. ac_poolId a = p_id pool \<or>
        ac_idempotencyKey a = ''dotcast:e11:rake-share:'' @ p_id pool @ '':'' @ sr_id settlement) (map snd (cd_accruals db))"
    "p_id pool \<notin> set (map (ac_poolId \<circ> snd) (cd_accruals db))"
proof -
  note t = creator_books_tables(3) [OF assms(1)]
  have none: "ac_poolId a \<noteq> p_id pool" if "map_of (cd_accruals db) k = Some a" for k a
    using assms(2) map_of_SomeD [OF that] by (force simp: find_None_iff)
  have other: "ac_poolId a @ '':'' @ ac_settlementId a \<noteq> p_id pool @ '':'' @ sr_id settlement"
    if m: "map_of (cd_accruals db) k = Some a" for k a
  proof
    assume eq: "ac_poolId a @ '':'' @ ac_settlementId a = p_id pool @ '':'' @ sr_id settlement"
    obtain s s' where "ac_settlementId a = ''settlement:'' @ ac_poolId a @ '':'' @ show_side s"
        "sr_id settlement = ''settlement:'' @ p_id pool @ '':'' @ show_side s'"
      using table_okD [OF t m] assms(3) by (auto simp: accrual_wf_def)
    then have "ac_poolId a = p_id pool" using eq accrual_ids_inject [of "ac_poolId a" s "p_id pool" s'] by simp
    then show False using none [OF m] by simp
  qed
  show "map_of (cd_accruals db) (''dotcast:e11:accrual:'' @ p_id pool @ '':'' @ sr_id settlement) = None"
  proof (rule ccontr)
    assume "map_of (cd_accruals db) (''dotcast:e11:accrual:'' @ p_id pool @ '':'' @ sr_id settlement) \<noteq> None"
    then obtain a where m: "map_of (cd_accruals db) (''dotcast:e11:accrual:'' @ p_id pool @ '':'' @ sr_id settlement) = Some a"
      by blast
    then show False using other [OF m] table_okD [OF t m] by (simp add: accrual_wf_def)
  qed
  show "\<not> list_ex (\<lambda>a. ac_poolId a = p_id pool \<or>
      ac_idempotencyKey a = ''dotcast:e11:rake-share:'' @ p_id pool @ '':'' @ sr_id settlement) (map snd (cd_accruals db))"
    using other none table_okD [OF t] table_ok_akeys [OF t] by (fastforce simp: list_ex_table accrual_wf_def)
  show "p_id pool \<notin> set (map (ac_poolId \<circ> snd) (cd_accruals db))"
    using assms(2) by (auto simp: find_None_iff)
qed

lemma accrued_nonneg:
  assumes "creator_books db"
  shows "0 \<le> earned eb_lifetimeAccrued db c u" "0 \<le> earned eb_available db c u"
    "0 \<le> earned eb_pendingPayout db c u" "0 \<le> earned eb_lifetimePaid db c u"
    "earned eb_available db c u + earned eb_pendingPayout db c u + earned eb_lifetimePaid db c u =
       earned eb_lifetimeAccrued db c u"
    "is_safe_integer (earned eb_lifetimeAccrued db c u)"
  using table_okD [OF creator_books_tables(2) [OF assms], of "(c, u)"]
  by (auto simp: earned_def balance_wf_def split: option.splits)

lemma read_creator_balance:
  assumes "creator_books db"
  shows "eb_available (orElse (map_of (cd_balances db) (c, u)) (emptyEarnings c u now)) = earned eb_available db c u"
    "eb_pendingPayout (orElse (map_of (cd_balances db) (c, u)) (emptyEarnings c u now)) = earned eb_pendingPayout db c u"
    "eb_lifetimeAccrued (orElse (map_of (cd_balances db) (c, u)) (emptyEarnings c u now)) = earned eb_lifetimeAccrued db c u"
    "eb_lifetimePaid (orElse (map_of (cd_balances db) (c, u)) (emptyEarnings c u now)) = earned eb_lifetimePaid db c u"
    "eb_creatorId (orElse (map_of (cd_balances db) (c, u)) (emptyEarnings c u now)) = c"
    "eb_unit (orElse (map_of (cd_balances db) (c, u)) (emptyEarnings c u now)) = u"
  using table_okD [OF creator_books_tables(2) [OF assms], of "(c, u)"]
  by (cases "map_of (cd_balances db) (c, u)"; simp add: earned_def emptyEarnings_def balance_wf_def)+

lemma creditRakeShare_ok:
  assumes books: "creator_books db" and c: "map_of (cd_creators db) k = Some c" and st: "settings_ok st"
    and fits: "settlement_fits pool settlement" and now: "now \<noteq> ''''"
    and none: "find (\<lambda>a. ac_poolId a = p_id pool) (map snd (cd_accruals db)) = None"
    and room: "share_room db k (p_unit pool) (sr_rakeAmount settlement)"
  defines "a \<equiv> rakeAccrual st c pool settlement now"
  shows "\<exists>b v. creditRakeShare rt clock st c pool settlement now db =
      (Inr \<lparr>ar_applied = True, ar_idempotent = False, ar_creator = Some c, ar_accrual = Some a, ar_balance = Some b,
         ar_status = st\<rparr>, with_event v (credited_db db a b)) \<and>
    creator_books (credited_db db a b) \<and> eb_creatorId b = k \<and> eb_unit b = p_unit pool \<and>
    eb_available b = earned eb_available db k (p_unit pool) + ac_creatorShare a \<and>
    eb_lifetimeAccrued b = earned eb_lifetimeAccrued db k (p_unit pool) + ac_creatorShare a \<and>
    eb_pendingPayout b = earned eb_pendingPayout db k (p_unit pool) \<and>
    eb_lifetimePaid b = earned eb_lifetimePaid db k (p_unit pool)"
proof -
  let ?u = "p_unit pool"
  have wf: "creator_wf k c" using table_okD [OF creator_books_tables(1) [OF books] c] .
  then have ck: "cr_creatorId c = k" "k \<noteq> ''''" by (simp_all add: creator_wf_def)
  note a = rakeAccrual_wf [OF st wf fits now, folded a_def]
  note nn = accrued_nonneg [OF books, of k ?u]
  have safe: "is_safe_integer (earned eb_lifetimeAccrued db k ?u + ac_creatorShare a)"
    using room a(3,4) nn by (auto simp: share_room_def is_safe_integer_def)
  define p where "p = orElse (map_of (cd_balances db) (k, ?u)) (emptyEarnings k ?u now)"
  note p = read_creator_balance [OF books, of k ?u now, folded p_def]
  have add: "js_add (eb_available p) (ac_creatorShare a) = earned eb_available db k ?u + ac_creatorShare a"
      "js_add (eb_lifetimeAccrued p) (ac_creatorShare a) = earned eb_lifetimeAccrued db k ?u + ac_creatorShare a"
    using safe nn a(3) by (auto simp: p is_safe_integer_def intro!: js_add_safe)
  define b where "b = p\<lparr>eb_available := earned eb_available db k ?u + ac_creatorShare a,
    eb_lifetimeAccrued := earned eb_lifetimeAccrued db k ?u + ac_creatorShare a, eb_updatedAt := now\<rparr>"
  have bwf: "balance_wf (k, ?u) b" using nn a(3) safe ck now by (auto simp: balance_wf_def b_def p)
  have check: "earnings_check b" using nn a(3) by (auto simp: earnings_check_def b_def p)
  have key: "eb_creatorId b = k" "eb_unit b = ?u" by (simp_all add: b_def p)
  have "\<exists>s. sr_id settlement = ''settlement:'' @ p_id pool @ '':'' @ show_side s" using fits by (simp add: settlement_fits_def)
  note fresh = fresh_accrual [OF books none this]
  have ins: "accrualInsert a db = (Inr (), db\<lparr>cd_accruals := cd_accruals db @ [(ac_accrualId a, a)]\<rparr>)"
    using fresh(1,2) a(1) by (simp add: accrualInsert_def insert_new_def a(7,11,12) accrual_wf_def)
  have run: "batch [accrualInsert a, balanceUpsert b, eventInsert v] db = (Inr (), with_event v (credited_db db a b))" for v
    using check by (simp add: batch_def ins balanceUpsert_def credited_db_def)
  have rows: "creator_rows (credited_db db a b)"
  proof -
    have "table_ok accrual_wf (cd_accruals db @ [(ac_accrualId a, a)])"
      using creator_books_tables(3) [OF books] fresh(1) a(1) by (intro table_ok_insert) (simp_all add: a(11))
    then show ?thesis using books bwf fresh(3) a(7)
      by (simp add: creator_books_def creator_rows_def credited_db_def key table_ok_update)
  qed
  have "creator_books (credited_db db a b)"
  proof (rule creator_books_post [OF books rows, where c = k and u = ?u and b = b and x = "ac_creatorShare a" and y = 0 and z = 0])
    show "accrued_shares (credited_db db a b) c' u' = accrued_shares db c' u' + (if (c', u') = (k, ?u) then ac_creatorShare a else 0)"
      for c' u' using a(8,9) by (auto simp: accrued_shares_def credited_db_def)
  qed (simp_all add: credited_db_def key payouts_at_def b_def p)
  moreover have "\<exists>v. creditRakeShare rt clock st c pool settlement now db =
      (Inr \<lparr>ar_applied = True, ar_idempotent = False, ar_creator = Some c, ar_accrual = Some a, ar_balance = Some b,
         ar_status = st\<rparr>, with_event v (credited_db db a b))"
    by (simp add: creditRakeShare_def Let_def applyAccrual_def ck(1) creator_reads(2) [OF books] run
        flip: a_def p_def) (simp add: add run flip: b_def, blast)
  ultimately show ?thesis using key by (intro exI [of _ b]) (auto simp: b_def p)
qed

lemma find_append: "find P (xs @ ys) = (case find P xs of None \<Rightarrow> find P ys | Some x \<Rightarrow> Some x)"
  by (induction xs) auto

definition settled_pool :: "DotCastPoolSnapshot \<Rightarrow> string \<Rightarrow> DotCastSettlementRecord \<Rightarrow> bool" where
  "settled_pool s k se \<longleftrightarrow> p_originatingCreatorId (s_pool s) = Some k \<and> k \<noteq> '''' \<and>
     p_status (s_pool s) = Settled \<and> s_settlement s = Some se"

lemma apply_settled:
  assumes books: "creator_books db" and ready: "assertCreatorEconomyReady re env hasDb = Inr st"
    and s: "settled_pool (aw_snapshot input) k se"
  shows "applyDotCastCreatorRakeShareSettlement rt clock re env input hasDb db =
    (case find (\<lambda>a. ac_poolId a = p_id (s_pool (aw_snapshot input))) (map snd (cd_accruals db)) of
       Some a \<Rightarrow> (Inr \<lparr>ar_applied = True, ar_idempotent = True,
         ar_creator = map_of (cd_creators db) (ac_creatorId a), ar_accrual = Some a,
         ar_balance = map_of (cd_balances db) (ac_creatorId a, ac_unit a), ar_status = st\<rparr>, db)
     | None \<Rightarrow>
         (case map_of (cd_creators db) k of
            Some c \<Rightarrow> if cr_status c = CreatorActive
              then creditRakeShare rt clock st c (s_pool (aw_snapshot input)) se
                (orElse (aw_now input) (s_updatedAt (aw_snapshot input))) db
              else (Inl (CodedError ''CREATOR_NOT_ACTIVE'' ''creator rake-share requires an active onboarded creator'' 409), db)
          | None \<Rightarrow> (Inl (CodedError ''CREATOR_NOT_ACTIVE'' ''creator rake-share requires an active onboarded creator'' 409), db)))"
  using s
  by (simp add: applyDotCastCreatorRakeShareSettlement_def ready settled_pool_def truthy_text_def Let_def
      creator_reads [OF books] split: option.split)

text \<open>A rake share is credited to an active creator of a settled pool that has none yet, or nothing happens.\<close>

lemma apply_outcome:
  fixes input :: ApplyCreatorRakeShareInput
  defines "pool \<equiv> s_pool (aw_snapshot input)" and "now \<equiv> orElse (aw_now input) (s_updatedAt (aw_snapshot input))"
  assumes books: "creator_books db" and now: "now \<noteq> ''''"
    and fits: "\<And>k se. settled_pool (aw_snapshot input) k se \<Longrightarrow> settlement_fits pool se"
    and room: "\<And>k se. settled_pool (aw_snapshot input) k se \<Longrightarrow>
      find (\<lambda>a. ac_poolId a = p_id pool) (map snd (cd_accruals db)) = None \<Longrightarrow> share_room db k (p_unit pool) (sr_rakeAmount se)"
  obtains (same) "snd (applyDotCastCreatorRakeShareSettlement rt clock re env input hasDb db) = db"
  | (credited) status c k se a b v where "assertCreatorEconomyReady re env hasDb = Inr status" "settled_pool (aw_snapshot input) k se"
      "find (\<lambda>a. ac_poolId a = p_id pool) (map snd (cd_accruals db)) = None"
      "map_of (cd_creators db) k = Some c" "cr_status c = CreatorActive" "a = rakeAccrual status c pool se now"
      "snd (applyDotCastCreatorRakeShareSettlement rt clock re env input hasDb db) = with_event v (credited_db db a b)"
      "creator_books (credited_db db a b)" "eb_creatorId b = k" "eb_unit b = p_unit pool"
      "eb_available b = earned eb_available db k (p_unit pool) + ac_creatorShare a"
proof (cases "\<exists>status k se. assertCreatorEconomyReady re env hasDb = Inr status \<and> settled_pool (aw_snapshot input) k se")
  case True
  then obtain status k se where ready: "assertCreatorEconomyReady re env hasDb = Inr status"
      and s: "settled_pool (aw_snapshot input) k se" by blast
  note un = apply_settled [OF books ready s, of rt clock]
  show thesis
  proof (cases "find (\<lambda>a. ac_poolId a = p_id pool) (map snd (cd_accruals db))")
    case None
    show thesis
    proof (cases "map_of (cd_creators db) k")
      case (Some c)
      let ?a = "rakeAccrual status c pool se now"
      obtain b v r where b: "creditRakeShare rt clock status c pool se now db = (r, with_event v (credited_db db ?a b))"
          "creator_books (credited_db db ?a b)" "eb_creatorId b = k" "eb_unit b = p_unit pool"
          "eb_available b = earned eb_available db k (p_unit pool) + ac_creatorShare ?a"
        using creditRakeShare_ok [OF books Some ready_status_ok [OF ready] fits [OF s] now None room [OF s None], of rt clock] by blast
      show thesis
      proof (cases "cr_status c = CreatorActive")
        case True
        then have "snd (applyDotCastCreatorRakeShareSettlement rt clock re env input hasDb db) = with_event v (credited_db db ?a b)"
          using un None Some b(1) by (simp add: pool_def now_def)
        then show thesis by (rule credited [OF ready s None Some True refl _ b(2-5)])
      qed (rule same, use un None Some in \<open>simp add: pool_def\<close>)
    qed (rule same, use un None in \<open>simp add: pool_def\<close>)
  qed (rule same, use un in \<open>simp add: pool_def\<close>)
next
  case False
  then show thesis
    by (intro same) (auto simp: applyDotCastCreatorRakeShareSettlement_def ebind_def Let_def settled_pool_def truthy_text_def
        split: prod.split sum.split option.split bool.split)
qed

end
