(* ===== verification/CreatorPayouts.thy ===== *)
theory CreatorPayouts
  imports CreatorLedger
begin

text \<open>
  The pay-outs of creators over the USDC rail: what a request and a confirmation do to the tables of the
  creators and to those of the rail, and the two ledgers as one state machine.
\<close>

subsection \<open>Trimmed texts\<close>

lemma trim_id:
  assumes "s \<noteq> []" "\<not> is_white (hd s)" "\<not> is_white (last s)"
  shows "trim s = s"
proof -
  have d: "dropWhile is_white t = t" if "t \<noteq> []" "\<not> is_white (hd t)" for t
    using that by (cases t) auto
  have "dropWhile is_white s = s" "dropWhile is_white (rev s) = rev s"
    using assms d [of s] d [of "rev s"] by (simp_all add: hd_rev)
  then show ?thesis by (simp add: trim_def)
qed

lemma trimmed_last:
  assumes "trim s = s" "s \<noteq> []"
  shows "\<not> is_white (last s)"
proof -
  let ?t = "dropWhile is_white (rev (dropWhile is_white s))"
  have eq: "s = rev ?t" using assms(1) by (simp add: trim_def)
  then have "?t \<noteq> []" using assms(2) by (metis rev.simps(1))
  then have "\<not> is_white (hd ?t)" by (rule hd_dropWhile)
  moreover have "last s = hd ?t" by (subst eq) (simp add: last_rev)
  ultimately show ?thesis by simp
qed

lemma trim_prefixed:
  assumes "trim s = s" "s \<noteq> []" "t \<noteq> []" "\<not> is_white (hd t)"
  shows "trim (t @ s) = t @ s"
  using assms trimmed_last [OF assms(1,2)] by (intro trim_id) simp_all

declare show_hex.simps [simp del]

lemma hex_last: "\<not> is_white (last (show_hex n))" "show_hex n \<noteq> []"
proof -
  have "\<forall>i < 16. \<not> is_white (''0123456789abcdef'' ! i)" by code_simp
  then show "\<not> is_white (last (show_hex n))" by (subst show_hex.simps) simp
  show "show_hex n \<noteq> []" by (subst show_hex.simps) simp
qed

lemma signature_trimmed [simp]: "trim (mockSolanaSignature x) = mockSolanaSignature x" "mockSolanaSignature x \<noteq> []"
proof -
  have last: "last (mockSolanaSignature x) = last (show_hex n)" if "hashText x = padStart 8 CHR ''0'' (show_hex n)" for n
    using that hex_last(2) [of n] by (simp add: mockSolanaSignature_def padStart_def)
  obtain n where "hashText x = padStart 8 CHR ''0'' (show_hex n)" by (simp add: hashText_def)
  then show "trim (mockSolanaSignature x) = mockSolanaSignature x"
    using last hex_last(1) by (intro trim_id) (simp_all add: mockSolanaSignature_def is_white_def)
  show "mockSolanaSignature x \<noteq> []" by (simp add: mockSolanaSignature_def)
qed

text \<open>The account of a creator on the rail, and the prefix of its keys there.\<close>

definition rail_user :: "string \<Rightarrow> string" where
  "rail_user k = ''creator:'' @ k"

lemma rail_user_nonempty [simp]: "rail_user k \<noteq> []"
  by (simp add: rail_user_def)

lemma creator_ids_trimmed:
  assumes "trim k = k" "k \<noteq> []"
  shows "trim (rail_user k) = rail_user k"
    "trim (withdrawalTransferId u (rail_user k)) = withdrawalTransferId u (rail_user k)"
  using trim_prefixed [OF assms, of "''creator:''"]
    trim_prefixed [OF assms, of "''dotcast:e5:withdrawal:'' @ u @ '':'' @ ''creator:''"]
  by (simp_all add: withdrawalTransferId_def is_white_def rail_user_def)

subsection \<open>The rail\<close>

lemma rows_tables: "rows_ok db \<Longrightarrow> table_ok transfer_ok (db_transfers db)"
    "rows_ok db \<Longrightarrow> table_ok balance_ok (db_balances db)"
  by (simp_all add: rows_ok_def)

lemma rows_ok_events [simp]: "rows_ok (db\<lparr>db_railEvents := ev\<rparr>) = rows_ok db"
  by (simp add: rows_ok_def)

lemma read_balance_ok: "rows_ok db \<Longrightarrow> balance_ok u (readSettlementBalance db u now)"
  using bal_nonneg [of db _ u] by (simp add: balance_ok_def balance_check_def)

lemma appendEvent_run: "appendEvent e db = (Inr (), db\<lparr>db_railEvents := insert_new (tv_eventId e) e (db_railEvents db)\<rparr>)"
  by (simp add: appendEvent_def)

text \<open>Raising the rail balance of a creator.\<close>

lemma topUpRail_run:
  assumes "rows_ok db" "0 \<le> eb_available b"
  shows "\<exists>db'. topUpRail u b now db = (Inr (), db') \<and> rows_ok db' \<and> db_transfers db' = db_transfers db \<and>
    bal Available db' u = max (bal Available db u) (eb_available b) \<and>
    (\<forall>a v. v \<noteq> u \<or> a \<noteq> Available \<longrightarrow> bal a db' v = bal a db v)"
proof (cases "bal Available db u < eb_available b")
  case True
  let ?b = "(readSettlementBalance db u now)\<lparr>sb_availableUsdc := eb_available b, sb_updatedAt := now\<rparr>"
  have ok: "balance_ok u ?b" using read_balance_ok [OF assms(1), of u now] assms(2) by (simp add: balance_ok_def balance_check_def)
  let ?d = "db\<lparr>db_balances := AList.update u ?b (db_balances db)\<rparr>"
  have "topUpRail u b now db = (Inr (), ?d)" using True saveBalance_ok [OF ok] by (simp add: topUpRail_def)
  moreover have "rows_ok ?d" using assms(1) ok by (simp add: rows_ok_def)
  moreover have "bal a ?d v = (if v = u then account_of a ?b else bal a db v)" for a v by (simp add: bal_def)
  moreover have "account_of a ?b = (if a = Available then eb_available b else bal a db u)" for a by (cases a) simp_all
  ultimately show ?thesis using True by (intro exI [of _ ?d]) auto
next
  case False
  then show ?thesis using assms(1) by (simp add: topUpRail_def)
qed

text \<open>What a request of a withdrawal leaves behind.\<close>

definition signed_for :: "DotCastSettlementTransfer \<Rightarrow> string \<Rightarrow> int \<Rightarrow> bool" where
  "signed_for t u x \<longleftrightarrow> tf_kind t = Withdrawal \<and> tf_userId t = u \<and> tf_amount t = x \<and>
     (\<exists>s. tf_mockSignature t = Some s \<and> s \<noteq> '''' \<and> trim s = s) \<and>
     (\<forall>r. tf_txRef t = Some r \<longrightarrow> r \<noteq> '''' \<and> trim r = r)"

lemma signWithdrawal_run:
  assumes rows: "rows_ok db" and x: "0 < x" and d: "destination \<noteq> ''''"
    and new: "map_of (db_transfers db) (withdrawalTransferId u key) = None"
  shows "bal Available db u < x \<and> (\<exists>e. signWithdrawal rail (withdrawalTransferId u key) u x destination now db = (Inl e, db)) \<or>
    x \<le> bal Available db u \<and> (\<exists>w db'. signWithdrawal rail (withdrawalTransferId u key) u x destination now db = (Inr w, db') \<and>
      rows_ok db' \<and> ro_transfer w = withdrawalTransfer rail (withdrawalTransferId u key) u x destination now \<and>
      db_transfers db' = db_transfers db @ [(withdrawalTransferId u key, ro_transfer w)] \<and> ro_broadcast w = False \<and>
      ro_rail w = rail \<and> \<not> ro_idempotent w \<and>
      bal Available db' u = num (bal Available db u - x) \<and>
      bal PendingWithdrawal db' u = num (bal PendingWithdrawal db u + x))"
proof (cases "bal Available db u < x")
  case False
  let ?id = "withdrawalTransferId u key"
  define t where "t = withdrawalTransfer rail ?id u x destination now"
  define b where "b = (readSettlementBalance db u now)\<lparr>sb_availableUsdc := js_sub (bal Available db u) x,
    sb_pendingWithdrawalUsdc := js_add (bal PendingWithdrawal db u) x, sb_updatedAt := now\<rparr>"
  have nn: "0 \<le> js_sub (bal Available db u) x" "0 \<le> js_add (bal PendingWithdrawal db u) x"
    using False x bal_nonneg [OF rows, of PendingWithdrawal u] by (simp_all add: js_sub_def js_add_def num_nonneg)
  have bok: "balance_ok u b"
    using read_balance_ok [OF rows, of u now] nn by (simp add: balance_ok_def balance_check_def b_def)
  have tid: "tf_transferId t = ?id" "0 < tf_amount t" "\<not> deposit_tx_ref_taken db t"
    using x by (simp_all add: t_def withdrawalTransfer_def deposit_tx_ref_taken_def)
  have tok: "transfer_ok ?id t"
    using x d by (auto simp: t_def transfer_ok_def withdrawalTransfer_def nullableText_def truthy_text_def)
  define db1 where "db1 = db\<lparr>db_transfers := db_transfers db @ [(?id, t)], db_balances := AList.update u b (db_balances db)\<rparr>"
  have rows1: "rows_ok db1" using rows bok tok new by (simp add: db1_def rows_ok_def)
  have ins: "insertTransfer t db = (Inr (), db\<lparr>db_transfers := db_transfers db @ [(?id, t)]\<rparr>)"
    using new tid by (simp add: insertTransfer_def)
  have "\<exists>ev. signWithdrawal rail ?id u x destination now db = (Inr \<lparr>ro_status = Signed, ro_idempotent = False,
      ro_transfer = t, ro_balance = b, ro_rail = rail, ro_broadcast = False\<rparr>, db1\<lparr>db_railEvents := ev\<rparr>)"
    using False by (simp add: signWithdrawal_def Let_def ins saveBalance_ok [OF bok] appendEvent_run db1_def flip: t_def b_def)
      (rule exI, rule refl)
  moreover have "bal Available db1 u = num (bal Available db u - x)" "bal PendingWithdrawal db1 u = num (bal PendingWithdrawal db u + x)"
    by (simp_all add: db1_def b_def bal_def js_sub_def js_add_def)
  moreover have "bal a (db\<lparr>db_railEvents := ev\<rparr>) v = bal a db v" for a ev v and db :: settlement_db by (simp add: bal_def)
  ultimately show ?thesis using False rows1 t_def by (auto simp: db1_def)
qed (auto simp: signWithdrawal_def)

text \<open>When the rail refuses a withdrawal for which there is balance.\<close>

definition rail_refuses :: "'e DotCastSettlementRailEnv_scheme \<Rightarrow> string \<Rightarrow> int \<Rightarrow> bool" where
  "rail_refuses env d x \<longleftrightarrow> (\<exists>e. assertDevnetMockRail env = Inl e) \<or> \<not> isLikelySolanaAddress (trim d) \<or>
     x > rail_withdrawalMaxMinorUnits (readSolanaUsdcSettlementRailStatus env)"

lemma assertDevnetMockRail_status: "assertDevnetMockRail env = Inr rail \<Longrightarrow> rail = readSolanaUsdcSettlementRailStatus env"
  by (auto simp: assertDevnetMockRail_def Let_def split: if_splits)

lemma requestWithdrawal_run:
  assumes rows: "rows_ok db" and u: "trim u = u" "u \<noteq> ''''" and k: "trim key = key" "key \<noteq> ''''"
    and x: "0 < x" "is_safe_integer x" "x \<le> bal Available db u"
    and new: "map_of (db_transfers db) (withdrawalTransferId u key) = None"
    and run: "requestDevnetWithdrawal clock env \<lparr>wi_userId = u, wi_amount = Fin (of_int x), wi_destination = d,
      wi_idempotencyKey = key, wi_now = Some now\<rparr> db = (r, db')"
  shows "(\<exists>e. r = Inl e) \<and> db' = db \<and> rail_refuses env d x \<or>
    (\<exists>w t. r = Inr w \<and> \<not> rail_refuses env d x \<and> rows_ok db' \<and> ro_transfer w = t \<and> signed_for t u x \<and> tf_status t = Signed \<and>
       tf_transferId t = withdrawalTransferId u key \<and> tf_destination t = Some (trim d) \<and> trim d \<noteq> '''' \<and>
       db_transfers db' = db_transfers db @ [(tf_transferId t, t)] \<and>
       bal Available db' u = num (bal Available db u - x) \<and>
       bal PendingWithdrawal db' u = num (bal PendingWithdrawal db u + x))"
proof -
  note sg = signWithdrawal_run [OF rows x(1) _ new]
  have "(\<exists>e. r = Inl e) \<and> db' = db \<and> rail_refuses env d x \<or>
    (\<exists>rail. \<not> rail_refuses env d x \<and> trim d \<noteq> '''' \<and> signWithdrawal rail (withdrawalTransferId u key) u x (trim d) now db = (r, db'))"
    using run u k x(1,2) new
    by (auto simp: requestDevnetWithdrawal_def Let_def ebind_def requireSettlementText_def assertPositiveAmount_def
        getTransfer_def rail_refuses_def isLikelySolanaAddress_def dest: assertDevnetMockRail_status
        split: prod.splits sum.splits if_splits option.splits)
  then show ?thesis
  proof (elim disjE exE conjE)
    fix rail assume nz: "trim d \<noteq> ''''" and ok: "\<not> rail_refuses env d x"
      and s: "signWithdrawal rail (withdrawalTransferId u key) u x (trim d) now db = (r, db')"
    obtain w db'' where w: "signWithdrawal rail (withdrawalTransferId u key) u x (trim d) now db = (Inr w, db'')"
        "rows_ok db''" "ro_transfer w = withdrawalTransfer rail (withdrawalTransferId u key) u x (trim d) now"
        "db_transfers db'' = db_transfers db @ [(withdrawalTransferId u key, ro_transfer w)]"
        "bal Available db'' u = num (bal Available db u - x)" "bal PendingWithdrawal db'' u = num (bal PendingWithdrawal db u + x)"
      using sg [OF nz, of rail now] x(3) by (auto simp: not_less)
    have "signed_for (ro_transfer w) u x \<and> tf_status (ro_transfer w) = Signed \<and>
        tf_transferId (ro_transfer w) = withdrawalTransferId u key \<and> tf_destination (ro_transfer w) = Some (trim d)"
      by (simp add: w(3) signed_for_def withdrawalTransfer_def)
    then show ?thesis using w(2,4-6) s nz ok unfolding w(1) by auto
  qed auto
qed

lemma confirmationRef_trimmed:
  assumes "tf_mockSignature t = Some s" "s \<noteq> ''''" "trim s = s"
  shows "confirmationRef ref t \<noteq> ''''" "trim (confirmationRef ref t) = confirmationRef ref t"
proof -
  have "confirmationRef ref t = ''mock-confirm:'' @ s \<or> (\<exists>x. confirmationRef ref t = trim x \<and> trim x \<noteq> '''')"
    using assms(1) by (cases ref) (auto simp: confirmationRef_def nullableText_def truthy_text_def)
  then show "confirmationRef ref t \<noteq> ''''" "trim (confirmationRef ref t) = confirmationRef ref t"
    using trim_prefixed [OF assms(3,2), of "''mock-confirm:''"] by (auto simp: is_white_def)
qed

lemma confirmTransfer_run:
  assumes rows: "rows_ok db" and t: "map_of (db_transfers db) (tf_transferId t) = Some t" "tf_status t = Signed"
    and signed: "signed_for t u x"
  shows "\<exists>w t' db'. confirmTransfer rail t ref now db = (Inr w, db') \<and> rows_ok db' \<and> ro_transfer w = t' \<and>
    signed_for t' u x \<and> tf_status t' = Confirmed \<and> tf_transferId t' = tf_transferId t \<and>
    db_transfers db' = AList.update (tf_transferId t) t' (db_transfers db) \<and> bal Available db' u = bal Available db u"
proof -
  have ok: "transfer_ok (tf_transferId t) t" using table_okD [OF rows_tables(1) [OF rows] t(1)] .
  have u: "tf_userId t = u" "tf_kind t = Withdrawal" using signed by (simp_all add: signed_for_def)
  let ?ref = "confirmationRef ref t"
  have ref: "?ref \<noteq> ''''" "trim ?ref = ?ref" using signed confirmationRef_trimmed by (auto simp: signed_for_def)
  define t' where "t' = t\<lparr>tf_status := Confirmed, tf_txRef := Some ?ref, tf_updatedAt := now,
    tf_eventJson := spread (tf_eventJson t) [(''confirmedAt'', JStr now)]\<rparr>"
  define b where "b = (readSettlementBalance db u now)\<lparr>
    sb_pendingWithdrawalUsdc := max 0 (js_sub (bal PendingWithdrawal db u) (tf_amount t)), sb_updatedAt := now\<rparr>"
  have tok: "transfer_ok (tf_transferId t) t'"
    using ok u ref by (auto simp: t'_def transfer_ok_def nullableText_def truthy_text_def)
  have signed': "signed_for t' u x" using signed ref by (simp add: signed_for_def t'_def)
  have bok: "balance_ok u b"
    using read_balance_ok [OF rows, of u now] by (simp add: balance_ok_def balance_check_def b_def)
  have upd: "updateTransfer t' db = (Inr (), db\<lparr>db_transfers := AList.update (tf_transferId t) t' (db_transfers db)\<rparr>)"
    by (rule updateTransfer_ok [OF t(1), where st = Confirmed and r = "Some ?ref" and now = now and j = "tf_eventJson t'"])
      (simp add: t'_def)
  define db1 where "db1 = db\<lparr>db_transfers := AList.update (tf_transferId t) t' (db_transfers db),
    db_balances := AList.update u b (db_balances db)\<rparr>"
  have "rows_ok db1" using rows bok tok by (simp add: db1_def rows_ok_def)
  moreover have "bal Available db1 u = bal Available db u" by (simp add: db1_def bal_def b_def)
  moreover have "\<exists>ev. confirmTransfer rail t ref now db = (Inr \<lparr>ro_status = Confirmed, ro_idempotent = False,
      ro_transfer = t', ro_balance = b, ro_rail = rail\<rparr>, db1\<lparr>db_railEvents := ev\<rparr>)"
    by (simp add: confirmTransfer_def Let_def u(1) upd saveBalance_ok [OF bok] appendEvent_run db1_def flip: t'_def b_def)
      (rule exI, rule refl)
  moreover have "bal a (db\<lparr>db_railEvents := ev\<rparr>) v = bal a db v" for a ev v and db :: settlement_db by (simp add: bal_def)
  ultimately show ?thesis using signed' by (auto simp: db1_def t'_def)
qed

text \<open>The confirmation of a withdrawal.\<close>

lemma confirmWithdrawal_run:
  assumes rows: "rows_ok db" and t: "map_of (db_transfers db) i = Some t" and i: "trim i = i" "i \<noteq> ''''"
    and signed: "signed_for t u x"
    and run: "confirmMockWithdrawal clock env \<lparr>ki_transferId = i, ki_txRef = ref, ki_now = Some now\<rparr> db = (r, db')"
  shows "(\<exists>e. r = Inl e) \<and> db' = db \<and> (\<exists>e. assertDevnetMockRail env = Inl e) \<or>
    (\<exists>w t'. r = Inr w \<and> rows_ok db' \<and> ro_transfer w = t' \<and> signed_for t' u x \<and> tf_status t' = Confirmed \<and>
       (tf_status t = Confirmed \<and> t' = t \<and> db' = db \<or>
        tf_status t = Signed \<and> db_transfers db' = AList.update i t' (db_transfers db) \<and>
          tf_transferId t' = i \<and> bal Available db' u = bal Available db u))"
proof -
  have ok: "transfer_ok i t" using table_okD [OF rows_tables(1) [OF rows] t] .
  then have id: "tf_transferId t = i" "tf_status t = Signed \<or> tf_status t = Confirmed" "tf_kind t = Withdrawal"
    using signed by (auto simp: transfer_ok_def signed_for_def)
  have "(\<exists>e. r = Inl e) \<and> db' = db \<and> (\<exists>e. assertDevnetMockRail env = Inl e) \<or>
    (\<exists>rail. if tf_status t = Confirmed then r = Inr \<lparr>ro_status = Confirmed, ro_idempotent = True, ro_transfer = t,
           ro_balance = readSettlementBalance db (tf_userId t) now, ro_rail = rail\<rparr> \<and> db' = db
       else confirmTransfer rail t ref now db = (r, db'))"
    using run i t id
    by (auto simp: confirmMockWithdrawal_def Let_def ebind_def requireSettlementText_def
        getTransfer_eq [OF rows_tables(1) [OF rows]] split: prod.splits sum.splits if_splits)
  then show ?thesis
  proof (elim disjE exE)
    fix rail
    assume h: "if tf_status t = Confirmed then r = Inr \<lparr>ro_status = Confirmed, ro_idempotent = True, ro_transfer = t,
           ro_balance = readSettlementBalance db (tf_userId t) now, ro_rail = rail\<rparr> \<and> db' = db
       else confirmTransfer rail t ref now db = (r, db')"
    show ?thesis
    proof (cases "tf_status t = Confirmed")
      case False
      obtain w t' db'' where w: "confirmTransfer rail t ref now db = (Inr w, db'')" "rows_ok db''" "ro_transfer w = t'"
          "signed_for t' u x" "tf_status t' = Confirmed" "tf_transferId t' = i"
          "db_transfers db'' = AList.update i t' (db_transfers db)" "bal Available db'' u = bal Available db u"
        using confirmTransfer_run [OF rows, of t u x rail ref now] t id False signed by auto
      then show ?thesis using h False id(2) by auto
    qed (use h rows signed in auto)
  qed auto
qed

subsection \<open>The two ledgers\<close>

definition payout_backed :: "settlement_db \<Rightarrow> DotCastCreatorPayout \<Rightarrow> bool" where
  "payout_backed rail p \<longleftrightarrow> (\<exists>i t. py_railTransferId p = Some i \<and> map_of (db_transfers rail) i = Some t \<and>
     signed_for t (rail_user (py_creatorId p)) (py_amount p) \<and>
     tf_status t = (if py_status p = PayoutSigned then Signed else Confirmed))"

definition ledgers_agree :: "creator_rail \<Rightarrow> bool" where
  "ledgers_agree st \<longleftrightarrow> creator_books (cl_creators st) \<and> rows_ok (cl_rail st) \<and>
     (\<forall>k p. map_of (cd_payouts (cl_creators st)) k = Some p \<longrightarrow> payout_backed (cl_rail st) p) \<and>
     distinct (map (py_railTransferId \<circ> snd) (cd_payouts (cl_creators st)))"

text \<open>
  The identifiers of a pay-out and of its withdrawal join the creator and the key with a colon; the
  code relies on them being new when the key is.
\<close>

definition ids_new :: "creator_rail \<Rightarrow> string \<Rightarrow> string \<Rightarrow> bool" where
  "ids_new st c key \<longleftrightarrow> map_of (cd_payouts (cl_creators st)) (payoutId c key) = None \<and>
     map_of (db_transfers (cl_rail st)) (withdrawalTransferId (rail_user c) (rail_user key)) = None"

lemma checkPayout_Inr:
  assumes books: "creator_books db" and run: "checkPayout status input db = Inr (c, x, b, d)"
  shows "map_of (cd_creators db) (trim (pi_creatorId input)) = Some c \<and> cr_status c = CreatorActive \<and>
    cr_kycStatus c = KycVerified \<and> cr_creatorId c = trim (pi_creatorId input) \<and>
    0 < x \<and> is_safe_integer x \<and> es_payoutMinMinorUnits status \<le> x \<and> x \<le> es_payoutMaxMinorUnits status \<and>
    map_of (cd_balances db) (cr_creatorId c, Usdc) = Some b \<and> x \<le> eb_available b \<and>
    Option.bind (pi_amount input) json_safe_integer = Some x"
proof -
  have amount: "parseCreatorMinorUnits v l = Inr y \<longleftrightarrow> Option.bind v json_safe_integer = Some y \<and> 0 < y" for v l y
    by (auto simp: parseCreatorMinorUnits_def Let_def split: option.splits)
  have active: "requireActiveCreator db i = Inr c \<Longrightarrow>
      map_of (cd_creators db) (trim i) = Some c \<and> cr_status c = CreatorActive" for i
    by (auto simp: requireActiveCreator_def requireText_def rbind_eq_Inr creator_reads [OF books] Let_def
        split: if_splits option.splits)
  have bal: "requireCreatorBalance db i u = Inr b \<Longrightarrow> map_of (cd_balances db) (i, u) = Some b" for i u
    by (auto simp: requireCreatorBalance_def rbind_eq_Inr creator_reads [OF books] split: option.splits)
  have "requireActiveCreator db (pi_creatorId input) = Inr c \<and> cr_kycStatus c = KycVerified \<and>
      parseCreatorMinorUnits (pi_amount input) ''amount'' = Inr x \<and> es_payoutMinMinorUnits status \<le> x \<and>
      x \<le> es_payoutMaxMinorUnits status \<and> requireCreatorBalance db (cr_creatorId c) Usdc = Inr b \<and> x \<le> eb_available b"
    using run by (auto simp: checkPayout_def rbind_eq_Inr split: if_splits option.splits)
  then show ?thesis
    using active bal amount table_okD [OF creator_books_tables(1) [OF books]]
    by (auto simp: creator_wf_def bind_eq_Some_conv dest!: json_safe_integer_safe)
qed

definition paid_db :: "creator_db \<Rightarrow> DotCastCreatorPayout \<Rightarrow> DotCastCreatorEarningsBalance \<Rightarrow> creator_db" where
  "paid_db db p b = db\<lparr>cd_payouts := cd_payouts db @ [(py_payoutId p, p)],
     cd_balances := AList.update (eb_creatorId b, eb_unit b) b (cd_balances db)\<rparr>"

text \<open>Recording a signed pay-out of an amount that is available.\<close>

lemma insertPayout_ok:
  assumes books: "creator_books db" and b: "map_of (cd_balances db) (c, Usdc) = Some b"
    and p: "payout_wf (payoutId c key) p" "py_creatorId p = c" "py_idempotencyKey p = key" "py_amount p = x" "py_status p = PayoutSigned"
    and x: "0 < x" "x \<le> eb_available b"
    and new: "map_of (cd_payouts db) (payoutId c key) = None" "find (\<lambda>p. py_idempotencyKey p = key) (map snd (cd_payouts db)) = None"
    and now: "now \<noteq> ''''"
  defines "b' \<equiv> b\<lparr>eb_available := js_sub (eb_available b) x, eb_pendingPayout := js_add (eb_pendingPayout b) x, eb_updatedAt := now\<rparr>"
  shows "\<exists>v'. insertPayout p b' v db = (Inr (), with_event v' (paid_db db p b'))" "creator_books (paid_db db p b')"
    "eb_available b' = eb_available b - x" "eb_pendingPayout b' = eb_pendingPayout b + x" "eb_lifetimePaid b' = eb_lifetimePaid b"
    "eb_lifetimeAccrued b' = eb_lifetimeAccrued b" "(eb_creatorId b', eb_unit b') = (c, Usdc)"
proof -
  have wf: "balance_wf (c, Usdc) b" using table_okD [OF creator_books_tables(2) [OF books] b] .
  have ar: "js_sub (eb_available b) x = eb_available b - x" "js_add (eb_pendingPayout b) x = eb_pendingPayout b + x"
    using wf x by (auto simp: balance_wf_def is_safe_integer_def intro!: js_sub_safe js_add_safe)
  show f: "eb_available b' = eb_available b - x" "eb_pendingPayout b' = eb_pendingPayout b + x" "eb_lifetimePaid b' = eb_lifetimePaid b"
      "eb_lifetimeAccrued b' = eb_lifetimeAccrued b" "(eb_creatorId b', eb_unit b') = (c, Usdc)"
    using wf by (simp_all add: b'_def ar balance_wf_def)
  have wf': "balance_wf (c, Usdc) b'" using wf x now f by (simp add: balance_wf_def) (simp add: b'_def)
  have check: "earnings_check b'" using wf wf' by (auto simp: earnings_check_def balance_wf_def)
  have pid: "py_payoutId p = payoutId c key" using p(1) by (simp add: payout_wf_def)
  have nokey: "\<not> list_ex (\<lambda>q. py_idempotencyKey q = key) (map snd (cd_payouts db))"
    using new(2) by (auto simp: find_None_iff list_ex_iff)
  have ins: "payoutInsert p db = (Inr (), db\<lparr>cd_payouts := cd_payouts db @ [(payoutId c key, p)]\<rparr>)"
    using new(1) nokey p x by (simp add: payoutInsert_def insert_new_def pid)
  show "\<exists>v'. insertPayout p b' v db = (Inr (), with_event v' (paid_db db p b'))"
    using check by (intro exI [of _ v]) (simp add: insertPayout_def batch_def ins balanceUpsert_def paid_db_def pid)
  have rows: "creator_rows (paid_db db p b')"
    using books wf' new p(1,3) nokey f(5)
    by (auto simp: creator_books_def creator_rows_def paid_db_def pid list_ex_iff intro!: table_ok_insert table_ok_update)
  show "creator_books (paid_db db p b')"
  proof (rule creator_books_post [OF books rows, where c = c and u = Usdc and b = b' and x = 0 and y = x and z = 0])
    show "payouts_at PayoutSigned (paid_db db p b') c' u' = payouts_at PayoutSigned db c' u' + (if (c', u') = (c, Usdc) then x else 0)"
      "payouts_at PayoutConfirmed (paid_db db p b') c' u' = payouts_at PayoutConfirmed db c' u' + (if (c', u') = (c, Usdc) then 0 else 0)"
      for c' u' using p by (auto simp: payouts_at_def paid_db_def)
  qed (use f b in \<open>simp_all add: paid_db_def accrued_shares_def earned_def\<close>)
qed

text \<open>Recording the confirmation of a signed pay-out.\<close>

definition settled_db :: "creator_db \<Rightarrow> DotCastCreatorPayout \<Rightarrow> DotCastCreatorEarningsBalance \<Rightarrow> creator_db" where
  "settled_db db p b = db\<lparr>cd_payouts := AList.update (py_payoutId p) p (cd_payouts db),
     cd_balances := AList.update (eb_creatorId b, eb_unit b) b (cd_balances db)\<rparr>"

lemma map_update_same:
  assumes "map_of tbl k = Some r" "f r' = f r"
  shows "map (f \<circ> snd) (AList.update k r' tbl) = map (f \<circ> snd) tbl"
  using assms by (induction tbl) auto

lemma pending_covers:
  assumes books: "creator_books db" and p: "map_of (cd_payouts db) k = Some p" "py_status p = PayoutSigned"
  shows "py_amount p \<le> earned eb_pendingPayout db (py_creatorId p) Usdc"
proof -
  have t: "table_ok payout_wf (cd_payouts db)" by (rule creator_books_tables [OF books])
  have "(if py_status p = PayoutSigned then py_amount p else 0) \<le>
      ksum (\<lambda>p. (py_creatorId p, Usdc)) (\<lambda>p. if py_status p = PayoutSigned then py_amount p else 0) (py_creatorId p, Usdc) (cd_payouts db)"
    using ksum_ge [OF p(1) table_ok_akeys [OF t], of "\<lambda>p. if py_status p = PayoutSigned then py_amount p else 0"
        "\<lambda>p. (py_creatorId p, Usdc)"] table_okD [OF t] by (fastforce simp: payout_wf_def)
  then show ?thesis using books p(2) by (simp add: creator_books_def payouts_at_def)
qed

lemma updatePayout_ok:
  fixes j :: json_object and v :: DotCastCreatorEvent
  assumes books: "creator_books db" and b: "map_of (cd_balances db) (py_creatorId p, Usdc) = Some b"
    and p: "map_of (cd_payouts db) k = Some p" "py_status p = PayoutSigned"
    and ref: "\<forall>r. ref = Some r \<longrightarrow> r \<noteq> '''' \<and> trim r = r" "\<forall>s. sig = Some s \<longrightarrow> s \<noteq> '''' \<and> trim s = s"
    and now: "now \<noteq> ''''"
  defines "p' \<equiv> p\<lparr>py_status := PayoutConfirmed, py_railTxRef := ref, py_mockSignature := sig, py_updatedAt := now, py_eventJson := j\<rparr>"
    and "b' \<equiv> b\<lparr>eb_pendingPayout := max 0 (js_sub (eb_pendingPayout b) (py_amount p)),
      eb_lifetimePaid := js_add (eb_lifetimePaid b) (py_amount p), eb_updatedAt := now\<rparr>"
  shows "\<exists>v'. updatePayout p' b' v db = (Inr (), with_event v' (settled_db db p' b'))" "creator_books (settled_db db p' b')"
    "eb_available b' = eb_available b" "eb_pendingPayout b' = eb_pendingPayout b - py_amount p"
    "eb_lifetimePaid b' = eb_lifetimePaid b + py_amount p" "eb_lifetimeAccrued b' = eb_lifetimeAccrued b"
    "(eb_creatorId b', eb_unit b') = (py_creatorId p, Usdc)"
proof -
  let ?c = "py_creatorId p" and ?x = "py_amount p"
  have wf: "balance_wf (?c, Usdc) b" using table_okD [OF creator_books_tables(2) [OF books] b] .
  have pwf: "payout_wf k p" using table_okD [OF creator_books_tables(4) [OF books] p(1)] .
  have x: "0 < ?x" "?x \<le> eb_pendingPayout b" using pending_covers [OF books p] b pwf by (simp_all add: earned_def payout_wf_def)
  have ar: "js_sub (eb_pendingPayout b) ?x = eb_pendingPayout b - ?x" "js_add (eb_lifetimePaid b) ?x = eb_lifetimePaid b + ?x"
    using wf x by (auto simp: balance_wf_def is_safe_integer_def intro!: js_sub_safe js_add_safe)
  show f: "eb_available b' = eb_available b" "eb_pendingPayout b' = eb_pendingPayout b - ?x"
      "eb_lifetimePaid b' = eb_lifetimePaid b + ?x" "eb_lifetimeAccrued b' = eb_lifetimeAccrued b"
      "(eb_creatorId b', eb_unit b') = (?c, Usdc)"
    using wf x by (simp_all add: b'_def ar balance_wf_def)
  have wf': "balance_wf (?c, Usdc) b'" using wf x now f by (simp add: balance_wf_def) (simp add: b'_def)
  have check: "earnings_check b'" using wf wf' by (auto simp: earnings_check_def balance_wf_def)
  have pid: "py_payoutId p' = k" using pwf by (simp add: payout_wf_def p'_def)
  have pwf': "payout_wf k p'" using pwf ref now by (simp add: payout_wf_def p'_def)
  have row: "update_row k (\<lambda>q. q\<lparr>py_status := PayoutConfirmed, py_railTxRef := ref, py_mockSignature := sig, py_updatedAt := now,
      py_eventJson := j\<rparr>) (cd_payouts db) = AList.update k p' (cd_payouts db)"
    using p(1) by (simp add: update_row_def p'_def)
  then show "\<exists>v'. updatePayout p' b' v db = (Inr (), with_event v' (settled_db db p' b'))"
    using check pid
    by (intro exI [of _ v]) (simp add: updatePayout_def batch_def balanceUpsert_def settled_db_def, simp add: p'_def)
  have keys: "map (py_idempotencyKey \<circ> snd) (AList.update k p' (cd_payouts db)) = map (py_idempotencyKey \<circ> snd) (cd_payouts db)"
    using p(1) by (rule map_update_same) (simp add: p'_def)
  have rows: "creator_rows (settled_db db p' b')"
    using books wf' pwf' f(5) keys
    by (auto simp: creator_books_def creator_rows_def settled_db_def pid intro!: table_ok_update)
  have ak: "akeys (cd_payouts db)" by (rule table_ok_akeys [OF creator_books_tables(4) [OF books]])
  show "creator_books (settled_db db p' b')"
  proof (rule creator_books_post [OF books rows, where c = ?c and u = Usdc and b = b' and x = 0 and y = "- ?x" and z = ?x])
    have own: "py_creatorId p' = ?c" "py_status p' = PayoutConfirmed" "py_amount p' = ?x" by (simp_all add: p'_def)
    show "payouts_at PayoutSigned (settled_db db p' b') c' u' = payouts_at PayoutSigned db c' u' + (if (c', u') = (?c, Usdc) then - ?x else 0)"
      "payouts_at PayoutConfirmed (settled_db db p' b') c' u' = payouts_at PayoutConfirmed db c' u' + (if (c', u') = (?c, Usdc) then ?x else 0)"
      for c' u'
      using p(2) by (simp_all add: payouts_at_def settled_db_def pid ksum_update [OF ak p(1)] own)
  qed (use f b in \<open>simp_all add: settled_db_def accrued_shares_def earned_def\<close>)
qed

subsection \<open>Requests\<close>

lemma on_creators_run: "f (cl_creators st) = (r, db) \<Longrightarrow> on_creators f st = (r, st\<lparr>cl_creators := db\<rparr>)"
  by (simp add: on_creators_def)

lemma on_rail_run: "f (cl_rail st) = (r, db) \<Longrightarrow> on_rail f st = (r, st\<lparr>cl_rail := db\<rparr>)"
  by (simp add: on_rail_def)

lemma on_creators_query [simp]: "on_creators (equery f) st = (f (cl_creators st), st)"
  by (simp add: on_creators_def)

definition new_request ::
  "js_runtime \<Rightarrow> string \<Rightarrow> 'e DotCastSettlementRailEnv_scheme \<Rightarrow> DotCastCreatorEconomyStatus \<Rightarrow> DotCastCreatorProfile \<Rightarrow> int
    \<Rightarrow> DotCastCreatorEarningsBalance \<Rightarrow> string \<Rightarrow> string \<Rightarrow> string \<Rightarrow> (creator_rail, CreatorPayoutResult) eff" where
  "new_request rt clock railEnv status creator amount balance destination idempotencyKey now =
     ebind (on_rail (topUpRail (rail_user (cr_creatorId creator)) balance now)) (\<lambda>_.
     ebind (on_rail (requestDevnetWithdrawal clock railEnv
       \<lparr>wi_userId = rail_user (cr_creatorId creator), wi_amount = Fin (of_int amount), wi_destination = destination,
        wi_idempotencyKey = rail_user idempotencyKey, wi_now = Some now\<rparr>)) (\<lambda>railResult.
       let payout = signedPayout status (cr_creatorId creator) amount destination idempotencyKey railResult now;
           nextBalance = balance\<lparr>
             eb_available := js_sub (eb_available balance) amount,
             eb_pendingPayout := js_add (eb_pendingPayout balance) amount, eb_updatedAt := now\<rparr>
       in ebind (on_creators (insertPayout payout nextBalance
            (creatorEvent rt clock CREATOR_PAYOUT_REQUESTED creator None (Some Usdc) (Some amount)
              [(''payoutId'', JStr (py_payoutId payout)),
               (''railTransferId'', jopt JStr (py_railTransferId payout)),
               (''status'', JStr (show_payout_status (py_status payout)))]))) (\<lambda>_.
            ereturn \<lparr>pp_idempotent = False, pp_payout = payout, pp_balance = nextBalance, pp_status = status\<rparr>)))"

lemma request_unfold:
  assumes books: "creator_books (cl_creators st)" and ready: "assertCreatorEconomyReady re env hasDb = Inr status"
    and key: "trim (pi_idempotencyKey input) \<noteq> ''''"
  shows "requestDotCastCreatorPayout rt clock re env input hasDb st =
    (case find (\<lambda>p. py_idempotencyKey p = trim (pi_idempotencyKey input)) (map snd (cd_payouts (cl_creators st))) of
       Some p \<Rightarrow> (rbind (requireCreatorBalance (cl_creators st) (py_creatorId p) Usdc)
         (\<lambda>b. Inr \<lparr>pp_idempotent = True, pp_payout = p, pp_balance = b, pp_status = status\<rparr>), st)
     | None \<Rightarrow> (case checkPayout status input (cl_creators st) of
         Inl e \<Rightarrow> (Inl e, st)
       | Inr (c, x, b, d) \<Rightarrow> new_request rt clock re status c x b d (trim (pi_idempotencyKey input))
           (orElse (pi_now input) clock) st))"
proof -
  have user: "creatorRailUserId (cr_creatorId c) = Inr (rail_user (cr_creatorId c))"
    if "checkPayout status input (cl_creators st) = Inr (c, x, b, d)" for c x b d
    using checkPayout_Inr [OF books that] table_okD [OF creator_books_tables(1) [OF books]]
    by (auto simp: creatorRailUserId_def requireText_def creator_wf_def rail_user_def)
  show ?thesis
    using key
    by (auto simp: requestDotCastCreatorPayout_def ready requireText_def Let_def creator_reads [OF books] user new_request_def
        ebind_def rbind_def rail_user_def split: option.split sum.split)
qed

lemma new_request_run:
  assumes agree: "ledgers_agree st" and check: "checkPayout status input (cl_creators st) = Inr (c, x, b, d)"
    and key: "trim key = key" "key \<noteq> ''''" and now: "now \<noteq> ''''"
    and nokey: "find (\<lambda>p. py_idempotencyKey p = key) (map snd (cd_payouts (cl_creators st))) = None"
    and new: "ids_new st (cr_creatorId c) key"
    and run: "new_request rt clock re status c x b d key now st = (r, st')"
  shows "(\<exists>e. r = Inl e) \<and> rail_refuses re d x \<and> cl_creators st' = cl_creators st \<and> rows_ok (cl_rail st') \<and>
      db_transfers (cl_rail st') = db_transfers (cl_rail st) \<or>
    (\<exists>res p b' v t. r = Inr res \<and> \<not> rail_refuses re d x \<and> pp_payout res = p \<and> pp_balance res = b' \<and> \<not> pp_idempotent res \<and>
       cl_creators st' = with_event v (paid_db (cl_creators st) p b') \<and> creator_books (paid_db (cl_creators st) p b') \<and>
       py_creatorId p = cr_creatorId c \<and> py_idempotencyKey p = key \<and> py_amount p = x \<and> py_status p = PayoutSigned \<and>
       py_payoutId p = payoutId (cr_creatorId c) key \<and> py_railTransferId p = Some (tf_transferId t) \<and> py_destination p = d \<and>
       tf_transferId t = withdrawalTransferId (rail_user (cr_creatorId c)) (rail_user key) \<and>
       rows_ok (cl_rail st') \<and> signed_for t (rail_user (cr_creatorId c)) x \<and> tf_status t = Signed \<and>
       tf_destination t = Some (trim d) \<and>
       db_transfers (cl_rail st') = db_transfers (cl_rail st) @ [(tf_transferId t, t)] \<and>
       eb_available b' = eb_available b - x \<and> eb_pendingPayout b' = eb_pendingPayout b + x \<and>
       eb_lifetimePaid b' = eb_lifetimePaid b \<and> eb_lifetimeAccrued b' = eb_lifetimeAccrued b \<and>
       (eb_creatorId b', eb_unit b') = (cr_creatorId c, Usdc))"
proof -
  let ?c = "cr_creatorId c" and ?u = "rail_user (cr_creatorId c)" and ?k = "rail_user key" and ?db = "cl_creators st"
  have books: "creator_books ?db" and rows: "rows_ok (cl_rail st)" using agree by (simp_all add: ledgers_agree_def)
  note ck = checkPayout_Inr [OF books check]
  then have b: "map_of (cd_balances ?db) (?c, Usdc) = Some b" and x: "0 < x" "is_safe_integer x" "x \<le> eb_available b" by auto
  have cwf: "creator_wf ?c c" using ck table_okD [OF creator_books_tables(1) [OF books]] by metis
  then have cid: "trim ?c = ?c" "?c \<noteq> ''''" by (simp_all add: creator_wf_def)
  have av: "0 \<le> eb_available b" using x by simp
  obtain rail1 where top: "topUpRail ?u b now (cl_rail st) = (Inr (), rail1)" "rows_ok rail1"
      "db_transfers rail1 = db_transfers (cl_rail st)" "eb_available b \<le> bal Available rail1 ?u"
    using topUpRail_run [OF rows av, of ?u now] by auto
  obtain r1 rail2 where rq: "requestDevnetWithdrawal clock re
      \<lparr>wi_userId = ?u, wi_amount = Fin (of_int x), wi_destination = d, wi_idempotencyKey = ?k, wi_now = Some now\<rparr> rail1 = (r1, rail2)"
    by (cases "requestDevnetWithdrawal clock re
      \<lparr>wi_userId = ?u, wi_amount = Fin (of_int x), wi_destination = d, wi_idempotencyKey = ?k, wi_now = Some now\<rparr> rail1") auto
  have fresh: "map_of (db_transfers rail1) (withdrawalTransferId ?u ?k) = None" using new top(3) by (simp add: ids_new_def)
  have xb: "x \<le> bal Available rail1 ?u" using x(3) top(4) by simp
  note wd = requestWithdrawal_run [OF top(2) creator_ids_trimmed(1) [OF cid] _ creator_ids_trimmed(1) [OF key] _ x(1,2) xb fresh rq]
  have step: "on_rail (topUpRail ?u b now) st = (Inr (), st\<lparr>cl_rail := rail1\<rparr>)"
    "on_rail (requestDevnetWithdrawal clock re
      \<lparr>wi_userId = ?u, wi_amount = Fin (of_int x), wi_destination = d, wi_idempotencyKey = ?k, wi_now = Some now\<rparr>)
      (st\<lparr>cl_rail := rail1\<rparr>) = (r1, st\<lparr>cl_rail := rail2\<rparr>)"
    by (simp_all add: on_rail_def top(1) rq)
  show ?thesis
  proof (cases r1)
    case (Inl e)
    then have "r = Inl e \<and> st' = st\<lparr>cl_rail := rail2\<rparr>" using run by (simp add: new_request_def step)
    then show ?thesis using wd Inl top(2,3) by auto
  next
    case (Inr w)
    define t where "t = ro_transfer w"
    have ok: "\<not> rail_refuses re d x" using wd Inr by auto
    have w: "rows_ok rail2" "signed_for t ?u x" "tf_status t = Signed" "tf_transferId t = withdrawalTransferId ?u ?k"
        "tf_destination t = Some (trim d)" "trim d \<noteq> ''''" "db_transfers rail2 = db_transfers rail1 @ [(tf_transferId t, t)]"
      using wd Inr by (auto simp: t_def)
    define p where "p = signedPayout status ?c x d key w now"
    have pf: "py_creatorId p = ?c" "py_idempotencyKey p = key" "py_amount p = x" "py_status p = PayoutSigned"
        "py_payoutId p = payoutId ?c key" "py_railTransferId p = Some (tf_transferId t)" "py_destination p = d"
      by (simp_all add: p_def signedPayout_def t_def)
    have tid: "trim (tf_transferId t) = tf_transferId t" "tf_transferId t \<noteq> ''''"
      using creator_ids_trimmed(2) [OF key, of ?u] by (simp_all add: w(4)) (simp add: withdrawalTransferId_def)
    have "d \<noteq> ''''" using w(6) by (auto simp: trim_def)
    then have pwf: "payout_wf (payoutId ?c key) p"
      using pf cid key x now tid w(2) by (simp add: payout_wf_def) (auto simp: p_def signedPayout_def signed_for_def t_def)
    define b' where "b' = b\<lparr>eb_available := js_sub (eb_available b) x, eb_pendingPayout := js_add (eb_pendingPayout b) x, eb_updatedAt := now\<rparr>"
    have nid: "map_of (cd_payouts ?db) (payoutId ?c key) = None" using new by (simp add: ids_new_def)
    note ins = insertPayout_ok [OF books b pwf pf(1-4) x(1,3) nid nokey now, folded b'_def]
    obtain ev where ev: "r = Inr \<lparr>pp_idempotent = False, pp_payout = p, pp_balance = b', pp_status = status\<rparr>"
        "st' = st\<lparr>cl_rail := rail2, cl_creators := with_event ev (paid_db ?db p b')\<rparr>"
    proof -
      let ?e = "creatorEvent rt clock CREATOR_PAYOUT_REQUESTED c None (Some Usdc) (Some x)
        [(''payoutId'', JStr (py_payoutId p)), (''railTransferId'', jopt JStr (py_railTransferId p)),
         (''status'', JStr (show_payout_status (py_status p)))]"
      obtain ev where i: "insertPayout p b' ?e ?db = (Inr (), with_event ev (paid_db ?db p b'))" using ins(1) by blast
      have "on_creators (insertPayout p b' ?e) (st\<lparr>cl_rail := rail2\<rparr>) =
          (Inr (), st\<lparr>cl_rail := rail2, cl_creators := with_event ev (paid_db ?db p b')\<rparr>)"
        by (rule on_creators_run) (simp add: i)
      then show thesis
        using run Inr by (intro that [of ev]) (simp_all add: new_request_def step Let_def flip: p_def b'_def)
    qed
    show ?thesis
      by (intro disjI2 exI [of _ "\<lparr>pp_idempotent = False, pp_payout = p, pp_balance = b', pp_status = status\<rparr>"]
          exI [of _ p] exI [of _ b'] exI [of _ ev] exI [of _ t])
        (use ev pf ins(2-7) w top(3) ok in simp)
  qed
qed

text \<open>The confirmation of a signed pay-out, once its rail transfer has been found.\<close>

definition confirm_signed ::
  "js_runtime \<Rightarrow> string \<Rightarrow> 'e DotCastSettlementRailEnv_scheme \<Rightarrow> DotCastCreatorEconomyStatus \<Rightarrow> DotCastCreatorProfile
    \<Rightarrow> DotCastCreatorPayout \<Rightarrow> string option \<Rightarrow> string \<Rightarrow> (creator_rail, CreatorPayoutResult) eff" where
  "confirm_signed rt clock railEnv status creator payout txRef now =
     ebind (on_rail (confirmMockWithdrawal clock railEnv
       \<lparr>ki_transferId = orElse (py_railTransferId payout) '''', ki_txRef = txRef, ki_now = Some now\<rparr>)) (\<lambda>railResult.
     ebind (on_creators (equery (\<lambda>db. requireCreatorBalance db (py_creatorId payout) Usdc))) (\<lambda>balance.
       let nextBalance = balance\<lparr>
             eb_pendingPayout := max 0 (js_sub (eb_pendingPayout balance) (py_amount payout)),
             eb_lifetimePaid := js_add (eb_lifetimePaid balance) (py_amount payout), eb_updatedAt := now\<rparr>;
           confirmed = confirmedPayout payout railResult now
       in ebind (on_creators (updatePayout confirmed nextBalance
            (creatorEvent rt clock CREATOR_PAYOUT_CONFIRMED creator None (Some Usdc) (Some (py_amount payout))
              [(''payoutId'', JStr (py_payoutId payout)), (''railTransferId'', jopt JStr (py_railTransferId payout)),
               (''txRef'', jopt JStr (py_railTxRef confirmed))]))) (\<lambda>_.
            ereturn \<lparr>pp_idempotent = False, pp_payout = confirmed, pp_balance = nextBalance, pp_status = status\<rparr>)))"

lemma confirm_unfold:
  assumes books: "creator_books (cl_creators st)" and ready: "assertCreatorEconomyReady re env hasDb = Inr status"
    and key: "trim (fi_payoutId input) \<noteq> ''''"
  shows "confirmDotCastCreatorPayout rt clock re env input hasDb st =
    (case map_of (cd_payouts (cl_creators st)) (trim (fi_payoutId input)) of
       None \<Rightarrow> (Inl (CodedError ''CREATOR_PAYOUT_NOT_FOUND'' ''creator payout was not found'' 404), st)
     | Some p \<Rightarrow> if py_status p = PayoutConfirmed
         then (rbind (requireCreatorBalance (cl_creators st) (py_creatorId p) Usdc)
           (\<lambda>b. Inr \<lparr>pp_idempotent = True, pp_payout = p, pp_balance = b, pp_status = status\<rparr>), st)
         else case requireActiveCreator (cl_creators st) (py_creatorId p) of
             Inl e \<Rightarrow> (Inl e, st)
           | Inr c \<Rightarrow> confirm_signed rt clock re status c p (fi_txRef input) (orElse (fi_now input) clock) st)"
proof -
  have "truthy_text (py_railTransferId p)" if "map_of (cd_payouts (cl_creators st)) k = Some p" for k p
    using table_okD [OF creator_books_tables(4) [OF books] that] by (auto simp: payout_wf_def truthy_text_def)
  then show ?thesis
    using key
    by (auto simp: confirmDotCastCreatorPayout_def ready requireText_def Let_def creator_reads [OF books] confirm_signed_def
        ebind_def rbind_def split: option.split sum.split)
qed

lemma confirm_signed_run:
  assumes agree: "ledgers_agree st" and p: "map_of (cd_payouts (cl_creators st)) k = Some p" "py_status p \<noteq> PayoutConfirmed"
    and now: "now \<noteq> ''''" and run: "confirm_signed rt clock re status c p ref now st = (r, st')"
  shows "(\<exists>e. r = Inl e) \<and> st' = st \<and> (\<exists>e. assertDevnetMockRail re = Inl e) \<or>
    (\<exists>res p' b b' v t' i. r = Inr res \<and> pp_payout res = p' \<and> pp_balance res = b' \<and> \<not> pp_idempotent res \<and>
       map_of (cd_balances (cl_creators st)) (py_creatorId p, Usdc) = Some b \<and>
       cl_creators st' = with_event v (settled_db (cl_creators st) p' b') \<and> creator_books (settled_db (cl_creators st) p' b') \<and>
       py_payoutId p' = k \<and> py_creatorId p' = py_creatorId p \<and> py_amount p' = py_amount p \<and> py_status p' = PayoutConfirmed \<and>
       py_railTransferId p' = py_railTransferId p \<and> py_idempotencyKey p' = py_idempotencyKey p \<and>
       py_railTransferId p = Some i \<and> rows_ok (cl_rail st') \<and>
       db_transfers (cl_rail st') = AList.update i t' (db_transfers (cl_rail st)) \<and>
       signed_for t' (rail_user (py_creatorId p)) (py_amount p) \<and> tf_status t' = Confirmed \<and>
       eb_available b' = eb_available b \<and> eb_pendingPayout b' = eb_pendingPayout b - py_amount p \<and>
       eb_lifetimePaid b' = eb_lifetimePaid b + py_amount p \<and> eb_lifetimeAccrued b' = eb_lifetimeAccrued b \<and>
       (eb_creatorId b', eb_unit b') = (py_creatorId p, Usdc))"
proof -
  let ?db = "cl_creators st"
  have books: "creator_books ?db" and rows: "rows_ok (cl_rail st)" and backed: "payout_backed (cl_rail st) p"
    using agree p(1) by (auto simp: ledgers_agree_def)
  have pwf: "payout_wf k p" using table_okD [OF creator_books_tables(4) [OF books] p(1)] .
  then have sg: "py_status p = PayoutSigned" using p(2) by (auto simp: payout_wf_def)
  obtain i t where i: "py_railTransferId p = Some i" "trim i = i" "i \<noteq> ''''" "map_of (db_transfers (cl_rail st)) i = Some t"
      "signed_for t (rail_user (py_creatorId p)) (py_amount p)" "tf_status t = Signed"
    using pwf backed sg by (auto simp: payout_wf_def payout_backed_def)
  have "py_amount p \<le> earned eb_pendingPayout ?db (py_creatorId p) Usdc" "0 < py_amount p"
    using pending_covers [OF books p(1) sg] pwf by (simp_all add: payout_wf_def)
  then obtain b where b: "map_of (cd_balances ?db) (py_creatorId p, Usdc) = Some b"
    by (cases "map_of (cd_balances ?db) (py_creatorId p, Usdc)") (auto simp: earned_def)
  have rb: "requireCreatorBalance ?db (py_creatorId p) Usdc = Inr b"
    by (simp add: requireCreatorBalance_def creator_reads [OF books] b)
  obtain r1 rail1 where cw: "confirmMockWithdrawal clock re \<lparr>ki_transferId = i, ki_txRef = ref, ki_now = Some now\<rparr> (cl_rail st) = (r1, rail1)"
    by (cases "confirmMockWithdrawal clock re \<lparr>ki_transferId = i, ki_txRef = ref, ki_now = Some now\<rparr> (cl_rail st)") auto
  note cr = confirmWithdrawal_run [OF rows i(4,2,3,5) cw]
  have step: "on_rail (confirmMockWithdrawal clock re \<lparr>ki_transferId = i, ki_txRef = ref, ki_now = Some now\<rparr>) st =
      (r1, st\<lparr>cl_rail := rail1\<rparr>)"
    by (simp add: on_rail_def cw)
  show ?thesis
  proof (cases r1)
    case (Inl e)
    then show ?thesis using run cr by (auto simp: confirm_signed_def i(1) step)
  next
    case (Inr w)
    define t' where "t' = ro_transfer w"
    have w: "rows_ok rail1" "signed_for t' (rail_user (py_creatorId p)) (py_amount p)" "tf_status t' = Confirmed"
        "db_transfers rail1 = AList.update i t' (db_transfers (cl_rail st))"
      using cr Inr i(6) by (auto simp: t'_def)
    have texts: "\<forall>r. tf_txRef t' = Some r \<longrightarrow> r \<noteq> '''' \<and> trim r = r" "\<forall>s. tf_mockSignature t' = Some s \<longrightarrow> s \<noteq> '''' \<and> trim s = s"
      using w(2) by (auto simp: signed_for_def)
    define p' where "p' = confirmedPayout p w now"
    have p': "p' = p\<lparr>py_status := PayoutConfirmed, py_railTxRef := tf_txRef t', py_mockSignature := tf_mockSignature t',
        py_updatedAt := now, py_eventJson := py_eventJson p'\<rparr>"
      by (simp add: p'_def confirmedPayout_def t'_def)
    define b' where "b' = b\<lparr>eb_pendingPayout := max 0 (js_sub (eb_pendingPayout b) (py_amount p)),
      eb_lifetimePaid := js_add (eb_lifetimePaid b) (py_amount p), eb_updatedAt := now\<rparr>"
    note upd = updatePayout_ok(1,2) [OF books b p(1) sg texts now, where j = "py_eventJson p'", folded p' b'_def]
      updatePayout_ok(3-7) [OF books b p(1) sg texts now, folded b'_def]
    obtain ev where ev: "r = Inr \<lparr>pp_idempotent = False, pp_payout = p', pp_balance = b', pp_status = status\<rparr>"
        "st' = st\<lparr>cl_rail := rail1, cl_creators := with_event ev (settled_db ?db p' b')\<rparr>"
    proof -
      let ?e = "creatorEvent rt clock CREATOR_PAYOUT_CONFIRMED c None (Some Usdc) (Some (py_amount p))
        [(''payoutId'', JStr (py_payoutId p)), (''railTransferId'', jopt JStr (py_railTransferId p)),
         (''txRef'', jopt JStr (py_railTxRef p'))]"
      obtain ev where u: "updatePayout p' b' ?e ?db = (Inr (), with_event ev (settled_db ?db p' b'))"
        using upd(1) [of ?e] by blast
      have "on_creators (updatePayout p' b' ?e) (st\<lparr>cl_rail := rail1\<rparr>) =
          (Inr (), st\<lparr>cl_rail := rail1, cl_creators := with_event ev (settled_db ?db p' b')\<rparr>)"
        by (rule on_creators_run) (simp add: u)
      then show thesis
        using run Inr by (intro that [of ev]) (simp_all add: confirm_signed_def i(1) step Let_def rb flip: p'_def b'_def)
    qed
    have "py_payoutId p' = k" using pwf by (subst p') (simp add: payout_wf_def)
    moreover have "py_creatorId p' = py_creatorId p" "py_amount p' = py_amount p" "py_status p' = PayoutConfirmed"
        "py_railTransferId p' = py_railTransferId p" "py_idempotencyKey p' = py_idempotencyKey p"
      by (subst p', simp)+
    ultimately show ?thesis
      by (intro disjI2 exI [of _ "\<lparr>pp_idempotent = False, pp_payout = p', pp_balance = b', pp_status = status\<rparr>"]
          exI [of _ p'] exI [of _ b] exI [of _ b'] exI [of _ ev] exI [of _ t'] exI [of _ i])
        (use ev upd(2-7) w i(1) b in simp)
  qed
qed

end
