(* ===== verification/CreatorSystem.thy ===== *)
theory CreatorSystem
  imports CreatorPayouts LedgerOperations
begin

text \<open>
  The creator economy as a state machine: onboarding, rake shares, pay-outs, confirmations and seeds in any
  order, on any inputs, whether they return or throw, while the rest of the rail goes on beside it.

  What the code takes for granted are guards of the steps: times are not empty, a settlement carries the
  identifier \<open>PoolSettlement.ts\<close> gives it and a rake that basis points multiply exactly, sums of shares stay
  safe integers, and the identifiers of a pay-out are new when its key is.
\<close>

declare map_of_append [simp del]

subsection \<open>Onboarding\<close>

lemma requireText_Inr2 [simp]: "requireText (Some (JStr s)) l = Inr x \<longleftrightarrow> x = trim s \<and> x \<noteq> ''''"
  by (auto simp: requireText_def)

lemma parseNullableText_Inr: "parseNullableText v l = Inr (Some d) \<Longrightarrow> d \<noteq> '''' \<and> trim d = d"
  by (auto simp: parseNullableText_def rbind_eq_Inr requireText_def Let_def split: if_splits option.splits json.splits)

lemma onboardedCreator_wf:
  assumes "onboardedCreator status input existing now = Inr c" "now \<noteq> ''''"
    and old: "\<And>e. existing = Some e \<Longrightarrow> cr_createdAt e \<noteq> ''''"
  shows "creator_wf (cr_creatorId c) c"
proof -
  have volume: "parseNonNegativeNumber v = Inr x \<longleftrightarrow> Option.bind v json_safe_integer = Some x \<and> 0 \<le> x" for v x
    by (auto simp: parseNonNegativeNumber_def Let_def split: option.splits)
  have created: "orElse (map_option cr_createdAt existing) now \<noteq> ''''" using old assms(2) by (cases existing) auto
  show ?thesis
    using assms(1,2) created
    unfolding onboardedCreator_def rbind_eq_Inr volume
    by (elim exE conjE) (auto simp: creator_wf_def creator_check_def bind_eq_Some_conv dest: parseNullableText_Inr json_safe_integer_safe)
qed

lemma upsertCreator_books:
  assumes books: "creator_books db" and c: "creator_wf (cr_creatorId c) c"
  shows "creator_books (snd (upsertCreator c v db))"
proof -
  let ?c = "case map_of (cd_creators db) (cr_creatorId c) of None \<Rightarrow> c | Some old \<Rightarrow> c\<lparr>cr_createdAt := cr_createdAt old\<rparr>"
  have "creator_wf (cr_creatorId c) ?c"
    using c table_okD [OF creator_books_tables(1) [OF books]]
    by (auto simp: creator_wf_def creator_check_def split: option.split)
  then have "creator_books (db\<lparr>cd_creators := AList.update (cr_creatorId c) ?c (cd_creators db)\<rparr>)"
    using books by (simp add: creator_books_def creator_rows_def earned_def accrued_shares_def payouts_at_def)
  moreover have "creator_check c" using c by (simp add: creator_wf_def)
  ultimately show ?thesis by (simp add: upsertCreator_def batch_def creatorUpsert_def)
qed

lemma snd_ebind_return: "snd (ebind m (\<lambda>_. ereturn a) s) = snd (m s)"
  by (simp add: ebind_def split: prod.split sum.split)

lemma onboard_outcome:
  assumes books: "creator_books db" and now: "orElse (oi_now input) clock \<noteq> ''''"
  shows "snd (onboardDotCastCreator rt clock re env input hasDb db) = db \<or>
    (\<exists>c v. creator_wf (cr_creatorId c) c \<and>
       snd (onboardDotCastCreator rt clock re env input hasDb db) = snd (upsertCreator c v db))"
proof (cases "assertCreatorEconomyReady re env hasDb")
  case (Inr status)
  let ?old = "map_of (cd_creators db) (oi_creatorId input)"
  show ?thesis
  proof (cases "onboardedCreator status input ?old (orElse (oi_now input) clock)")
    case (Inr c)
    have "creator_wf (cr_creatorId c) c"
      using onboardedCreator_wf [OF Inr now] table_okD [OF creator_books_tables(1) [OF books]] by (auto simp: creator_wf_def)
    then show ?thesis
      by (intro disjI2 exI conjI)
        (simp_all add: onboardDotCastCreator_def \<open>assertCreatorEconomyReady re env hasDb = Inr status\<close> Let_def
          creator_reads [OF books] Inr snd_ebind_return)
  qed (simp add: onboardDotCastCreator_def Inr Let_def creator_reads [OF books])
qed (simp add: onboardDotCastCreator_def)

subsection \<open>Steps\<close>

definition accrual_guard :: "creator_db \<Rightarrow> ApplyCreatorRakeShareInput \<Rightarrow> bool" where
  "accrual_guard db input \<longleftrightarrow> orElse (aw_now input) (s_updatedAt (aw_snapshot input)) \<noteq> '''' \<and>
     (\<forall>k se. settled_pool (aw_snapshot input) k se \<longrightarrow>
        settlement_fits (s_pool (aw_snapshot input)) se \<and>
        share_room db k (p_unit (s_pool (aw_snapshot input))) (sr_rakeAmount se))"

definition payout_guard :: "creator_rail \<Rightarrow> string \<Rightarrow> RequestCreatorPayoutInput \<Rightarrow> bool" where
  "payout_guard st clock input \<longleftrightarrow> orElse (pi_now input) clock \<noteq> '''' \<and>
     ((\<forall>p \<in> set (map snd (cd_payouts (cl_creators st))). py_idempotencyKey p \<noteq> trim (pi_idempotencyKey input)) \<longrightarrow>
        ids_new st (trim (pi_creatorId input)) (trim (pi_idempotencyKey input)))"

text \<open>The rest of the rail leaves the withdrawals of the creators alone.\<close>

definition rail_beside :: "creator_rail \<Rightarrow> settlement_db \<Rightarrow> bool" where
  "rail_beside st rail \<longleftrightarrow> rows_ok rail \<and>
     (\<forall>k p i. map_of (cd_payouts (cl_creators st)) k = Some p \<longrightarrow> py_railTransferId p = Some i \<longrightarrow>
        map_of (db_transfers rail) i = map_of (db_transfers (cl_rail st)) i)"

inductive creator_step :: "js_runtime \<Rightarrow> creator_rail \<Rightarrow> creator_rail \<Rightarrow> bool" for rt where
  onboard: "orElse (oi_now i) clock \<noteq> '''' \<Longrightarrow>
    creator_step rt st (snd (on_creators (onboardDotCastCreator rt clock (re :: DotCastSettlementRailEnv) env i hasDb) st))"
| accrue: "accrual_guard (cl_creators st) a \<Longrightarrow>
    creator_step rt st (snd (on_creators (applyDotCastCreatorRakeShareSettlement rt clock (re :: DotCastSettlementRailEnv) env a hasDb) st))"
| request: "payout_guard st clock q \<Longrightarrow>
    creator_step rt st (snd (requestDotCastCreatorPayout rt clock (re :: DotCastSettlementRailEnv) env q hasDb st))"
| confirm: "orElse (fi_now f) clock \<noteq> '''' \<Longrightarrow>
    creator_step rt st (snd (confirmDotCastCreatorPayout rt clock (re :: DotCastSettlementRailEnv) env f hasDb st))"
| seed: "creator_step rt st (snd (on_creators (recordDotCastCreatorPoolSeed rt clock (re :: DotCastSettlementRailEnv) env d hasDb) st))"
| beside: "rail_beside st rail \<Longrightarrow> creator_step rt st (st\<lparr>cl_rail := rail\<rparr>)"

definition fresh_creators :: "creator_rail \<Rightarrow> bool" where
  "fresh_creators st \<longleftrightarrow> cl_creators st = empty_creators \<and> rows_ok (cl_rail st)"

text \<open>How the records of a creator develop.\<close>

definition payout_forward :: "DotCastCreatorPayout \<Rightarrow> DotCastCreatorPayout \<Rightarrow> bool" where
  "payout_forward p p' \<longleftrightarrow> p' = p \<or> py_status p = PayoutSigned \<and> py_status p' = PayoutConfirmed \<and>
     py_creatorId p' = py_creatorId p \<and> py_amount p' = py_amount p \<and> py_railTransferId p' = py_railTransferId p"

definition creators_forward :: "creator_db \<Rightarrow> creator_db \<Rightarrow> bool" where
  "creators_forward db db' \<longleftrightarrow>
     table_forward (=) (cd_accruals db) (cd_accruals db') \<and> table_forward payout_forward (cd_payouts db) (cd_payouts db')"

subsection \<open>Every step\<close>

definition advances :: "creator_rail \<Rightarrow> creator_rail \<Rightarrow> bool" where
  "advances st st' \<longleftrightarrow> ledgers_agree st' \<and> creators_forward (cl_creators st) (cl_creators st')"

lemma creators_forward_refl [simp]: "creators_forward db db"
  by (simp add: creators_forward_def payout_forward_def)

lemma advances_same [simp]: "ledgers_agree st \<Longrightarrow> advances st st"
  by (simp add: advances_def)

text \<open>A change of the tables of the creators that leaves the pay-outs alone.\<close>

lemma advances_creators:
  assumes "ledgers_agree st" "creator_books db" "cd_payouts db = cd_payouts (cl_creators st)"
    and "table_forward (=) (cd_accruals (cl_creators st)) (cd_accruals db)"
  shows "advances st (st\<lparr>cl_creators := db\<rparr>)"
  using assms by (simp add: advances_def ledgers_agree_def creators_forward_def payout_forward_def)

lemma on_creators_snd: "snd (on_creators f st) = st\<lparr>cl_creators := snd (f (cl_creators st))\<rparr>"
  by (simp add: on_creators_def split: prod.split)


lemma upsert_tables:
  "cd_payouts (snd (upsertCreator c v db)) = cd_payouts db" "cd_accruals (snd (upsertCreator c v db)) = cd_accruals db"
  by (simp_all add: upsertCreator_def batch_def creatorUpsert_def ebind_def split: option.split)

lemma onboard_advances:
  assumes "ledgers_agree st" "orElse (oi_now i) clock \<noteq> ''''"
  shows "advances st (snd (on_creators (onboardDotCastCreator rt clock re env i hasDb) st))"
proof -
  let ?f = "onboardDotCastCreator rt clock re env i hasDb" and ?db = "cl_creators st"
  have books: "creator_books ?db" using assms(1) by (simp add: ledgers_agree_def)
  have "creator_books (snd (?f ?db)) \<and> cd_payouts (snd (?f ?db)) = cd_payouts ?db \<and>
      cd_accruals (snd (?f ?db)) = cd_accruals ?db"
    using onboard_outcome [OF books assms(2), of rt re env hasDb] books upsertCreator_books [OF books] upsert_tables
    by (elim disjE exE conjE) simp_all
  then show ?thesis
    unfolding on_creators_snd by (intro advances_creators assms) simp_all
qed

lemma accrue_advances:
  assumes agree: "ledgers_agree st" and g: "accrual_guard (cl_creators st) a"
  shows "advances st (snd (on_creators (applyDotCastCreatorRakeShareSettlement rt clock re env a hasDb) st))"
proof -
  let ?db = "cl_creators st" and ?pool = "s_pool (aw_snapshot a)"
  have books: "creator_books ?db" using agree by (simp add: ledgers_agree_def)
  have now: "orElse (aw_now a) (s_updatedAt (aw_snapshot a)) \<noteq> ''''" using g by (simp add: accrual_guard_def)
  have fits: "settlement_fits ?pool se" and room: "share_room ?db k (p_unit ?pool) (sr_rakeAmount se)"
    if "settled_pool (aw_snapshot a) k se" for k se
    using g that by (auto simp: accrual_guard_def)
  show ?thesis
    unfolding on_creators_snd
  proof (rule apply_outcome [where rt = rt and clock = clock and re = re and env = env and hasDb = hasDb, OF books now fits room])
    fix status c k se acc b v
    assume k: "settled_pool (aw_snapshot a) k se" and none: "find (\<lambda>a. ac_poolId a = p_id ?pool) (map snd (cd_accruals ?db)) = None"
      and acc: "acc = rakeAccrual status c ?pool se (orElse (aw_now a) (s_updatedAt (aw_snapshot a)))"
      and run: "snd (applyDotCastCreatorRakeShareSettlement rt clock re env a hasDb ?db) = with_event v (credited_db ?db acc b)"
      and ok: "creator_books (credited_db ?db acc b)"
    have "map_of (cd_accruals ?db) (ac_accrualId acc) = None"
      using fresh_accrual(1) [OF books none] fits [OF k] by (auto simp: acc settlement_fits_def rakeAccrual_def Let_def)
    then show "advances st (st\<lparr>cl_creators := snd (applyDotCastCreatorRakeShareSettlement rt clock re env a hasDb ?db)\<rparr>)"
      unfolding run using agree ok by (auto intro!: advances_creators table_forward_insert simp: credited_db_def)
  qed (use agree books in \<open>auto intro!: advances_creators\<close>)
qed

text \<open>The withdrawals behind the recorded pay-outs stay as they are when one is added.\<close>

lemma backed_insert:
  assumes "payout_backed rail p" "map_of (db_transfers rail) i = None" "db_transfers rail' = db_transfers rail @ [(i, t)]"
  shows "payout_backed rail' p"
proof -
  obtain j u where j: "py_railTransferId p = Some j" "map_of (db_transfers rail) j = Some u"
      "signed_for u (rail_user (py_creatorId p)) (py_amount p)"
      "tf_status u = (if py_status p = PayoutSigned then Signed else Confirmed)"
    using assms(1) unfolding payout_backed_def by blast
  have "map_of (db_transfers rail') j = Some u" using j(2) assms(2) by (simp add: assms(3) map_of_append map_add_def)
  then show ?thesis unfolding payout_backed_def using j by blast
qed

lemma backed_same: "payout_backed rail p \<Longrightarrow> db_transfers rail' = db_transfers rail \<Longrightarrow> payout_backed rail' p"
  by (simp add: payout_backed_def)

lemma request_advances:
  assumes agree: "ledgers_agree st" and g: "payout_guard st clock q"
  shows "advances st (snd (requestDotCastCreatorPayout rt clock re env q hasDb st))"
proof -
  let ?key = "trim (pi_idempotencyKey q)" and ?db = "cl_creators st"
  have books: "creator_books ?db" using agree by (simp add: ledgers_agree_def)
  show ?thesis
  proof (cases "\<exists>status. assertCreatorEconomyReady re env hasDb = Inr status \<and> ?key \<noteq> ''''")
    case False
    then have "snd (requestDotCastCreatorPayout rt clock re env q hasDb st) = st"
      by (auto simp: requestDotCastCreatorPayout_def ebind_def requireText_def Let_def split: prod.split sum.split)
    then show ?thesis using agree by simp
  next
    case True
    then obtain status where ready: "assertCreatorEconomyReady re env hasDb = Inr status" and key: "?key \<noteq> ''''" by blast
    note un = request_unfold [OF books ready key, of rt clock]
    show ?thesis
    proof (cases "find (\<lambda>p. py_idempotencyKey p = ?key) (map snd (cd_payouts ?db))")
      case (Some p)
      then show ?thesis using agree by (simp add: un)
    next
      case none: None
      show ?thesis
      proof (cases "checkPayout status q ?db")
        case (Inl e)
        then show ?thesis using agree none by (simp add: un)
      next
        case (Inr z)
        obtain c x b d where z: "z = (c, x, b, d)" by (cases z) auto
        note chk = Inr [unfolded z]
        obtain r st' where run: "new_request rt clock re status c x b d ?key (orElse (pi_now q) clock) st = (r, st')"
          by (cases "new_request rt clock re status c x b d ?key (orElse (pi_now q) clock) st") auto
        have "cr_creatorId c = trim (pi_creatorId q)" using checkPayout_Inr [OF books chk] by simp
        moreover have "\<forall>p \<in> set (map snd (cd_payouts ?db)). py_idempotencyKey p \<noteq> ?key" using none by (auto simp: find_None_iff)
        ultimately have new: "ids_new st (cr_creatorId c) ?key" and now: "orElse (pi_now q) clock \<noteq> ''''"
          using g by (auto simp: payout_guard_def)
        have st': "snd (requestDotCastCreatorPayout rt clock re env q hasDb st) = st'"
          using none chk run by (simp add: un)
        show ?thesis
          unfolding st'
          using new_request_run [OF agree chk trim_trim key now none new run]
        proof (elim disjE exE conjE)
          assume "cl_creators st' = ?db" "rows_ok (cl_rail st')" "db_transfers (cl_rail st') = db_transfers (cl_rail st)"
          then show "advances st st'"
            using agree backed_same [of "cl_rail st" _ "cl_rail st'"] by (simp add: advances_def ledgers_agree_def)
        next
          fix p b' v t
          assume h: "cl_creators st' = with_event v (paid_db ?db p b')" "creator_books (paid_db ?db p b')"
            "py_payoutId p = payoutId (cr_creatorId c) ?key" "py_railTransferId p = Some (tf_transferId t)"
            "tf_transferId t = withdrawalTransferId (rail_user (cr_creatorId c)) (rail_user ?key)"
            "rows_ok (cl_rail st')" "signed_for t (rail_user (cr_creatorId c)) x" "tf_status t = Signed"
            "db_transfers (cl_rail st') = db_transfers (cl_rail st) @ [(tf_transferId t, t)]"
            "py_creatorId p = cr_creatorId c" "py_amount p = x" "py_status p = PayoutSigned"
          have fresh: "map_of (db_transfers (cl_rail st)) (tf_transferId t) = None"
              "map_of (cd_payouts ?db) (py_payoutId p) = None" using new h(3,5) by (simp_all add: ids_new_def)
          have held: "\<forall>k p. map_of (cd_payouts ?db) k = Some p \<longrightarrow> payout_backed (cl_rail st) p"
              "distinct (map (py_railTransferId \<circ> snd) (cd_payouts ?db))" using agree by (simp_all add: ledgers_agree_def)
          have mine: "payout_backed (cl_rail st') p" using h fresh by (auto simp: payout_backed_def)
          have "py_railTransferId p' \<noteq> Some (tf_transferId t)" if "map_of (cd_payouts ?db) k = Some p'" for k p'
            using held(1) [rule_format, OF that] fresh(1) by (auto simp: payout_backed_def)
          then have "Some (tf_transferId t) \<notin> set (map (py_railTransferId \<circ> snd) (cd_payouts ?db))"
            using table_ok_akeys [OF creator_books_tables(4) [OF books]] by (force simp: akeys_def)
          then have "ledgers_agree st'"
            using held h(1,2,4,6) mine fresh backed_insert [OF _ fresh(1) h(9)]
            by (auto simp: ledgers_agree_def paid_db_def split: if_splits)
          moreover have "creators_forward ?db (cl_creators st')"
            using fresh(2) by (simp add: creators_forward_def h(1) paid_db_def payout_forward_def)
          ultimately show "advances st st'" by (simp add: advances_def)
        qed
      qed
    qed
  qed
qed

lemma distinct_field:
  assumes "distinct (map (f \<circ> snd) tbl)" "map_of tbl k = Some r" "map_of tbl j = Some s" "f r = f s"
  shows "k = j"
proof -
  have "inj_on (f \<circ> snd) (set tbl)" using assms(1) by (simp add: distinct_map)
  then have "(k, r) = (j, s)" using assms(2-4) by (intro inj_onD [of "f \<circ> snd"]) (auto dest: map_of_SomeD)
  then show ?thesis by simp
qed

lemma confirm_advances:
  assumes agree: "ledgers_agree st" and now: "orElse (fi_now f) clock \<noteq> ''''"
  shows "advances st (snd (confirmDotCastCreatorPayout rt clock re env f hasDb st))"
proof -
  let ?k = "trim (fi_payoutId f)" and ?db = "cl_creators st"
  have books: "creator_books ?db" using agree by (simp add: ledgers_agree_def)
  show ?thesis
  proof (cases "\<exists>status. assertCreatorEconomyReady re env hasDb = Inr status \<and> ?k \<noteq> ''''")
    case False
    then have "snd (confirmDotCastCreatorPayout rt clock re env f hasDb st) = st"
      by (auto simp: confirmDotCastCreatorPayout_def ebind_def requireText_def Let_def split: prod.split sum.split)
    then show ?thesis using agree by simp
  next
    case True
    then obtain status where ready: "assertCreatorEconomyReady re env hasDb = Inr status" and key: "?k \<noteq> ''''" by blast
    note un = confirm_unfold [OF books ready key, of rt clock]
    show ?thesis
    proof (cases "\<exists>p c. map_of (cd_payouts ?db) ?k = Some p \<and> py_status p \<noteq> PayoutConfirmed \<and>
        requireActiveCreator ?db (py_creatorId p) = Inr c")
      case False
      then have "snd (confirmDotCastCreatorPayout rt clock re env f hasDb st) = st"
        by (auto simp: un split: option.split sum.split)
      then show ?thesis using agree by simp
    next
      case True
      then obtain p c where p: "map_of (cd_payouts ?db) ?k = Some p" "py_status p \<noteq> PayoutConfirmed"
          and c: "requireActiveCreator ?db (py_creatorId p) = Inr c" by blast
      obtain r st' where run: "confirm_signed rt clock re status c p (fi_txRef f) (orElse (fi_now f) clock) st = (r, st')"
        by (cases "confirm_signed rt clock re status c p (fi_txRef f) (orElse (fi_now f) clock) st") auto
      have st': "snd (confirmDotCastCreatorPayout rt clock re env f hasDb st) = st'" using p c run by (simp add: un)
      show ?thesis
        unfolding st'
        using confirm_signed_run [OF agree p now run]
      proof (elim disjE exE conjE)
        assume "st' = st" then show "advances st st'" using agree by simp
      next
        fix p' b' v t' i
        assume h: "cl_creators st' = with_event v (settled_db ?db p' b')" "creator_books (settled_db ?db p' b')"
          "py_payoutId p' = ?k" "py_creatorId p' = py_creatorId p" "py_amount p' = py_amount p" "py_status p' = PayoutConfirmed"
          "py_railTransferId p' = py_railTransferId p" "py_railTransferId p = Some i" "rows_ok (cl_rail st')"
          "db_transfers (cl_rail st') = AList.update i t' (db_transfers (cl_rail st))"
          "signed_for t' (rail_user (py_creatorId p)) (py_amount p)" "tf_status t' = Confirmed"
        have held: "\<forall>k p. map_of (cd_payouts ?db) k = Some p \<longrightarrow> payout_backed (cl_rail st) p"
            "distinct (map (py_railTransferId \<circ> snd) (cd_payouts ?db))" using agree by (simp_all add: ledgers_agree_def)
        have mine: "payout_backed (cl_rail st') p'" using h by (simp add: payout_backed_def)
        have others: "payout_backed (cl_rail st') q" if q: "map_of (cd_payouts ?db) k = Some q" "k \<noteq> ?k" for k q
        proof -
          have "py_railTransferId q \<noteq> Some i"
            using distinct_field [OF held(2) q(1) p(1)] q(2) h(8) by auto
          then show ?thesis using held(1) [rule_format, OF q(1)] by (auto simp: payout_backed_def h(10))
        qed
        have "map (py_railTransferId \<circ> snd) (AList.update ?k p' (cd_payouts ?db)) = map (py_railTransferId \<circ> snd) (cd_payouts ?db)"
          by (rule map_update_same [OF p(1) h(7)])
        then have "ledgers_agree st'"
          using h(1,2,3,9) mine others held(2) by (simp add: ledgers_agree_def settled_db_def)
        moreover have "payout_forward p p'"
          using h(4-7) p table_okD [OF creator_books_tables(4) [OF books] p(1)] by (auto simp: payout_forward_def payout_wf_def)
        then have "creators_forward ?db (cl_creators st')"
          using p(1) h(3) by (simp add: creators_forward_def h(1) settled_db_def payout_forward_def table_forward_update)
        ultimately show "advances st st'" by (simp add: advances_def)
      qed
    qed
  qed
qed

lemma seed_advances:
  assumes agree: "ledgers_agree st"
  shows "advances st (snd (on_creators (recordDotCastCreatorPoolSeed rt clock re env d hasDb) st))"
proof -
  let ?db = "cl_creators st" and ?f = "recordDotCastCreatorPoolSeed rt clock re env d hasDb"
  have books: "creator_books ?db" using agree by (simp add: ledgers_agree_def)
  have ins: "creator_books (snd (insertSeed s v ?db)) \<and> cd_payouts (snd (insertSeed s v ?db)) = cd_payouts ?db \<and>
      cd_accruals (snd (insertSeed s v ?db)) = cd_accruals ?db" for s v
    using books by (simp add: insertSeed_def batch_def)
  have "snd (?f ?db) = ?db \<or> (\<exists>s v. snd (?f ?db) = snd (insertSeed s v ?db))"
    unfolding recordDotCastCreatorPoolSeed_def Let_def
    by (cases "assertCreatorEconomyReady re env hasDb"; cases "requireActiveCreator ?db (si_creatorId d)";
        cases "parseSeedMode (si_mode d)"; cases "parseResolutionBinding (si_resolutionBinding d)";
        cases "requireText (Some (JStr (si_poolId d))) ''poolId''"; cases "parseStakeUnit (si_unit d)";
        cases "parseCreatorMinorUnits (si_amount d) ''amount''")
      (auto simp: snd_ebind_return simp del: requireText_Inr2)
  then show ?thesis
    unfolding on_creators_snd using ins agree books by (elim disjE exE) (auto intro!: advances_creators)
qed

lemma beside_advances:
  assumes agree: "ledgers_agree st" and g: "rail_beside st rail"
  shows "advances st (st\<lparr>cl_rail := rail\<rparr>)"
proof -
  have "payout_backed rail p" if p: "map_of (cd_payouts (cl_creators st)) k = Some p" for k p
  proof -
    have "payout_backed (cl_rail st) p" using agree p by (auto simp: ledgers_agree_def)
    then show ?thesis using g p by (auto simp: payout_backed_def rail_beside_def)
  qed
  then show ?thesis using agree g by (simp add: advances_def ledgers_agree_def rail_beside_def)
qed

lemma creator_step_advances: "creator_step rt st st' \<Longrightarrow> ledgers_agree st \<Longrightarrow> advances st st'"
  by (induction rule: creator_step.induct)
    (simp_all add: onboard_advances accrue_advances request_advances confirm_advances seed_advances beside_advances)

interpretation creators: step_system fresh_creators "creator_step rt" ledgers_agree for rt
proof unfold_locales
  show "ledgers_agree st" if "fresh_creators st" for st
    using that creator_books_empty by (simp add: fresh_creators_def ledgers_agree_def) (simp add: empty_creators_def)
  show "ledgers_agree st'" if "ledgers_agree st" "creator_step rt st st'" for st st'
    using creator_step_advances [OF that(2,1)] by (simp add: advances_def)
qed

subsection \<open>What holds of every reachable state\<close>

text \<open>
  C9: The books of the creators balance.  In every state that onboarding, rake shares, pay-outs,
  confirmations and seeds can reach, whatever happens on the rail beside them, what a creator has
  available, what is pending and what was paid add up to the shares accrued for it; pending and paid are
  the sums of its signed and confirmed pay-outs; a pool has accrued at most once; and each pay-out has a
  rail withdrawal of its own, for the creator's account and of the same amount, confirmed exactly when
  the pay-out is.
\<close>

theorem creator_books_balance:
  assumes "reach fresh_creators (creator_step rt) st"
  shows "0 \<le> earned eb_available (cl_creators st) c u \<and> 0 \<le> earned eb_pendingPayout (cl_creators st) c u \<and>
     earned eb_available (cl_creators st) c u + earned eb_pendingPayout (cl_creators st) c u +
       earned eb_lifetimePaid (cl_creators st) c u = accrued_shares (cl_creators st) c u \<and>
     earned eb_pendingPayout (cl_creators st) c u = payouts_at PayoutSigned (cl_creators st) c u \<and>
     earned eb_lifetimePaid (cl_creators st) c u = payouts_at PayoutConfirmed (cl_creators st) c u \<and>
     distinct (map (ac_poolId \<circ> snd) (cd_accruals (cl_creators st))) \<and>
     distinct (map (py_railTransferId \<circ> snd) (cd_payouts (cl_creators st))) \<and>
     (\<forall>k p. map_of (cd_payouts (cl_creators st)) k = Some p \<longrightarrow> payout_backed (cl_rail st) p)"
proof -
  have agree: "ledgers_agree st" using assms by (rule creators.reach_inv)
  then have books: "creator_books (cl_creators st)" by (simp add: ledgers_agree_def)
  show ?thesis
    using agree books accrued_nonneg [OF books, of c u] by (simp add: ledgers_agree_def creator_books_def creator_rows_def)
qed

text \<open>
  C12: The records of the creators are final.  From a reachable state on, an accrual is never changed or
  lost, a pay-out keeps its creator, amount and withdrawal and at most goes from signed to confirmed, and
  a confirmed one never changes again.
\<close>

theorem creator_records_final:
  assumes "reach fresh_creators (creator_step rt) st" "(creator_step rt)\<^sup>*\<^sup>* st st'"
  shows "(\<forall>k a. map_of (cd_accruals (cl_creators st)) k = Some a \<longrightarrow> map_of (cd_accruals (cl_creators st')) k = Some a) \<and>
    (\<forall>k p. map_of (cd_payouts (cl_creators st)) k = Some p \<longrightarrow>
       (\<exists>p'. map_of (cd_payouts (cl_creators st')) k = Some p' \<and> payout_forward p p' \<and>
          (py_status p = PayoutConfirmed \<longrightarrow> p' = p)))"
  using assms(2)
proof (induction rule: rtranclp_induct)
  case base
  then show ?case by (auto simp: payout_forward_def)
next
  case (step t t')
  have "ledgers_agree t" using creators.steps_inv [OF step.hyps(1)] creators.reach_inv [OF assms(1)] by blast
  then have fw: "creators_forward (cl_creators t) (cl_creators t')"
    using creator_step_advances [OF step.hyps(2)] by (simp add: advances_def)
  have chain: "payout_forward p p'' \<and> (py_status p = PayoutConfirmed \<longrightarrow> p'' = p)"
    if "payout_forward p p'" "py_status p = PayoutConfirmed \<longrightarrow> p' = p" "payout_forward p' p''" for p p' p''
    using that by (auto simp: payout_forward_def)
  show ?case
  proof (intro conjI allI impI)
    show "map_of (cd_accruals (cl_creators t')) k = Some a" if "map_of (cd_accruals (cl_creators st)) k = Some a" for k a
      using step.IH fw that by (auto simp: creators_forward_def table_forward_def)
    show "\<exists>p'. map_of (cd_payouts (cl_creators t')) k = Some p' \<and> payout_forward p p' \<and> (py_status p = PayoutConfirmed \<longrightarrow> p' = p)"
      if p: "map_of (cd_payouts (cl_creators st)) k = Some p" for k p
    proof -
      obtain p' where p': "map_of (cd_payouts (cl_creators t)) k = Some p'" "payout_forward p p'"
          "py_status p = PayoutConfirmed \<longrightarrow> p' = p" using step.IH p by blast
      obtain p'' where "map_of (cd_payouts (cl_creators t')) k = Some p''" "payout_forward p' p''"
        using fw p'(1) unfolding creators_forward_def table_forward_def by blast
      then show ?thesis using chain [OF p'(2,3)] by blast
    qed
  qed
qed

text \<open>
  C13: The store of the creators is well typed.  In every reachable state every row of a creator, a balance,
  an accrual and a pay-out reads back as what was written: none of the checks of the reading functions
  (\<open>INVALID_CREATOR_ROW\<close> and the parsers of the enumerations) ever throws.
\<close>

theorem creator_rows_well_typed:
  assumes "reach fresh_creators (creator_step rt) st"
  shows "getCreator (cl_creators st) k = Inr (map_of (cd_creators (cl_creators st)) k) \<and>
    getCreatorBalance (cl_creators st) c u = Inr (map_of (cd_balances (cl_creators st)) (c, u)) \<and>
    getAccrualByPool (cl_creators st) pid = Inr (find (\<lambda>a. ac_poolId a = pid) (map snd (cd_accruals (cl_creators st)))) \<and>
    getPayout (cl_creators st) i = Inr (map_of (cd_payouts (cl_creators st)) i) \<and>
    getPayoutByIdempotencyKey (cl_creators st) key =
      Inr (find (\<lambda>p. py_idempotencyKey p = key) (map snd (cd_payouts (cl_creators st))))"
proof -
  have "ledgers_agree st" using assms by (rule creators.reach_inv)
  then show ?thesis using creator_reads by (simp add: ledgers_agree_def)
qed

subsection \<open>A rake share\<close>

text \<open>
  C11: When a pool with an originating creator has settled, the creator is active and nothing has been
  accrued for the pool, the rake is split without loss: the creator gets the effective share of it, rounded
  down, the house the rest, neither is negative; the creator's balance grows by exactly that share, and
  applying the settlement of that pool again, whatever the settings and the time are then, changes nothing.
\<close>

theorem applyDotCastCreatorRakeShareSettlement_once:
  assumes "creator_books db" "assertCreatorEconomyReady re env hasDb = Inr st"
    and "settled_pool (aw_snapshot input) k se" "settlement_fits (s_pool (aw_snapshot input)) se"
    and "orElse (aw_now input) (s_updatedAt (aw_snapshot input)) \<noteq> ''''"
    and "map_of (cd_creators db) k = Some c" "cr_status c = CreatorActive"
    and "\<forall>a \<in> set (map snd (cd_accruals db)). ac_poolId a \<noteq> p_id (s_pool (aw_snapshot input))"
    and "share_room db k (p_unit (s_pool (aw_snapshot input))) (sr_rakeAmount se)"
  shows "\<exists>res db' a b. applyDotCastCreatorRakeShareSettlement rt clock re env input hasDb db = (Inr res, db') \<and>
    \<not> ar_idempotent res \<and> ar_accrual res = Some a \<and> ar_balance res = Some b \<and>
    ac_creatorShare a = sr_rakeAmount se * calculateCreatorEffectiveShareBps c st div 10000 \<and>
    ac_creatorShare a + ac_houseShare a = sr_rakeAmount se \<and> 0 \<le> ac_creatorShare a \<and> 0 \<le> ac_houseShare a \<and>
    map_of (cd_balances db') (k, p_unit (s_pool (aw_snapshot input))) = Some b \<and>
    eb_available b = earned eb_available db k (p_unit (s_pool (aw_snapshot input))) + ac_creatorShare a \<and>
    creator_books db' \<and>
    (\<forall>rt2 clock2 input2 st2 re2 (env2 :: DotCastCreatorEconomyEnv) se2.
       assertCreatorEconomyReady (re2 :: DotCastSettlementRailEnv) env2 True = Inr st2 \<longrightarrow>
       settled_pool (aw_snapshot input2) k se2 \<longrightarrow> p_id (s_pool (aw_snapshot input2)) = p_id (s_pool (aw_snapshot input)) \<longrightarrow>
       (\<exists>res2. applyDotCastCreatorRakeShareSettlement rt2 clock2 re2 env2 input2 True db' = (Inr res2, db') \<and>
          ar_idempotent res2 \<and> ar_accrual res2 = Some a))"
proof -
  let ?pool = "s_pool (aw_snapshot input)" and ?now = "orElse (aw_now input) (s_updatedAt (aw_snapshot input))"
  let ?a = "rakeAccrual st c ?pool se ?now"
  note st = ready_status_ok [OF assms(2)]
  have none: "find (\<lambda>a. ac_poolId a = p_id ?pool) (map snd (cd_accruals db)) = None"
    using assms(8) by (auto simp: find_None_iff)
  note a = rakeAccrual_wf [OF st table_okD [OF creator_books_tables(1) [OF assms(1)] assms(6)] assms(4,5)]
  obtain b v where run: "creditRakeShare rt clock st c ?pool se ?now db =
      (Inr \<lparr>ar_applied = True, ar_idempotent = False, ar_creator = Some c, ar_accrual = Some ?a, ar_balance = Some b,
         ar_status = st\<rparr>, with_event v (credited_db db ?a b))"
      "creator_books (credited_db db ?a b)" "eb_creatorId b = k" "eb_unit b = p_unit ?pool"
      "eb_available b = earned eb_available db k (p_unit ?pool) + ac_creatorShare ?a"
    using creditRakeShare_ok [OF assms(1,6) st assms(4,5) none assms(9)] by blast
  define db' where "db' = with_event v (credited_db db ?a b)"
  have books': "creator_books db'" using run(2) by (simp add: db'_def)
  have found: "find (\<lambda>x. ac_poolId x = p_id ?pool) (map snd (cd_accruals db')) = Some ?a"
    using none a(7) by (simp add: db'_def credited_db_def find_append)
  have again: "\<exists>res2. applyDotCastCreatorRakeShareSettlement rt2 clock2 re2 env2 input2 True db' = (Inr res2, db') \<and>
      ar_idempotent res2 \<and> ar_accrual res2 = Some ?a"
    if "assertCreatorEconomyReady (re2 :: DotCastSettlementRailEnv) env2 True = Inr st2"
      "settled_pool (aw_snapshot input2) k se2" "p_id (s_pool (aw_snapshot input2)) = p_id ?pool"
    for rt2 clock2 input2 st2 re2 env2 se2
    using apply_settled [OF books' that(1,2), of rt2 clock2] found that(3) by simp
  have "applyDotCastCreatorRakeShareSettlement rt clock re env input hasDb db =
      (Inr \<lparr>ar_applied = True, ar_idempotent = False, ar_creator = Some c, ar_accrual = Some ?a, ar_balance = Some b,
         ar_status = st\<rparr>, db')"
    using apply_settled [OF assms(1-3), of rt clock] none assms(6,7) run(1) by (simp add: db'_def)
  moreover have "map_of (cd_balances db') (k, p_unit ?pool) = Some b"
    using run(3,4) by (simp add: db'_def credited_db_def)
  moreover have "ac_creatorShare ?a + ac_houseShare ?a = sr_rakeAmount se" "0 \<le> ac_houseShare ?a" using a(4,5) by simp_all
  ultimately show ?thesis using a(2,3,6) run(5) books' again
    by (intro exI [of _ db'] exI [of _ ?a] exI [of _ b] exI conjI) (assumption | simp)+
qed

subsection \<open>A pay-out from request to confirmation\<close>

lemma ready_rail: "assertCreatorEconomyReady re env hasDb = Inr status \<Longrightarrow> \<exists>rail. assertDevnetMockRail re = Inr rail"
proof -
  assume "assertCreatorEconomyReady re env hasDb = Inr status"
  then have "readDotCastCreatorEconomyStatus re env hasDb = Inr status" "es_ready status"
    by (cases "readDotCastCreatorEconomyStatus re env hasDb"; simp add: assertCreatorEconomyReady_def split: if_splits)+
  then have "rail_ready (readSolanaUsdcSettlementRailStatus re)"
    unfolding readDotCastCreatorEconomyStatus_def rbind_eq_Inr Let_def by (elim exE conjE) auto
  then show ?thesis using assertDevnetMockRail_cases [of re] by (simp add: rail_ready_iff)
qed

definition payout_facts :: "creator_rail \<Rightarrow> DotCastCreatorPayout \<Rightarrow> DotCastCreatorEarningsBalance \<Rightarrow> bool" where
  "payout_facts st p b \<longleftrightarrow> map_of (cd_payouts (cl_creators st)) (py_payoutId p) = Some p \<and>
     map_of (cd_balances (cl_creators st)) (py_creatorId p, Usdc) = Some b \<and> payout_backed (cl_rail st) p"

lemma confirm_pays:
  assumes agree: "ledgers_agree st" and p: "payout_facts st p b" "py_status p = PayoutSigned"
    and c: "map_of (cd_creators (cl_creators st)) (py_creatorId p) = Some c" "cr_status c = CreatorActive"
    and ready: "assertCreatorEconomyReady re env hasDb = Inr status"
    and f: "trim (fi_payoutId f) = py_payoutId p" "orElse (fi_now f) clock \<noteq> ''''"
  shows "\<exists>res st' p' b'. confirmDotCastCreatorPayout rt clock re env f hasDb st = (Inr res, st') \<and>
    pp_payout res = p' \<and> pp_balance res = b' \<and> payout_facts st' p' b' \<and> py_status p' = PayoutConfirmed \<and> ledgers_agree st' \<and>
    py_payoutId p' = py_payoutId p \<and> py_creatorId p' = py_creatorId p \<and>
    eb_available b' = eb_available b \<and> eb_pendingPayout b' = eb_pendingPayout b - py_amount p \<and>
    eb_lifetimePaid b' = eb_lifetimePaid b + py_amount p"
proof -
  let ?db = "cl_creators st" and ?k = "trim (fi_payoutId f)"
  have books: "creator_books ?db" using agree by (simp add: ledgers_agree_def)
  have m: "map_of (cd_payouts ?db) (py_payoutId p) = Some p" "map_of (cd_balances ?db) (py_creatorId p, Usdc) = Some b"
    using p(1) by (simp_all add: payout_facts_def)
  have cwf: "creator_wf (py_creatorId p) c" using table_okD [OF creator_books_tables(1) [OF books] c(1)] .
  then have ac: "requireActiveCreator ?db (py_creatorId p) = Inr c"
    using c by (simp add: requireActiveCreator_def creator_wf_def requireText_def creator_reads [OF books])
  have "?k \<noteq> ''''" using table_okD [OF creator_books_tables(4) [OF books] m(1)] f(1) by (simp add: payout_wf_def payoutId_def)
  note un = confirm_unfold [OF books ready this, of rt clock]
  obtain r st' where run: "confirm_signed rt clock re status c p (fi_txRef f) (orElse (fi_now f) clock) st = (r, st')"
    by (cases "confirm_signed rt clock re status c p (fi_txRef f) (orElse (fi_now f) clock) st") auto
  have call: "confirmDotCastCreatorPayout rt clock re env f hasDb st = (r, st')"
    using m(1) f(1) p(2) ac run by (simp add: un)
  have ok: "\<not> (\<exists>e. assertDevnetMockRail re = Inl e)" using ready_rail [OF ready] by auto
  have "py_status p \<noteq> PayoutConfirmed" using p(2) by simp
  then obtain res p' b0 b' v t' i where h: "r = Inr res" "pp_payout res = p'" "pp_balance res = b'"
      "map_of (cd_balances ?db) (py_creatorId p, Usdc) = Some b0"
      "cl_creators st' = with_event v (settled_db ?db p' b')" "py_payoutId p' = py_payoutId p" "py_creatorId p' = py_creatorId p"
      "py_status p' = PayoutConfirmed" "eb_available b' = eb_available b0" "eb_pendingPayout b' = eb_pendingPayout b0 - py_amount p"
      "eb_lifetimePaid b' = eb_lifetimePaid b0 + py_amount p" "(eb_creatorId b', eb_unit b') = (py_creatorId p, Usdc)"
    using confirm_signed_run [OF agree m(1) _ f(2) run] ok by blast
  have agree': "ledgers_agree st'" using confirm_advances [OF agree f(2), of rt re env hasDb] call by (simp add: advances_def)
  have "map_of (cd_payouts (cl_creators st')) (py_payoutId p') = Some p'"
      "map_of (cd_balances (cl_creators st')) (py_creatorId p', Usdc) = Some b'"
    using h(7,12) by (simp_all add: h(5) settled_db_def)
  moreover from this(1) have "payout_backed (cl_rail st') p'" using agree' by (auto simp: ledgers_agree_def)
  ultimately have "payout_facts st' p' b'" by (simp add: payout_facts_def)
  then show ?thesis using call h agree' m(2) by (intro exI [of _ res] exI [of _ st']) auto
qed

lemma confirm_again:
  assumes agree: "ledgers_agree st" and p: "payout_facts st p b" "py_status p = PayoutConfirmed"
    and ready: "assertCreatorEconomyReady re env hasDb = Inr status" and f: "trim (fi_payoutId f) = py_payoutId p"
  shows "\<exists>res. confirmDotCastCreatorPayout rt clock re env f hasDb st = (Inr res, st) \<and> pp_idempotent res \<and> pp_payout res = p"
proof -
  have books: "creator_books (cl_creators st)" using agree by (simp add: ledgers_agree_def)
  have m: "map_of (cd_payouts (cl_creators st)) (py_payoutId p) = Some p" "map_of (cd_balances (cl_creators st)) (py_creatorId p, Usdc) = Some b"
    using p(1) by (simp_all add: payout_facts_def)
  have "trim (fi_payoutId f) \<noteq> ''''" using table_okD [OF creator_books_tables(4) [OF books] m(1)] f by (simp add: payout_wf_def payoutId_def)
  from confirm_unfold [OF books ready this, of rt clock] show ?thesis
    using m f p(2) by (simp add: requireCreatorBalance_def creator_reads [OF books])
qed

lemma request_again:
  assumes agree: "ledgers_agree st" and p: "payout_facts st p b"
    and ready: "assertCreatorEconomyReady re env hasDb = Inr status" and q: "trim (pi_idempotencyKey q) = py_idempotencyKey p"
  shows "\<exists>res. requestDotCastCreatorPayout rt clock re env q hasDb st = (Inr res, st) \<and> pp_idempotent res \<and> pp_payout res = p"
proof -
  have books: "creator_books (cl_creators st)" using agree by (simp add: ledgers_agree_def)
  note tb = creator_books_tables(4) [OF books]
  have m: "map_of (cd_payouts (cl_creators st)) (py_payoutId p) = Some p" "map_of (cd_balances (cl_creators st)) (py_creatorId p, Usdc) = Some b"
    using p(1) by (simp_all add: payout_facts_def)
  have nz: "trim (pi_idempotencyKey q) \<noteq> ''''" using table_okD [OF tb m(1)] q by (simp add: payout_wf_def)
  have "find (\<lambda>p'. py_idempotencyKey p' = py_idempotencyKey p) (map snd (cd_payouts (cl_creators st))) = Some p"
  proof (rule find_key)
    show "distinct (map py_idempotencyKey (map snd (cd_payouts (cl_creators st))))"
      using books by (simp add: creator_books_def creator_rows_def)
    show "p \<in> set (map snd (cd_payouts (cl_creators st)))" using map_of_SomeD [OF m(1)] by force
  qed
  then show ?thesis
    using request_unfold [OF books ready nz, of rt clock] m(2) q
    by (simp add: requireCreatorBalance_def creator_reads [OF books])
qed

lemma request_pays:
  assumes agree: "ledgers_agree st" and ready: "assertCreatorEconomyReady re env hasDb = Inr status"
    and key: "trim (pi_idempotencyKey q) \<noteq> ''''"
    and nokey: "\<forall>p \<in> set (map snd (cd_payouts (cl_creators st))). py_idempotencyKey p \<noteq> trim (pi_idempotencyKey q)"
    and chk: "checkPayout status q (cl_creators st) = Inr (c, x, b, d)" and g: "payout_guard st clock q"
    and rail: "\<not> rail_refuses re d x"
  shows "\<exists>res st' p b' t. requestDotCastCreatorPayout rt clock re env q hasDb st = (Inr res, st') \<and>
    pp_payout res = p \<and> pp_balance res = b' \<and> payout_facts st' p b' \<and> py_status p = PayoutSigned \<and> ledgers_agree st' \<and>
    py_creatorId p = cr_creatorId c \<and> py_amount p = x \<and> py_idempotencyKey p = trim (pi_idempotencyKey q) \<and>
    cd_creators (cl_creators st') = cd_creators (cl_creators st) \<and>
    eb_available b' = eb_available b - x \<and> eb_pendingPayout b' = eb_pendingPayout b + x \<and> eb_lifetimePaid b' = eb_lifetimePaid b \<and>
    db_transfers (cl_rail st') = db_transfers (cl_rail st) @ [(tf_transferId t, t)] \<and> tf_amount t = x \<and>
    tf_status t = Signed \<and> tf_destination t = Some (trim d)"
proof -
  let ?key = "trim (pi_idempotencyKey q)" and ?now = "orElse (pi_now q) clock" and ?db = "cl_creators st"
  have books: "creator_books ?db" using agree by (simp add: ledgers_agree_def)
  have none: "find (\<lambda>p. py_idempotencyKey p = ?key) (map snd (cd_payouts ?db)) = None" using nokey by (auto simp: find_None_iff)
  obtain r st' where run: "new_request rt clock re status c x b d ?key ?now st = (r, st')"
    by (cases "new_request rt clock re status c x b d ?key ?now st") auto
  have call: "requestDotCastCreatorPayout rt clock re env q hasDb st = (r, st')"
    using request_unfold [OF books ready key, of rt clock] none chk run by simp
  have cid: "cr_creatorId c = trim (pi_creatorId q)" using checkPayout_Inr [OF books chk] by simp
  have new: "ids_new st (cr_creatorId c) ?key" and now: "?now \<noteq> ''''" using g nokey cid by (auto simp: payout_guard_def)
  obtain res p b' v t where h: "r = Inr res" "pp_payout res = p" "pp_balance res = b'"
      "cl_creators st' = with_event v (paid_db ?db p b')" "py_creatorId p = cr_creatorId c" "py_idempotencyKey p = ?key"
      "py_amount p = x" "py_status p = PayoutSigned" "py_payoutId p = payoutId (cr_creatorId c) ?key"
      "signed_for t (rail_user (cr_creatorId c)) x" "tf_status t = Signed" "tf_destination t = Some (trim d)"
      "db_transfers (cl_rail st') = db_transfers (cl_rail st) @ [(tf_transferId t, t)]"
      "eb_available b' = eb_available b - x" "eb_pendingPayout b' = eb_pendingPayout b + x"
      "eb_lifetimePaid b' = eb_lifetimePaid b" "(eb_creatorId b', eb_unit b') = (cr_creatorId c, Usdc)"
    using new_request_run [OF agree chk trim_trim key now none new run] rail by blast
  have agree': "ledgers_agree st'" using request_advances [OF agree g, of rt re env hasDb] call by (simp add: advances_def)
  have "map_of (cd_payouts (cl_creators st')) (py_payoutId p) = Some p" "map_of (cd_balances (cl_creators st')) (py_creatorId p, Usdc) = Some b'"
    using h(5,9,17) new by (simp_all add: h(4) paid_db_def ids_new_def)
  moreover from this(1) have "payout_backed (cl_rail st') p" using agree' by (auto simp: ledgers_agree_def)
  ultimately have "payout_facts st' p b'" by (simp add: payout_facts_def)
  moreover have "cd_creators (cl_creators st') = cd_creators ?db" by (simp add: h(4) paid_db_def)
  moreover have "tf_amount t = x" using h(10) by (simp add: signed_for_def)
  ultimately show ?thesis
    by (intro exI [of _ res] exI [of _ st'] exI [of _ p] exI [of _ b'] exI [of _ t])
      (use call h(1-3,5-8,11-16) agree' in simp)
qed

text \<open>
  C10: A creator is paid once.  A request that passes the checks and that the rail does not refuse moves its
  amount from available to pending and signs one withdrawal of that amount to the given destination;
  sending the request again changes nothing and answers with the same pay-out; confirming it while the creator
  is active moves the amount from pending to paid; and confirming it once more changes nothing.
\<close>

theorem requestDotCastCreatorPayout_pays_once:
  fixes re :: DotCastSettlementRailEnv
  assumes "ledgers_agree st" "assertCreatorEconomyReady re env hasDb = Inr status"
    and "trim (pi_idempotencyKey q) \<noteq> ''''"
    and "\<forall>p \<in> set (map snd (cd_payouts (cl_creators st))). py_idempotencyKey p \<noteq> trim (pi_idempotencyKey q)"
    and "checkPayout status q (cl_creators st) = Inr (c, x, b, d)" "payout_guard st clock q"
    and "\<not> rail_refuses re d x"
    and "trim (fi_payoutId f) = payoutId (cr_creatorId c) (trim (pi_idempotencyKey q))" "orElse (fi_now f) clock2 \<noteq> ''''"
  shows "\<exists>res st1 p t res2 st2.
    requestDotCastCreatorPayout rt clock re env q hasDb st = (Inr res, st1) \<and> pp_payout res = p \<and>
    py_amount p = x \<and> py_creatorId p = cr_creatorId c \<and>
    map_of (cd_balances (cl_creators st1)) (cr_creatorId c, Usdc) = Some (pp_balance res) \<and>
    eb_available (pp_balance res) = eb_available b - x \<and> eb_pendingPayout (pp_balance res) = eb_pendingPayout b + x \<and>
    db_transfers (cl_rail st1) = db_transfers (cl_rail st) @ [(tf_transferId t, t)] \<and> tf_amount t = x \<and>
    tf_status t = Signed \<and> tf_destination t = Some (trim d) \<and>
    (\<exists>r. requestDotCastCreatorPayout rt clock2 re env q hasDb st1 = (Inr r, st1) \<and> pp_idempotent r \<and> pp_payout r = p) \<and>
    confirmDotCastCreatorPayout rt clock2 re env f hasDb st1 = (Inr res2, st2) \<and>
    map_of (cd_balances (cl_creators st2)) (cr_creatorId c, Usdc) = Some (pp_balance res2) \<and>
    eb_available (pp_balance res2) = eb_available b - x \<and> eb_pendingPayout (pp_balance res2) = eb_pendingPayout b \<and>
    eb_lifetimePaid (pp_balance res2) = eb_lifetimePaid b + x \<and>
    (\<exists>r. confirmDotCastCreatorPayout rt clock2 re env f hasDb st2 = (Inr r, st2) \<and> pp_idempotent r)"
proof -
  obtain res st1 p b1 t where h: "requestDotCastCreatorPayout rt clock re env q hasDb st = (Inr res, st1)"
      "pp_payout res = p" "pp_balance res = b1" "payout_facts st1 p b1" "py_status p = PayoutSigned" "ledgers_agree st1"
      "py_creatorId p = cr_creatorId c" "py_amount p = x" "py_idempotencyKey p = trim (pi_idempotencyKey q)"
      "cd_creators (cl_creators st1) = cd_creators (cl_creators st)"
      "eb_available b1 = eb_available b - x" "eb_pendingPayout b1 = eb_pendingPayout b + x" "eb_lifetimePaid b1 = eb_lifetimePaid b"
      "db_transfers (cl_rail st1) = db_transfers (cl_rail st) @ [(tf_transferId t, t)]" "tf_amount t = x"
      "tf_status t = Signed" "tf_destination t = Some (trim d)"
    using request_pays [OF assms(1-7), of rt] by blast
  have books: "creator_books (cl_creators st)" "creator_books (cl_creators st1)"
    using assms(1) h(6) by (simp_all add: ledgers_agree_def)
  have c: "map_of (cd_creators (cl_creators st1)) (py_creatorId p) = Some c" "cr_status c = CreatorActive"
    using checkPayout_Inr [OF books(1) assms(5)] by (simp_all add: h(7,10))
  have m: "map_of (cd_payouts (cl_creators st1)) (py_payoutId p) = Some p" using h(4) by (simp add: payout_facts_def)
  have "py_payoutId p = payoutId (py_creatorId p) (py_idempotencyKey p)"
    using table_okD [OF creator_books_tables(4) [OF books(2)] m] by (simp only: payout_wf_def)
  then have pid: "trim (fi_payoutId f) = py_payoutId p" by (simp only: assms(8) h(7,9))
  obtain res2 st2 p2 b2 where k: "confirmDotCastCreatorPayout rt clock2 re env f hasDb st1 = (Inr res2, st2)"
      "pp_payout res2 = p2" "pp_balance res2 = b2" "payout_facts st2 p2 b2" "py_status p2 = PayoutConfirmed" "ledgers_agree st2"
      "py_payoutId p2 = py_payoutId p" "py_creatorId p2 = py_creatorId p"
      "eb_available b2 = eb_available b1" "eb_pendingPayout b2 = eb_pendingPayout b1 - py_amount p"
      "eb_lifetimePaid b2 = eb_lifetimePaid b1 + py_amount p"
    using confirm_pays [OF h(6,4,5) c assms(2) pid assms(9), of rt] by blast
  have again: "\<exists>r. requestDotCastCreatorPayout rt clock2 re env q hasDb st1 = (Inr r, st1) \<and> pp_idempotent r \<and> pp_payout r = p"
    using request_again [OF h(6,4) assms(2), of q rt clock2] h(9) by simp
  have done2: "\<exists>r. confirmDotCastCreatorPayout rt clock2 re env f hasDb st2 = (Inr r, st2) \<and> pp_idempotent r"
    using confirm_again [OF k(6,4,5) assms(2), of f rt clock2] pid k(7) by auto
  have bal: "map_of (cd_balances (cl_creators st1)) (cr_creatorId c, Usdc) = Some b1"
      "map_of (cd_balances (cl_creators st2)) (cr_creatorId c, Usdc) = Some b2"
    using h(4,7) k(4,8) by (simp_all add: payout_facts_def)
  show ?thesis
    by (intro exI [of _ res] exI [of _ st1] exI [of _ p] exI [of _ t] exI [of _ res2] exI [of _ st2] conjI again done2)
      (simp_all add: h(1-3,7,8,11-17) k(1,3,9-11) bal)
qed

subsection \<open>An example\<close>

definition devnet_rail :: DotCastSettlementRailEnv where
  "devnet_rail =
     \<lparr>re_mode = Some ''devnet'', re_cluster = None, re_mint = None, re_signerMode = None,
      re_withdrawalsApproved = None, re_withdrawalMax = None, re_confirmations = None\<rparr>"

definition example_settings :: DotCastCreatorEconomyEnv where
  "example_settings =
     \<lparr>ce_enabled = None, ce_shareCasualBps = None, ce_shareVerifiedBps = None, ce_sharePartnerBps = None,
      ce_payoutMin = None, ce_payoutMax = None, ce_payoutSchedule = Some ''weekly'', ce_minRetentionBps = None,
      ce_seedHandlingFeeBps = None\<rparr>"

definition example_status :: DotCastCreatorEconomyStatus where
  "example_status =
     \<lparr>es_enabled = True, es_ready = True,
      es_tierSharesBps = \<lparr>ts_casual = 1000, ts_verified = 2500, ts_partner = 4000\<rparr>,
      es_payoutMinMinorUnits = 500000, es_payoutMaxMinorUnits = 1000000, es_payoutSchedule = ScheduleWeekly,
      es_minRetentionBps = 2500, es_seedHandlingFeeBps = 0, es_guards = [],
      es_integrityWall = creatorIntegrityWall\<rparr>"

definition example_onboarding :: OnboardCreatorInput where
  "example_onboarding =
     \<lparr>oi_creatorId = ''ada'', oi_displayName = ''Ada'', oi_tier = Some (JStr ''partner''), oi_status = None,
      oi_kycStatus = Some (JStr ''verified''),
      oi_payoutDestination = Some (JStr ''4zMMC9srt5Ri5X14GAgXhaHii3GnPAEERYPJgZJDncDU''), oi_accuracyBps = None,
      oi_retentionBps = None, oi_volumeScore = None, oi_manualReviewRequired = None, oi_sponsorshipEligible = None,
      oi_metadata = None, oi_now = None\<rparr>"

definition example_creator :: DotCastCreatorProfile where
  "example_creator =
     \<lparr>cr_creatorId = ''ada'', cr_displayName = ''Ada'', cr_tier = TierPartner, cr_status = CreatorActive,
      cr_kycStatus = KycVerified, cr_payoutDestination = Some ''4zMMC9srt5Ri5X14GAgXhaHii3GnPAEERYPJgZJDncDU'',
      cr_accuracyBps = 5000, cr_retentionBps = 2500, cr_volumeScore = 0, cr_manualReviewRequired = True,
      cr_sponsorshipEligible = False, cr_metadata = [], cr_createdAt = ''t0'', cr_updatedAt = ''t0''\<rparr>"

lemma creators_ready: "assertCreatorEconomyReady devnet_rail example_settings True = Inr example_status"
  by code_simp

definition creators0 :: creator_rail where
  "creators0 = \<lparr>cl_creators = empty_creators, cl_rail = empty_db\<rparr>"

definition creators1 :: creator_rail where
  "creators1 = snd (on_creators (onboardDotCastCreator ref_runtime ''t0'' devnet_rail example_settings example_onboarding True) creators0)"

lemma creators1_creators:
  "cd_creators (cl_creators creators1) = [(''ada'', example_creator)]"
  by code_simp

lemma creators1_rest:
  "cd_balances (cl_creators creators1) = []" "cd_accruals (cl_creators creators1) = []" "cd_payouts (cl_creators creators1) = []"
  by code_simp+

definition example_record :: DotCastSettlementRecord where
  "example_record =
     \<lparr>sr_id = ''settlement:p1:yes'', sr_poolId = ''p1'', sr_outcome = Yes, sr_totalStaked = 80000000,
      sr_payoutTotal = 78000000, sr_rakeAmount = 2000000, sr_createdAt = ''t1''\<rparr>"

definition example_settled :: DotCastPoolSnapshot where
  "example_settled =
     example_terminal\<lparr>s_pool := (s_pool example_terminal)\<lparr>p_originatingCreatorId := Some ''ada''\<rparr>,
       s_settlement := Some example_record\<rparr>"

definition example_accrual :: ApplyCreatorRakeShareInput where
  "example_accrual = \<lparr>aw_snapshot = example_settled, aw_now = Some ''t1''\<rparr>"

definition creators2 :: creator_rail where
  "creators2 = snd (on_creators
     (applyDotCastCreatorRakeShareSettlement ref_runtime ''t1'' devnet_rail example_settings example_accrual True) creators1)"

definition example_request :: RequestCreatorPayoutInput where
  "example_request =
     \<lparr>pi_creatorId = ''ada'', pi_amount = Some (jint 600000), pi_destination = None, pi_idempotencyKey = ''k1'',
      pi_operatorApproved = None, pi_now = Some ''t2''\<rparr>"

definition creators3 :: creator_rail where
  "creators3 = snd (requestDotCastCreatorPayout ref_runtime ''t2'' devnet_rail example_settings example_request True creators2)"

definition example_confirmation :: ConfirmCreatorPayoutInput where
  "example_confirmation = \<lparr>fi_payoutId = payoutId ''ada'' ''k1'', fi_txRef = None, fi_now = Some ''t3''\<rparr>"

definition creators4 :: creator_rail where
  "creators4 = snd (confirmDotCastCreatorPayout ref_runtime ''t3'' devnet_rail example_settings example_confirmation True creators3)"

lemma example_settled:
  "settled_pool example_settled k se \<longleftrightarrow> k = ''ada'' \<and> se = example_record"
  "p_unit (s_pool example_settled) = Usdc" "p_id (s_pool example_settled) = ''p1''" "sr_rakeAmount example_record = 2000000"
  by (auto simp: settled_pool_def example_settled_def example_terminal_def example_record_def)

lemma example_fits: "settlement_fits (s_pool example_settled) example_record"
  unfolding settlement_fits_def
proof (intro conjI)
  show "p_id (s_pool example_settled) \<noteq> ''''" by (simp add: example_settled(3))
  show "\<exists>s. sr_id example_record = ''settlement:'' @ p_id (s_pool example_settled) @ '':'' @ show_side s"
    by (rule exI [of _ Yes]) (simp add: example_settled(3) example_record_def)
  show "0 \<le> sr_rakeAmount example_record" by (simp add: example_settled(4))
  show "is_safe_integer (sr_rakeAmount example_record * 10000)"
    by (simp add: example_settled(4) is_safe_integer_def max_safe_integer_def)
qed

lemma creators0_fresh: "fresh_creators creators0"
  using books_empty by (simp add: fresh_creators_def creators0_def books_def)

lemma creators1_reach: "reach fresh_creators (creator_step ref_runtime) creators1"
proof (rule reach_step)
  show "reach fresh_creators (creator_step ref_runtime) creators0" by (rule reach_init) (rule creators0_fresh)
  show "creator_step ref_runtime creators0 creators1"
    unfolding creators1_def by (rule creator_step.onboard) (simp add: example_onboarding_def)
qed

lemma creators1_rail: "cl_rail creators1 = empty_db"
  by (simp add: creators1_def on_creators_snd creators0_def)

lemma creators1_books: "creator_books (cl_creators creators1)"
  using creators.reach_inv [OF creators1_reach] by (simp add: ledgers_agree_def)

lemma example_room: "share_room (cl_creators creators1) ''ada'' Usdc 2000000"
  by (simp add: share_room_def earned_def creators1_rest is_safe_integer_def max_safe_integer_def)

lemma example_accrual_guard: "accrual_guard (cl_creators creators1) example_accrual"
  by (simp add: accrual_guard_def example_accrual_def example_settled example_fits example_room)

lemma creators2_reach: "reach fresh_creators (creator_step ref_runtime) creators2"
  unfolding creators2_def by (rule reach_step, rule creators1_reach, rule creator_step.accrue, rule example_accrual_guard)

lemma creators2_tables:
  "cd_creators (cl_creators creators2) = [(''ada'', example_creator)]" "cd_payouts (cl_creators creators2) = []"
  "cl_rail creators2 = empty_db"
  "\<exists>b. map_of (cd_balances (cl_creators creators2)) (''ada'', Usdc) = Some b \<and> eb_available b = 800000 \<and>
     eb_pendingPayout b = 0 \<and> eb_lifetimePaid b = 0"
proof -
  let ?db = "cl_creators creators1" and ?pool = "s_pool example_settled"
  let ?a = "rakeAccrual example_status example_creator ?pool example_record ''t1''"
  have c: "map_of (cd_creators ?db) ''ada'' = Some example_creator" by (simp add: creators1_creators)
  have cwf: "creator_wf ''ada'' example_creator" using table_okD [OF creator_books_tables(1) [OF creators1_books] c] .
  note st = ready_status_ok [OF creators_ready]
  have none: "find (\<lambda>a. ac_poolId a = p_id ?pool) (map snd (cd_accruals ?db)) = None" by (simp add: creators1_rest)
  have room: "share_room ?db ''ada'' (p_unit ?pool) (sr_rakeAmount example_record)" using example_room by (simp add: example_settled)
  have "calculateCreatorEffectiveShareBps example_creator example_status = 4000"
    by (simp add: calculateCreatorEffectiveShareBps_def example_creator_def example_status_def)
  then have share: "ac_creatorShare ?a = 800000"
    using rakeAccrual_wf(2,6) [OF st cwf example_fits, of "''t1''"] by (simp add: example_settled(4))
  obtain b v where b: "creditRakeShare ref_runtime ''t1'' example_status example_creator ?pool example_record ''t1'' ?db =
      (Inr \<lparr>ar_applied = True, ar_idempotent = False, ar_creator = Some example_creator, ar_accrual = Some ?a, ar_balance = Some b,
         ar_status = example_status\<rparr>, with_event v (credited_db ?db ?a b))"
      "eb_creatorId b = ''ada''" "eb_unit b = p_unit ?pool"
      "eb_available b = earned eb_available ?db ''ada'' (p_unit ?pool) + ac_creatorShare ?a"
      "eb_pendingPayout b = earned eb_pendingPayout ?db ''ada'' (p_unit ?pool)"
      "eb_lifetimePaid b = earned eb_lifetimePaid ?db ''ada'' (p_unit ?pool)"
    using creditRakeShare_ok [OF creators1_books c st example_fits _ none room, of "''t1''" ref_runtime "''t1''"] by auto
  have s: "settled_pool (aw_snapshot example_accrual) ''ada'' example_record" by (simp add: example_accrual_def example_settled)
  have active: "cr_status example_creator = CreatorActive" by (simp add: example_creator_def)
  have db2: "cl_creators creators2 = with_event v (credited_db ?db ?a b)"
    using apply_settled [OF creators1_books creators_ready s, of ref_runtime "''t1''"] none c b(1) active
    by (simp add: creators2_def on_creators_snd example_accrual_def)
  show "cd_creators (cl_creators creators2) = [(''ada'', example_creator)]" "cd_payouts (cl_creators creators2) = []"
    by (simp_all add: db2 credited_db_def creators1_creators creators1_rest)
  show "cl_rail creators2 = empty_db" by (simp add: creators2_def on_creators_snd creators1_rail)
  show "\<exists>b. map_of (cd_balances (cl_creators creators2)) (''ada'', Usdc) = Some b \<and> eb_available b = 800000 \<and>
     eb_pendingPayout b = 0 \<and> eb_lifetimePaid b = 0"
    using b(2-6) by (intro exI [of _ b]) (simp add: db2 credited_db_def share example_settled(2) earned_def creators1_rest)
qed

definition example_destination :: string where
  "example_destination = ''4zMMC9srt5Ri5X14GAgXhaHii3GnPAEERYPJgZJDncDU''"

lemma example_check:
  "\<exists>b. checkPayout example_status example_request (cl_creators creators2) = Inr (example_creator, 600000, b, example_destination) \<and>
     eb_available b = 800000 \<and> eb_pendingPayout b = 0 \<and> eb_lifetimePaid b = 0"
proof -
  have books: "creator_books (cl_creators creators2)"
    using creators.reach_inv [OF creators2_reach] by (simp add: ledgers_agree_def)
  obtain b where b: "map_of (cd_balances (cl_creators creators2)) (''ada'', Usdc) = Some b" "eb_available b = 800000"
      "eb_pendingPayout b = 0" "eb_lifetimePaid b = 0" using creators2_tables(4) by blast
  have active: "requireActiveCreator (cl_creators creators2) ''ada'' = Inr example_creator"
    by (simp add: requireActiveCreator_def requireText_def creator_reads [OF books] creators2_tables)
      (simp add: example_creator_def trim_def is_white_def)
  have "parseCreatorMinorUnits (Some (jint 600000)) ''amount'' = Inr 600000"
    by (simp add: parseCreatorMinorUnits_def is_safe_integer_def max_safe_integer_def)
  then have "checkPayout example_status example_request (cl_creators creators2) = Inr (example_creator, 600000, b, example_destination)"
    using active b(1,2)
    by (simp add: checkPayout_def example_request_def requireCreatorBalance_def creator_reads [OF books])
      (simp add: example_creator_def example_status_def example_destination_def)
  then show ?thesis using b(2-4) by blast
qed

lemma example_accepted: "\<not> rail_refuses devnet_rail example_destination 600000"
proof -
  have "isLikelySolanaAddress (trim example_destination)" by code_simp
  moreover have "\<not> rail_withdrawalMaxMinorUnits (readSolanaUsdcSettlementRailStatus devnet_rail) < 600000" by code_simp
  moreover have "\<not> (\<exists>e. assertDevnetMockRail devnet_rail = Inl e)" using ready_rail [OF creators_ready] by auto
  ultimately show ?thesis by (simp add: rail_refuses_def)
qed

lemma example_key: "trim (pi_idempotencyKey example_request) = ''k1''" "trim (pi_creatorId example_request) = ''ada''"
  by (simp_all add: example_request_def trim_def is_white_def)

lemma example_payout_guard: "payout_guard creators2 ''t2'' example_request"
  by (simp add: payout_guard_def ids_new_def creators2_tables example_key empty_db_def) (simp add: example_request_def)

lemma creators3_reach: "reach fresh_creators (creator_step ref_runtime) creators3"
  unfolding creators3_def by (rule reach_step, rule creators2_reach, rule creator_step.request, rule example_payout_guard)

lemma creators3_payout:
  "\<exists>p b. payout_facts creators3 p b \<and> py_status p = PayoutSigned \<and> py_amount p = 600000 \<and> py_creatorId p = ''ada'' \<and>
     eb_available b = 200000 \<and> eb_pendingPayout b = 600000"
proof -
  obtain b where b: "checkPayout example_status example_request (cl_creators creators2) = Inr (example_creator, 600000, b, example_destination)"
      "eb_available b = 800000" "eb_pendingPayout b = 0" using example_check by blast
  have key: "trim (pi_idempotencyKey example_request) \<noteq> ''''" by (simp add: example_key)
  have nokey: "\<forall>p \<in> set (map snd (cd_payouts (cl_creators creators2))). py_idempotencyKey p \<noteq> trim (pi_idempotencyKey example_request)"
    by (simp add: creators2_tables)
  have cid: "cr_creatorId example_creator = ''ada''" by (simp add: example_creator_def)
  obtain res st' p b' t where h: "requestDotCastCreatorPayout ref_runtime ''t2'' devnet_rail example_settings example_request True creators2 =
        (Inr res, st')" "payout_facts st' p b'" "py_status p = PayoutSigned" "py_creatorId p = cr_creatorId example_creator"
      "py_amount p = 600000" "eb_available b' = eb_available b - 600000" "eb_pendingPayout b' = eb_pendingPayout b + 600000"
    using request_pays [OF creators.reach_inv [OF creators2_reach] creators_ready key nokey b(1) example_payout_guard example_accepted,
        of ref_runtime] by blast
  have "st' = creators3" using h(1) by (simp add: creators3_def)
  then show ?thesis using h(2-7) b(2,3) cid by (intro exI [of _ p] exI [of _ b']) simp
qed


lemma creators3_confirms: "(creator_step ref_runtime)\<^sup>*\<^sup>* creators3 creators4"
  unfolding creators4_def by (rule r_into_rtranclp, rule creator_step.confirm) (simp add: example_confirmation_def)

lemma creators2_agree: "ledgers_agree creators2"
  using creators2_reach by (rule creators.reach_inv)

theorem creator_books_balance_witness:
  "reach fresh_creators (creator_step ref_runtime) creators3 \<and> payouts_at PayoutSigned (cl_creators creators3) ''ada'' Usdc = 600000 \<and>
   accrued_shares (cl_creators creators3) ''ada'' Usdc = 800000 + earned eb_lifetimePaid (cl_creators creators3) ''ada'' Usdc"
proof -
  obtain p b where h: "payout_facts creators3 p b" "py_creatorId p = ''ada''" "eb_available b = 200000" "eb_pendingPayout b = 600000"
    using creators3_payout by blast
  then have "map_of (cd_balances (cl_creators creators3)) (''ada'', Usdc) = Some b" by (simp add: payout_facts_def)
  then have "earned eb_available (cl_creators creators3) ''ada'' Usdc = 200000"
    "earned eb_pendingPayout (cl_creators creators3) ''ada'' Usdc = 600000" using h(3,4) by (simp_all add: earned_def)
  then show ?thesis using creator_books_balance [OF creators3_reach, of "''ada''" Usdc] creators3_reach by simp
qed

theorem creator_records_final_witness:
  "\<exists>p p'. map_of (cd_payouts (cl_creators creators3)) (py_payoutId p) = Some p \<and> py_status p = PayoutSigned \<and>
     map_of (cd_payouts (cl_creators creators4)) (py_payoutId p) = Some p' \<and> py_amount p' = 600000"
proof -
  obtain p b where h: "payout_facts creators3 p b" "py_status p = PayoutSigned" "py_amount p = 600000" using creators3_payout by blast
  then have m: "map_of (cd_payouts (cl_creators creators3)) (py_payoutId p) = Some p" by (simp add: payout_facts_def)
  then obtain p' where "map_of (cd_payouts (cl_creators creators4)) (py_payoutId p) = Some p'" "payout_forward p p'"
    using creator_records_final [OF creators3_reach creators3_confirms] by blast
  then show ?thesis using m h by (auto simp: payout_forward_def)
qed

theorem creator_rows_well_typed_witness:
  "\<exists>p. getPayout (cl_creators creators3) (py_payoutId p) = Inr (Some p) \<and> py_amount p = 600000"
proof -
  obtain p b where h: "payout_facts creators3 p b" "py_amount p = 600000" using creators3_payout by blast
  then have "map_of (cd_payouts (cl_creators creators3)) (py_payoutId p) = Some p" by (simp add: payout_facts_def)
  then show ?thesis
    using creator_rows_well_typed [OF creators3_reach, of "''ada''" "''ada''" Usdc "''p1''" "py_payoutId p" "''k1''"] h(2) by auto
qed

theorem applyDotCastCreatorRakeShareSettlement_once_witness:
  "\<exists>res db' a b. applyDotCastCreatorRakeShareSettlement ref_runtime ''t1'' devnet_rail example_settings example_accrual True
       (cl_creators creators1) = (Inr res, db') \<and> ar_accrual res = Some a \<and> ar_balance res = Some b \<and>
     ac_creatorShare a = 800000 \<and> ac_houseShare a = 1200000 \<and> eb_available b = 800000"
proof -
  have s: "settled_pool (aw_snapshot example_accrual) ''ada'' example_record" by (simp add: example_accrual_def example_settled)
  have share: "calculateCreatorEffectiveShareBps example_creator example_status = 4000"
    by (simp add: calculateCreatorEffectiveShareBps_def example_creator_def example_status_def)
  have none: "earned eb_available (cl_creators creators1) ''ada'' Usdc = 0" by (simp add: earned_def creators1_rest)
  have "settlement_fits (s_pool (aw_snapshot example_accrual)) example_record"
    "orElse (aw_now example_accrual) (s_updatedAt (aw_snapshot example_accrual)) \<noteq> ''''"
    "map_of (cd_creators (cl_creators creators1)) ''ada'' = Some example_creator" "cr_status example_creator = CreatorActive"
    "\<forall>a \<in> set (map snd (cd_accruals (cl_creators creators1))). ac_poolId a \<noteq> p_id (s_pool (aw_snapshot example_accrual))"
    "share_room (cl_creators creators1) ''ada'' (p_unit (s_pool (aw_snapshot example_accrual))) (sr_rakeAmount example_record)"
    using example_fits example_room
    by (simp_all add: example_accrual_def example_settled(2-4) creators1_creators creators1_rest) (simp add: example_creator_def)
  from applyDotCastCreatorRakeShareSettlement_once
      [OF creators1_books creators_ready s this, of ref_runtime "''t1''"]
  obtain res db' a b where h: "applyDotCastCreatorRakeShareSettlement ref_runtime ''t1'' devnet_rail example_settings example_accrual True
       (cl_creators creators1) = (Inr res, db')" "ar_accrual res = Some a" "ar_balance res = Some b"
      "ac_creatorShare a = sr_rakeAmount example_record * calculateCreatorEffectiveShareBps example_creator example_status div 10000"
      "ac_creatorShare a + ac_houseShare a = sr_rakeAmount example_record"
      "eb_available b = earned eb_available (cl_creators creators1) ''ada'' (p_unit (s_pool (aw_snapshot example_accrual))) + ac_creatorShare a"
    by blast
  have "ac_creatorShare a = 800000" using h(4) by (simp add: share example_settled(4))
  moreover from this have "ac_houseShare a = 1200000" using h(5) by (simp add: example_settled(4))
  moreover have "eb_available b = 800000" using h(6) calculation(1) none by (simp add: example_accrual_def example_settled(2))
  ultimately show ?thesis using h(1-3) by blast
qed

theorem requestDotCastCreatorPayout_pays_once_witness:
  "\<exists>res st1 p t res2 st2.
     requestDotCastCreatorPayout ref_runtime ''t2'' devnet_rail example_settings example_request True creators2 = (Inr res, st1) \<and>
     pp_payout res = p \<and> py_amount p = 600000 \<and> eb_available (pp_balance res) = 200000 \<and>
     db_transfers (cl_rail st1) = [(tf_transferId t, t)] \<and> tf_amount t = 600000 \<and>
     confirmDotCastCreatorPayout ref_runtime ''t3'' devnet_rail example_settings example_confirmation True st1 = (Inr res2, st2) \<and>
     eb_pendingPayout (pp_balance res2) = 0 \<and> eb_lifetimePaid (pp_balance res2) = 600000"
proof -
  obtain b where b: "checkPayout example_status example_request (cl_creators creators2) = Inr (example_creator, 600000, b, example_destination)"
      "eb_available b = 800000" "eb_pendingPayout b = 0" "eb_lifetimePaid b = 0" using example_check by blast
  have key: "trim (pi_idempotencyKey example_request) \<noteq> ''''" by (simp add: example_key)
  have nokey: "\<forall>p \<in> set (map snd (cd_payouts (cl_creators creators2))). py_idempotencyKey p \<noteq> trim (pi_idempotencyKey example_request)"
    by (simp add: creators2_tables)
  have f: "trim (fi_payoutId example_confirmation) = payoutId (cr_creatorId example_creator) (trim (pi_idempotencyKey example_request))"
    "orElse (fi_now example_confirmation) ''t3'' \<noteq> ''''" by code_simp+
  have none: "db_transfers (cl_rail creators2) = []" by (simp add: creators2_tables empty_db_def)
  from requestDotCastCreatorPayout_pays_once
      [OF creators2_agree creators_ready key nokey b(1) example_payout_guard example_accepted f, of ref_runtime]
  show ?thesis unfolding b(2-4) none by simp blast
qed

end
