(* ===== verification/CreatorPools.thy ===== *)
theory CreatorPools
  imports PoolObjectSystem CreatorSystem
begin

text \<open>
  Pools and creators together: what a pool object (\<open>DotCastPoolDO.ts\<close>) does to the books of the creator its
  pool came from.  Every time a settled pool is stored, the object applies the rake share; the books of the
  creators stay right, the pool accrues at most once, and the accrual is that of its own settlement.

  Guards of the steps: a time that is stored is not empty, the identifier of a pool is not empty and no
  other pool has accrued under it, and the stakes of a pool times 10000 are safe and fit into the books.
\<close>

declare map_of_append [simp del]

definition pool_accrual :: "creator_db \<Rightarrow> string \<Rightarrow> DotCastCreatorRakeAccrual option" where
  "pool_accrual db poolId = find (\<lambda>a. ac_poolId a = poolId) (map snd (cd_accruals db))"

text \<open>The creator tables can take the rake of a pool with the given stakes.\<close>

definition room_of :: "string \<Rightarrow> StakeUnit \<Rightarrow> int \<Rightarrow> creator_db \<Rightarrow> bool" where
  "room_of poolId unit stakes db \<longleftrightarrow> poolId \<noteq> '''' \<and> is_safe_integer (stakes * 10000) \<and>
     (pool_accrual db poolId = None \<longrightarrow> (\<forall>k. share_room db k unit stakes))"

definition rake_room :: "DotCastPoolSnapshot \<Rightarrow> creator_db \<Rightarrow> bool" where
  "rake_room s db \<longleftrightarrow> room_of (p_id (s_pool s)) (p_unit (s_pool s)) (total_staked s) db"

text \<open>The accrual of a pool is that of its settlement.\<close>

definition accrual_of_pool :: "DotCastPoolSnapshot \<Rightarrow> DotCastCreatorRakeAccrual \<Rightarrow> bool" where
  "accrual_of_pool s a \<longleftrightarrow> (\<exists>se. settled_pool s (ac_creatorId a) se \<and> ac_settlementId a = sr_id se \<and>
     ac_unit a = p_unit (s_pool s) \<and> ac_totalRake a = sr_rakeAmount se \<and>
     ac_creatorShare a + ac_houseShare a = sr_rakeAmount se \<and> 0 \<le> ac_creatorShare a \<and> 0 \<le> ac_houseShare a)"

definition creator_pool :: "DotCastPoolSnapshot \<Rightarrow> creator_db \<Rightarrow> bool" where
  "creator_pool s db \<longleftrightarrow> creator_books db \<and> rake_room s db \<and>
     (\<forall>a. pool_accrual db (p_id (s_pool s)) = Some a \<longrightarrow> accrual_of_pool s a)"

lemma ahead_keys: "ahead s t \<Longrightarrow> p_id (s_pool t) = p_id (s_pool s) \<and> p_unit (s_pool t) = p_unit (s_pool s)"
  by (simp add: ahead_def pool_key_def)

lemma rake_room_ahead:
  "ahead s t \<Longrightarrow> map entry_key (s_entries t) = map entry_key (s_entries s) \<Longrightarrow> rake_room t db = rake_room s db"
  using ahead_keys [of s t] total_staked_keys [of t s] by (simp add: rake_room_def)

lemma creator_pool_ahead:
  assumes "creator_pool s db" "ahead s t" "rake_room t db"
  shows "creator_pool t db"
proof -
  have "accrual_of_pool t a" if "accrual_of_pool s a" for a
  proof -
    have "terminal (p_status (s_pool s))" using that by (auto simp: accrual_of_pool_def settled_pool_def terminal_def)
    then have "s_pool t = s_pool s" "s_settlement t = s_settlement s" using assms(2) by (simp_all add: ahead_def)
    then show ?thesis using that by (simp add: accrual_of_pool_def settled_pool_def)
  qed
  then show ?thesis using assms by (auto simp: creator_pool_def ahead_keys)
qed

lemma share_room_le: "creator_books db \<Longrightarrow> share_room db k u x \<Longrightarrow> 0 \<le> y \<Longrightarrow> y \<le> x \<Longrightarrow> share_room db k u y"
  using accrued_nonneg(1) [of db k u] by (auto simp: share_room_def is_safe_integer_def)

lemma pool_share_fits:
  assumes "good rt t" "creator_books db" "rake_room t db" "settled_pool t k se"
  shows "settlement_fits (s_pool t) se" "pool_accrual db (p_id (s_pool t)) = None \<Longrightarrow> share_room db k (p_unit (s_pool t)) (sr_rakeAmount se)"
proof -
  have se: "\<exists>w. sr_id se = ''settlement:'' @ p_id (s_pool t) @ '':'' @ show_side w" "0 \<le> sr_rakeAmount se"
      "sr_rakeAmount se \<le> total_staked t"
    using assms(1,4) unfolding good_def settlement_named_def settled_pool_def by blast+
  then have "is_safe_integer (sr_rakeAmount se * 10000)"
    using assms(3) by (auto simp: rake_room_def room_of_def is_safe_integer_def)
  then show "settlement_fits (s_pool t) se" using se assms(3) by (simp add: settlement_fits_def rake_room_def room_of_def)
  show "share_room db k (p_unit (s_pool t)) (sr_rakeAmount se)" if "pool_accrual db (p_id (s_pool t)) = None"
    using share_room_le [OF assms(2) _ se(2,3)] assms(3) that by (simp add: rake_room_def room_of_def)
qed

subsection \<open>Storing a snapshot\<close>

definition apply_share :: "js_runtime \<Rightarrow> DotCastPoolEnv \<Rightarrow> DotCastPoolSnapshot \<Rightarrow> string \<Rightarrow> creator_db \<Rightarrow> creator_db" where
  "apply_share rt env t now db = snd (applyDotCastCreatorRakeShareSettlement rt now env (ev_creator env)
     \<lparr>aw_snapshot = t, aw_now = Some now\<rparr> True db)"

lemma apply_share_outcome:
  assumes cp: "creator_pool t db" and good: "good rt t" and now: "now \<noteq> ''''"
  obtains (same) "apply_share rt env t now db = db"
  | (credited) status c k se a b v where "assertCreatorEconomyReady env (ev_creator env) True = Inr status" "settled_pool t k se"
      "pool_accrual db (p_id (s_pool t)) = None" "map_of (cd_creators db) k = Some c" "cr_status c = CreatorActive"
      "a = rakeAccrual status c (s_pool t) se now" "apply_share rt env t now db = with_event v (credited_db db a b)"
      "creator_books (credited_db db a b)" "eb_creatorId b = k" "eb_unit b = p_unit (s_pool t)"
      "eb_available b = earned eb_available db k (p_unit (s_pool t)) + ac_creatorShare a"
proof -
  let ?in = "\<lparr>aw_snapshot = t, aw_now = Some now\<rparr>"
  have books: "creator_books db" and room: "rake_room t db" using cp by (simp_all add: creator_pool_def)
  have n: "orElse (aw_now ?in) (s_updatedAt (aw_snapshot ?in)) \<noteq> ''''" using now by (simp add: orElse_def)
  have fits: "settlement_fits (s_pool (aw_snapshot ?in)) se" if "settled_pool (aw_snapshot ?in) k se" for k se
    using pool_share_fits(1) [OF good books room] that by simp
  have rm: "share_room db k (p_unit (s_pool (aw_snapshot ?in))) (sr_rakeAmount se)"
    if "settled_pool (aw_snapshot ?in) k se"
      "find (\<lambda>a. ac_poolId a = p_id (s_pool (aw_snapshot ?in))) (map snd (cd_accruals db)) = None" for k se
    using pool_share_fits(2) [OF good books room, of k se] that by (simp add: pool_accrual_def)
  show thesis
  proof (rule apply_outcome [where rt = rt and clock = now and re = env and env = "ev_creator env" and hasDb = True, OF books n fits rm])
    assume "snd (applyDotCastCreatorRakeShareSettlement rt now env (ev_creator env) ?in True db) = db"
    then show thesis by (intro same) (simp add: apply_share_def)
  next
    fix status c k se a b v
    assume h: "assertCreatorEconomyReady env (ev_creator env) True = Inr status" "settled_pool (aw_snapshot ?in) k se"
      "find (\<lambda>a. ac_poolId a = p_id (s_pool (aw_snapshot ?in))) (map snd (cd_accruals db)) = None"
      "map_of (cd_creators db) k = Some c" "cr_status c = CreatorActive"
      "a = rakeAccrual status c (s_pool (aw_snapshot ?in)) se (orElse (aw_now ?in) (s_updatedAt (aw_snapshot ?in)))"
      "snd (applyDotCastCreatorRakeShareSettlement rt now env (ev_creator env) ?in True db) = with_event v (credited_db db a b)"
      "creator_books (credited_db db a b)" "eb_creatorId b = k" "eb_unit b = p_unit (s_pool (aw_snapshot ?in))"
      "eb_available b = earned eb_available db k (p_unit (s_pool (aw_snapshot ?in))) + ac_creatorShare a"
    show thesis
      by (rule credited [OF h(1) _ _ h(4,5) _ _ h(8,9)]) (use h in \<open>simp_all add: apply_share_def pool_accrual_def orElse_def\<close>)
  qed
qed

lemma apply_share_keeps:
  assumes "creator_pool t db" "good rt t" "now \<noteq> ''''"
  shows "creator_pool t (apply_share rt env t now db)"
proof (rule apply_share_outcome [OF assms, of env])
  fix status c k se a b v
  assume ready: "assertCreatorEconomyReady env (ev_creator env) True = Inr status" and s: "settled_pool t k se"
    and none: "pool_accrual db (p_id (s_pool t)) = None" and c: "map_of (cd_creators db) k = Some c"
    and a: "a = rakeAccrual status c (s_pool t) se now" and db': "apply_share rt env t now db = with_event v (credited_db db a b)"
    and books': "creator_books (credited_db db a b)"
  have books: "creator_books db" and room: "rake_room t db" using assms(1) by (simp_all add: creator_pool_def)
  have wf: "creator_wf k c" using table_okD [OF creator_books_tables(1) [OF books] c] .
  note af = rakeAccrual_wf [OF ready_status_ok [OF ready] wf pool_share_fits(1) [OF assms(2) books room s] assms(3), folded a]
  have "ac_settlementId a = sr_id se" by (simp add: a rakeAccrual_def Let_def)
  then have "accrual_of_pool t a"
    using s af(3-5,8-10) unfolding accrual_of_pool_def by (intro exI [of _ se]) simp
  moreover have "pool_accrual (credited_db db a b) (p_id (s_pool t)) = Some a"
    using none af(7) by (simp add: pool_accrual_def credited_db_def find_append)
  moreover from this have "rake_room t (credited_db db a b)" using room by (simp add: rake_room_def room_of_def)
  ultimately show ?thesis
    using books' by (simp add: db' creator_pool_def rake_room_def room_of_def pool_accrual_def)
qed (use assms(1) in simp)

lemma creators_kept:
  "po_creators (snd (reconcileUsdcPoolFunding env t now ob)) = po_creators ob"
  "po_creators (snd (reconcileResolutionAlarm rt env t now ob)) = po_creators ob"
  by (auto simp: reconcileUsdcPoolFunding_def reconcileResolutionAlarm_def on_ledger_def snd_ebind split: prod.splits sum.splits)

lemma reconcile_creators:
  "po_creators (snd (reconcileCreatorEconomy rt env t now ob)) \<in> {po_creators ob, apply_share rt env t now (po_creators ob)}"
  "fst (reconcileCreatorEconomy rt env t now ob) = Inr () \<Longrightarrow> settled_pool t k se \<Longrightarrow>
     po_creators (snd (reconcileCreatorEconomy rt env t now ob)) = apply_share rt env t now (po_creators ob)"
  by (auto simp: reconcileCreatorEconomy_def apply_share_def settled_pool_def truthy_text_def split: if_splits)

lemma persist_creators:
  assumes "interval_ok env"
  shows "po_creators (snd (persistSnapshot rt env t now ob)) \<in> {po_creators ob, apply_share rt env t now (po_creators ob)}"
    "fst (persistSnapshot rt env t now ob) = Inr () \<Longrightarrow> settled_pool t k se \<Longrightarrow>
       po_creators (snd (persistSnapshot rt env t now ob)) = apply_share rt env t now (po_creators ob)"
proof -
  define a where "a = snd (reconcileResolutionAlarm rt env t now (ob\<lparr>po_snapshot := Some t\<rparr>))"
  have a: "reconcileResolutionAlarm rt env t now (ob\<lparr>po_snapshot := Some t\<rparr>) = (Inr (), a)"
    using assms by (auto simp: a_def reconcileResolutionAlarm_def interval_ok_def)
  obtain r ob1 where r: "reconcileUsdcPoolFunding env t now a = (r, ob1)" by fastforce
  have "po_creators ob1 = po_creators ob" using creators_kept(1) [of env t now a] r by (simp add: a_def creators_kept(2))
  moreover have "persistSnapshot rt env t now ob = (case r of Inl e \<Rightarrow> (Inl e, ob1) | Inr _ \<Rightarrow> reconcileCreatorEconomy rt env t now ob1)"
    by (simp add: persistSnapshot_def writeSnapshot_def ebind_def a r split: sum.split)
  ultimately show "po_creators (snd (persistSnapshot rt env t now ob)) \<in> {po_creators ob, apply_share rt env t now (po_creators ob)}"
    "fst (persistSnapshot rt env t now ob) = Inr () \<Longrightarrow> settled_pool t k se \<Longrightarrow>
       po_creators (snd (persistSnapshot rt env t now ob)) = apply_share rt env t now (po_creators ob)"
    using reconcile_creators [of rt env t now ob1] by (auto split: sum.splits)
qed

lemma persist_creator_pool:
  assumes "interval_ok env" "creator_pool t (po_creators ob)" "good rt t" "now \<noteq> ''''"
  shows "creator_pool t (po_creators (snd (persistSnapshot rt env t now ob)))"
  using persist_creators(1) [OF assms(1), of rt t now ob] apply_share_keeps [OF assms(2-4), of env] assms(2) by auto

subsection \<open>The state machine\<close>

definition share_store :: "js_runtime \<Rightarrow> DotCastPoolEnv \<Rightarrow> DotCastPoolSnapshot \<Rightarrow> pool_object \<Rightarrow> bool" where
  "share_store rt env s ob \<longleftrightarrow> interval_ok env \<and> stored rt s ob \<and> creator_pool s (po_creators ob)"

interpretation creator_store: object_store rt env "share_store rt env" "\<lambda>t ob. rake_room t (po_creators ob)" "\<lambda>now. now \<noteq> ''''" for rt env
proof unfold_locales
  fix s t :: DotCastPoolSnapshot and ob :: pool_object and now :: string
  assume st: "share_store rt env s ob"
  show "po_snapshot ob = Some s \<and> good rt s" using st by (simp add: share_store_def stored_def)
  show "rake_room t (po_creators ob)" if "ahead s t" "map entry_key (s_entries t) = map entry_key (s_entries s)"
    using rake_room_ahead [OF that] st by (simp add: share_store_def creator_pool_def)
  show "share_store rt env t (snd (persistSnapshot rt env t now ob))"
    if "good rt t" "ahead s t" "rake_room t (po_creators ob)" "now \<noteq> ''''"
    using persist_creator_pool [OF _ creator_pool_ahead [OF _ that(2,3)] that(1,4)] st that(1)
    by (simp add: share_store_def stored_def persist_object del: not_None_eq)
  show "share_store rt env s (snd (reconcileResolutionAlarm rt env s now ob))"
    using st by (simp add: share_store_def stored_def alarm_object creators_kept(2) del: not_None_eq)
  show "share_store rt env s (snd (audit env act x ob))" for act x
    using st by (simp add: share_store_def stored_def)
qed


text \<open>What a request needs of the creator tables: room for the stakes of a new entry, no accrual for a new pool.\<close>

fun request_fits :: "js_runtime \<Rightarrow> string \<Rightarrow> string \<Rightarrow> pool_object \<Rightarrow> pool_request \<Rightarrow> bool" where
  "request_fits rt clock freshId ob (PostEntries payload) = (case po_snapshot ob of
      None \<Rightarrow> True
    | Some s \<Rightarrow> entry_guard freshId payload s \<and> (case parseAmount (ep_amount payload) of
          Inl e \<Rightarrow> True
        | Inr amount \<Rightarrow> room_of (p_id (s_pool s)) (p_unit (s_pool s)) (total_staked s + amount) (po_creators ob)))"
| "request_fits rt clock freshId ob (PostCreate payload now) = (case po_snapshot ob of
      Some s \<Rightarrow> True
    | None \<Rightarrow> (case createPoolFromMarket rt (payload\<lparr>cp_now := orElse now clock\<rparr>) of
          Inl e \<Rightarrow> True
        | Inr p \<Rightarrow> room_of (p_id p) (p_unit p) 0 (po_creators ob) \<and> pool_accrual (po_creators ob) (p_id p) = None))"
| "request_fits rt clock freshId ob request = True"

definition share_obj_ok :: "js_runtime \<Rightarrow> pool_object \<Rightarrow> bool" where
  "share_obj_ok rt ob \<longleftrightarrow> (case po_snapshot ob of
      None \<Rightarrow> po_alarm ob = None \<and> creator_books (po_creators ob)
    | Some s \<Rightarrow> stored rt s ob \<and> creator_pool s (po_creators ob))"

definition share_next :: "js_runtime \<Rightarrow> pool_object \<Rightarrow> pool_object \<Rightarrow> bool" where
  "share_next rt ob ob' \<longleftrightarrow> share_obj_ok rt ob' \<and>
     (\<forall>s. po_snapshot ob = Some s \<longrightarrow> (\<exists>s'. po_snapshot ob' = Some s' \<and> ahead s s'))"

lemma leads_share:
  "po_snapshot ob = Some s \<Longrightarrow> leads (share_store rt env) s ob' \<Longrightarrow> share_next rt ob ob'"
  by (auto simp: leads_def share_next_def share_obj_ok_def share_store_def stored_def)

lemma request_share_ok:
  assumes iv: "interval_ok env" and now: "request_time clock request \<noteq> ''''" and fit: "request_fits rt clock freshId ob request"
    and ok: "share_obj_ok rt ob"
  shows "share_next rt ob (snd (fetch rt env fetcher clock freshId request ob))"
proof (cases "po_snapshot ob")
  case (Some s)
  then have st: "share_store rt env s ob" using iv ok by (simp add: share_obj_ok_def share_store_def)
  have "wpe (leads (share_store rt env) s) (placePoolEntry rt env clock freshId payload) (\<lambda>_. leads (share_store rt env) s) ob"
    if "request = PostEntries payload" for payload
  proof (rule creator_store.place_leads [OF st])
    show "entry_guard freshId payload s" "orElse (ep_now payload) clock \<noteq> ''''" using fit now Some that by simp_all
    fix e t assume t: "payload_entry payload freshId e" "ahead s t"
      "map entry_key (s_entries t) = map entry_key (s_entries s) @ [entry_key e]"
    then have "room_of (p_id (s_pool s)) (p_unit (s_pool s)) (total_staked s + e_amount e) (po_creators ob)"
      using fit Some that by (simp add: payload_entry_def)
    then show "rake_room t (po_creators ob)"
      using ahead_keys [OF t(2)] total_staked_new [OF t(3)] by (simp add: rake_room_def)
  qed
  then show ?thesis by (intro leads_share [OF Some, of rt env] creator_store.request_leads [OF st now])
next
  case None
  have same: "share_next rt ob ob" using ok None by (simp add: share_next_def)
  show ?thesis
    using uncreated_request [OF None, of rt env fetcher clock freshId request]
  proof (elim disjE exE conjE)
    fix payload pnow
    assume r: "request = PostCreate payload pnow"
      and f: "snd (fetch rt env fetcher clock freshId request ob) = snd (create rt env clock payload pnow ob)"
    show ?thesis
    proof (rule create_cases [OF None, of rt env clock payload pnow])
      fix t
      assume t: "good rt t" "s_entries t = []"
        "snd (create rt env clock payload pnow ob) = snd (persistSnapshot rt env t (orElse pnow clock) ob) \<or>
         (\<exists>body. snd (create rt env clock payload pnow ob) =
           snd (audit env AuditCreate body (snd (persistSnapshot rt env t (orElse pnow clock) ob))))"
        "createPoolFromMarket rt (payload\<lparr>cp_now := orElse pnow clock\<rparr>) = Inr (s_pool t)"
      have "creator_pool t (po_creators ob)"
        using fit ok None t(2,4) r by (simp add: creator_pool_def rake_room_def share_obj_ok_def)
      moreover have "orElse pnow clock \<noteq> ''''" using now r by simp
      ultimately have "creator_pool t (po_creators (snd (persistSnapshot rt env t (orElse pnow clock) ob)))"
        using persist_creator_pool [OF iv _ t(1)] by blast
      then show ?thesis
        using t(1,3) f iv None by (auto simp: share_next_def share_obj_ok_def stored_def persist_object simp del: not_None_eq)
    qed (use f same in simp)
  qed (use same in simp)
qed

inductive creator_pool_step :: "js_runtime \<Rightarrow> pool_object \<Rightarrow> pool_object \<Rightarrow> bool" for rt where
  cp_request: "interval_ok env \<Longrightarrow> request_time clock request \<noteq> '''' \<Longrightarrow> request_fits rt clock freshId ob request \<Longrightarrow>
    creator_pool_step rt ob (snd (fetch rt env fetcher clock freshId request ob))"
| cp_alarm: "interval_ok env \<Longrightarrow> clock \<noteq> '''' \<Longrightarrow> creator_pool_step rt ob (alarm rt env fetcher clock ob)"
| cp_ledger: "creator_pool_step rt ob (ob\<lparr>po_ledger := db\<rparr>)"
| cp_creators: "creator_books db \<Longrightarrow>
    \<forall>s. po_snapshot ob = Some s \<longrightarrow> rake_room s db \<and>
      pool_accrual db (p_id (s_pool s)) = pool_accrual (po_creators ob) (p_id (s_pool s)) \<Longrightarrow>
    creator_pool_step rt ob (ob\<lparr>po_creators := db\<rparr>)"

lemma creator_pool_step_next: "creator_pool_step rt ob ob' \<Longrightarrow> share_obj_ok rt ob \<Longrightarrow> share_next rt ob ob'"
proof (induction rule: creator_pool_step.induct)
  case (cp_request env clock request freshId ob fetcher)
  then show ?case by (intro request_share_ok)
next
  case (cp_alarm env clock ob fetcher)
  show ?case
  proof (cases "po_snapshot ob")
    case None
    then show ?thesis using cp_alarm uncreated_alarm by (simp add: share_next_def)
  next
    case (Some s)
    then have "share_store rt env s ob" using cp_alarm by (simp add: share_obj_ok_def share_store_def)
    from creator_store.alarm_leads [OF this cp_alarm(2)] show ?thesis by (rule leads_share [OF Some])
  qed
next
  case (cp_ledger ob db)
  then show ?case by (auto simp: share_next_def share_obj_ok_def stored_def split: option.splits)
next
  case (cp_creators db ob)
  then show ?case by (auto simp: share_next_def share_obj_ok_def stored_def creator_pool_def split: option.splits)
qed

text \<open>At first the object is empty, or it holds a pool in order that has not ended.\<close>

definition fresh_creator_pool :: "js_runtime \<Rightarrow> pool_object \<Rightarrow> bool" where
  "fresh_creator_pool rt ob \<longleftrightarrow> share_obj_ok rt ob \<and> (\<forall>s. po_snapshot ob = Some s \<longrightarrow> \<not> terminal (p_status (s_pool s)))"

interpretation creator_pools: step_system "fresh_creator_pool rt" "creator_pool_step rt" "share_obj_ok rt" for rt
  by unfold_locales (auto simp: fresh_creator_pool_def share_next_def dest: creator_pool_step_next)


subsection \<open>Properties\<close>

lemma pool_accrual_of:
  assumes "creator_books db" "a \<in> set (map snd (cd_accruals db))" "ac_poolId a = pid"
  shows "pool_accrual db pid = Some a"
proof -
  have d: "distinct (map ac_poolId (map snd (cd_accruals db)))"
    using assms(1) by (simp add: creator_books_def creator_rows_def comp_def)
  obtain a' where a': "pool_accrual db pid = Some a'" using assms(2,3) by (cases "pool_accrual db pid") (auto simp: pool_accrual_def find_None_iff)
  then have "a' \<in> set (map snd (cd_accruals db))" "ac_poolId a' = pid" by (force simp: pool_accrual_def find_Some_iff)+
  then have "a' = a" using inj_onD [of ac_poolId "set (map snd (cd_accruals db))" a' a] d assms(2,3)
    by (simp only: distinct_map [of ac_poolId])
  then show ?thesis using a' by simp
qed

text \<open>
  C7: A pool object pays its creator out of its own rake, once.  In every state that requests, alarms and the
  other users of the two databases can reach, an accrual for the pool of the object exists only when that pool
  is settled; it belongs to the creator the pool came from and to the settlement that is stored, splits exactly
  the rake taken there, and is the only one; and the books of every creator balance.
\<close>

theorem pool_share_accrued:
  assumes "reach (fresh_creator_pool rt) (creator_pool_step rt) ob" "po_snapshot ob = Some s"
  shows "(\<forall>a \<in> set (map snd (cd_accruals (po_creators ob))). ac_poolId a = p_id (s_pool s) \<longrightarrow>
      p_status (s_pool s) = Settled \<and> p_originatingCreatorId (s_pool s) = Some (ac_creatorId a) \<and>
      (\<exists>se. s_settlement s = Some se \<and> ac_settlementId a = sr_id se \<and> ac_unit a = p_unit (s_pool s) \<and>
         ac_totalRake a = sr_rakeAmount se \<and> ac_creatorShare a + ac_houseShare a = sr_rakeAmount se \<and>
         0 \<le> ac_creatorShare a \<and> 0 \<le> ac_houseShare a \<and> sr_rakeAmount se \<le> total_staked s)) \<and>
    distinct (map (ac_poolId \<circ> snd) (cd_accruals (po_creators ob))) \<and>
    (\<forall>c u. earned eb_available (po_creators ob) c u + earned eb_pendingPayout (po_creators ob) c u +
       earned eb_lifetimePaid (po_creators ob) c u = accrued_shares (po_creators ob) c u)"
proof -
  have st: "stored rt s ob" "creator_pool s (po_creators ob)"
    using creator_pools.reach_inv [OF assms(1)] assms(2) by (simp_all add: share_obj_ok_def)
  then have books: "creator_books (po_creators ob)" by (simp add: creator_pool_def)
  have "accrual_of_pool s a" if "a \<in> set (map snd (cd_accruals (po_creators ob)))" "ac_poolId a = p_id (s_pool s)" for a
    using pool_accrual_of [OF books that] st(2) by (simp add: creator_pool_def)
  moreover have "sr_rakeAmount se \<le> total_staked s" if "s_settlement s = Some se" for se
    using st(1) that by (simp add: stored_def good_def settlement_named_def)
  ultimately show ?thesis
    using books accrued_nonneg(5) [OF books] unfolding creator_books_def creator_rows_def accrual_of_pool_def settled_pool_def
    by (intro conjI ballI impI allI) (simp_all, blast+)
qed

lemma apply_share_settled:
  assumes cp: "creator_pool t db" and good: "good rt t" and now: "now \<noteq> ''''" and s: "settled_pool t k se"
    and ready: "assertCreatorEconomyReady env (ev_creator env) True = Inr status"
    and c: "map_of (cd_creators db) k = Some c" "cr_status c = CreatorActive"
  shows "pool_accrual db (p_id (s_pool t)) = Some a \<Longrightarrow> apply_share rt env t now db = db"
    "pool_accrual db (p_id (s_pool t)) = None \<Longrightarrow> \<exists>a. pool_accrual (apply_share rt env t now db) (p_id (s_pool t)) = Some a \<and>
       ac_creatorShare a = sr_rakeAmount se * calculateCreatorEffectiveShareBps c status div 10000 \<and>
       earned eb_available (apply_share rt env t now db) k (p_unit (s_pool t)) =
         earned eb_available db k (p_unit (s_pool t)) + ac_creatorShare a"
proof -
  have books: "creator_books db" and room: "rake_room t db" using cp by (simp_all add: creator_pool_def)
  note un = apply_settled [OF books ready, where input = "\<lparr>aw_snapshot = t, aw_now = Some now\<rparr>" and k = k and se = se
      and rt = rt and clock = now, simplified, OF s, folded pool_accrual_def]
  show "apply_share rt env t now db = db" if "pool_accrual db (p_id (s_pool t)) = Some a"
    using that un by (simp add: apply_share_def)
  assume none: "pool_accrual db (p_id (s_pool t)) = None"
  let ?a = "rakeAccrual status c (s_pool t) se now"
  note fits = pool_share_fits(1) [OF good books room s]
  note a = rakeAccrual_wf [OF ready_status_ok [OF ready] table_okD [OF creator_books_tables(1) [OF books] c(1)] fits now]
  obtain b v r where b: "creditRakeShare rt now status c (s_pool t) se now db = (r, with_event v (credited_db db ?a b))"
      "eb_creatorId b = k" "eb_unit b = p_unit (s_pool t)"
      "eb_available b = earned eb_available db k (p_unit (s_pool t)) + ac_creatorShare ?a"
    using creditRakeShare_ok [OF books c(1) ready_status_ok [OF ready] fits now none [unfolded pool_accrual_def]
        pool_share_fits(2) [OF good books room s none], of rt now] by blast
  have "apply_share rt env t now db = with_event v (credited_db db ?a b)"
    using un none c b(1) by (simp add: apply_share_def orElse_def)
  then show "\<exists>a. pool_accrual (apply_share rt env t now db) (p_id (s_pool t)) = Some a \<and>
       ac_creatorShare a = sr_rakeAmount se * calculateCreatorEffectiveShareBps c status div 10000 \<and>
       earned eb_available (apply_share rt env t now db) k (p_unit (s_pool t)) =
         earned eb_available db k (p_unit (s_pool t)) + ac_creatorShare a"
    using none a(2,6,7) b(2-4)
    by (intro exI [of _ ?a]) (simp add: pool_accrual_def credited_db_def find_append earned_def)
qed

lemma read_settled:
  assumes ok: "share_obj_ok rt ob" and s: "po_snapshot ob = Some s" "settled_pool s k se" and iv: "interval_ok env"
    and clock: "date_parse rt clock \<noteq> None" and stored: "fst (persistSnapshot rt env s clock ob) = Inr ()"
  shows "po_snapshot (snd (fetch rt env fetcher clock freshId GetPool ob)) = Some s"
    "po_creators (snd (fetch rt env fetcher clock freshId GetPool ob)) = apply_share rt env s clock (po_creators ob)"
proof -
  let ?ob' = "snd (fetch rt env fetcher clock freshId GetPool ob)"
  have "wf_pool rt (s_pool s)" using ok s(1) snap_okD(1) by (simp add: share_obj_ok_def stored_def good_def)
  moreover have "p_status (s_pool s) = Settled" using s(2) by (simp add: settled_pool_def)
  ultimately have lock: "lockSnapshotIfNeeded rt s clock = Inr s"
    using clock by (auto simp: lockSnapshotIfNeeded_def lockPoolIfNeeded_def assertIso_def wf_pool_def split: option.splits)
  obtain ob1 where ob1: "persistSnapshot rt env s clock ob = (Inr (), ob1)" using stored by (metis prod.collapse)
  have "po_snapshot ob1 = Some s" using persist_object(1) [OF iv, of rt s clock ob] ob1 by simp
  moreover have "po_creators ob1 = apply_share rt env s clock (po_creators ob)"
    using persist_creators(2) [OF iv stored s(2)] ob1 by simp
  moreover have "po_creators ?ob' = po_creators ob1" "po_snapshot ?ob' = po_snapshot ob1"
    using s(1) by (auto simp: fetch_def route_request_def read_def requireSnapshot_def readSnapshot_def lockIfNeeded_def
        lock ob1 ebind_def audit_run split: prod.splits sum.splits)
  ultimately show "po_snapshot ?ob' = Some s" "po_creators ?ob' = apply_share rt env s clock (po_creators ob)" by simp_all
qed

text \<open>
  C8: A settled pool pays its creator.  When the pool is settled and its creator is active, the next read of the
  pool that stores it without an error (a USDC pool may first have to close its locks) leaves an accrual for it,
  with the creator's effective share of the rake, rounded down, added to what the creator has available.  Further
  reads change nothing in the books of the creators.
\<close>

theorem settled_pool_pays_creator:
  fixes ob rt env fetcher clock freshId
  defines "ob' \<equiv> snd (fetch rt env fetcher clock freshId GetPool ob)"
  assumes r: "reach (fresh_creator_pool rt) (creator_pool_step rt) ob" and s: "po_snapshot ob = Some s" "settled_pool s k se"
    and env: "interval_ok env" "assertCreatorEconomyReady env (ev_creator env) True = Inr status"
    and clock: "date_parse rt clock \<noteq> None" "clock \<noteq> ''''"
    and c: "map_of (cd_creators (po_creators ob)) k = Some c" "cr_status c = CreatorActive"
    and stored: "fst (persistSnapshot rt env s clock ob) = Inr ()"
  shows "po_snapshot ob' = Some s \<and> (\<exists>a. pool_accrual (po_creators ob') (p_id (s_pool s)) = Some a \<and>
    (if pool_accrual (po_creators ob) (p_id (s_pool s)) = None
     then ac_creatorShare a = sr_rakeAmount se * calculateCreatorEffectiveShareBps c status div 10000 \<and>
       earned eb_available (po_creators ob') k (p_unit (s_pool s)) =
         earned eb_available (po_creators ob) k (p_unit (s_pool s)) + ac_creatorShare a
     else po_creators ob' = po_creators ob))"
proof -
  have ok: "share_obj_ok rt ob" using r by (rule creator_pools.reach_inv)
  then have "good rt s" "creator_pool s (po_creators ob)" using s(1) by (simp_all add: share_obj_ok_def stored_def)
  with read_settled [OF ok s env(1) clock(1) stored, of fetcher freshId] show ?thesis
    using apply_share_settled [OF _ _ clock(2) s(2) env(2) c, of rt]
    by (cases "pool_accrual (po_creators ob) (p_id (s_pool s))") (auto simp: ob'_def)
qed


subsection \<open>An example\<close>

lemma persist_points:
  assumes "interval_ok env" "p_unit (s_pool t) \<noteq> Usdc" "ev_dotcastDb env \<or> ev_tradingDb env"
  shows "fst (persistSnapshot rt env t now ob) = Inr ()"
  using assms by (auto simp: persistSnapshot_def writeSnapshot_def reconcileResolutionAlarm_def interval_ok_def
      reconcileUsdcPoolFunding_def reconcileCreatorEconomy_def ebind_def)

definition share_snapshot :: DotCastPoolSnapshot where
  "share_snapshot = example_snapshot\<lparr>
     s_pool := (s_pool example_snapshot)\<lparr>p_pools := \<lparr>yes = 15000, no = 10200\<rparr>, p_originatingCreatorId := Some ''ada''\<rparr>,
     s_entries := map (\<lambda>e. e\<lparr>e_amount := 100 * e_amount e\<rparr>) (s_entries example_snapshot),
     s_balances :=
       [(''u1'', \<lparr>b_userId = ''u1'', b_unit = Points, b_available = 800, b_locked = 20200\<rparr>),
        (''u2'', \<lparr>b_userId = ''u2'', b_unit = Points, b_available = 5000, b_locked = 5000\<rparr>)]\<rparr>"

lemma share_snapshot_good: "good ref_runtime share_snapshot"
proof -
  have wf: "wf_pool ref_runtime (s_pool share_snapshot)"
    by (simp add: wf_pool_def share_snapshot_def example_snapshot_def example_pool_def rake_ok_def example_dates small_safe terminal_def)
  have tot: "totals_of (p_pools (s_pool share_snapshot)) side = staked side (settlement_entries share_snapshot)" for side
    by (cases side) (simp_all add: totals_of_def share_snapshot_def example_snapshot_def toSettlementEntry_def)
  have "snap_ok ref_runtime share_snapshot"
    unfolding snap_ok_def using wf tot
    by (simp add: bal_ok_def akeys_def locked_def share_snapshot_def example_snapshot_def example_pool_def terminal_def
        small_safe asum_def bal_total_def)
  moreover have "pays_ok share_snapshot" by (simp add: pays_ok_def share_snapshot_def example_snapshot_def entry_return_def orElse_def)
  moreover have "settlement_named share_snapshot" by (simp add: settlement_named_def share_snapshot_def example_snapshot_def)
  ultimately show ?thesis by (simp add: good_def)
qed

lemma share_snapshot_facts:
  "p_status (s_pool share_snapshot) = Locked" "p_id (s_pool share_snapshot) = ''p1''" "p_unit (s_pool share_snapshot) = Points"
  "p_originatingCreatorId (s_pool share_snapshot) = Some ''ada''" "total_staked share_snapshot = 25200"
  by (simp_all add: share_snapshot_def example_snapshot_def example_pool_def)

definition share_object :: pool_object where
  "share_object = new_object\<lparr>po_snapshot := Some share_snapshot, po_alarm := Some NaN\<rparr>"

text \<open>The pool is settled before its creator has been onboarded, so that nothing is accrued yet.\<close>

definition share_settled :: pool_object where
  "share_settled = snd (fetch ref_runtime example_env (\<lambda>_ _. FetchStatus 500) ''2026-02-01T00:00:00.000Z'' ''x''
     (PostSettle (Some (JStr ''yes'')) None) share_object)"

definition share_onboarded :: pool_object where
  "share_onboarded = share_settled\<lparr>po_creators := cl_creators creators1\<rparr>"

definition share_read :: pool_object where
  "share_read = snd (fetch ref_runtime example_env (\<lambda>_ _. FetchStatus 500) ''2026-02-01T00:00:00.000Z'' ''x'' GetPool share_onboarded)"

lemma empty_share_room: "cd_balances db = [] \<Longrightarrow> 0 \<le> x \<Longrightarrow> x \<le> 1000000 \<Longrightarrow> share_room db k u x"
  by (simp add: share_room_def earned_def is_safe_integer_def max_safe_integer_def)

lemma share_object_ok: "share_obj_ok ref_runtime share_object"
proof -
  have "rake_room share_snapshot empty_creators"
    unfolding rake_room_def room_of_def share_snapshot_facts
    using empty_share_room [of empty_creators 25200]
    by (simp add: empty_creators_def is_safe_integer_def max_safe_integer_def)
  then have "creator_pool share_snapshot empty_creators"
    using creator_books_empty by (simp add: creator_pool_def pool_accrual_def empty_creators_def)
  then show ?thesis
    using share_snapshot_good share_snapshot_facts(1)
    by (simp add: share_obj_ok_def share_object_def stored_def new_object_def active_def)
qed

lemma share_object_reach: "reach (fresh_creator_pool ref_runtime) (creator_pool_step ref_runtime) share_object"
  by (rule reach_init) (use share_object_ok in \<open>auto simp: fresh_creator_pool_def share_object_def share_snapshot_facts terminal_def\<close>)

lemma share_settled_state:
  "\<exists>s se. po_snapshot share_settled = Some s \<and> settled_pool s ''ada'' se \<and> p_id (s_pool s) = ''p1'' \<and> p_unit (s_pool s) = Points \<and>
     total_staked s = 25200 \<and> cd_accruals (po_creators share_settled) = []"
proof -
  let ?now = "''2026-02-01T00:00:00.000Z''"
  note ok = share_snapshot_good [unfolded good_def, THEN conjunct1]
  have w: "staked Yes (settlement_entries share_snapshot) \<noteq> 0"
    by (simp add: share_snapshot_def example_snapshot_def toSettlementEntry_def)
  have d: "date_parse ref_runtime ?now \<noteq> None" by (simp add: example_dates)
  obtain res t where t: "settlePoolSnapshot ref_runtime share_snapshot (Won Yes) ?now = Inr t"
      "settled_from ref_runtime share_snapshot Yes res t"
    using settle_ok [OF ok disjI1 [OF share_snapshot_facts(1)] d w] by blast
  have m: "moves ref_runtime share_snapshot t" using settle_moves [OF share_snapshot_good t(1)] .
  then have k: "p_id (s_pool t) = ''p1''" "p_unit (s_pool t) = Points" "p_originatingCreatorId (s_pool t) = Some ''ada''"
      "total_staked t = 25200"
    using share_snapshot_facts total_staked_keys [of t share_snapshot] by (auto simp: moves_def ahead_def pool_key_def)
  obtain se where se: "settled_pool t ''ada'' se" using t(2) k(3) by (auto simp: settled_from_def settled_pool_def)
  have db: "ev_tradingDb example_env" by (simp add: example_env_def)
  obtain ob1 where ob1: "persistSnapshot ref_runtime example_env t ?now share_object = (Inr (), ob1)"
    using persist_points [OF example_interval, of t ref_runtime ?now share_object] k(2) db by (metis StakeUnit.distinct(1) prod.collapse)
  have snap: "po_snapshot ob1 = Some t" using persist_object(1) [OF example_interval, of ref_runtime t ?now share_object] ob1 by simp
  have o: "po_snapshot share_object = Some share_snapshot" "po_creators share_object = empty_creators"
    by (simp_all add: share_object_def new_object_def)
  have cp: "creator_pool share_snapshot empty_creators" using share_object_ok o by (simp add: share_obj_ok_def)
  have ah: "ahead share_snapshot t" "map entry_key (s_entries t) = map entry_key (s_entries share_snapshot)" "good ref_runtime t"
    using m by (simp_all add: moves_def)
  have cp': "creator_pool t empty_creators"
    using creator_pool_ahead [OF cp ah(1)] rake_room_ahead [OF ah(1,2)] cp by (simp add: creator_pool_def)
  have "apply_share ref_runtime example_env t ?now empty_creators = empty_creators"
    by (rule apply_share_outcome [OF cp' ah(3), of ?now example_env]) (simp_all add: empty_creators_def)
  then have creators: "po_creators ob1 = empty_creators"
    using persist_creators(1) [OF example_interval, of ref_runtime t ?now share_object] ob1 o(2) by auto
  have run: "po_snapshot share_settled = po_snapshot ob1" "po_creators share_settled = po_creators ob1"
    using o(1) t(1) ob1
    by (auto simp: share_settled_def fetch_def route_request_def settle_def requireSnapshot_def readSnapshot_def parseOutcome_def
        Let_def orElse_def ebind_def audit_run split: prod.splits sum.splits)
  show ?thesis
    using snap creators se k by (intro exI [of _ t] exI [of _ se]) (simp add: run empty_creators_def)
qed

lemma share_settled_reach: "reach (fresh_creator_pool ref_runtime) (creator_pool_step ref_runtime) share_settled"
  unfolding share_settled_def
  by (rule reach_step, rule share_object_reach, rule cp_request [OF example_interval]) (simp_all add: orElse_def)

lemma share_onboarded_reach: "reach (fresh_creator_pool ref_runtime) (creator_pool_step ref_runtime) share_onboarded"
proof (rule reach_step)
  show "reach (fresh_creator_pool ref_runtime) (creator_pool_step ref_runtime) share_settled" by (rule share_settled_reach)
  obtain s where s: "po_snapshot share_settled = Some s" "p_id (s_pool s) = ''p1''" "p_unit (s_pool s) = Points"
      "total_staked s = 25200" "cd_accruals (po_creators share_settled) = []" using share_settled_state by blast
  have "rake_room s (cl_creators creators1)"
    unfolding rake_room_def room_of_def s(2-4)
    using empty_share_room [OF creators1_rest(1)] by (simp add: is_safe_integer_def max_safe_integer_def)
  then show "creator_pool_step ref_runtime share_settled share_onboarded"
    unfolding share_onboarded_def using s(1,5) creators1_books
    by (intro cp_creators) (simp_all add: pool_accrual_def creators1_rest)
qed

lemma share_onboarded_state:
  obtains s se where "po_snapshot share_onboarded = Some s" "settled_pool s ''ada'' se" "p_id (s_pool s) = ''p1''"
    "p_unit (s_pool s) = Points" "po_creators share_onboarded = cl_creators creators1"
  using share_settled_state by (auto simp: share_onboarded_def)

lemma share_ready: "\<exists>status. assertCreatorEconomyReady example_env (ev_creator example_env) True = Inr status \<and>
    es_tierSharesBps status = \<lparr>ts_casual = 1000, ts_verified = 2500, ts_partner = 4000\<rparr>"
proof -
  have "case assertCreatorEconomyReady example_env (ev_creator example_env) True of
      Inl e \<Rightarrow> False
    | Inr status \<Rightarrow> es_tierSharesBps status = \<lparr>ts_casual = 1000, ts_verified = 2500, ts_partner = 4000\<rparr>"
    by code_simp
  then show ?thesis by (simp split: sum.splits)
qed

lemma share_read_facts:
  obtains s se status where "po_snapshot share_onboarded = Some s" "settled_pool s ''ada'' se" "p_id (s_pool s) = ''p1''"
    "p_unit (s_pool s) = Points" "po_creators share_onboarded = cl_creators creators1"
    "assertCreatorEconomyReady example_env (ev_creator example_env) True = Inr status"
    "calculateCreatorEffectiveShareBps example_creator status = 4000"
    "map_of (cd_creators (po_creators share_onboarded)) ''ada'' = Some example_creator" "cr_status example_creator = CreatorActive"
    "fst (persistSnapshot ref_runtime example_env s ''2026-02-01T00:00:00.000Z'' share_onboarded) = Inr ()"
    "pool_accrual (po_creators share_onboarded) ''p1'' = None"
    "earned eb_available (po_creators share_onboarded) ''ada'' Points = 0"
proof -
  obtain s se where s: "po_snapshot share_onboarded = Some s" "settled_pool s ''ada'' se" "p_id (s_pool s) = ''p1''"
    "p_unit (s_pool s) = Points" "po_creators share_onboarded = cl_creators creators1" by (rule share_onboarded_state)
  obtain status where st: "assertCreatorEconomyReady example_env (ev_creator example_env) True = Inr status"
      "es_tierSharesBps status = \<lparr>ts_casual = 1000, ts_verified = 2500, ts_partner = 4000\<rparr>" using share_ready by blast
  show thesis
  proof (rule that [OF s st(1)])
    show "calculateCreatorEffectiveShareBps example_creator status = 4000"
      by (simp add: calculateCreatorEffectiveShareBps_def example_creator_def st(2))
    show "map_of (cd_creators (po_creators share_onboarded)) ''ada'' = Some example_creator" by (simp add: s(5) creators1_creators)
    show "cr_status example_creator = CreatorActive" by (simp add: example_creator_def)
    show "fst (persistSnapshot ref_runtime example_env s ''2026-02-01T00:00:00.000Z'' share_onboarded) = Inr ()"
      by (rule persist_points [OF example_interval]) (simp_all add: s(4) example_env_def)
    show "pool_accrual (po_creators share_onboarded) ''p1'' = None" by (simp add: s(5) pool_accrual_def creators1_rest)
    show "earned eb_available (po_creators share_onboarded) ''ada'' Points = 0" by (simp add: s(5) earned_def creators1_rest)
  qed
qed

lemma share_time: "date_parse ref_runtime ''2026-02-01T00:00:00.000Z'' \<noteq> None" "''2026-02-01T00:00:00.000Z'' \<noteq> ''''"
  by (simp_all add: example_dates)

theorem settled_pool_pays_creator_witness:
  "\<exists>s se a. settled_pool s ''ada'' se \<and> po_snapshot share_read = Some s \<and> pool_accrual (po_creators share_onboarded) ''p1'' = None \<and>
     pool_accrual (po_creators share_read) ''p1'' = Some a \<and> ac_creatorShare a = sr_rakeAmount se * 4000 div 10000 \<and>
     earned eb_available (po_creators share_read) ''ada'' Points = ac_creatorShare a"
proof -
  obtain s se status where h: "po_snapshot share_onboarded = Some s" "settled_pool s ''ada'' se" "p_id (s_pool s) = ''p1''"
    "p_unit (s_pool s) = Points" "po_creators share_onboarded = cl_creators creators1"
    "assertCreatorEconomyReady example_env (ev_creator example_env) True = Inr status"
    "calculateCreatorEffectiveShareBps example_creator status = 4000"
    "map_of (cd_creators (po_creators share_onboarded)) ''ada'' = Some example_creator" "cr_status example_creator = CreatorActive"
    "fst (persistSnapshot ref_runtime example_env s ''2026-02-01T00:00:00.000Z'' share_onboarded) = Inr ()"
    "pool_accrual (po_creators share_onboarded) ''p1'' = None"
    "earned eb_available (po_creators share_onboarded) ''ada'' Points = 0" by (rule share_read_facts)
  show ?thesis
    using settled_pool_pays_creator [OF share_onboarded_reach h(1,2) example_interval h(6) share_time h(8-10),
        of "\<lambda>_ _. FetchStatus 500" "''x''", folded share_read_def] h(2,11,12)
    by (auto simp: h(3,4,7))
qed

lemma share_read_state:
  obtains s where "po_snapshot share_read = Some s" "p_originatingCreatorId (s_pool s) = Some ''ada''"
    "\<exists>a. pool_accrual (po_creators share_read) (p_id (s_pool s)) = Some a"
proof -
  obtain s se status where h: "po_snapshot share_onboarded = Some s" "settled_pool s ''ada'' se" "p_id (s_pool s) = ''p1''"
    "assertCreatorEconomyReady example_env (ev_creator example_env) True = Inr status"
    "map_of (cd_creators (po_creators share_onboarded)) ''ada'' = Some example_creator" "cr_status example_creator = CreatorActive"
    "fst (persistSnapshot ref_runtime example_env s ''2026-02-01T00:00:00.000Z'' share_onboarded) = Inr ()"
    "pool_accrual (po_creators share_onboarded) ''p1'' = None" by (rule share_read_facts)
  have ok: "share_obj_ok ref_runtime share_onboarded" using share_onboarded_reach by (rule creator_pools.reach_inv)
  then have st: "creator_pool s (po_creators share_onboarded)" "good ref_runtime s"
    using h(1) by (simp_all add: share_obj_ok_def stored_def)
  note r = read_settled [OF ok h(1,2) example_interval share_time(1) h(7), of "\<lambda>_ _. FetchStatus 500" "''x''", folded share_read_def]
  show thesis
    using that [OF r(1)] h(2) apply_share_settled(2) [OF st share_time(2) h(2,4,5,6)] h(3,8)
    by (auto simp: r(2) settled_pool_def)
qed

lemma share_read_reach: "reach (fresh_creator_pool ref_runtime) (creator_pool_step ref_runtime) share_read"
  unfolding share_read_def
  by (rule reach_step, rule share_onboarded_reach, rule cp_request [OF example_interval]) simp_all

theorem pool_share_accrued_witness:
  "\<exists>s se a. po_snapshot share_read = Some s \<and> s_settlement s = Some se \<and> a \<in> set (map snd (cd_accruals (po_creators share_read))) \<and>
     ac_poolId a = p_id (s_pool s) \<and> ac_creatorId a = ''ada'' \<and> ac_totalRake a = sr_rakeAmount se"
proof -
  obtain s where s: "po_snapshot share_read = Some s" "p_originatingCreatorId (s_pool s) = Some ''ada''"
    and a: "\<exists>a. pool_accrual (po_creators share_read) (p_id (s_pool s)) = Some a"
    by (rule share_read_state)
  then obtain a where "a \<in> set (map snd (cd_accruals (po_creators share_read)))" "ac_poolId a = p_id (s_pool s)"
    by (force simp: pool_accrual_def find_Some_iff)
  then show ?thesis using pool_share_accrued [OF share_read_reach s(1)] s by fastforce
qed

end
