(* ===== verification/AuditTrail.thy ===== *)
theory AuditTrail
  imports PoolObjectSystem
begin

text \<open>
  The audit ledger of a pool object as a record of its money.  Every balance of a points pool can be
  recomputed from the rows of the balance ledger: each entry has one row that takes its stake off the
  available balance, and when the pool has ended each entry has one more row that gives back what it
  returns.  The tables only ever grow, whatever is asked of the object.

  The tables are shared with the other pools.  Two things the code takes for granted are guards of the
  step: an entry that is new in the pool is new in the ledger (its row is named after the entry alone), and
  no other pool writes a row with an identifier that belongs to this one.
\<close>

subsection \<open>The rows that a pool should have\<close>

definition begins_with :: "string \<Rightarrow> string \<Rightarrow> bool" where
  "begins_with pre s \<longleftrightarrow> take (length pre) s = pre"

definition entry_row_id :: "string \<Rightarrow> string" where
  "entry_row_id eid = ''dotcast:balance:entry:'' @ eid"

definition settlement_rows :: "string \<Rightarrow> string" where
  "settlement_rows pid = ''dotcast:balance:settlement:settlement:'' @ pid @ '':''"

definition void_rows :: "string \<Rightarrow> string" where
  "void_rows pid = ''dotcast:balance:void:'' @ pid @ '':''"

text \<open>A row of another pool, under an identifier that this pool does not use.\<close>

definition foreign_row :: "string \<Rightarrow> DotCastBalanceLedgerRecord \<Rightarrow> bool" where
  "foreign_row pid r \<longleftrightarrow> lr_poolId r \<noteq> pid \<and> \<not> begins_with (settlement_rows pid) (lr_ledgerId r) \<and>
     \<not> begins_with (void_rows pid) (lr_ledgerId r)"

definition pool_rows :: "string \<Rightarrow> audit_db \<Rightarrow> DotCastBalanceLedgerRecord list" where
  "pool_rows pid db = filter (\<lambda>r. lr_poolId r = pid) (map snd (at_balances db))"

type_synonym balance_change = "string \<times> string \<times> int \<times> int"

definition row_change :: "DotCastBalanceLedgerRecord \<Rightarrow> balance_change" where
  "row_change r = (lr_ledgerId r, lr_userId r, lr_deltaAvailable r, lr_deltaLocked r)"

definition entry_change :: "DotCastEntry \<Rightarrow> balance_change" where
  "entry_change e = (entry_row_id (e_id e), e_userId e, - e_amount e, e_amount e)"

definition end_row_id :: "DotCastPoolSnapshot \<Rightarrow> string \<Rightarrow> string" where
  "end_row_id s eid =
     (if p_status (s_pool s) = Settled
      then ''dotcast:balance:settlement:'' @
        (case s_settlement s of Some st \<Rightarrow> sr_id st | None \<Rightarrow> p_id (s_pool s)) @ '':'' @ eid
      else ''dotcast:balance:void:'' @ p_id (s_pool s) @ '':'' @ eid @ '':'' @ ended_at s)"

definition end_change :: "DotCastPoolSnapshot \<Rightarrow> DotCastEntry \<Rightarrow> balance_change" where
  "end_change s e = (end_row_id s (e_id e), e_userId e, entry_return e, - e_amount e)"

definition pool_changes :: "DotCastPoolSnapshot \<Rightarrow> balance_change list" where
  "pool_changes s = map entry_change (s_entries s) @
     (if terminal (p_status (s_pool s)) then map (end_change s) (s_entries s) else [])"

text \<open>The tables, as far as they concern the pool: its rows are \<open>changes\<close>, the others are foreign.\<close>

definition ledger_keyed :: "audit_db \<Rightarrow> bool" where
  "ledger_keyed db \<longleftrightarrow> (\<forall>(k, r) \<in> set (at_balances db). k = lr_ledgerId r)"

definition trail :: "DotCastPoolSnapshot \<Rightarrow> balance_change list \<Rightarrow> audit_db \<Rightarrow> bool" where
  "trail s changes db \<longleftrightarrow> ledger_keyed db \<and>
     (\<forall>(k, r) \<in> set (at_balances db). lr_poolId r = p_id (s_pool s) \<or> foreign_row (p_id (s_pool s)) r) \<and>
     map row_change (pool_rows (p_id (s_pool s)) db) = changes"

text \<open>
  The money of a points pool: every user starts with 10000 points, has staked the entries, and gets back
  what they return.
\<close>

definition points_money :: "DotCastPoolSnapshot \<Rightarrow> bool" where
  "points_money s \<longleftrightarrow>
     (\<forall>e \<in> set (s_entries s). e_funding e = UserFunded \<and> map_of (s_balances s) (e_userId e) \<noteq> None) \<and>
     total_staked s + 100 \<le> max_safe_integer \<and>
     (terminal (p_status (s_pool s)) \<longrightarrow> paid_back s) \<and>
     (\<forall>u. avail (s_balances s) u = (if map_of (s_balances s) u = None then 0 else 10000) - user_amount (s_entries s) u +
        (if terminal (p_status (s_pool s)) then user_credit entry_return (s_entries s) u else 0))"

definition ledgered :: "js_runtime \<Rightarrow> DotCastPoolSnapshot \<Rightarrow> pool_object \<Rightarrow> bool" where
  "ledgered rt s ob \<longleftrightarrow> po_snapshot ob = Some s \<and> good rt s \<and>
     (p_unit (s_pool s) = Points \<longrightarrow> points_money s \<and> trail s (pool_changes s) (po_audit ob))"

subsection \<open>Money\<close>

lemma user_credit_keys:
  assumes "map entry_key es' = map entry_key es"
  shows "user_amount es' u = user_amount es u"
proof -
  have "user_amount es u = sum_list (map (\<lambda>(_, v, _, x, f). if f = UserFunded \<and> v = u then x else 0) (map entry_key es))" for es
    by (simp add: user_amount_def entry_key_def comp_def)
  then show ?thesis by (simp only: assms)
qed

lemma entry_keys_all:
  assumes "map entry_key es' = map entry_key es" "\<forall>e \<in> set es. e_funding e = UserFunded \<and> P (e_userId e)"
  shows "\<forall>e \<in> set es'. e_funding e = UserFunded \<and> P (e_userId e)"
proof -
  have "(\<forall>e \<in> set es. e_funding e = UserFunded \<and> P (e_userId e)) \<longleftrightarrow>
      (\<forall>(_, u, _, _, f) \<in> set (map entry_key es). f = UserFunded \<and> P u)" for es
    by (auto simp: entry_key_def)
  then show ?thesis using assms by metis
qed

lemma money_moves:
  assumes money: "points_money s" and m: "moves rt s t"
  shows "points_money t"
proof -
  have keys: "map entry_key (s_entries t) = map entry_key (s_entries s)" and a: "ahead s t" and p: "pays_back s t"
    using m by (simp_all add: moves_def)
  have user: "\<forall>e \<in> set (s_entries s). e_funding e = UserFunded"
    and av: "avail (s_balances s) u = (if map_of (s_balances s) u = None then 0 else 10000) - user_amount (s_entries s) u +
      (if terminal (p_status (s_pool s)) then user_credit entry_return (s_entries s) u else 0)" for u
    using money by (simp_all add: points_money_def)
  show ?thesis
  proof (cases "terminal (p_status (s_pool t)) \<and> \<not> terminal (p_status (s_pool s))")
    case True
    then have r: "paid_back t" "avail (s_balances t) u = avail (s_balances s) u + user_credit entry_return (s_entries t) u"
        "map_of (s_balances t) u = None \<longleftrightarrow> map_of (s_balances s) u = None" for u
      using p user by (simp_all add: pays_back_def)
    have "\<forall>e \<in> set (s_entries t). e_funding e = UserFunded \<and> map_of (s_balances s) (e_userId e) \<noteq> None"
      by (rule entry_keys_all [OF keys]) (use money in \<open>simp add: points_money_def\<close>)
    then show ?thesis
      using True r av money total_staked_keys [OF keys] user_credit_keys [OF keys]
      by (simp add: points_money_def del: not_None_eq)
  next
    case False
    then have same: "s_entries t = s_entries s" "s_balances t = s_balances s" using p by (auto simp: pays_back_def)
    have "terminal (p_status (s_pool s)) \<Longrightarrow> s_pool t = s_pool s \<and> s_settlement t = s_settlement s"
      using a by (simp add: ahead_def)
    moreover from this False have "terminal (p_status (s_pool t)) = terminal (p_status (s_pool s))" by auto
    ultimately show ?thesis using money same by (auto simp: points_money_def paid_back_def)
  qed
qed

lemma money_placed:
  fixes s u r now amount
  defines "p \<equiv> placedSnapshot s u r now"
  assumes money: "points_money s" and unit: "p_unit (s_pool s) = Points" and good: "good rt s"
    and open': "p_status (s_pool s) = Open" "p_status (s_pool p) = Open"
    and e: "e_userId (px_entry r) = u" "e_amount (px_entry r) = amount" "e_funding (px_entry r) = UserFunded"
    and b: "px_balance r = (entryBalance s u None)\<lparr>b_available := b_available (entryBalance s u None) - amount,
      b_locked := locked (s_balances s) u + amount\<rparr>"
    and room: "0 < amount" "is_safe_integer (asum bal_total (s_balances s) + total_staked s + 2 * amount + 10000)"
  shows "points_money p"
proof -
  have p: "s_entries p = s_entries s @ [px_entry r]" "s_balances p = AList.update u (px_balance r) (s_balances s)"
    by (simp_all add: p_def placedSnapshot_def)
  have nt: "\<not> terminal (p_status (s_pool s))" "\<not> terminal (p_status (s_pool p))" using open' by (simp_all add: terminal_def)
  have av: "avail (s_balances s) v = (if map_of (s_balances s) v = None then 0 else 10000) - user_amount (s_entries s) v" for v
    using money nt(1) by (simp add: points_money_def)
  have "b_available (entryBalance s u None) = 10000 - user_amount (s_entries s) u"
    using av [of u] unit by (cases "map_of (s_balances s) u") (auto simp: entryBalance_def Let_def seedBalance_def avail_def)
  then have "b_available (px_balance r) = 10000 - user_amount (s_entries s) u - amount" by (simp add: b)
  moreover have "0 \<le> asum bal_total (s_balances s)"
    using snap_okD(9) [of rt s] good by (simp add: good_def)
  ultimately show ?thesis
    using money nt av e room unfolding points_money_def p by (auto simp: is_safe_integer_def)
qed

subsection \<open>Tables\<close>

lemma pool_rows_append: "at_balances db' = at_balances db @ added \<Longrightarrow>
    pool_rows pid db' = pool_rows pid db @ filter (\<lambda>r. lr_poolId r = pid) (map snd added)"
  by (simp add: pool_rows_def)

lemma trail_insert_new:
  assumes t: "trail s cs db" and db': "at_balances db' = insert_all balance_row_check lr_ledgerId rows (at_balances db)"
    and rows: "\<forall>r \<in> set rows. lr_poolId r = p_id (s_pool s) \<and> balance_row_check r \<and> map_of (at_balances db) (lr_ledgerId r) = None"
      "distinct (map lr_ledgerId rows)"
  shows "trail s (cs @ map row_change rows) db'"
proof -
  have new: "at_balances db' = at_balances db @ map (\<lambda>r. (lr_ledgerId r, r)) rows"
    using insert_all_new [of rows balance_row_check "at_balances db" lr_ledgerId] rows db' by simp
  have "filter (\<lambda>r. lr_poolId r = p_id (s_pool s)) (map snd (map (\<lambda>r. (lr_ledgerId r, r)) rows)) = rows"
    using rows(1) by (simp add: comp_def)
  then show ?thesis
    using t rows(1) pool_rows_append [OF new] unfolding trail_def ledger_keyed_def by (auto simp: new)
qed

lemma trail_id:
  assumes "trail s cs db" "rid \<in> fst ` set cs"
  shows "map_of (at_balances db) rid \<noteq> None"
proof -
  obtain k r where "(k, r) \<in> set (at_balances db)" "lr_ledgerId r = rid"
    using assms by (auto simp: trail_def pool_rows_def row_change_def)
  moreover from this have "k = rid" using assms(1) by (auto simp: trail_def ledger_keyed_def)
  ultimately show ?thesis by (auto simp: map_of_eq_None_iff rev_image_eqI)
qed

lemma trail_insert_known:
  assumes t: "trail s cs db" and db': "at_balances db' = insert_all balance_row_check lr_ledgerId rows (at_balances db)"
    and rows: "\<forall>r \<in> set rows. lr_ledgerId r \<in> fst ` set cs"
  shows "trail s cs db'"
proof -
  have "at_balances db' = at_balances db"
    unfolding db' by (rule insert_all_known) (use trail_id [OF t] rows in blast)
  then show ?thesis using t by (simp add: trail_def ledger_keyed_def pool_rows_def)
qed

lemma trail_new_id:
  assumes t: "trail s cs db" and "rid \<notin> fst ` set cs"
    and "begins_with (settlement_rows (p_id (s_pool s))) rid \<or> begins_with (void_rows (p_id (s_pool s))) rid"
  shows "map_of (at_balances db) rid = None"
proof (rule ccontr)
  assume "map_of (at_balances db) rid \<noteq> None"
  then obtain r where r: "(rid, r) \<in> set (at_balances db)" by (auto dest: map_of_SomeD)
  then have rid: "lr_ledgerId r = rid" using t by (auto simp: trail_def ledger_keyed_def)
  have "lr_poolId r \<noteq> p_id (s_pool s)"
  proof
    assume "lr_poolId r = p_id (s_pool s)"
    then have "r \<in> set (pool_rows (p_id (s_pool s)) db)" using r by (force simp: pool_rows_def)
    then have "row_change r \<in> set (map row_change (pool_rows (p_id (s_pool s)) db))" by simp
    then have "row_change r \<in> set cs" using t unfolding trail_def by blast
    then show False using assms(2) rid by (force simp: row_change_def)
  qed
  then show False using t r assms(3) rid by (auto simp: trail_def foreign_row_def)
qed

subsection \<open>The rows of an ended pool\<close>

lemma end_row:
  assumes good: "good rt t" and r: "paid_back t" "terminal (p_status (s_pool t))"
    and e: "e \<in> set (s_entries t)" "e_funding e = UserFunded" "map_of (s_balances t) (e_userId e) \<noteq> None"
  shows "\<exists>r. terminalBalanceRow t act body e = [r] \<and> row_change r = end_change t e \<and>
    lr_poolId r = p_id (s_pool t) \<and> balance_row_check r"
proof -
  obtain b where b: "map_of (s_balances t) (e_userId e) = Some b" using e(3) by blast
  have "bal_ok (p_unit (s_pool t)) (s_balances t)" using good by (simp add: good_def snap_ok_def)
  then have nn: "0 \<le> b_available b" "0 \<le> b_locked b" using bal_ok_lookup [OF _ b] by auto
  show ?thesis
  proof (cases "p_status (s_pool t) = Settled")
    case True
    then obtain x where "e_payout e = Some x" "\<not> e_refunded e" using r(1) e(1) by (auto simp: paid_back_def)
    then show ?thesis
      using True b nn e(2) by (auto simp: terminalBalanceRow_def row_change_def end_change_def end_row_id_def entry_return_def
          balance_row_check_def split: option.split)
  next
    case False
    then have "p_status (s_pool t) = Voided" "e_refunded e" using r e(1) by (auto simp: paid_back_def terminal_def)
    then show ?thesis
      using b nn e(2) by (auto simp: terminalBalanceRow_def row_change_def end_change_def end_row_id_def entry_return_def
          balance_row_check_def)
  qed
qed

lemma end_rows:
  assumes good: "good rt t" and money: "points_money t" and nt: "terminal (p_status (s_pool t))"
  shows "map row_change (terminalBalanceLedger t act body) = map (end_change t) (s_entries t) \<and>
    (\<forall>r \<in> set (terminalBalanceLedger t act body). lr_poolId r = p_id (s_pool t) \<and> balance_row_check r)"
proof -
  have r: "paid_back t" using money nt by (simp add: points_money_def)
  have all: "map row_change (concat (map (terminalBalanceRow t act body) es)) = map (end_change t) es \<and>
      (\<forall>r \<in> set (concat (map (terminalBalanceRow t act body) es)). lr_poolId r = p_id (s_pool t) \<and> balance_row_check r)"
    if "set es \<subseteq> set (s_entries t)" for es
    using that
  proof (induction es)
    case (Cons e es)
    have e: "e \<in> set (s_entries t)" using Cons.prems by simp
    then obtain x where "terminalBalanceRow t act body e = [x]" "row_change x = end_change t e"
        "lr_poolId x = p_id (s_pool t)" "balance_row_check x"
      using end_row [OF good r nt e, of act body] money by (auto simp: points_money_def)
    then show ?case using Cons by simp
  qed simp
  show ?thesis using all [of "s_entries t"] by (simp add: terminalBalanceLedger_def)
qed

lemma end_row_id_inj [simp]: "end_row_id t i = end_row_id t j \<longleftrightarrow> i = j"
  by (simp add: end_row_id_def)

lemma end_row_id_entry [simp]: "end_row_id t i \<noteq> entry_row_id j"
  by (simp add: end_row_id_def entry_row_id_def)

lemma end_row_id_own:
  assumes "good rt t" "paid_back t"
  shows "begins_with (settlement_rows (p_id (s_pool t))) (end_row_id t i) \<or> begins_with (void_rows (p_id (s_pool t))) (end_row_id t i)"
proof (cases "p_status (s_pool t) = Settled")
  case True
  then obtain st w where "s_settlement t = Some st" "sr_id st = ''settlement:'' @ p_id (s_pool t) @ '':'' @ show_side w"
    using assms by (auto simp: paid_back_def good_def settlement_named_def)
  then show ?thesis using True by (simp add: end_row_id_def begins_with_def settlement_rows_def)
next
  case False
  then show ?thesis by (simp add: end_row_id_def begins_with_def void_rows_def)
qed

lemma end_changes_distinct:
  "distinct (map e_id es) \<Longrightarrow> distinct (map fst (map (end_change t) es))"
  by (induction es) (auto simp: end_change_def)

subsection \<open>What an audit adds\<close>

lemma plan_balances:
  assumes "act \<noteq> AuditEntry" "rq_decorated body = Some dec" "dc_snapshot dec = t"
  shows "wp_balanceLedger (buildDotCastAuditWritePlan act body None) =
    (if shouldRecordTerminalBalances act body t then terminalBalanceLedger t act body else [])"
  using assms by (simp add: buildDotCastAuditWritePlan_def emptyPlan_def shouldRecordTerminalBalances_def)

lemma plan_create [simp]: "wp_balanceLedger (buildDotCastAuditWritePlan AuditCreate body None) = []"
  by (simp add: buildDotCastAuditWritePlan_def emptyPlan_def shouldRecordTerminalBalances_def split: option.split)

abbreviation audited_db :: "DotCastAuditAction \<Rightarrow> pool_reply \<Rightarrow> audit_db \<Rightarrow> audit_db" where
  "audited_db act body db \<equiv> writeDotCastAuditPlan (buildDotCastAuditWritePlan act body None) db"

text \<open>The rows of an ended pool are added once, in one piece.\<close>

lemma trail_audit:
  assumes good: "good rt t" and money: "points_money t" and act: "act \<noteq> AuditEntry"
    and body: "rq_decorated body = Some dec" "dc_snapshot dec = t"
    and tr: "trail t (map entry_change (s_entries t)) db \<or> trail t (pool_changes t) db"
    and should: "trail t (pool_changes t) db \<or> (terminal (p_status (s_pool t)) \<longrightarrow> shouldRecordTerminalBalances act body t)"
  shows "trail t (pool_changes t) (audited_db act body db)"
proof (cases "shouldRecordTerminalBalances act body t")
  case False
  then have "at_balances (audited_db act body db) = at_balances db"
    using plan_balances [OF act body] by (simp add: writeDotCastAuditPlan_tables)
  moreover have "trail t (pool_changes t) db" using False tr should by (auto simp: pool_changes_def)
  ultimately show ?thesis by (simp add: trail_def ledger_keyed_def pool_rows_def)
next
  case True
  let ?rows = "terminalBalanceLedger t act body" and ?ends = "map (end_change t) (s_entries t)"
  have nt: "terminal (p_status (s_pool t))"
    using True by (auto simp: shouldRecordTerminalBalances_def terminal_def split: if_splits)
  have db': "at_balances (audited_db act body db) = insert_all balance_row_check lr_ledgerId ?rows (at_balances db)"
    using True plan_balances [OF act body] by (simp add: writeDotCastAuditPlan_tables)
  note rows = end_rows [OF good money nt, of act body]
  have ids: "map lr_ledgerId ?rows = map fst ?ends"
    using arg_cong [OF conjunct1 [OF rows], of "map fst"] by (simp add: comp_def row_change_def)
  from arg_cong [OF this, of set] have id_set: "lr_ledgerId ` set ?rows = (\<lambda>e. end_row_id t (e_id e)) ` set (s_entries t)"
    by (simp add: end_change_def image_image)
  have full: "pool_changes t = map entry_change (s_entries t) @ ?ends" using nt by (simp add: pool_changes_def)
  show ?thesis
  proof (cases "trail t (pool_changes t) db")
    case True
    have "lr_ledgerId r \<in> fst ` set (pool_changes t)" if "r \<in> set ?rows" for r
    proof -
      have "lr_ledgerId r \<in> (\<lambda>e. end_row_id t (e_id e)) ` set (s_entries t)" using that id_set by blast
      then show ?thesis by (force simp: full end_change_def)
    qed
    then show ?thesis by (intro trail_insert_known [OF True db']) blast
  next
    case False
    then have pend: "trail t (map entry_change (s_entries t)) db" using tr by simp
    have ret: "paid_back t" using money nt by (simp add: points_money_def)
    have "map_of (at_balances db) (lr_ledgerId r) = None" if "r \<in> set ?rows" for r
    proof (rule trail_new_id [OF pend])
      have "lr_ledgerId r \<in> (\<lambda>e. end_row_id t (e_id e)) ` set (s_entries t)" using that id_set by blast
      then obtain i where "lr_ledgerId r = end_row_id t i" by blast
      then show "lr_ledgerId r \<notin> fst ` set (map entry_change (s_entries t))"
        "begins_with (settlement_rows (p_id (s_pool t))) (lr_ledgerId r) \<or> begins_with (void_rows (p_id (s_pool t))) (lr_ledgerId r)"
        using end_row_id_own [OF good ret] by (auto simp: entry_change_def)
    qed
    moreover have "distinct (map lr_ledgerId ?rows)"
      unfolding ids using good by (intro end_changes_distinct) (simp add: good_def snap_ok_def)
    ultimately show ?thesis
      using trail_insert_new [OF pend db'] rows full by simp
  qed
qed

subsection \<open>Commits\<close>

lemma ahead_pool: "ahead s t \<Longrightarrow> p_id (s_pool t) = p_id (s_pool s) \<and> p_unit (s_pool t) = p_unit (s_pool s)"
  by (simp add: ahead_def pool_key_def)

lemma entry_changes_keys:
  assumes "map entry_key es' = map entry_key es"
  shows "map entry_change es' = map entry_change es"
proof -
  have "map entry_change es = map (\<lambda>(i, u, _, x, _). (entry_row_id i, u, - x, x)) (map entry_key es)" for es
    by (simp add: entry_key_def entry_change_def comp_def)
  then show ?thesis by (simp only: assms)
qed

lemma trail_moves:
  assumes tr: "trail s (pool_changes s) db" and m: "moves rt s t" and good: "good rt s"
  shows "trail t (map entry_change (s_entries t)) db \<or> trail t (pool_changes t) db"
    "terminal (p_status (s_pool s)) \<or> \<not> terminal (p_status (s_pool t)) \<Longrightarrow> trail t (pool_changes t) db"
proof -
  have a: "ahead s t" and keys: "map entry_key (s_entries t) = map entry_key (s_entries s)" using m by (simp_all add: moves_def)
  have same: "trail t cs db = trail s cs db" for cs using ahead_pool [OF a] by (simp add: trail_def)
  note ec = entry_changes_keys [OF keys]
  have ended: "trail t (pool_changes t) db" if "terminal (p_status (s_pool s))"
  proof -
    have eq: "s_pool t = s_pool s" "s_settlement t = s_settlement s" "s_entries t = s_entries s"
      using a that by (simp_all add: ahead_def same_money_def)
    have "p_settledAt (s_pool s) \<noteq> None" using good that by (simp add: good_def snap_ok_def wf_pool_def)
    then have "end_change t = end_change s"
      using eq by (auto simp: end_change_def end_row_id_def ended_at_def orElse_def fun_eq_iff split: option.split)
    then show ?thesis using tr eq same that by (simp add: pool_changes_def)
  qed
  have pend: "trail t (map entry_change (s_entries t)) db" if "\<not> terminal (p_status (s_pool s))"
    unfolding same ec using tr that by (simp add: pool_changes_def)
  show "trail t (map entry_change (s_entries t)) db \<or> trail t (pool_changes t) db" using ended pend by blast
  show "trail t (pool_changes t) db" if "terminal (p_status (s_pool s)) \<or> \<not> terminal (p_status (s_pool t))"
  proof (cases "terminal (p_status (s_pool s))")
    case False
    then have "pool_changes t = map entry_change (s_entries t)" using that by (simp add: pool_changes_def)
    then show ?thesis using pend False by simp
  qed (rule ended)
qed

lemma persist_points_run:
  assumes "interval_ok env" "ev_tradingDb env" "p_unit (s_pool t) = Points"
  shows "\<exists>ob1. persistSnapshot rt env t now ob = (Inr (), ob1) \<and> po_snapshot ob1 = Some t \<and> po_audit ob1 = po_audit ob"
proof -
  obtain iv where iv: "resolvePollIntervalMs (ev_pollMs env) = Inr iv" using assms(1) by (auto simp: interval_ok_def)
  show ?thesis
    by (simp add: persistSnapshot_def writeSnapshot_def reconcileResolutionAlarm_def iv reconcileUsdcPoolFunding_def
        reconcileCreatorEconomy_def assms(2,3))
qed

lemma ledgered_usdc: "p_unit (s_pool t) \<noteq> Points \<Longrightarrow> ledgered rt t ob \<longleftrightarrow> po_snapshot ob = Some t \<and> good rt t"
  by (simp add: ledgered_def)

lemma ledgered_commit:
  assumes env: "interval_ok env" "ev_tradingDb env" and st: "ledgered rt s ob" and m: "moves rt s t" and tells: "tells act build s t"
  shows "wpe (leads (ledgered rt) s) (commit_pool rt env t now act build) (\<lambda>_. ledgered rt t) ob"
proof -
  have a: "ahead s t" and good: "good rt t" "good rt s" using m st by (simp_all add: moves_def ledgered_def)
  show ?thesis
  proof (cases "p_unit (s_pool t) = Points")
    case False
    have "leads (ledgered rt) s ob'" if "po_snapshot ob' = Some t" for ob'
      using that a good(1) False by (auto simp: leads_def ledgered_usdc)
    then show ?thesis
      unfolding commit_pool_def wpe_ebind wpe_ereturn using False good(1)
      by (intro wpe_state [of "\<lambda>ob. po_snapshot ob = Some t"] wpe_check) (simp_all add: persist_object [OF env(1)] ledgered_usdc)
  next
    case True
    then have "p_unit (s_pool s) = Points" using ahead_pool [OF a] by simp
    then have money: "points_money t" "points_money s" and tr: "trail s (pool_changes s) (po_audit ob)"
      using st money_moves [OF _ m] by (simp_all add: ledgered_def)
    obtain ob1 where ob1: "persistSnapshot rt env t now ob = (Inr (), ob1)" "po_snapshot ob1 = Some t" "po_audit ob1 = po_audit ob"
      using persist_points_run [OF env True] by blast
    obtain dec where dec: "decorateSnapshot t = Inr dec"
      using decorate_ok [OF good(1)] money(1) by (auto simp: points_money_def)
    have "trail t (pool_changes t) (audited_db act (build dec) (po_audit ob))"
      using tells trail_moves [OF tr m good(2)]
      by (intro trail_audit [OF good(1) money(1) _ _ decorate_snapshot [OF dec]]) (auto simp: tells_def)
    then show ?thesis
      using good(1) money(1) ob1 env(2)
      by (simp add: wpe_def commit_pool_def ebind_def dec audit_run ledgered_def)
  qed
qed

lemma ledgered_reply:
  assumes env: "interval_ok env" "ev_tradingDb env" and st: "ledgered rt s ob" and build: "\<And>dec. rq_decorated (build dec) = Some dec"
  shows "wpe (leads (ledgered rt) s) (pollReply rt env s now build) (\<lambda>_. ledgered rt s) ob"
proof -
  have good: "good rt s" using st by (simp add: ledgered_def)
  have here: "leads (ledgered rt) s ob'" if "ledgered rt s ob'" for ob'
    using that unfolding leads_def by (intro exI [of _ s] conjI ahead_refl)
  have audit: "ledgered rt s (snd (audit env AuditPoll (build dec) ob'))" if ob': "ledgered rt s ob'" and dec: "decorateSnapshot s = Inr dec" for ob' dec
  proof (cases "p_unit (s_pool s) = Points")
    case True
    then have "points_money s" "trail s (pool_changes s) (po_audit ob')" using ob' by (simp_all add: ledgered_def)
    then have "trail s (pool_changes s) (audited_db AuditPoll (build dec) (po_audit ob'))"
      by (intro trail_audit [OF good _ _ build decorate_snapshot [OF dec]]) simp_all
    then show ?thesis using ob' True by (simp add: ledgered_def audit_run)
  qed (use ob' in \<open>simp add: ledgered_usdc audit_run\<close>)
  have "ledgered rt s (snd (reconcileResolutionAlarm rt env s now ob))"
    using st alarm_object(1) [OF env(1)] by (auto simp: ledgered_def reconcileResolutionAlarm_def snd_ebind split: sum.splits)
  then show ?thesis
    unfolding pollReply_def wpe_ebind wpe_ereturn
    by (rule wpe_state, simp add: here, intro wpe_check wpe_state [of "ledgered rt s"] audit here)
qed

lemma points_unfunded: "parseSettlementFunding v Points amount = Inr f \<Longrightarrow> f = None"
  by (simp add: parseSettlementFunding_def)

lemma entry_row:
  assumes e: "rq_entry body = Some e" "rq_balance body = Some b" "e_funding e = UserFunded"
    and d: "rq_decorated body = Some dec" "rq_duplicate body = None"
    and b: "0 \<le> b_available b" "0 \<le> b_locked b"
  shows "\<exists>r. wp_balanceLedger (buildDotCastAuditWritePlan AuditEntry body None) = [r] \<and> row_change r = entry_change e \<and>
    lr_ledgerId r = entry_row_id (e_id e) \<and> lr_poolId r = e_poolId e \<and> balance_row_check r"
  using assms by (simp add: buildDotCastAuditWritePlan_def shouldRecordTerminalBalances_def entryBalanceLedger_def
      row_change_def entry_change_def entry_row_id_def balance_row_check_def)

text \<open>The entry is recorded, and when it ends the pool, the refunds as well.\<close>

lemma trail_entry:
  assumes tr: "trail s (pool_changes s) db" and nt: "\<not> terminal (p_status (s_pool s))"
    and new: "map_of (at_balances db) (entry_row_id (e_id e)) = None"
    and keys: "map entry_key (s_entries t) = map entry_key (s_entries s) @ [entry_key e]"
    and same: "p_id (s_pool t) = p_id (s_pool s)" "e_poolId e = p_id (s_pool s)"
    and body: "rq_entry body = Some e" "rq_balance body = Some b" "e_funding e = UserFunded"
      "rq_decorated body = Some dec" "rq_duplicate body = None" "0 \<le> b_available b" "0 \<le> b_locked b"
  shows "trail t (map entry_change (s_entries t)) (audited_db AuditEntry body db)"
proof -
  obtain r where r: "wp_balanceLedger (buildDotCastAuditWritePlan AuditEntry body None) = [r]" "row_change r = entry_change e"
      "lr_ledgerId r = entry_row_id (e_id e)" "lr_poolId r = e_poolId e" "balance_row_check r"
    using entry_row [OF body] by blast
  have "map entry_key (s_entries t) = map entry_key (s_entries s @ [e])" using keys by simp
  from entry_changes_keys [OF this]
  have ec: "map entry_change (s_entries t) = map entry_change (s_entries s) @ [entry_change e]" by simp
  have "trail s (pool_changes s @ map row_change [r]) (audited_db AuditEntry body db)"
    by (rule trail_insert_new [OF tr]) (simp_all add: writeDotCastAuditPlan_tables r new same)
  then have "trail s (map entry_change (s_entries t)) (audited_db AuditEntry body db)"
    using nt by (simp add: pool_changes_def ec r)
  then show ?thesis by (simp add: trail_def same)
qed

lemma ledgered_entry:
  assumes env: "interval_ok env" "ev_tradingDb env" and st: "ledgered rt s ob" and g: "entry_guard freshId payload s"
    and new: "map_of (at_balances (po_audit ob)) (entry_row_id (orElse (ep_entryId payload) freshId)) = None"
    and parse: "parseUserId (ep_userId payload) = Inr u" "parseAmount (ep_amount payload) = Inr amount"
      "parseSettlementFunding (ep_settlementFunding payload) (p_unit (s_pool s)) amount = Inr f"
    and fresh: "orElse (ep_entryId payload) freshId \<notin> e_id ` set (s_entries s)"
    and run: "placeEntry rt \<lparr>pe_pool = s_pool s, pe_balance = entryBalance s u f, pe_userId = u, pe_side = side,
      pe_amount = Fin (of_int amount), pe_now = now, pe_entryId = Some (orElse (ep_entryId payload) freshId)\<rparr> = Inr r"
    and lock: "lockSnapshotIfNeeded rt (placedSnapshot s u r now) now = Inr t"
  shows "wpe (leads (ledgered rt) s) (commit_entry rt env t now r f) (\<lambda>_. leads (ledgered rt) s) ob"
proof -
  have good: "good rt s" using st by (simp add: ledgered_def)
  note t = placed_next [OF good g parse fresh run lock]
  let ?p = "placedSnapshot s u r now" and ?e = "px_entry r"
  have room: "is_safe_integer (asum bal_total (s_balances s) + total_staked s + 2 * amount + 10000)"
    using g parse(2) by (simp add: entry_guard_def)
  note pg = place_good [OF good run fresh _ room]
  have p: "good rt ?p" "p_status (s_pool s) = Open" "p_status (s_pool ?p) = Open" "e_id ?e = orElse (ep_entryId payload) freshId"
      "e_userId ?e = u" "e_amount ?e = amount" "e_funding ?e = UserFunded" "e_poolId ?e = p_id (s_pool s)"
      "px_balance r = (entryBalance s u f)\<lparr>b_available := b_available (entryBalance s u f) - amount,
         b_locked := locked (s_balances s) u + amount\<rparr>" "amount \<le> b_available (entryBalance s u f)"
    using pg funding_amount [OF parse(3)] by auto
  have here: "leads (ledgered rt) s ob'" if "ledgered rt t ob'" for ob' using that t(2) by (auto simp: leads_def)
  show ?thesis
  proof (cases "p_unit (s_pool t) = Points")
    case False
    have at: "leads (ledgered rt) s ob'" if "po_snapshot ob' = Some t" for ob'
      using that t(1) False by (intro here) (simp add: ledgered_usdc)
    show ?thesis
      unfolding commit_entry_def commit_pool_def wpe_ebind wpe_ereturn
      by (intro wpe_state [of "\<lambda>ob. po_snapshot ob = Some t"] wpe_check) (auto simp: persist_object [OF env(1)] intro: at)
  next
    case True
    have unit: "p_unit (s_pool s) = Points" using ahead_pool [OF t(2)] True by simp
    then have f: "f = None" using parse(3) points_unfunded by simp
    have money_s: "points_money s" and tr: "trail s (pool_changes s) (po_audit ob)" using st unit by (simp_all add: ledgered_def)
    have e: "0 < amount" using parse(2) by (auto simp: parseAmount_def Let_def split: option.splits if_splits)
    have money_p: "points_money ?p"
      using money_placed [OF money_s unit good p(2,3,5,6,7) _ e room] p(9) f by simp
    have m: "moves rt ?p t" by (rule lock_moves [OF p(1) lock])
    have money: "points_money t" by (rule money_moves [OF money_p m])
    obtain ob1 where ob1: "persistSnapshot rt env t now ob = (Inr (), ob1)" "po_snapshot ob1 = Some t" "po_audit ob1 = po_audit ob"
      using persist_points_run [OF env True] by blast
    obtain dec where dec: "decorateSnapshot t = Inr dec"
      using decorate_ok [OF t(1)] money by (auto simp: points_money_def)
    let ?body = "(reply 201 True (Some dec))\<lparr>rq_entry := Some ?e, rq_balance := Some (px_balance r), rq_settlementFunding := f\<rparr>"
    have bal: "0 \<le> b_available (px_balance r)" "0 \<le> b_locked (px_balance r)"
      using p(9,10) e locked_nonneg [OF snap_okD(2)] good by (auto simp: good_def)
    have one: "trail t (map entry_change (s_entries t)) (audited_db AuditEntry ?body (po_audit ob))"
      by (rule trail_entry [OF tr t(5) _ t(3), of _ "px_balance r" dec])
        (use new p(4,7,8) ahead_pool [OF t(2)] bal in \<open>simp_all add: reply_def\<close>)
    show ?thesis
    proof (cases "p_status (s_pool t) = p_status (px_pool r)")
      case same: True
      then have "pool_changes t = map entry_change (s_entries t)"
        using p(3) by (simp add: pool_changes_def placedSnapshot_def terminal_def)
      then have "ledgered rt t (ob1\<lparr>po_audit := audited_db AuditEntry ?body (po_audit ob)\<rparr>)"
        using t(1) money ob1(2) one by (simp add: ledgered_def)
      from here [OF this] show ?thesis
        using same env(2) ob1 by (simp add: wpe_def commit_entry_def commit_pool_def ebind_def dec audit_run)
    next
      case False
      have "terminal (p_status (s_pool t)) \<Longrightarrow> shouldRecordTerminalBalances AuditLock (reply 200 True (Some dec)) t"
        using lock_ends [OF p(1) lock] p(3) by (simp add: shouldRecordTerminalBalances_def terminal_def)
      then have "trail t (pool_changes t)
          (audited_db AuditLock (reply 200 True (Some dec)) (audited_db AuditEntry ?body (po_audit ob)))"
        using one by (intro trail_audit [OF t(1) money _ _ decorate_snapshot [OF dec]]) simp_all
      then have "ledgered rt t (ob1\<lparr>po_audit :=
          audited_db AuditLock (reply 200 True (Some dec)) (audited_db AuditEntry ?body (po_audit ob))\<rparr>)"
        using t(1) money ob1(2) by (simp add: ledgered_def)
      from here [OF this] show ?thesis
        using False env(2) ob1 by (simp add: wpe_def commit_entry_def commit_pool_def ebind_def dec audit_run)
    qed
  qed
qed

interpretation audit_store: request_store rt env "\<lambda>s ob. interval_ok env \<and> ev_tradingDb env \<and> ledgered rt s ob" "\<lambda>_. True" for rt env
proof unfold_locales
  let ?St = "\<lambda>s ob. interval_ok env \<and> ev_tradingDb env \<and> ledgered rt s ob"
  have leads: "interval_ok env \<Longrightarrow> ev_tradingDb env \<Longrightarrow> leads ?St s ob = leads (ledgered rt) s ob" for s ob
    by (simp add: leads_def)
  show "po_snapshot ob = Some s \<and> good rt s" if "?St s ob" for s ob using that by (simp add: ledgered_def)
  show "wpe (leads ?St s) (commit_pool rt env t now act build) (\<lambda>_. ?St t) ob"
    if "?St s ob" "moves rt s t" "tells act build s t" for s t now act build ob
    by (rule wpe_mono [OF ledgered_commit [OF _ _ _ that(2,3)]]) (use that(1) leads in auto)
  show "wpe (leads ?St s) (pollReply rt env s now build) (\<lambda>_. ?St s) ob"
    if "?St s ob" "\<And>dec. rq_decorated (build dec) = Some dec" for s ob now build
    by (rule wpe_mono [OF ledgered_reply [OF _ _ _ that(2)]]) (use that(1) leads in auto)
qed

subsection \<open>The state machine\<close>

fun audit_fits :: "js_runtime \<Rightarrow> string \<Rightarrow> string \<Rightarrow> pool_object \<Rightarrow> pool_request \<Rightarrow> bool" where
  "audit_fits rt clock freshId ob (PostEntries payload) = (case po_snapshot ob of
      None \<Rightarrow> True
    | Some s \<Rightarrow> entry_guard freshId payload s \<and>
        (orElse (ep_entryId payload) freshId \<in> e_id ` set (s_entries s) \<or>
         map_of (at_balances (po_audit ob)) (entry_row_id (orElse (ep_entryId payload) freshId)) = None))"
| "audit_fits rt clock freshId ob (PostCreate payload now) = (case po_snapshot ob of
      Some s \<Rightarrow> True
    | None \<Rightarrow> (case createPoolFromMarket rt (payload\<lparr>cp_now := orElse now clock\<rparr>) of
          Inl e \<Rightarrow> True
        | Inr p \<Rightarrow> list_all (foreign_row (p_id p)) (map snd (at_balances (po_audit ob)))))"
| "audit_fits rt clock freshId ob request = True"

definition audit_obj_ok :: "js_runtime \<Rightarrow> pool_object \<Rightarrow> bool" where
  "audit_obj_ok rt ob \<longleftrightarrow> (case po_snapshot ob of None \<Rightarrow> ledger_keyed (po_audit ob) | Some s \<Rightarrow> ledgered rt s ob)"

lemma leads_audit_ok: "leads (\<lambda>s ob. interval_ok env \<and> ev_tradingDb env \<and> ledgered rt s ob) s ob' \<Longrightarrow> audit_obj_ok rt ob'"
  by (auto simp: leads_def audit_obj_ok_def ledgered_def)

lemma created_ledgered:
  assumes "interval_ok env" "ev_tradingDb env" "ledger_keyed (po_audit ob)"
    "list_all (foreign_row (p_id (s_pool t))) (map snd (at_balances (po_audit ob)))"
    "good rt t" "s_entries t = []" "s_balances t = []" "\<not> terminal (p_status (s_pool t))"
  shows "ledgered rt t (snd (persistSnapshot rt env t now ob)) \<and>
    ledgered rt t (snd (audit env AuditCreate body (snd (persistSnapshot rt env t now ob))))"
proof (cases "p_unit (s_pool t) = Points")
  case True
  obtain ob1 where ob1: "persistSnapshot rt env t now ob = (Inr (), ob1)" "po_snapshot ob1 = Some t" "po_audit ob1 = po_audit ob"
    using persist_points_run [OF assms(1,2) True] by blast
  have "\<forall>(k, r) \<in> set (at_balances (po_audit ob)). foreign_row (p_id (s_pool t)) r"
    using assms(4) by (auto simp: list_all_iff)
  then have "trail t (pool_changes t) (po_audit ob)"
    using assms(3,6,8) by (auto simp: trail_def pool_changes_def pool_rows_def filter_empty_conv foreign_row_def)
  moreover have "points_money t" using assms(6,7,8) by (simp add: points_money_def avail_def max_safe_integer_def)
  ultimately show ?thesis
    using ob1 assms(2,5) True
    by (simp add: ledgered_def audit_run writeDotCastAuditPlan_tables trail_def ledger_keyed_def pool_rows_def)
qed (use assms in \<open>simp add: ledgered_usdc persist_object\<close>)

lemma audit_request:
  assumes env: "interval_ok env" "ev_tradingDb env" and fit: "audit_fits rt clock freshId ob request" and ok: "audit_obj_ok rt ob"
  shows "audit_obj_ok rt (snd (fetch rt env fetcher clock freshId request ob))"
proof (cases "po_snapshot ob")
  case (Some s)
  let ?St = "\<lambda>s ob. interval_ok env \<and> ev_tradingDb env \<and> ledgered rt s ob"
  have st: "?St s ob" using env ok Some by (simp add: audit_obj_ok_def)
  have leads: "leads (ledgered rt) s ob' = leads ?St s ob'" for ob' using env by (simp add: leads_def)
  have "wpe (leads ?St s) (placePoolEntry rt env clock freshId payload) (\<lambda>_. leads ?St s) ob"
    if r: "request = PostEntries payload" for payload
  proof (rule audit_store.entry_leads [OF st])
    show g: "entry_guard freshId payload s" using fit Some r by simp
  next
    fix u side amount f r' t
    assume p: "parseUserId (ep_userId payload) = Inr u" "parseAmount (ep_amount payload) = Inr amount"
      "parseSettlementFunding (ep_settlementFunding payload) (p_unit (s_pool s)) amount = Inr f"
      "orElse (ep_entryId payload) freshId \<notin> e_id ` set (s_entries s)"
      "placeEntry rt \<lparr>pe_pool = s_pool s, pe_balance = entryBalance s u f, pe_userId = u, pe_side = side,
        pe_amount = Fin (of_int amount), pe_now = orElse (ep_now payload) clock,
        pe_entryId = Some (orElse (ep_entryId payload) freshId)\<rparr> = Inr r'"
      "lockSnapshotIfNeeded rt (placedSnapshot s u r' (orElse (ep_now payload) clock)) (orElse (ep_now payload) clock) = Inr t"
    have "entry_guard freshId payload s"
      "map_of (at_balances (po_audit ob)) (entry_row_id (orElse (ep_entryId payload) freshId)) = None"
      using fit Some r p(4) by auto
    from ledgered_entry [OF env _ this p] show "wpe (leads ?St s) (commit_entry rt env t (orElse (ep_now payload) clock) r' f)
        (\<lambda>_. leads ?St s) ob"
      using st by (simp add: leads)
  qed
  then show ?thesis by (intro leads_audit_ok [of env rt s] audit_store.request_leads [OF st]) simp_all
next
  case None
  have keyed: "ledger_keyed (po_audit ob)" using ok None by (simp add: audit_obj_ok_def)
  show ?thesis
    using uncreated_request [OF None, of rt env fetcher clock freshId request]
  proof (elim disjE exE conjE)
    fix payload pnow
    assume r: "request = PostCreate payload pnow"
      and f: "snd (fetch rt env fetcher clock freshId request ob) = snd (create rt env clock payload pnow ob)"
    show ?thesis
    proof (rule create_cases [OF None, of rt env clock payload pnow])
      fix t
      assume t: "good rt t" "s_entries t = []" "\<not> terminal (p_status (s_pool t))" "s_balances t = []"
        "createPoolFromMarket rt (payload\<lparr>cp_now := orElse pnow clock\<rparr>) = Inr (s_pool t)"
        "snd (create rt env clock payload pnow ob) = snd (persistSnapshot rt env t (orElse pnow clock) ob) \<or>
         (\<exists>body. snd (create rt env clock payload pnow ob) =
           snd (audit env AuditCreate body (snd (persistSnapshot rt env t (orElse pnow clock) ob))))"
      have "list_all (foreign_row (p_id (s_pool t))) (map snd (at_balances (po_audit ob)))" using fit None r t(5) by simp
      from created_ledgered [OF env keyed this t(1,2,4,3)] t(6) f
      have "ledgered rt t (snd (fetch rt env fetcher clock freshId request ob))" by auto
      then show ?thesis by (auto simp: audit_obj_ok_def ledgered_def)
    qed (use f ok in simp)
  qed (use ok in simp)
qed

lemma insert_all_rows:
  "\<exists>added. insert_all check key rows tbl = tbl @ added \<and> (\<forall>(k, r) \<in> set added. r \<in> set rows \<and> k = key r)"
proof (induction rows arbitrary: tbl)
  case (Cons r rs)
  have "\<exists>added. insert_checked check key r tbl = tbl @ added \<and> set added \<subseteq> {(key r, r)}"
    by (cases "check r \<and> map_of tbl (key r) = None") (auto simp: insert_checked_def insert_new_def)
  then obtain a where a: "insert_checked check key r tbl = tbl @ a" "set a \<subseteq> {(key r, r)}" by blast
  obtain b where "insert_all check key rs (tbl @ a) = (tbl @ a) @ b" "\<forall>(k, r) \<in> set b. r \<in> set rs \<and> k = key r"
    using Cons [of "tbl @ a"] by blast
  then show ?case using a by (intro exI [of _ "a @ b"]) auto
qed simp

inductive audit_step :: "js_runtime \<Rightarrow> pool_object \<Rightarrow> pool_object \<Rightarrow> bool" for rt where
  as_request: "interval_ok env \<Longrightarrow> ev_tradingDb env \<Longrightarrow> audit_fits rt clock freshId ob request \<Longrightarrow>
    audit_step rt ob (snd (fetch rt env fetcher clock freshId request ob))"
| as_alarm: "interval_ok env \<Longrightarrow> ev_tradingDb env \<Longrightarrow> audit_step rt ob (alarm rt env fetcher clock ob)"
| as_others: "\<forall>s. po_snapshot ob = Some s \<longrightarrow> list_all (foreign_row (p_id (s_pool s))) (wp_balanceLedger plan) \<Longrightarrow>
    audit_step rt ob (ob\<lparr>po_ledger := db, po_creators := cdb, po_audit := writeDotCastAuditPlan plan (po_audit ob)\<rparr>)"

lemma others_keep_trail:
  assumes tr: "trail s cs db" and plan: "list_all (foreign_row (p_id (s_pool s))) (wp_balanceLedger plan)"
  shows "trail s cs (writeDotCastAuditPlan plan db)"
proof -
  obtain added where a: "at_balances (writeDotCastAuditPlan plan db) = at_balances db @ added"
      "\<forall>(k, r) \<in> set added. r \<in> set (wp_balanceLedger plan) \<and> k = lr_ledgerId r"
    using insert_all_rows [of balance_row_check lr_ledgerId "wp_balanceLedger plan" "at_balances db"]
    by (auto simp: writeDotCastAuditPlan_tables)
  have f: "\<forall>(k, r) \<in> set added. foreign_row (p_id (s_pool s)) r \<and> k = lr_ledgerId r"
    using a(2) plan by (auto simp: list_all_iff)
  then have "filter (\<lambda>r. lr_poolId r = p_id (s_pool s)) (map snd added) = []"
    by (auto simp: filter_empty_conv foreign_row_def)
  then show ?thesis using tr f pool_rows_append [OF a(1)] unfolding trail_def ledger_keyed_def by (auto simp: a(1))
qed

lemma others_keep_keyed: "ledger_keyed db \<Longrightarrow> ledger_keyed (writeDotCastAuditPlan plan db)"
  using insert_all_rows [of balance_row_check lr_ledgerId "wp_balanceLedger plan" "at_balances db"]
  by (auto simp: writeDotCastAuditPlan_tables ledger_keyed_def)

lemma audit_step_ok: "audit_step rt ob ob' \<Longrightarrow> audit_obj_ok rt ob \<Longrightarrow> audit_obj_ok rt ob'"
proof (induction rule: audit_step.induct)
  case (as_request env clock freshId ob request fetcher)
  then show ?case by (intro audit_request)
next
  case (as_alarm env ob fetcher clock)
  show ?case
  proof (cases "po_snapshot ob")
    case None
    then show ?thesis using as_alarm uncreated_alarm by simp
  next
    case (Some s)
    then have "interval_ok env \<and> ev_tradingDb env \<and> ledgered rt s ob" using as_alarm by (simp add: audit_obj_ok_def)
    from audit_store.alarm_leads [OF this TrueI] show ?thesis by (rule leads_audit_ok)
  qed
next
  case (as_others ob plan db cdb)
  then show ?case
    using others_keep_trail others_keep_keyed by (auto simp: audit_obj_ok_def ledgered_def split: option.splits)
qed

text \<open>At first there is no pool, and every row of the ledger is stored under its identifier.\<close>

definition fresh_ledger :: "pool_object \<Rightarrow> bool" where
  "fresh_ledger ob \<longleftrightarrow> po_snapshot ob = None \<and> ledger_keyed (po_audit ob)"

interpretation audit_objects: step_system fresh_ledger "audit_step rt" "audit_obj_ok rt" for rt
  by unfold_locales (auto simp: fresh_ledger_def audit_obj_ok_def dest: audit_step_ok)

subsection \<open>Reading the balances off the ledger\<close>

definition ledger_locked :: "string \<Rightarrow> string \<Rightarrow> audit_db \<Rightarrow> int" where
  "ledger_locked pid u db = sum_list (map lr_deltaLocked (filter (\<lambda>r. lr_userId r = u) (pool_rows pid db)))"

definition ledger_available :: "string \<Rightarrow> string \<Rightarrow> audit_db \<Rightarrow> int" where
  "ledger_available pid u db = sum_list (map lr_deltaAvailable (filter (\<lambda>r. lr_userId r = u) (pool_rows pid db)))"

lemma ledger_sums:
  assumes "map row_change (pool_rows pid db) = cs"
  shows "ledger_locked pid u db = sum_list (map (\<lambda>(_, v, _, l). if v = u then l else 0) cs)"
    "ledger_available pid u db = sum_list (map (\<lambda>(_, v, a, _). if v = u then a else 0) cs)"
  unfolding assms [symmetric]
  by (simp_all add: ledger_locked_def ledger_available_def sum_list_map_filter' row_change_def comp_def)

lemma entry_change_sums:
  assumes "\<forall>e \<in> set es. e_funding e = UserFunded"
  shows "sum_list (map (\<lambda>(_, v, _, l). if v = u then l else 0) (map entry_change es)) = user_amount es u"
    "sum_list (map (\<lambda>(_, v, a, _). if v = u then a else 0) (map entry_change es)) = - user_amount es u"
    "sum_list (map (\<lambda>(_, v, _, l). if v = u then l else 0) (map (end_change s) es)) = - user_amount es u"
    "sum_list (map (\<lambda>(_, v, a, _). if v = u then a else 0) (map (end_change s) es)) = user_credit entry_return es u"
  using assms by (induction es) (simp_all add: entry_change_def end_change_def)

text \<open>
  C38: The audit ledger alone replays to the balances of a points pool.  In every state that creations,
  entries, locks, settlements, resolutions, polls and voids lead to, in whatever order, and with other
  pools writing to the same tables, the rows of the pool are one for every entry, followed by one for every
  entry once the pool has ended and none more, however often it was settled, voided, read or polled again;
  what a user has locked is the sum of the locked changes, and what is available is the starting balance
  plus the sum of the available changes.
\<close>

theorem audit_replays_pool:
  assumes "reach fresh_ledger (audit_step rt) ob" "po_snapshot ob = Some s" "p_unit (s_pool s) = Points"
    and "map_of (s_balances s) u = Some b"
  shows "map row_change (pool_rows (p_id (s_pool s)) (po_audit ob)) = pool_changes s \<and>
    b_locked b = ledger_locked (p_id (s_pool s)) u (po_audit ob) \<and>
    b_available b = 10000 + ledger_available (p_id (s_pool s)) u (po_audit ob)"
proof -
  have l: "ledgered rt s ob" using audit_objects.reach_inv [OF assms(1)] assms(2) by (simp add: audit_obj_ok_def)
  then have ok: "snap_ok rt s" and money: "points_money s"
    and rows: "map row_change (pool_rows (p_id (s_pool s)) (po_audit ob)) = pool_changes s"
    using assms(3) by (simp_all add: ledgered_def good_def trail_def)
  have user: "\<forall>e \<in> set (s_entries s). e_funding e = UserFunded" using money by (simp add: points_money_def)
  have "b_locked b = (if terminal (p_status (s_pool s)) then 0 else user_amount (s_entries s) u)"
    using ok assms(4) by (auto simp: snap_ok_def locked_def dest!: spec [of _ u] split: if_splits)
  moreover have "b_available b = 10000 - user_amount (s_entries s) u +
      (if terminal (p_status (s_pool s)) then user_credit entry_return (s_entries s) u else 0)"
    using money assms(4) by (auto simp: points_money_def avail_def dest!: spec [of _ u])
  ultimately show ?thesis
    using rows ledger_sums [OF rows, of u] entry_change_sums [OF user, of u] by (simp add: pool_changes_def)
qed

text \<open>A points pool with one entry.\<close>

definition points_entry :: PlaceEntryPayload where
  "points_entry = \<lparr>ep_userId = Some (JStr ''u1''), ep_side = Some (JStr ''yes''), ep_amount = Some (jint 100),
     ep_now = Some ''2026-01-02T00:00:00.000Z'', ep_entryId = Some ''a'', ep_settlementFunding = None\<rparr>"

definition staked_object :: pool_object where
  "staked_object = snd (fetch ref_runtime example_env (\<lambda>_ _. FetchStatus 500) ''t'' ''x'' (PostEntries points_entry) created_object)"

lemma created_object_state:
  "\<exists>s. po_snapshot created_object = Some s \<and> s_pool s = example_pool \<and> s_entries s = [] \<and> s_balances s = [] \<and>
     at_balances (po_audit created_object) = []"
proof -
  have c: "createPoolFromMarket ref_runtime (example_create\<lparr>cp_now := ''2026-01-01T00:00:00.000Z''\<rparr>) = Inr example_pool"
    using create_example by (simp add: example_create_def)
  have o: "p_status example_pool = Open" "p_unit example_pool = Points" by (simp_all add: example_pool_def)
  show ?thesis
    by (simp add: created_object_def fetch_def route_request_def create_def readSnapshot_def new_object_def c Let_def
        persistSnapshot_def writeSnapshot_def reconcileResolutionAlarm_def reconcileUsdcPoolFunding_def
        reconcileCreatorEconomy_def o orElse_def audit_run writeDotCastAuditPlan_tables empty_audit_def ebind_def
        split: sum.split prod.split)
qed

lemma points_entry_parse:
  "parseUserId (ep_userId points_entry) = Inr ''u1''" "parseSide (ep_side points_entry) = Inr Yes"
  "parseAmount (ep_amount points_entry) = Inr 100" "parseSettlementFunding (ep_settlementFunding points_entry) Points 100 = Inr None"
  by (simp_all add: points_entry_def parseUserId_def trim_def is_white_def parseSide_def parseAmount_def parseSettlementFunding_def
      small_safe Let_def)

lemma staked_object_state:
  "\<exists>s b. po_snapshot staked_object = Some s \<and> s_pool s = (example_pool\<lparr>p_pools := \<lparr>yes = 100, no = 0\<rparr>\<rparr>) \<and>
     map_of (s_balances s) ''u1'' = Some b \<and> b_locked b = 100 \<and> b_available b = 9900"
proof -
  obtain s where s: "po_snapshot created_object = Some s" "s_pool s = example_pool" "s_entries s = []" "s_balances s = []"
    using created_object_state by blast
  let ?now = "''2026-01-02T00:00:00.000Z''"
  let ?i = "\<lparr>pe_pool = s_pool s, pe_balance = entryBalance s ''u1'' None, pe_userId = ''u1'', pe_side = Yes,
    pe_amount = Fin (of_int 100), pe_now = ?now, pe_entryId = Some ''a''\<rparr>"
  have js: "js_sub 10000 100 = 9900" "js_add 0 100 = 100"
    by (simp_all add: js_sub_safe js_add_safe is_safe_integer_def max_safe_integer_def)
  have pool: "p_status example_pool = Open" "p_unit example_pool = Points" "p_entryClosesAt example_pool = ''2026-01-31T00:00:00.000Z''"
      "p_pools example_pool = \<lparr>yes = 0, no = 0\<rparr>"
    by (simp_all add: example_pool_def)
  have ok: "place_ok ref_runtime ?i 100"
    by (simp add: place_ok_def s example_pool_def example_dates entryBalance_def seedBalance_def small_safe)
  then obtain r where r: "placeEntry ref_runtime ?i = Inr r" using placeEntry_ok by blast
  have am: "e_amount (px_entry r) = 100" using place_ok_unique [OF placeEntry_Inr(1) [OF r] ok] .
  have px: "px_pool r = example_pool\<lparr>p_pools := \<lparr>yes = 100, no = 0\<rparr>\<rparr>"
      "px_balance r = \<lparr>b_userId = ''u1'', b_unit = Points, b_available = 9900, b_locked = 100\<rparr>"
    using placeEntry_Inr(2,3) [OF r] am
    by (simp_all add: s pool entryBalance_def seedBalance_def js totals_of_def totals_set_def)
  have lock: "lockSnapshotIfNeeded ref_runtime (placedSnapshot s ''u1'' r ?now) ?now = Inr (placedSnapshot s ''u1'' r ?now)"
    by (simp add: lockSnapshotIfNeeded_def lockPoolIfNeeded_def placedSnapshot_def assertIso_def example_dates px pool)
  have ep: "ep_now points_entry = Some ?now" "ep_entryId points_entry = Some ''a''" by (simp_all add: points_entry_def)
  let ?t = "placedSnapshot s ''u1'' r ?now"
  have unit: "p_unit (s_pool ?t) = Points" by (simp add: placedSnapshot_def px pool)
  have db: "ev_tradingDb example_env" by (simp add: example_env_def)
  obtain ob1 where ob1: "persistSnapshot ref_runtime example_env ?t ?now created_object = (Inr (), ob1)" "po_snapshot ob1 = Some ?t"
    using persist_points_run [OF example_interval db unit] by blast
  have same: "s_pool ?t = px_pool r" by (simp add: placedSnapshot_def)
  have "po_snapshot staked_object = Some ?t"
    using r lock ob1
    by (cases "decorateSnapshot ?t")
      (simp_all add: staked_object_def fetch_def route_request_def placePoolEntry_def requireSnapshot_def readSnapshot_def s pool
        points_entry_parse ep Let_def orElse_def truthy_text_def audit_run same)
  then show ?thesis by (simp add: placedSnapshot_def px)
qed

lemma staked_object_reach: "reach fresh_ledger (audit_step ref_runtime) staked_object"
proof -
  have db: "ev_tradingDb example_env" by (simp add: example_env_def)
  have new: "reach fresh_ledger (audit_step ref_runtime) new_object"
    by (rule reach_init) (simp add: fresh_ledger_def new_object_def ledger_keyed_def empty_audit_def)
  have "audit_step ref_runtime new_object created_object"
    unfolding created_object_def
    by (rule as_request [OF example_interval db]) (simp add: new_object_def empty_audit_def split: sum.split)
  then have created: "reach fresh_ledger (audit_step ref_runtime) created_object" by (rule reach_step [OF new])
  obtain s where s: "po_snapshot created_object = Some s" "s_entries s = []" "s_balances s = []" "at_balances (po_audit created_object) = []"
    using created_object_state by blast
  have "entry_guard ''x'' points_entry s"
    using s(2,3) points_entry_parse(3)
    by (auto simp: entry_guard_def points_entry_def is_safe_integer_def max_safe_integer_def)
  then have "audit_step ref_runtime created_object staked_object"
    unfolding staked_object_def by (intro as_request [OF example_interval db]) (simp add: s)
  then show ?thesis by (rule reach_step [OF created])
qed

theorem audit_replays_pool_witness:
  "ledger_locked ''p1'' ''u1'' (po_audit staked_object) = 100 \<and> ledger_available ''p1'' ''u1'' (po_audit staked_object) = - 100"
proof -
  obtain s b where s: "po_snapshot staked_object = Some s" "s_pool s = (example_pool\<lparr>p_pools := \<lparr>yes = 100, no = 0\<rparr>\<rparr>)"
      "map_of (s_balances s) ''u1'' = Some b" "b_locked b = 100" "b_available b = 9900"
    using staked_object_state by blast
  have "p_unit (s_pool s) = Points" "p_id (s_pool s) = ''p1''" by (simp_all add: s(2) example_pool_def)
  then show ?thesis using audit_replays_pool [OF staked_object_reach s(1) _ s(3)] s(4,5) by simp
qed

subsection \<open>The tables only grow\<close>

definition appended :: "audit_db \<Rightarrow> pool_object \<Rightarrow> bool" where
  "appended db ob \<longleftrightarrow> (\<exists>events balances house. po_audit ob = \<lparr>at_events = at_events db @ events,
     at_balances = at_balances db @ balances, at_house = at_house db @ house\<rparr>)"

definition keeps :: "('s \<Rightarrow> bool) \<Rightarrow> ('s, 'a) eff \<Rightarrow> bool" where
  "keeps E m \<longleftrightarrow> (\<forall>ob. E ob \<longrightarrow> E (snd (m ob)))"

lemma keeps_ebind [intro]: "keeps E m \<Longrightarrow> (\<And>a. keeps E (k a)) \<Longrightarrow> keeps E (ebind m k)"
  by (force simp: keeps_def snd_ebind split: prod.splits sum.splits)

lemma keeps_basic [simp]:
  "keeps E (ereturn x)" "keeps E (ethrow e)" "keeps E (eread g)" "keeps E (elift r)"
  by (simp_all add: keeps_def)

lemma appended_write: "(\<And>ob. po_audit (h ob) = po_audit ob) \<Longrightarrow> keeps (appended db) (ewrite h)"
  by (simp add: keeps_def appended_def)

lemma appended_audit: "keeps (appended db) (audit env act body)"
proof -
  have "appended db (ob\<lparr>po_audit := writeDotCastAuditPlan plan (po_audit ob)\<rparr>)" if "appended db ob" for ob plan
    using that insert_all_extends [of audit_event_check av_eventId "wp_events plan" "at_events (po_audit ob)"]
      insert_all_extends [of balance_row_check lr_ledgerId "wp_balanceLedger plan" "at_balances (po_audit ob)"]
      insert_all_extends [of house_row_check hr_ledgerId "wp_houseLedger plan" "at_house (po_audit ob)"]
    by (auto simp: appended_def writeDotCastAuditPlan_tables)
  then show ?thesis by (simp add: keeps_def audit_run)
qed

lemma appended_ledger: "keeps (appended db) (on_ledger m)"
  by (simp add: keeps_def on_ledger_def appended_def split: prod.split)

lemmas appended_rules = keeps_ebind keeps_basic appended_write appended_audit appended_ledger

lemma appended_persist: "keeps (appended db) (persistSnapshot rt env t now)" "keeps (appended db) (reconcileResolutionAlarm rt env t now)"
  by (auto simp: persistSnapshot_def writeSnapshot_def reconcileResolutionAlarm_def reconcileUsdcPoolFunding_def
      reconcileCreatorEconomy_def intro!: appended_rules)

lemma appended_lock: "keeps (appended db) (lockIfNeeded rt env s now)"
  by (auto simp: lockIfNeeded_def intro!: appended_rules appended_persist)

lemma appended_poll: "keeps (appended db) (pollRouterResolution rt env fetcher now)"
  by (auto simp: pollRouterResolution_def pollStart_def pollFinish_def applyPoll_def pollReply_def requireSnapshot_def readSnapshot_def
      Let_def intro!: appended_rules appended_persist appended_lock split: option.split sum.split DotCastRouterResolutionFetchResult.split)

lemma appended_request: "keeps (appended db) (route_request rt env fetcher clock freshId request)"
  by (cases request; auto simp: route_request_def create_def read_def readOdds_def placePoolEntry_def lock_def settle_def
      applyResolution_def void_def requireSnapshot_def readSnapshot_def Let_def
      intro!: appended_rules appended_persist appended_lock appended_poll split: option.split)

text \<open>
  C39: The audit tables only grow.  Whatever is asked of a pool object in whatever state, and at every alarm,
  the rows that were there stay as they are, in their order, and new ones follow them; writing the same
  plan again adds nothing.
\<close>

theorem audit_append_only:
  "(\<exists>events balances house. po_audit (snd (fetch rt env fetcher clock freshId request ob)) =
      \<lparr>at_events = at_events (po_audit ob) @ events, at_balances = at_balances (po_audit ob) @ balances,
       at_house = at_house (po_audit ob) @ house\<rparr>) \<and>
   (\<exists>events balances house. po_audit (alarm rt env fetcher clock ob) =
      \<lparr>at_events = at_events (po_audit ob) @ events, at_balances = at_balances (po_audit ob) @ balances,
       at_house = at_house (po_audit ob) @ house\<rparr>) \<and>
   writeDotCastAuditPlan plan (writeDotCastAuditPlan plan db) = writeDotCastAuditPlan plan db"
proof -
  have start: "appended (po_audit ob) ob" by (auto simp: appended_def intro!: exI [of _ "[]"])
  have "appended (po_audit ob) (snd (route_request rt env fetcher clock freshId request ob))"
    "appended (po_audit ob) (snd (pollRouterResolution rt env fetcher clock ob))"
    using start appended_request appended_poll by (simp_all add: keeps_def)
  then show ?thesis
    by (auto simp: appended_def alarm_def fetch_def writeDotCastAuditPlan_tables insert_all_twice split: prod.splits sum.splits)
qed

end
