(* ===== verification/Spec2Isabelle.thy ===== *)
theory Spec2Isabelle
  imports Parimutuel PoolSettlement ResolverNetwork LedgerReconciliation PoolGateway CreatorPools AuditTrail
begin

text \<open>
  A verification development for the dotCast prediction pools of this repository: the TypeScript under
  \<open>src/engine/dotcast\<close> and the entry route of \<open>src/gateway/DotCastGateway.ts\<close>.

  \<^bold>\<open>The program.\<close>  A \<^emph>\<open>pool\<close> is a yes/no question people stake points or USDC on.  A pool object (one Durable
  Object per pool) stores a snapshot of it: the pool, its entries, the stake balances, the settlement.  When
  entries close, the object locks the pool and polls a \<^emph>\<open>router\<close> for the outcome; it then settles the pool by
  the parimutuel rule (winners share the stakes less the rake, in proportion) or voids it (everyone is
  refunded).  For USDC pools the money is kept elsewhere, in a \<^emph>\<open>ledger\<close> of D1 tables: deposits and withdrawals
  over a Solana rail, a lock for every entry, a bond for every challenger and resolver.  The gateway places an
  entry by reserving its stake in the ledger and then asking the pool object, which, once the pool has ended,
  closes the locks.  What a question is decided by is fixed beforehand in a \<^emph>\<open>resolution route\<close>; disputes go to
  panels of \<^emph>\<open>resolvers\<close>.  A pool may come from a \<^emph>\<open>creator\<close>, who earns a share of its rake and is paid
  over the same rail.

  \<^bold>\<open>Conventions.\<close>  A function that may throw returns \<open>js_error + 'a\<close>; one that also writes is a state
  passing function \<open>'s \<Rightarrow> (js_error + 'a) \<times> 's\<close>, so that what was written before a throw stays written.  The
  clock, \<open>Date.parse\<close> and \<open>localeCompare\<close> are parameters (\<open>js_runtime\<close>; the order that sorting needs is the
  locale \<open>collation\<close>).  Amounts are numbers of JavaScript that the code requires to be safe integers; where a
  sum or product may leave that range the rounding to a double (\<open>fl\<close>, \<open>js_add\<close>, \<open>js_sub\<close>, \<open>num\<close>) is part
  of the model.  A value of type \<open>unknown\<close> is a \<open>json option\<close>.  Fields carry a prefix that names their record.
\<close>

text \<open>
  \<^bold>\<open>The theories\<close>, from the bottom up.

  \<^item> \<open>JsPrelude\<close>, \<open>JsData\<close>: the language.  Errors and effects with their laws, doubles, strings, JSON, stable
    sorting, association tables.  Locales: \<open>comparator\<close> (what a sort asks of its comparator), \<open>collation\<close>,
    \<open>step_system\<close> (a state machine with an invariant; from it, that every reachable state has it).
  \<^item> \<open>DotCastTypes\<close>: the interfaces and unions of \<open>types.ts\<close>.
  \<^item> \<open>Parimutuel\<close> (\<open>Parimutuel.ts\<close>): totals, rake, odds, previews and \<open>settleParimutuel\<close>.  Shown: exactly
    when it throws or asks for a void; pay-outs and rake add up to the stakes; each winner gets its exact share
    rounded down or up; the left-over units go to the largest remainders; the preview agrees up to one unit.
  \<^item> \<open>PoolLifecycle\<close> (\<open>PoolLifecycle.ts\<close>): creation, entries, legal transitions, locking.  Shown: which inputs
    create a pool, what an entry moves, and that the status never goes back.
  \<^item> \<open>PoolSettlement\<close> (\<open>PoolSettlement.ts\<close>): locking, settling, voiding and the intake of a router resolution
    on a snapshot.  Shown: settling pays every entry what \<open>settleParimutuel\<close> computes and conserves the money,
    voiding refunds every stake once, and the decision table of \<open>applyRouterResolution\<close>.
  \<^item> \<open>ResolutionRoute\<close>, \<open>ResolverNetwork\<close> (\<open>ResolutionRouter.ts\<close>): classification of questions, AI perception,
    review; registry, panels, commit and reveal, consensus, challenges.  Shown: which routes are locked, that
    USDC pools need one, that AI escalates unless certain, that panels are odd, distinct and bonded, that a
    commitment opens only with its own vote, that a consensus has maximal weight, that a challenge is
    decided once.
  \<^item> \<open>SettlementTables\<close>: the D1 tables of the ledger as association tables, with the statements of the store
    classes and the row codecs, and their round trips.  Locales \<open>balance_store\<close> and \<open>lock_store\<close> are what the
    operations rely on.
  \<^item> \<open>SettlementRail\<close>, \<open>UsdcPoolFunding\<close>, \<open>UsdcBondFunding\<close> (the files of these names): every operation
    of the ledger.
  \<^item> \<open>SettlementLedger\<close>, \<open>LedgerSystem\<close>, \<open>LedgerOperations\<close>, \<open>LedgerReconciliation\<close>: the abstract view
    of the tables is double-entry book-keeping.  Every transfer and lock posts amounts to five accounts of its
    owner, and the books are right when each balance is the sum of what is posted to it.  Shown: every
    operation keeps the books, whether it returns or throws; final records stay final; what each operation moves,
    that a retry moves nothing; that reconciliation reports the true drift; that nothing moves off devnet.
\<close>

text \<open>
  \<^item> \<open>RouterResolution\<close> (\<open>RouterResolutionClient.ts\<close>): reading the answer of the router.
  \<^item> \<open>PoolReply\<close> (\<open>DotCastPoolDO.ts\<close>): the responses of the object, with odds and previews.
  \<^item> \<open>AuditLedger\<close> (\<open>DotCastAuditLedger.ts\<close>): the rows that a response adds to the audit tables, and the batch
    that writes them.
  \<^item> \<open>PoolObject\<close> (\<open>DotCastPoolDO.ts\<close>): the Durable Object, all its routes and its alarm, with its storage, its
    alarm time and its view of the tables of the ledger, of the creators and of the audit.
  \<^item> \<open>PoolForward\<close>, \<open>PoolObjectSystem\<close>: how a snapshot may develop, and the object as a state machine.  The
    locale \<open>request_store\<close> is what the handlers need of the way a snapshot is committed; \<open>object_store\<close>, from
    which it follows, asks the same of each part of a commit.  The latter is interpreted for the snapshot alone,
    in \<open>PoolGateway\<close> for snapshot and ledger and in \<open>CreatorPools\<close> for snapshot and creators; the former in
    \<open>AuditTrail\<close>, where the snapshot and the audit agree only once both are written.  Shown: the stored snapshot is
    always well formed, an alarm is set exactly while an outcome is awaited, entries are never lost and an ended
    pool never changes.
  \<^item> \<open>PoolGateway\<close> (\<open>placeDotCastUsdcPoolEntry\<close> and its helpers in \<open>DotCastGateway.ts\<close>): entries through ledger
    and object.  Shown: an entry happens completely or not at all; every entry of a USDC pool is backed by a
    lock of its own, closed with exactly what the pool gives back; reading an ended pool closes what is open.
  \<^item> \<open>AuditTrail\<close>: pool objects and the audit ledger.  Shown: the rows of a points pool replay to its balances,
    with one row for an entry and one for its return however often a request is repeated; the tables only grow.
  \<^item> \<open>CreatorTables\<close>, \<open>CreatorEconomy\<close> (\<open>CreatorEconomy.ts\<close>): the tables of the creators with their checked row
    readers and constraints, and the operations: onboarding, the share of the rake, pay-outs over the rail,
    nudges, seeds.
  \<^item> \<open>CreatorLedger\<close>, \<open>CreatorPayouts\<close>, \<open>CreatorSystem\<close>: the books of the creators, the two ledgers of a pay-out
    together, and the state machine.  Shown: earnings are accrued shares, pending and paid are the pay-outs; a
    pool accrues once, a key is paid once and by a withdrawal of its own; records are final; no row reader throws.
  \<^item> \<open>CreatorPools\<close>: pool objects and creators together, a third interpretation of \<open>object_store\<close>.  Shown: what has
    accrued for a pool is its own settlement's rake, for its own creator, once; and the next read of a settled
    pool pays an active creator.

  \<^bold>\<open>Bounds and guards.\<close>  Nothing here runs on fuel: every loop of the sources is a fold or a map over a list.
  Where the code takes a bound for granted, the step relation or the theorem names it: \<open>interval_ok\<close> (the
  polling interval is configured properly, or else nothing is stored), \<open>entry_guard\<close> and \<open>submission_ok\<close> (the
  totals of a pool stay safe integers; the identifier of an entry is new and not empty), \<open>settlement_fits\<close>
  (the rake times 10000 is exact), \<open>share_room\<close> and \<open>room_of\<close> (a creator's lifetime accruals stay safe), times
  that are not empty, \<open>payout_guard\<close> (the
  identifiers of a pay-out are new when its key is), \<open>audit_fits\<close> and \<open>foreign_row\<close> (a new entry is new in the
  audit ledger, and no other pool writes there under this pool's identifiers).  Each has a witness.  What happens without them is listed
  with the findings of the manifest.

  \<^bold>\<open>Interleaving.\<close>  A request or an alarm of a pool object is one step; the gateway's reservation, the call of
  the object and the release are separate effects of one handler, and other users of the ledger may step
  between the handlers (not inside one).  A creator's step runs on the creator tables and the rail, and the
  rest of the rail moves beside it without touching the withdrawals of the creators.

  \<^bold>\<open>Not modelled.\<close>  HTTP routing and authentication, JSON text, the D1 engine itself (a table is its rows, a
  statement is atomic and does not fail), the database store of \<open>ResolutionRouter.ts\<close>, the Solana and Mux services.  Referrals,
  gamification, sponsored questions, rewarded streams, livestreams and operator reports keep tables of their own
  that no pool and no ledger operation reads.  The trading engine, the workers, the congress tracker, the lotto
  worker and the web front end are other products of the repository.
\<close>

end
